(* ===== verification/Prelude.thy ===== *)
theory Prelude
  imports Main "HOL-Library.AList" "HOL-Library.List_Lexorder" "HOL-Library.Char_ord" "HOL-Library.Multiset"
begin

text \<open>
  Shared vocabulary of the development: instants and durations, Python dictionaries as
  insertion-ordered association lists, the string functions the code uses, stored
  timestamps, JSON values with the printer \<open>json.dumps(sort_keys=True)\<close>, and runs of a
  step function. The named theorems \<open>dict_simps\<close> and \<open>run_simps\<close> carry the
  facts that the components' proofs share.
\<close>

named_theorems dict_simps \<open>lookups in updated dictionaries\<close>
named_theorems run_simps \<open>runs of a step function\<close>

section \<open>Instants\<close>

text \<open>
  An instant is the number of microseconds since the epoch (of a UTC datetime, of
  \<open>time.time()\<close> or of \<open>time.monotonic()\<close>), a duration a number of microseconds.
  \<open>isoformat(timespec="seconds")\<close> drops the microseconds of an instant.
\<close>

type_synonym instant = int

definition seconds :: "int \<Rightarrow> int" where
  "seconds n = n * 1000000"

definition minutes :: "int \<Rightarrow> int" where
  "minutes n = n * 60000000"

definition hours :: "int \<Rightarrow> int" where
  "hours n = n * 3600000000"

definition floor_second :: "instant \<Rightarrow> instant" where
  "floor_second t = t - t mod 1000000"

lemma floor_second_le: "floor_second t \<le> t"
  by (simp add: floor_second_def)

lemma floor_second_gt: "t - 1000000 < floor_second t"
  by (simp add: floor_second_def)

text \<open>
  A timestamp read back from a stored text: absent, not an ISO text, without a time
  zone, or an instant.
\<close>

datatype stamp = No_Stamp | Bad_Stamp | Naive_Stamp instant | Aware_Stamp instant

section \<open>Dictionaries\<close>

text \<open>
  A Python dictionary keeps its insertion order, which some callers observe. It is an
  association list: \<open>map_of\<close> reads it, \<open>AList.update\<close> stores a value (in place for
  a present key, at the end for a new one) and \<open>AList.delete\<close> removes a key.
\<close>

type_synonym ('k, 'v) dict = "('k \<times> 'v) list"

definition dict_wf :: "('k, 'v) dict \<Rightarrow> bool" where
  "dict_wf d \<longleftrightarrow> distinct (map fst d)"

lemma map_of_update [dict_simps, simp]:
  "map_of (AList.update k v d) k' = (if k' = k then Some v else map_of d k')"
  by (simp add: update_conv')

lemma map_of_delete [dict_simps, simp]:
  "map_of (AList.delete k d) k' = (if k' = k then None else map_of d k')"
  by (simp add: delete_conv')

lemma dict_wf_Nil [simp]: "dict_wf []"
  by (simp add: dict_wf_def)

lemma dict_wf_update [simp, intro]: "dict_wf d \<Longrightarrow> dict_wf (AList.update k v d)"
  by (simp add: dict_wf_def distinct_update)

lemma dict_wf_delete [simp, intro]: "dict_wf d \<Longrightarrow> dict_wf (AList.delete k d)"
  by (simp add: dict_wf_def distinct_delete)

lemma dict_wf_get: "dict_wf d \<Longrightarrow> (k, v) \<in> set d \<longleftrightarrow> map_of d k = Some v"
  by (simp add: dict_wf_def)

lemma set_update_subset: "set (AList.update k v d) \<subseteq> insert (k, v) (set d)"
  by (induction d) auto

lemma set_update_cases:
  assumes "(k', w) \<in> set (AList.update k v d)"
  shows "(k', w) = (k, v) \<or> (k', w) \<in> set d"
  using assms set_update_subset by fastforce

lemma set_delete_subset: "set (AList.delete k d) \<subseteq> set d"
  by (auto simp: AList.delete_eq)

text \<open>The sum of a measure over the values.\<close>

definition dict_sum :: "('v \<Rightarrow> int) \<Rightarrow> ('k, 'v) dict \<Rightarrow> int" where
  "dict_sum f d = sum_list (map (\<lambda>(_, v). f v) d)"

lemma dict_sum_Nil [simp]: "dict_sum f [] = 0"
  by (simp add: dict_sum_def)

lemma dict_sum_update [dict_simps]:
  "dict_sum f (AList.update k v d) =
     dict_sum f d + f v - (case map_of d k of None \<Rightarrow> 0 | Some w \<Rightarrow> f w)"
  by (induction d) (auto simp: dict_sum_def split: option.splits)

section \<open>Python string functions\<close>

text \<open>Strings are lists of code points below 256.\<close>

definition py_isspace :: "char \<Rightarrow> bool" where
  "py_isspace c =
     (let n = (of_char c :: nat)
      in (9 \<le> n \<and> n \<le> 13) \<or> (28 \<le> n \<and> n \<le> 32) \<or> n = 133 \<or> n = 160)"

definition py_strip :: "string \<Rightarrow> string" where
  "py_strip s = rev (dropWhile py_isspace (rev (dropWhile py_isspace s)))"

definition lower_char :: "char \<Rightarrow> char" where
  "lower_char c =
     (let n = (of_char c :: nat)
      in if (65 \<le> n \<and> n \<le> 90) \<or> (192 \<le> n \<and> n \<le> 222 \<and> n \<noteq> 215)
         then char_of (n + 32) else c)"

definition py_lower :: "string \<Rightarrow> string" where
  "py_lower s = map lower_char s"

text \<open>\<open>a or b\<close> on strings: the empty string is falsy.\<close>

definition str_or :: "string \<Rightarrow> string \<Rightarrow> string" where
  "str_or a b = (if a = [] then b else a)"

fun join_with :: "string \<Rightarrow> string list \<Rightarrow> string" where
  "join_with sep [] = []"
| "join_with sep [x] = x"
| "join_with sep (x # xs) = x @ sep @ join_with sep xs"

section \<open>JSON\<close>

datatype json =
    JNull
  | JBool bool
  | JInt int
  | JStr string
  | JList "json list"
  | JObj "(string \<times> json) list"

fun show_nat :: "nat \<Rightarrow> string" where
  "show_nat n = (if n < 10 then [char_of (48 + n)]
                 else show_nat (n div 10) @ [char_of (48 + n mod 10)])"

declare show_nat.simps [simp del]

definition show_int :: "int \<Rightarrow> string" where
  "show_int i = (if i < 0 then CHR 0x2D # show_nat (nat (- i)) else show_nat (nat i))"

definition hex_digit :: "nat \<Rightarrow> char" where
  "hex_digit n = (if n < 10 then char_of (48 + n) else char_of (87 + n))"

text \<open>\<open>ensure_ascii\<close>: every code point outside the printable ASCII range is escaped.\<close>

definition json_escape_char :: "char \<Rightarrow> string" where
  "json_escape_char c =
     (let n = (of_char c :: nat)
      in if n = 34 then [CHR 0x5C, CHR 0x22]
         else if n = 92 then [CHR 0x5C, CHR 0x5C]
         else if n = 10 then [CHR 0x5C, CHR ''n'']
         else if n = 13 then [CHR 0x5C, CHR ''r'']
         else if n = 9 then [CHR 0x5C, CHR ''t'']
         else if n = 12 then [CHR 0x5C, CHR ''f'']
         else if n = 8 then [CHR 0x5C, CHR ''b'']
         else if n < 32 \<or> 126 < n
              then [CHR 0x5C, CHR ''u'', CHR ''0'', CHR ''0'', hex_digit (n div 16), hex_digit (n mod 16)]
         else [c])"

definition json_string :: "string \<Rightarrow> string" where
  "json_string s = CHR 0x22 # concat (map json_escape_char s) @ [CHR 0x22]"

definition sort_items :: "(string \<times> 'a) list \<Rightarrow> (string \<times> 'a) list" where
  "sort_items d = sort_key fst d"

text \<open>\<open>json.dumps(v, sort_keys=True, separators=(",", ":"))\<close>.\<close>

fun dumps :: "json \<Rightarrow> string" where
  "dumps JNull = ''null''"
| "dumps (JBool b) = (if b then ''true'' else ''false'')"
| "dumps (JInt i) = show_int i"
| "dumps (JStr s) = json_string s"
| "dumps (JList vs) = CHR 0x5B # join_with '','' (map dumps vs) @ [CHR 0x5D]"
| "dumps (JObj kvs) =
     CHR 0x7B #
     join_with '','' (map (\<lambda>(k, t). json_string k @ CHR 0x3A # t)
                      (sort_items (map (\<lambda>(k, v). (k, dumps v)) kvs)))
     @ [CHR 0x7D]"

lemma sort_items_perm:
  assumes "mset d = mset d'" and "dict_wf d"
  shows "sort_items d = sort_items d'"
proof -
  have inj: "inj_on fst (set d)"
    using assms(2) by (simp add: dict_wf_def distinct_map)
  have ms: "mset d = mset (sort_key fst d')"
    using assms(1) by simp
  show ?thesis
    unfolding sort_items_def
    using sort_key_inj_key_eq [OF ms inj] by simp
qed

lemma dict_wf_map_snd: "dict_wf (map (\<lambda>(k, v). (k, f v)) d) = dict_wf d"
  by (simp add: dict_wf_def comp_def case_prod_unfold)

text \<open>The printed text does not depend on the order in which the keys were inserted.\<close>

lemma dumps_obj_perm:
  assumes "mset d = mset d'" and "dict_wf d"
  shows "dumps (JObj d) = dumps (JObj d')"
proof -
  let ?f = "\<lambda>(k, v). (k, dumps v)"
  have "mset (map ?f d) = mset (map ?f d')"
    using assms(1) by simp
  moreover have "dict_wf (map ?f d)"
    using assms(2) dict_wf_map_snd by blast
  ultimately have "sort_items (map ?f d) = sort_items (map ?f d')"
    by (rule sort_items_perm)
  then show ?thesis by simp
qed

section \<open>Runs\<close>

text \<open>
  The components are state machines: an operation takes the state and yields an answer
  and the next state. \<open>run\<close> performs a list of operations, \<open>answers\<close> collects what
  they returned, and \<open>count_wins\<close> counts the operations on a resource that won it.
\<close>

fun run :: "('op \<Rightarrow> 's \<Rightarrow> 'a \<times> 's) \<Rightarrow> 'op list \<Rightarrow> 's \<Rightarrow> 's" where
  "run step [] s = s"
| "run step (x # xs) s = run step xs (snd (step x s))"

fun answers :: "('op \<Rightarrow> 's \<Rightarrow> 'a \<times> 's) \<Rightarrow> 'op list \<Rightarrow> 's \<Rightarrow> 'a list" where
  "answers step [] s = []"
| "answers step (x # xs) s = fst (step x s) # answers step xs (snd (step x s))"

fun count_wins ::
  "('op \<Rightarrow> 's \<Rightarrow> 'a \<times> 's) \<Rightarrow> ('op \<Rightarrow> 'a \<Rightarrow> 'k option) \<Rightarrow> 'k \<Rightarrow> 'op list \<Rightarrow> 's \<Rightarrow> nat" where
  "count_wins step won k [] s = 0"
| "count_wins step won k (x # xs) s =
     (if won x (fst (step x s)) = Some k then 1 else 0)
     + count_wins step won k xs (snd (step x s))"

lemma run_append [run_simps]: "run step (xs @ ys) s = run step ys (run step xs s)"
  by (induction xs arbitrary: s) auto

lemma length_answers [simp]: "length (answers step xs s) = length xs"
  by (induction xs arbitrary: s) auto

lemma count_wins_append [run_simps]:
  "count_wins step won k (xs @ ys) s =
     count_wins step won k xs s + count_wins step won k ys (run step xs s)"
  by (induction xs arbitrary: s) auto

end
