(* ===== verification/Contracts.thy ===== *)
theory Contracts
  imports Prelude
begin

text \<open>
  The interfaces between the components, as locales: a machine with an invariant, a
  one-shot resource (an approval that authorises one execution, a reservation that
  admits one submission, a key inserted once) and a lease with an owner and an expiry.
  Each is interpreted in the component that provides it.
\<close>

section \<open>A machine with an invariant\<close>

locale machine =
  fixes step :: "'op \<Rightarrow> 's \<Rightarrow> 'a \<times> 's"
    and inv :: "'s \<Rightarrow> bool"
  assumes inv_step: "inv s \<Longrightarrow> inv (snd (step x s))"
begin

lemma inv_run: "inv s \<Longrightarrow> inv (run step xs s)"
  by (induction xs arbitrary: s) (auto intro: inv_step)

end

section \<open>A resource that can be won once\<close>

text \<open>
  \<open>won x a\<close> is the resource that operation \<open>x\<close> won with the answer \<open>a\<close>, if any.
  A winner finds the resource unspent and leaves it spent, and nothing unspends it.
\<close>

locale one_shot = machine step inv
  for step :: "'op \<Rightarrow> 's \<Rightarrow> 'a \<times> 's" and inv :: "'s \<Rightarrow> bool" +
  fixes won :: "'op \<Rightarrow> 'a \<Rightarrow> 'k option"
    and spent :: "'s \<Rightarrow> 'k \<Rightarrow> bool"
  assumes win_unspent: "inv s \<Longrightarrow> won x (fst (step x s)) = Some k \<Longrightarrow> \<not> spent s k"
    and win_spends: "inv s \<Longrightarrow> won x (fst (step x s)) = Some k \<Longrightarrow> spent (snd (step x s)) k"
    and spent_kept: "inv s \<Longrightarrow> spent s k \<Longrightarrow> spent (snd (step x s)) k"
begin

lemma spent_run: "inv s \<Longrightarrow> spent s k \<Longrightarrow> spent (run step xs s) k"
  by (induction xs arbitrary: s) (auto intro: spent_kept inv_step)

lemma no_win_when_spent: "inv s \<Longrightarrow> spent s k \<Longrightarrow> count_wins step won k xs s = 0"
proof (induction xs arbitrary: s)
  case Nil
  then show ?case by simp
next
  case (Cons x xs)
  have "won x (fst (step x s)) \<noteq> Some k"
    using Cons.prems win_unspent by blast
  then show ?case
    using Cons by (simp add: inv_step spent_kept)
qed

lemma wins_once: "inv s \<Longrightarrow> count_wins step won k xs s \<le> 1"
proof (induction xs arbitrary: s)
  case Nil
  then show ?case by simp
next
  case (Cons x xs)
  show ?case
  proof (cases "won x (fst (step x s)) = Some k")
    case True
    have "count_wins step won k xs (snd (step x s)) = 0"
      using Cons.prems True by (intro no_win_when_spent inv_step win_spends)
    then show ?thesis by simp
  next
    case False
    then show ?thesis using Cons by (simp add: inv_step)
  qed
qed

end

section \<open>A lease\<close>

text \<open>
  A lease on one resource has at most one holder until an instant. An attempt happens in
  an environment \<open>r\<close> (the replies of a database, the resource it is about); \<open>on r\<close>
  are the attempts on this resource. Whoever wins becomes the holder. While the lease is
  live nobody else acquires it, and nobody but its holder gives it back.
\<close>

locale lease =
  fixes acquire :: "'r \<Rightarrow> instant \<Rightarrow> 'o \<Rightarrow> int \<Rightarrow> 's \<Rightarrow> bool \<times> 's"
    and release :: "'r \<Rightarrow> 'o \<Rightarrow> 's \<Rightarrow> 's"
    and holder :: "'s \<Rightarrow> ('o \<times> instant) option"
    and on :: "'r \<Rightarrow> bool"
  assumes acquire_win: "on r \<Longrightarrow> fst (acquire r now me ttl s) \<Longrightarrow>
      holder (snd (acquire r now me ttl s)) = Some (me, now + seconds ttl)"
    and acquire_live: "on r \<Longrightarrow> holder s = Some (other, e) \<Longrightarrow> other \<noteq> me \<Longrightarrow> now < e \<Longrightarrow>
      \<not> fst (acquire r now me ttl s) \<and> holder (snd (acquire r now me ttl s)) = holder s"
    and acquire_off: "\<not> on r \<Longrightarrow> holder (snd (acquire r now me ttl s)) = holder s"
    and release_other: "holder s = Some (other, e) \<Longrightarrow> other \<noteq> me \<Longrightarrow>
      holder (release r me s) = holder s"
begin

lemma held_against_acquire:
  assumes "holder s = Some (owner, e)" and "other \<noteq> owner" and "now < e"
  shows "holder (snd (acquire r now other ttl s)) = Some (owner, e)"
    and "on r \<Longrightarrow> \<not> fst (acquire r now other ttl s)"
  using assms acquire_live [of r s owner e other now ttl] acquire_off [of r now other ttl s]
  by (cases "on r"; simp)+

lemma held_against_release:
  assumes "holder s = Some (owner, e)" and "other \<noteq> owner"
  shows "holder (release r other s) = Some (owner, e)"
  using assms release_other by metis

end

text \<open>The operations of the parties that share a lease, as one machine.\<close>

datatype ('r, 'o) lease_op = Acquire 'r instant 'o int | Release 'r 'o

fun lease_actor :: "('r, 'o) lease_op \<Rightarrow> 'o" where
  "lease_actor (Acquire _ _ me _) = me"
| "lease_actor (Release _ me) = me"

fun lease_before :: "instant \<Rightarrow> ('r, 'o) lease_op \<Rightarrow> bool" where
  "lease_before e (Acquire _ now _ _) \<longleftrightarrow> now < e"
| "lease_before e (Release _ _) \<longleftrightarrow> True"

fun lease_step ::
  "('r \<Rightarrow> instant \<Rightarrow> 'o \<Rightarrow> int \<Rightarrow> 's \<Rightarrow> bool \<times> 's) \<Rightarrow> ('r \<Rightarrow> 'o \<Rightarrow> 's \<Rightarrow> 's) \<Rightarrow>
   ('r, 'o) lease_op \<Rightarrow> 's \<Rightarrow> bool \<times> 's" where
  "lease_step acq rel (Acquire r now me ttl) s = acq r now me ttl s"
| "lease_step acq rel (Release r me) s = (False, rel r me s)"

fun lease_won :: "('r \<Rightarrow> bool) \<Rightarrow> ('r, 'o) lease_op \<Rightarrow> bool \<Rightarrow> unit option" where
  "lease_won on (Acquire r _ _ _) True = (if on r then Some () else None)"
| "lease_won on _ _ = None"

context lease
begin

lemma exclusive_run:
  assumes "holder s = Some (owner, e)"
    and "\<And>x. x \<in> set xs \<Longrightarrow> lease_actor x \<noteq> owner \<and> lease_before e x"
  shows "holder (run (lease_step acquire release) xs s) = Some (owner, e)
    \<and> count_wins (lease_step acquire release) (lease_won on) () xs s = 0"
  using assms
proof (induction xs arbitrary: s)
  case Nil
  then show ?case by simp
next
  case (Cons x xs)
  have kept: "holder (snd (lease_step acquire release x s)) = Some (owner, e)"
    using Cons.prems(1) Cons.prems(2) [of x]
    by (cases x) (auto simp: held_against_acquire held_against_release)
  moreover have "lease_won on x (fst (lease_step acquire release x s)) \<noteq> Some ()"
    using Cons.prems(1) Cons.prems(2) [of x] held_against_acquire(2)
    by (cases x) (auto elim!: lease_won.elims split: if_splits)
  ultimately show ?case using Cons.IH Cons.prems(2) by auto
qed

end

end
