(* ===== verification/Policy.thy ===== *)
theory Policy
  imports Contracts
begin

text \<open>
  \<^verbatim>\<open>src/src/triage/policy.py\<close>: the action taxonomy, the limits of one triage run
  (\<open>TriagePolicy\<close>) and the ledger that refuses to go past them (\<open>PolicyLedger\<close>).
  Every charge returns the violation it raised, if any, together with the ledger as it
  is left, because a refused charge still leaves traces (attempts, tokens, blocked
  attempts). The clock reading of each call is its argument.
\<close>

section \<open>The action taxonomy\<close>

text \<open>
  The registered tool names, and every other name a model may come up with.
\<close>

datatype action =
    Refresh_Dataset
  | Rebind_Gateway
  | Reenable_Schedule
  | Rerun_Pipeline
  | Write_Flag
  | Notify_Teams
  | Report_Resolution
  | Defer_Retry
  | Get_Request_Context
  | Get_Refresh_History
  | Get_Refresh_Schedule
  | Check_Duplicates
  | Get_Known_Incidents
  | Consult_DQ
  | Get_Pipeline_Evidence
  | Get_Rerun_Status
  | Other_Action string

fun action_name :: "action \<Rightarrow> string" where
  "action_name Refresh_Dataset = ''refresh_powerbi_dataset''"
| "action_name Rebind_Gateway = ''rebind_dataset_gateway''"
| "action_name Reenable_Schedule = ''reenable_refresh_schedule''"
| "action_name Rerun_Pipeline = ''rerun_fabric_pipeline''"
| "action_name Write_Flag = ''write_data_quality_flag''"
| "action_name Notify_Teams = ''notify_teams''"
| "action_name Report_Resolution = ''report_resolution''"
| "action_name Defer_Retry = ''defer_refresh_retry''"
| "action_name Get_Request_Context = ''get_request_context''"
| "action_name Get_Refresh_History = ''get_dataset_refresh_history''"
| "action_name Get_Refresh_Schedule = ''get_refresh_schedule''"
| "action_name Check_Duplicates = ''check_duplicates''"
| "action_name Get_Known_Incidents = ''get_known_incidents''"
| "action_name Consult_DQ = ''consult_data_quality_agent''"
| "action_name Get_Pipeline_Evidence = ''get_pipeline_run_evidence''"
| "action_name Get_Rerun_Status = ''get_pipeline_rerun_status''"
| "action_name (Other_Action s) = s"

definition REMEDIATION_ACTIONS :: "action set" where
  "REMEDIATION_ACTIONS = {Refresh_Dataset, Rebind_Gateway, Reenable_Schedule, Rerun_Pipeline}"

definition APPROVAL_REQUIRED_ACTIONS :: "action set" where
  "APPROVAL_REQUIRED_ACTIONS = {Rebind_Gateway, Reenable_Schedule, Rerun_Pipeline}"

definition REPORTING_ACTIONS :: "action set" where
  "REPORTING_ACTIONS = {Write_Flag, Notify_Teams, Report_Resolution, Defer_Retry}"

definition DIAGNOSTIC_ACTIONS :: "action set" where
  "DIAGNOSTIC_ACTIONS =
     {Get_Request_Context, Get_Refresh_History, Get_Refresh_Schedule, Check_Duplicates,
      Get_Known_Incidents, Consult_DQ, Get_Pipeline_Evidence, Get_Rerun_Status}"

definition PIPELINE_ACTIONS :: "action set" where
  "PIPELINE_ACTIONS =
     {Get_Request_Context, Get_Known_Incidents, Get_Pipeline_Evidence, Get_Rerun_Status,
      Rerun_Pipeline, Notify_Teams, Report_Resolution}"

definition is_remediation :: "action \<Rightarrow> bool" where
  "is_remediation a \<longleftrightarrow> a \<in> REMEDIATION_ACTIONS"

definition requires_approval :: "action \<Rightarrow> bool" where
  "requires_approval a \<longleftrightarrow> a \<in> APPROVAL_REQUIRED_ACTIONS"

lemmas taxonomy_defs =
  REMEDIATION_ACTIONS_def APPROVAL_REQUIRED_ACTIONS_def REPORTING_ACTIONS_def
  DIAGNOSTIC_ACTIONS_def PIPELINE_ACTIONS_def

lemma approval_implies_remediation: "requires_approval a \<Longrightarrow> is_remediation a"
  by (auto simp: requires_approval_def is_remediation_def taxonomy_defs)

section \<open>Limits\<close>

record triage_policy =
  max_llm_turns :: int
  max_tool_calls :: int
  max_write_actions :: int
  max_tokens :: int
  wall_clock_timeout_seconds :: int
  allowed_actions :: "action set"

definition default_policy :: triage_policy where
  "default_policy =
     \<lparr>max_llm_turns = 14, max_tool_calls = 20, max_write_actions = 1, max_tokens = 80000,
      wall_clock_timeout_seconds = 300,
      allowed_actions = REMEDIATION_ACTIONS \<union> REPORTING_ACTIONS \<union> DIAGNOSTIC_ACTIONS\<rparr>"

record limit_settings =
  triage_max_llm_turns :: int
  triage_max_tool_calls :: int
  triage_max_write_actions :: int
  triage_max_tokens :: int
  triage_timeout_seconds :: int

definition from_settings :: "limit_settings \<Rightarrow> triage_policy" where
  "from_settings st =
     default_policy\<lparr>max_llm_turns := triage_max_llm_turns st,
       max_tool_calls := triage_max_tool_calls st,
       max_write_actions := triage_max_write_actions st,
       max_tokens := triage_max_tokens st,
       wall_clock_timeout_seconds := triage_timeout_seconds st\<rparr>"

datatype violation_kind =
  Max_Turns_Exceeded | Budget_Exceeded | Timed_Out | Policy_Blocked | Approval_Denied_Kind

text \<open>
  One constructor per \<open>raise PolicyViolation\<close> of the ledger, with the values of its
  message; \<open>kind_of\<close> is the attribute the controller branches on.
\<close>

datatype violation =
    Deadline_Passed int instant
  | No_Turns_Left int
  | Tokens_Spent int int
  | Not_Allowlisted action
  | No_Tool_Calls_Left int
  | No_Writes_Left action int int

fun kind_of :: "violation \<Rightarrow> violation_kind" where
  "kind_of (Deadline_Passed _ _) = Timed_Out"
| "kind_of (No_Turns_Left _) = Max_Turns_Exceeded"
| "kind_of (Tokens_Spent _ _) = Budget_Exceeded"
| "kind_of (Not_Allowlisted _) = Policy_Blocked"
| "kind_of (No_Tool_Calls_Left _) = Budget_Exceeded"
| "kind_of (No_Writes_Left _ _ _) = Policy_Blocked"

section \<open>The ledger\<close>

record ledger =
  policy :: triage_policy
  started_at :: instant
  human_wait :: int
  llm_turns :: int
  tool_calls :: int
  attempted_actions :: int
  write_actions :: int
  tokens_used :: int
  blocked_attempts :: "action list"
  denied_actions :: "action list"

type_synonym charge = "(violation + unit) \<times> ledger"

definition new_ledger :: "triage_policy \<Rightarrow> instant \<Rightarrow> ledger" where
  "new_ledger p now =
     \<lparr>policy = p, started_at = now, human_wait = 0, llm_turns = 0, tool_calls = 0,
      attempted_actions = 0, write_actions = 0, tokens_used = 0, blocked_attempts = [],
      denied_actions = []\<rparr>"

definition awaiting_human :: "instant \<Rightarrow> instant \<Rightarrow> ledger \<Rightarrow> ledger" where
  "awaiting_human started finished l = l\<lparr>human_wait := human_wait l + (finished - started)\<rparr>"

definition elapsed :: "instant \<Rightarrow> ledger \<Rightarrow> int" where
  "elapsed now l = now - started_at l - human_wait l"

text \<open>\<open>int(x * 1000)\<close> truncates towards zero.\<close>

definition elapsed_ms :: "instant \<Rightarrow> ledger \<Rightarrow> int" where
  "elapsed_ms now l =
     (if 0 \<le> elapsed now l then elapsed now l div 1000 else - ((- elapsed now l) div 1000))"

record ledger_snapshot =
  snap_llm_turns :: int
  snap_tool_calls :: int
  snap_attempted_actions :: int
  snap_write_actions :: int
  snap_tokens_used :: int
  snap_elapsed_ms :: int
  snap_blocked_attempts :: "action list"
  snap_denied_actions :: "action list"

definition snapshot :: "instant \<Rightarrow> ledger \<Rightarrow> ledger_snapshot" where
  "snapshot now l =
     \<lparr>snap_llm_turns = llm_turns l, snap_tool_calls = tool_calls l,
      snap_attempted_actions = attempted_actions l, snap_write_actions = write_actions l,
      snap_tokens_used = tokens_used l, snap_elapsed_ms = elapsed_ms now l,
      snap_blocked_attempts = blocked_attempts l, snap_denied_actions = denied_actions l\<rparr>"

definition check_deadline :: "instant \<Rightarrow> ledger \<Rightarrow> charge" where
  "check_deadline now l =
     (if seconds (wall_clock_timeout_seconds (policy l)) < elapsed now l
      then (Inl (Deadline_Passed (wall_clock_timeout_seconds (policy l)) (elapsed now l)), l)
      else (Inr (), l))"

definition charge_llm_turn :: "instant \<Rightarrow> ledger \<Rightarrow> charge" where
  "charge_llm_turn now l =
     (case check_deadline now l of
        (Inl v, l1) \<Rightarrow> (Inl v, l1)
      | (Inr _, l1) \<Rightarrow>
          if max_llm_turns (policy l1) \<le> llm_turns l1
          then (Inl (No_Turns_Left (max_llm_turns (policy l1))), l1)
          else (Inr (), l1\<lparr>llm_turns := llm_turns l1 + 1\<rparr>))"

definition charge_tokens :: "int \<Rightarrow> ledger \<Rightarrow> charge" where
  "charge_tokens n l =
     (let l1 = l\<lparr>tokens_used := tokens_used l + max 0 n\<rparr>
      in if max_tokens (policy l1) < tokens_used l1
         then (Inl (Tokens_Spent (max_tokens (policy l1)) (tokens_used l1)), l1)
         else (Inr (), l1))"

definition assert_action_allowed :: "action \<Rightarrow> ledger \<Rightarrow> charge" where
  "assert_action_allowed a l =
     (if a \<notin> allowed_actions (policy l)
      then (Inl (Not_Allowlisted a), l\<lparr>blocked_attempts := blocked_attempts l @ [a]\<rparr>)
      else (Inr (), l))"

definition charge_write :: "action \<Rightarrow> ledger \<Rightarrow> charge" where
  "charge_write a l =
     (if max_write_actions (policy l) \<le> write_actions l
      then (Inl (No_Writes_Left a (write_actions l) (max_write_actions (policy l))),
            l\<lparr>blocked_attempts := blocked_attempts l @ [a]\<rparr>)
      else (Inr (), l\<lparr>write_actions := write_actions l + 1\<rparr>))"

definition charge_tool_call :: "instant \<Rightarrow> action \<Rightarrow> bool \<Rightarrow> ledger \<Rightarrow> charge" where
  "charge_tool_call now a defer_write l =
     (let l0 = l\<lparr>attempted_actions := attempted_actions l + 1\<rparr>
      in case check_deadline now l0 of
           (Inl v, l1) \<Rightarrow> (Inl v, l1)
         | (Inr _, l1) \<Rightarrow>
             (case assert_action_allowed a l1 of
                (Inl v, l2) \<Rightarrow> (Inl v, l2)
              | (Inr _, l2) \<Rightarrow>
                  if max_tool_calls (policy l2) \<le> tool_calls l2
                  then (Inl (No_Tool_Calls_Left (max_tool_calls (policy l2))), l2)
                  else let l3 = l2\<lparr>tool_calls := tool_calls l2 + 1\<rparr>
                       in if a \<in> REMEDIATION_ACTIONS \<and> \<not> defer_write
                          then charge_write a l3
                          else (Inr (), l3)))"

definition record_approval_denied :: "action \<Rightarrow> ledger \<Rightarrow> ledger" where
  "record_approval_denied a l = l\<lparr>denied_actions := denied_actions l @ [a]\<rparr>"

section \<open>The operations as one machine\<close>

datatype ledger_op =
    Op_Deadline instant
  | Op_Turn instant
  | Op_Tokens int
  | Op_Allowed action
  | Op_Tool instant action bool
  | Op_Write action
  | Op_Denied action
  | Op_Human instant instant

fun ledger_step :: "ledger_op \<Rightarrow> ledger \<Rightarrow> charge" where
  "ledger_step (Op_Deadline now) l = check_deadline now l"
| "ledger_step (Op_Turn now) l = charge_llm_turn now l"
| "ledger_step (Op_Tokens n) l = charge_tokens n l"
| "ledger_step (Op_Allowed a) l = assert_action_allowed a l"
| "ledger_step (Op_Tool now a d) l = charge_tool_call now a d l"
| "ledger_step (Op_Write a) l = charge_write a l"
| "ledger_step (Op_Denied a) l = (Inr (), record_approval_denied a l)"
| "ledger_step (Op_Human s f) l = (Inr (), awaiting_human s f l)"

lemmas charge_defs =
  check_deadline_def charge_llm_turn_def charge_tokens_def assert_action_allowed_def
  charge_write_def charge_tool_call_def record_approval_denied_def awaiting_human_def Let_def

definition within_budget :: "ledger \<Rightarrow> bool" where
  "within_budget l \<longleftrightarrow>
     0 \<le> llm_turns l \<and> llm_turns l \<le> max 0 (max_llm_turns (policy l)) \<and>
     0 \<le> tool_calls l \<and> tool_calls l \<le> max 0 (max_tool_calls (policy l)) \<and>
     0 \<le> write_actions l \<and> write_actions l \<le> max 0 (max_write_actions (policy l)) \<and>
     tool_calls l \<le> attempted_actions l"

lemma within_budget_new: "within_budget (new_ledger p now)"
  by (simp add: within_budget_def new_ledger_def)

lemma ledger_step_policy [simp]: "policy (snd (ledger_step x l)) = policy l"
  by (cases x) (simp_all add: charge_defs)

lemma ledger_step_within_budget: "within_budget l \<Longrightarrow> within_budget (snd (ledger_step x l))"
  by (cases x) (auto simp: charge_defs within_budget_def)

interpretation lg: machine ledger_step within_budget
  by unfold_locales (rule ledger_step_within_budget)

lemma run_ledger_policy [simp]: "policy (run ledger_step xs l) = policy l"
  by (induction xs arbitrary: l) simp_all

lemma charge_write_ok:
  "fst (charge_write a l) = Inr () \<longleftrightarrow> write_actions l < max_write_actions (policy l)"
  by (simp add: charge_write_def not_le)

lemma charge_write_writes:
  "write_actions (snd (charge_write a l)) =
     write_actions l + (if fst (charge_write a l) = Inr () then 1 else 0)"
  by (simp add: charge_write_def)

section \<open>Properties\<close>

text \<open>
  Whatever charges a run makes and however it reacts to refusals, the turns, the tool
  calls and the remediation writes never exceed the limits of the policy, and every
  dispatched call is among the counted attempts.
\<close>

lemma ledger_budgets_hold:
  "let l = run ledger_step xs (new_ledger p now)
   in llm_turns l \<le> max 0 (max_llm_turns p) \<and> tool_calls l \<le> max 0 (max_tool_calls p) \<and>
      write_actions l \<le> max 0 (max_write_actions p) \<and> tool_calls l \<le> attempted_actions l"
  using lg.inv_run [OF within_budget_new, of xs p now]
  by (simp add: within_budget_def new_ledger_def Let_def)

text \<open>
  A tool call is dispatched exactly when the deadline has not passed, the action is on
  the allowlist, a tool call is left and, for a remediation that is not deferred, a write
  is left; a refusal never spends a write, and only the exhausted write budget leaves the
  tool call charged.
\<close>

lemma charge_tool_call_outcome:
  "let r = charge_tool_call now a d l; l' = snd r
   in (fst r = Inr () \<longleftrightarrow>
         elapsed now l \<le> seconds (wall_clock_timeout_seconds (policy l)) \<and>
         a \<in> allowed_actions (policy l) \<and> tool_calls l < max_tool_calls (policy l) \<and>
         (is_remediation a \<and> \<not> d \<longrightarrow> write_actions l < max_write_actions (policy l))) \<and>
      write_actions l' = write_actions l +
         (if fst r = Inr () \<and> is_remediation a \<and> \<not> d then 1 else 0) \<and>
      attempted_actions l' = attempted_actions l + 1 \<and>
      (tool_calls l' = tool_calls l + 1 \<longleftrightarrow>
         fst r = Inr () \<or> (\<exists>w m. fst r = Inl (No_Writes_Left a w m)))"
  by (auto simp: charge_defs is_remediation_def elapsed_def)

lemma charge_tool_call_outcome_witness:
  "fst (charge_tool_call 0 Refresh_Dataset False (new_ledger default_policy 0)) = Inr () \<and>
   write_actions (snd (charge_tool_call 0 Refresh_Dataset False (new_ledger default_policy 0))) = 1"
  using charge_tool_call_outcome [of 0 Refresh_Dataset False "new_ledger default_policy 0"]
  by (simp add: new_ledger_def default_policy_def elapsed_def taxonomy_defs Let_def seconds_def
      is_remediation_def)

lemma write_actions_mono: "write_actions l \<le> write_actions (snd (ledger_step x l))"
  by (cases x) (auto simp: charge_defs)

lemma tokens_used_mono: "tokens_used l \<le> tokens_used (snd (ledger_step x l))"
  by (cases x) (auto simp: charge_defs)

lemma run_write_actions_mono: "write_actions l \<le> write_actions (run ledger_step xs l)"
  by (induction xs arbitrary: l) (auto intro: order_trans write_actions_mono)

lemma run_tokens_used_mono: "tokens_used l \<le> tokens_used (run ledger_step xs l)"
  by (induction xs arbitrary: l) (auto intro: order_trans tokens_used_mono)

lemma charge_write_refused:
  "max_write_actions (policy l) \<le> write_actions l \<Longrightarrow>
     \<exists>v. fst (charge_write a l) = Inl v \<and> kind_of v = Policy_Blocked"
  by (simp add: charge_write_def)

lemma charge_tokens_refused:
  "max_tokens (policy l) < tokens_used l \<Longrightarrow>
     \<exists>v. fst (charge_tokens n l) = Inl v \<and> kind_of v = Budget_Exceeded"
  by (auto simp: charge_tokens_def Let_def)

lemma tokens_overrun_is_final:
  assumes "fst (charge_tokens n l) = Inl v"
  shows "\<exists>v'. fst (charge_tokens m (run ledger_step xs (snd (charge_tokens n l)))) = Inl v'
           \<and> kind_of v' = Budget_Exceeded"
proof (rule charge_tokens_refused)
  let ?l = "snd (charge_tokens n l)"
  have "max_tokens (policy l) < tokens_used ?l"
    using assms by (auto simp: charge_tokens_def Let_def split: if_splits)
  then show "max_tokens (policy (run ledger_step xs ?l)) < tokens_used (run ledger_step xs ?l)"
    using ledger_step_policy [of "Op_Tokens n" l] run_tokens_used_mono [of ?l xs] by simp
qed

text \<open>
  An exhausted remediation budget stays exhausted: after one refused write no sequence
  of ledger operations makes a later write succeed, whatever the action.
\<close>

lemma write_exhaustion_is_final:
  assumes "fst (charge_write a l) = Inl v"
  shows "\<exists>v'. fst (charge_write b (run ledger_step xs (snd (charge_write a l)))) = Inl v'
           \<and> kind_of v' = Policy_Blocked"
proof (rule charge_write_refused)
  let ?l = "snd (charge_write a l)"
  have "max_write_actions (policy l) \<le> write_actions ?l"
    using assms by (auto simp: charge_write_def split: if_splits)
  then show "max_write_actions (policy (run ledger_step xs ?l)) \<le> write_actions (run ledger_step xs ?l)"
    using ledger_step_policy [of "Op_Write a" l] run_write_actions_mono [of ?l xs] by simp
qed

lemma write_exhaustion_is_final_witness:
  "\<exists>v'. fst (charge_write Refresh_Dataset
         (run ledger_step [Op_Human 0 5]
            (snd (charge_write Rebind_Gateway
               ((new_ledger default_policy 0)\<lparr>write_actions := 1\<rparr>))))) = Inl v'
     \<and> kind_of v' = Policy_Blocked"
  by (rule write_exhaustion_is_final)
     (simp add: charge_write_def new_ledger_def default_policy_def)

end
