(* ===== verification/Approvals.thy ===== *)
theory Approvals
  imports Policy
begin

text \<open>
  \<^verbatim>\<open>src/src/triage/approvals.py\<close>: what a human is asked (\<open>ApprovalRequest\<close>), the
  answer bound to it (\<open>ApprovalDecision\<close>), its validity, the single-use bookkeeping of
  a gate, the scripted gates, and the two polling gates (\<open>TeamsCardApprovalGate\<close>,
  \<open>WebApprovalGate\<close>). SHA-256 (\<open>digest\<close>), the random decision identifiers and
  the transport (opening a row, posting a card, polling) are arguments.
\<close>

section \<open>Requests and decisions\<close>

text \<open>
  A fixed text of the source is a constructor of \<open>remark\<close>; \<open>Said s\<close> is a text that a
  person or a caller supplied.
\<close>

datatype remark =
    Said string
  | Gate_Approved_Text
  | No_Response int
  | Could_Not_Record
  | Could_Not_Persist
  | Could_Not_Deliver
  | No_Channel_Configured
  | No_Matching_Responder
  | Fingerprint_Mismatch_Text
  | Declined_Text
  | Unrecognised string

datatype verdict = Granted | Denied | Timed_Out_Verdict | Error_Verdict

definition DEFAULT_TIMEOUT_SECONDS :: int where
  "DEFAULT_TIMEOUT_SECONDS = 300"

text \<open>The first sixteen digits of the digest of the canonical JSON of the call.\<close>

definition action_fingerprint ::
  "(string \<Rightarrow> string) \<Rightarrow> action \<Rightarrow> (string, json) dict \<Rightarrow> string" where
  "action_fingerprint digest a args =
     take 16 (digest (dumps (JObj [(''action'', JStr (action_name a)),
                                   (''arguments'', JObj args)])))"

record approval_request =
  rq_action :: action
  rq_arguments :: "(string, json) dict"
  rq_justification :: string
  rq_request_id :: string
  rq_report_name :: string
  rq_signature :: string
  rq_impact :: string
  rq_timeout_seconds :: int
  rq_requested_at :: instant
  rq_run_id :: string

definition rq_fingerprint :: "(string \<Rightarrow> string) \<Rightarrow> approval_request \<Rightarrow> string" where
  "rq_fingerprint digest rq = action_fingerprint digest (rq_action rq) (rq_arguments rq)"

definition rq_expires_at :: "approval_request \<Rightarrow> instant" where
  "rq_expires_at rq = rq_requested_at rq + seconds (rq_timeout_seconds rq)"

record approval_decision =
  dc_granted :: bool
  dc_fingerprint :: string
  dc_decided_by :: string
  dc_reason :: remark
  dc_decision_id :: string
  dc_decided_at :: instant
  dc_expires_at :: "instant option"
  dc_outcome :: verdict

datatype validity = Valid | Not_Granted verdict | Other_Action_Approved string string | Expired instant

definition is_valid_for ::
  "(string \<Rightarrow> string) \<Rightarrow> approval_decision \<Rightarrow> approval_request \<Rightarrow> instant \<Rightarrow> validity" where
  "is_valid_for digest d rq now =
     (if \<not> dc_granted d then Not_Granted (dc_outcome d)
      else if dc_fingerprint d \<noteq> rq_fingerprint digest rq
           then Other_Action_Approved (dc_fingerprint d) (rq_fingerprint digest rq)
      else let deadline = (case dc_expires_at d of Some e \<Rightarrow> e | None \<Rightarrow> rq_expires_at rq)
           in if deadline < now then Expired deadline else Valid)"

section \<open>Single use\<close>

text \<open>\<open>_BaseGate\<close>: the identifiers of the decisions already used.\<close>

definition gate_consume :: "approval_decision \<Rightarrow> string set \<Rightarrow> bool \<times> string set" where
  "gate_consume d consumed =
     (if dc_decision_id d \<in> consumed then (False, consumed)
      else (True, insert (dc_decision_id d) consumed))"

definition consumed_id :: "approval_decision \<Rightarrow> bool \<Rightarrow> string option" where
  "consumed_id d ok = (if ok then Some (dc_decision_id d) else None)"

interpretation base_gate: one_shot gate_consume "\<lambda>_. True" consumed_id "\<lambda>s k. k \<in> s"
  by unfold_locales (auto simp: gate_consume_def consumed_id_def split: if_splits)

section \<open>Scripted gates\<close>

definition refusal :: "(string \<Rightarrow> string) \<Rightarrow> string \<Rightarrow> instant \<Rightarrow> string \<Rightarrow> remark \<Rightarrow> verdict \<Rightarrow>
    approval_request \<Rightarrow> approval_decision" where
  "refusal digest did now who why what rq =
     \<lparr>dc_granted = False, dc_fingerprint = rq_fingerprint digest rq, dc_decided_by = who,
      dc_reason = why, dc_decision_id = did, dc_decided_at = now, dc_expires_at = None,
      dc_outcome = what\<rparr>"

definition auto_approve :: "(string \<Rightarrow> string) \<Rightarrow> string \<Rightarrow> instant \<Rightarrow> string \<Rightarrow>
    approval_request \<Rightarrow> approval_request list \<Rightarrow> approval_decision \<times> approval_request list" where
  "auto_approve digest did now approver rq seen =
     (\<lparr>dc_granted = True, dc_fingerprint = rq_fingerprint digest rq, dc_decided_by = approver,
       dc_reason = Gate_Approved_Text, dc_decision_id = did, dc_decided_at = now,
       dc_expires_at = Some (rq_expires_at rq), dc_outcome = Granted\<rparr>, seen @ [rq])"

definition auto_deny :: "(string \<Rightarrow> string) \<Rightarrow> string \<Rightarrow> instant \<Rightarrow> string \<Rightarrow> string \<Rightarrow>
    approval_request \<Rightarrow> approval_request list \<Rightarrow> approval_decision \<times> approval_request list" where
  "auto_deny digest did now approver reason rq seen =
     (refusal digest did now approver (Said reason) Denied rq, seen @ [rq])"

definition timeout_gate :: "(string \<Rightarrow> string) \<Rightarrow> string \<Rightarrow> instant \<Rightarrow>
    approval_request \<Rightarrow> approval_request list \<Rightarrow> approval_decision \<times> approval_request list" where
  "timeout_gate digest did now rq seen =
     (refusal digest did now [] (No_Response (rq_timeout_seconds rq)) Timed_Out_Verdict rq, seen @ [rq])"

section \<open>Reading a responder's payload\<close>

type_synonym payload = "(string, string) dict"

definition payload_get :: "payload \<Rightarrow> string \<Rightarrow> string" where
  "payload_get raw k = (case map_of raw k of None \<Rightarrow> [] | Some v \<Rightarrow> v)"

definition decision_from_payload :: "(string \<Rightarrow> string) \<Rightarrow> string \<Rightarrow> instant \<Rightarrow> payload \<Rightarrow>
    approval_request \<Rightarrow> approval_decision" where
  "decision_from_payload digest did now raw rq =
     (let decision = py_lower (payload_get raw ''decision'');
          responder = str_or (payload_get raw ''responder'') (payload_get raw ''decided_by'');
          claimed = payload_get raw ''fingerprint''
      in if claimed \<noteq> [] \<and> claimed \<noteq> rq_fingerprint digest rq
         then refusal digest did now responder Fingerprint_Mismatch_Text Error_Verdict rq
         else if decision = ''approve''
         then \<lparr>dc_granted = True, dc_fingerprint = rq_fingerprint digest rq,
               dc_decided_by = responder, dc_reason = Said (payload_get raw ''reason''),
               dc_decision_id = did, dc_decided_at = now,
               dc_expires_at = Some (rq_expires_at rq), dc_outcome = Granted\<rparr>
         else if decision = ''decline''
         then refusal digest did now responder
                (if payload_get raw ''reason'' = [] then Declined_Text
                 else Said (payload_get raw ''reason'')) Denied rq
         else refusal digest did now responder (Unrecognised decision) Error_Verdict rq)"

section \<open>The polling gates\<close>

text \<open>
  One look at the decision source: it raised, it had nothing (\<open>None\<close> or an empty
  payload), or it had a payload. The loop reads the clock and the source at its
  \<open>i\<close>-th iteration as \<open>clk i\<close> and \<open>src i\<close>; a loop that never reaches its deadline
  does not return, so its result is an option.
\<close>

datatype poll = Poll_Raised | Poll_Result "payload option"

definition poll_payload :: "poll \<Rightarrow> payload option" where
  "poll_payload p =
     (case p of Poll_Raised \<Rightarrow> None
      | Poll_Result None \<Rightarrow> None
      | Poll_Result (Some raw) \<Rightarrow> if raw = [] then None else Some raw)"

text \<open>The outside world of one call: whether opening and posting worked, and the source.\<close>

record gate_world =
  gw_digest :: "string \<Rightarrow> string"
  gw_decision_id :: string
  gw_open_fails :: bool
  gw_post_fails :: bool
  gw_has_source :: bool
  gw_clock :: "nat \<Rightarrow> instant"
  gw_source :: "nat \<Rightarrow> poll"

definition world_refusal :: "gate_world \<Rightarrow> instant \<Rightarrow> remark \<Rightarrow> verdict \<Rightarrow> approval_request \<Rightarrow> approval_decision" where
  "world_refusal w now why what rq = refusal (gw_digest w) (gw_decision_id w) now [] why what rq"

partial_function (option) teams_poll ::
  "gate_world \<Rightarrow> approval_request \<Rightarrow> nat \<Rightarrow> approval_decision option" where
  "teams_poll w rq i =
     (if gw_clock w i < rq_expires_at rq
      then (case poll_payload (gw_source w i) of
              Some raw \<Rightarrow> Some (decision_from_payload (gw_digest w) (gw_decision_id w) (gw_clock w i) raw rq)
            | None \<Rightarrow> teams_poll w rq (Suc i))
      else Some (world_refusal w (gw_clock w i) (No_Response (rq_timeout_seconds rq)) Timed_Out_Verdict rq))"

definition teams_request_approval :: "gate_world \<Rightarrow> approval_request \<Rightarrow> approval_decision option" where
  "teams_request_approval w rq =
     (if gw_has_source w \<and> gw_open_fails w
      then Some (world_refusal w (gw_clock w 0) Could_Not_Record Error_Verdict rq)
      else if gw_post_fails w
      then Some (world_refusal w (gw_clock w 0) Could_Not_Deliver Error_Verdict rq)
      else if \<not> gw_has_source w
      then Some (world_refusal w (gw_clock w 0) No_Channel_Configured Error_Verdict rq)
      else teams_poll w rq 0)"

text \<open>
  The web gate also demands that the payload names this very proposal and a responder.
  It remembers the request of the decision it returns, for the later consumption.
\<close>

definition web_decision :: "gate_world \<Rightarrow> instant \<Rightarrow> payload \<Rightarrow> approval_request \<Rightarrow>
    (string, approval_request) dict \<Rightarrow> approval_decision \<times> (string, approval_request) dict" where
  "web_decision w now raw rq known =
     (if map_of raw ''fingerprint'' \<noteq> Some (rq_fingerprint (gw_digest w) rq)
         \<or> payload_get raw ''responder'' = []
      then (world_refusal w now No_Matching_Responder Error_Verdict rq, known)
      else let d = decision_from_payload (gw_digest w) (gw_decision_id w) now raw rq
           in (d, AList.update (dc_decision_id d) rq known))"

partial_function (option) web_poll ::
  "gate_world \<Rightarrow> approval_request \<Rightarrow> (string, approval_request) dict \<Rightarrow> nat \<Rightarrow>
     (approval_decision \<times> (string, approval_request) dict) option" where
  "web_poll w rq known i =
     (if gw_clock w i < rq_expires_at rq
      then (case poll_payload (gw_source w i) of
              Some raw \<Rightarrow> Some (web_decision w (gw_clock w i) raw rq known)
            | None \<Rightarrow> web_poll w rq known (Suc i))
      else Some (world_refusal w (gw_clock w i) (No_Response (rq_timeout_seconds rq)) Timed_Out_Verdict rq, known))"

definition web_request_approval ::
  "gate_world \<Rightarrow> approval_request \<Rightarrow> (string, approval_request) dict \<Rightarrow>
     (approval_decision \<times> (string, approval_request) dict) option" where
  "web_request_approval w rq known =
     (if gw_open_fails w
      then Some (world_refusal w (gw_clock w 0) Could_Not_Persist Error_Verdict rq, known)
      else web_poll w rq known 0)"

text \<open>
  Consumption by the web gate: \<open>store\<close> is what the decision source's conditional
  consumption answered for the request's identifier and fingerprint, \<open>None\<close> when it
  raised.
\<close>

definition web_consume :: "(string \<Rightarrow> string) \<Rightarrow> instant \<Rightarrow> (string \<Rightarrow> string \<Rightarrow> bool option) \<Rightarrow>
    approval_decision \<Rightarrow> (string, approval_request) dict \<Rightarrow> bool \<times> (string, approval_request) dict" where
  "web_consume digest now store d known =
     (let known' = AList.delete (dc_decision_id d) known
      in case map_of known (dc_decision_id d) of
           None \<Rightarrow> (False, known')
         | Some rq \<Rightarrow>
             if is_valid_for digest d rq now \<noteq> Valid then (False, known')
             else (case store (rq_request_id rq) (rq_fingerprint digest rq) of
                     None \<Rightarrow> (False, known')
                   | Some ok \<Rightarrow> (ok, known')))"

section \<open>Lemmas\<close>

lemma refusal_not_granted [simp]:
  "dc_granted (refusal digest did now who why what rq) = False"
  "dc_granted (world_refusal w now why what rq) = False"
  by (simp_all add: refusal_def world_refusal_def)

lemma refusal_invalid [simp]:
  "is_valid_for digest (refusal digest' did now who why what rq) rq' t = Not_Granted what"
  by (simp add: is_valid_for_def refusal_def)

lemma valid_iff:
  "is_valid_for digest d rq now = Valid \<longleftrightarrow>
     dc_granted d \<and> dc_fingerprint d = rq_fingerprint digest rq \<and>
     now \<le> (case dc_expires_at d of Some e \<Rightarrow> e | None \<Rightarrow> rq_expires_at rq)"
  by (auto simp: is_valid_for_def Let_def split: option.splits)

lemma decision_granted_iff:
  "dc_granted (decision_from_payload digest did now raw rq) \<longleftrightarrow>
     py_lower (payload_get raw ''decision'') = ''approve'' \<and>
     (payload_get raw ''fingerprint'' = [] \<or>
      payload_get raw ''fingerprint'' = rq_fingerprint digest rq)"
  by (auto simp: decision_from_payload_def Let_def)

lemma decision_granted_valid:
  assumes "dc_granted (decision_from_payload digest did now raw rq)"
  shows "is_valid_for digest (decision_from_payload digest did now raw rq) rq t = Valid
           \<longleftrightarrow> t \<le> rq_expires_at rq"
  using assms
  by (auto simp: valid_iff decision_from_payload_def Let_def split: if_splits)

lemma decision_verdict:
  "dc_granted (decision_from_payload digest did now raw rq) \<longleftrightarrow>
     dc_outcome (decision_from_payload digest did now raw rq) = Granted"
  by (auto simp: decision_from_payload_def refusal_def Let_def)

text \<open>A poll that gets nowhere before iteration \<open>n\<close> continues there.\<close>

lemma teams_poll_skip:
  assumes "\<And>j. i \<le> j \<Longrightarrow> j < n \<Longrightarrow>
      gw_clock w j < rq_expires_at rq \<and> poll_payload (gw_source w j) = None"
    and "i \<le> n"
  shows "teams_poll w rq i = teams_poll w rq n"
  using assms
proof (induction "n - i" arbitrary: i)
  case 0
  then show ?case by simp
next
  case (Suc k)
  then have step: "gw_clock w i < rq_expires_at rq" "poll_payload (gw_source w i) = None"
    by auto
  have "teams_poll w rq (Suc i) = teams_poll w rq n"
    using Suc by (intro Suc.hyps(1)) auto
  then show ?case using step by (simp add: teams_poll.simps [of w rq i])
qed

lemma teams_poll_returns:
  assumes "rq_expires_at rq \<le> gw_clock w n" and "i \<le> n"
  shows "\<exists>d. teams_poll w rq i = Some d"
  using assms
proof (induction "n - i" arbitrary: i)
  case 0
  then show ?case by (simp add: teams_poll.simps [of w rq i])
next
  case (Suc k)
  then have "\<exists>d. teams_poll w rq (Suc i) = Some d"
    by (intro Suc.hyps(1)) auto
  then show ?case by (auto simp: teams_poll.simps [of w rq i] split: option.splits)
qed

lemma teams_poll_granted:
  assumes "teams_poll w rq i = Some d" and "dc_granted d"
  shows "\<exists>j raw. gw_clock w j < rq_expires_at rq \<and> gw_source w j = Poll_Result (Some raw) \<and>
           d = decision_from_payload (gw_digest w) (gw_decision_id w) (gw_clock w j) raw rq"
proof -
  have "dc_granted d \<longrightarrow> (\<exists>j raw. gw_clock w j < rq_expires_at rq \<and>
           gw_source w j = Poll_Result (Some raw) \<and>
           d = decision_from_payload (gw_digest w) (gw_decision_id w) (gw_clock w j) raw rq)"
  proof (rule teams_poll.raw_induct
      [where P = "\<lambda>w rq i d. dc_granted d \<longrightarrow> (\<exists>j raw. gw_clock w j < rq_expires_at rq \<and>
           gw_source w j = Poll_Result (Some raw) \<and>
           d = decision_from_payload (gw_digest w) (gw_decision_id w) (gw_clock w j) raw rq)",
       OF _ assms(1)])
    fix f w rq i d
    assume IH: "\<And>w rq i d. f w rq i = Some d \<Longrightarrow> dc_granted d \<longrightarrow>
        (\<exists>j raw. gw_clock w j < rq_expires_at rq \<and> gw_source w j = Poll_Result (Some raw) \<and>
           d = decision_from_payload (gw_digest w) (gw_decision_id w) (gw_clock w j) raw rq)"
      and eq: "(if gw_clock w i < rq_expires_at rq
         then (case poll_payload (gw_source w i) of
                 Some raw \<Rightarrow> Some (decision_from_payload (gw_digest w) (gw_decision_id w) (gw_clock w i) raw rq)
               | None \<Rightarrow> f w rq (Suc i))
         else Some (world_refusal w (gw_clock w i) (No_Response (rq_timeout_seconds rq)) Timed_Out_Verdict rq)) = Some d"
    show "dc_granted d \<longrightarrow> (\<exists>j raw. gw_clock w j < rq_expires_at rq \<and>
           gw_source w j = Poll_Result (Some raw) \<and>
           d = decision_from_payload (gw_digest w) (gw_decision_id w) (gw_clock w j) raw rq)"
      using eq IH [of w rq "Suc i" d]
      by (fastforce simp: poll_payload_def split: if_splits option.splits poll.splits)
  qed
  with assms(2) show ?thesis by blast
qed

lemma teams_request_granted:
  assumes "teams_request_approval w rq = Some d" and "dc_granted d"
  shows "\<not> gw_open_fails w \<and> \<not> gw_post_fails w \<and> gw_has_source w \<and>
         (\<exists>j raw. gw_clock w j < rq_expires_at rq \<and> gw_source w j = Poll_Result (Some raw) \<and>
           d = decision_from_payload (gw_digest w) (gw_decision_id w) (gw_clock w j) raw rq)"
proof -
  have world: "gw_has_source w \<and> \<not> gw_open_fails w \<and> \<not> gw_post_fails w"
    using assms by (auto simp: teams_request_approval_def split: if_splits)
  then have "teams_poll w rq 0 = Some d"
    using assms(1) by (simp add: teams_request_approval_def)
  from teams_poll_granted [OF this assms(2)] world show ?thesis by blast
qed

lemma web_decision_granted:
  "dc_granted (fst (web_decision w now raw rq known)) \<longleftrightarrow>
     py_lower (payload_get raw ''decision'') = ''approve'' \<and>
     map_of raw ''fingerprint'' = Some (rq_fingerprint (gw_digest w) rq) \<and>
     payload_get raw ''responder'' \<noteq> []"
  by (auto simp: web_decision_def decision_granted_iff payload_get_def Let_def)

lemma web_poll_returns:
  assumes "rq_expires_at rq \<le> gw_clock w n" and "i \<le> n"
  shows "\<exists>r. web_poll w rq known i = Some r"
  using assms
proof (induction "n - i" arbitrary: i)
  case 0
  then show ?case by (simp add: web_poll.simps [of w rq known i])
next
  case (Suc k)
  then have "\<exists>r. web_poll w rq known (Suc i) = Some r"
    by (intro Suc.hyps(1)) auto
  then show ?case by (auto simp: web_poll.simps [of w rq known i] split: option.splits)
qed

section \<open>Properties\<close>

text \<open>
  The Teams gate fails closed: it grants only when a poll strictly before the deadline
  delivered a payload that says approve and names no other fingerprint, and then the
  request had been recorded and posted; the decision is valid for its own request
  until the deadline and not after it.
\<close>

lemma teams_gate_fails_closed:
  assumes "teams_request_approval w rq = Some d" and "dc_granted d"
  shows "\<not> gw_open_fails w \<and> \<not> gw_post_fails w \<and> gw_has_source w \<and>
    (\<exists>j raw. gw_clock w j < rq_expires_at rq \<and> gw_source w j = Poll_Result (Some raw) \<and>
       py_lower (payload_get raw ''decision'') = ''approve'' \<and>
       payload_get raw ''fingerprint'' \<in> {[], rq_fingerprint (gw_digest w) rq}) \<and>
    (\<forall>t. is_valid_for (gw_digest w) d rq t = Valid \<longleftrightarrow> t \<le> rq_expires_at rq)"
proof -
  from teams_request_granted [OF assms] obtain j raw where
    world: "\<not> gw_open_fails w" "\<not> gw_post_fails w" "gw_has_source w"
    and j: "gw_clock w j < rq_expires_at rq" "gw_source w j = Poll_Result (Some raw)"
    and d: "d = decision_from_payload (gw_digest w) (gw_decision_id w) (gw_clock w j) raw rq"
    by blast
  have "py_lower (payload_get raw ''decision'') = ''approve''"
    and "payload_get raw ''fingerprint'' \<in> {[], rq_fingerprint (gw_digest w) rq}"
    using assms(2) by (auto simp: d decision_granted_iff)
  moreover have "\<forall>t. is_valid_for (gw_digest w) d rq t = Valid \<longleftrightarrow> t \<le> rq_expires_at rq"
    using assms(2) unfolding d by (blast dest: decision_granted_valid)
  ultimately show ?thesis using world j by blast
qed

definition example_request :: approval_request where
  "example_request =
     \<lparr>rq_action = Rebind_Gateway, rq_arguments = [(''target_gateway'', JStr ''gw-02'')],
      rq_justification = ''repeating'', rq_request_id = ''r1'', rq_report_name = [],
      rq_signature = ''s'', rq_impact = [], rq_timeout_seconds = 300, rq_requested_at = 0,
      rq_run_id = []\<rparr>"

definition example_world :: gate_world where
  "example_world =
     \<lparr>gw_digest = (\<lambda>s. s), gw_decision_id = ''apr-1'', gw_open_fails = False,
      gw_post_fails = False, gw_has_source = True, gw_clock = (\<lambda>i. int i * 5000000),
      gw_source = (\<lambda>i. if i = 0 then Poll_Raised
                       else Poll_Result (Some [(''decision'', ''Approve''), (''responder'', ''ann'')]))\<rparr>"

lemma example_teams_gate:
  "teams_request_approval example_world example_request =
     Some (decision_from_payload (\<lambda>s. s) ''apr-1'' 5000000
             [(''decision'', ''Approve''), (''responder'', ''ann'')] example_request)"
  by (simp add: teams_request_approval_def teams_poll.simps [of _ _ 0]
      teams_poll.simps [of _ _ "Suc 0"] example_world_def example_request_def
      poll_payload_def rq_expires_at_def seconds_def)

lemma example_teams_granted:
  "dc_granted (decision_from_payload (\<lambda>s. s) ''apr-1'' 5000000
             [(''decision'', ''Approve''), (''responder'', ''ann'')] example_request)"
  by code_simp

lemma teams_gate_fails_closed_witness:
  "\<not> gw_open_fails example_world \<and>
   (\<exists>d. teams_request_approval example_world example_request = Some d \<and>
     (\<forall>t. is_valid_for (gw_digest example_world) d example_request t = Valid
            \<longleftrightarrow> t \<le> rq_expires_at example_request))"
  using teams_gate_fails_closed [OF example_teams_gate example_teams_granted] example_teams_gate
  by blast

text \<open>
  Both polling gates answer: when some reading of the clock reaches the request's
  deadline, the call returns a decision, whatever the decision source does.
\<close>

lemma polling_gates_answer:
  assumes "rq_expires_at rq \<le> gw_clock w n"
  shows "(\<exists>d. teams_request_approval w rq = Some d) \<and>
         (\<exists>r. web_request_approval w rq known = Some r)"
proof -
  have "\<exists>d. teams_poll w rq 0 = Some d" and "\<exists>r. web_poll w rq known 0 = Some r"
    using assms teams_poll_returns web_poll_returns by blast+
  then show ?thesis by (auto simp: teams_request_approval_def web_request_approval_def)
qed

lemma polling_gates_answer_witness:
  "(\<exists>d. teams_request_approval example_world example_request = Some d) \<and>
   (\<exists>r. web_request_approval example_world example_request [] = Some r)"
  by (rule polling_gates_answer [where n = 60])
     (simp add: example_world_def example_request_def rq_expires_at_def seconds_def)

text \<open>
  One approval authorises one execution: over any sequence of consumptions, the
  base gate accepts each decision identifier at most once.
\<close>

lemma approval_consumed_once:
  "count_wins gate_consume consumed_id did ds used \<le> 1"
  by (rule base_gate.wins_once) simp

end
