(* ===== verification/Approval_Store.thy ===== *)
theory Approval_Store
  imports Approvals
begin

text \<open>
  \<^verbatim>\<open>src/src/triage/store/approvals.py\<close>: where a human's answer to an approval
  request lives. The in-memory channel keeps a dictionary of rows; the JSON-file
  channel re-reads its file before each operation and writes all rows back; the SQL
  channel works by conditional statements. The class hierarchy's \<open>_persist\<close> hook is an
  argument of the shared operations, \<open>redact\<close> stands for \<^verbatim>\<open>redact_text\<close>.
\<close>

section \<open>Rows\<close>

record approval_row =
  ar_request_id :: string
  ar_action :: action
  ar_fingerprint :: string
  ar_report_name :: string
  ar_justification :: string
  ar_impact :: string
  ar_signature :: string
  ar_run_id :: string
  ar_arguments :: "(string, json) dict"
  ar_requested_at :: stamp
  ar_expires_at :: stamp
  ar_decision :: string
  ar_responder :: string
  ar_reason :: string
  ar_decided_at :: stamp
  ar_consumed_at :: stamp
  ar_delivery_channel :: "string option"
  ar_extra :: "(string, string) dict"

fun redacted :: "(string \<Rightarrow> string) \<Rightarrow> json \<Rightarrow> json" where
  "redacted redact (JStr s) = JStr (redact s)"
| "redacted redact (JObj kvs) = JObj (map (\<lambda>(k, v). (k, redacted redact v)) kvs)"
| "redacted redact (JList vs) = JList (map (redacted redact) vs)"
| "redacted redact JNull = JNull"
| "redacted redact (JBool b) = JBool b"
| "redacted redact (JInt i) = JInt i"

text \<open>
  \<open>attrs\<close> are the optional attributes that only some request classes have. An empty
  text is no timestamp: \<open>No_Stamp\<close> in \<open>ar_decided_at\<close> and \<open>ar_consumed_at\<close>.
\<close>

definition request_row :: "(string \<Rightarrow> string) \<Rightarrow> (string \<Rightarrow> string) \<Rightarrow> (string \<Rightarrow> string option) \<Rightarrow>
    approval_request \<Rightarrow> approval_row" where
  "request_row redact digest attrs rq =
     \<lparr>ar_request_id = rq_request_id rq, ar_action = rq_action rq,
      ar_fingerprint = rq_fingerprint digest rq,
      ar_report_name = redact (rq_report_name rq),
      ar_justification = redact (rq_justification rq),
      ar_impact = redact (rq_impact rq), ar_signature = rq_signature rq,
      ar_run_id = rq_run_id rq,
      ar_arguments = map (\<lambda>(k, v). (k, redacted redact v)) (rq_arguments rq),
      ar_requested_at = Aware_Stamp (floor_second (rq_requested_at rq)),
      ar_expires_at = Aware_Stamp (floor_second (rq_expires_at rq)),
      ar_decision = [], ar_responder = [], ar_reason = [], ar_decided_at = No_Stamp,
      ar_consumed_at = No_Stamp, ar_delivery_channel = None,
      ar_extra = List.map_filter (\<lambda>n. map_option (Pair n) (attrs n))
                   [''monitoring_work_id'', ''target_key'', ''source_execution_key'']\<rparr>"

datatype store_error =
    Proposal_Changed
  | Already_Answered
  | Proposal_Expired
  | Invalid_Expiry_Text
  | No_Valid_Expiry
  | Invalid_Decision_Or_Responder
  | Unknown_Request string
  | Answered_Before string string
  | Persist_Raised
  | Db_Unavailable
  | Unreadable_State
  | No_Reliable_Count
  | Lost_The_Update
  | Existing_Not_Confirmed

definition assert_open :: "instant \<Rightarrow> approval_row \<Rightarrow> string \<Rightarrow> store_error + unit" where
  "assert_open now row fp =
     (if fp = [] \<or> ar_fingerprint row \<noteq> fp then Inl Proposal_Changed
      else if ar_decision row \<noteq> [] \<or> ar_consumed_at row \<noteq> No_Stamp then Inl Already_Answered
      else (case ar_expires_at row of
              No_Stamp \<Rightarrow> Inl No_Valid_Expiry
            | Bad_Stamp \<Rightarrow> Inl Invalid_Expiry_Text
            | Naive_Stamp _ \<Rightarrow> Inl Proposal_Expired
            | Aware_Stamp e \<Rightarrow> if e \<le> now then Inl Proposal_Expired else Inr ()))"

definition pending_priority :: "instant \<Rightarrow> approval_row \<Rightarrow> bool" where
  "pending_priority now row \<longleftrightarrow> assert_open now row (ar_fingerprint row) = Inr ()"

section \<open>The in-memory channel\<close>

type_synonym rows = "(string, approval_row) dict"

record 'd channel =
  ch_items :: rows
  ch_backing :: 'd

text \<open>The hook: did it return normally, and what backs the channel afterwards.\<close>

type_synonym 'd persist = "rows \<Rightarrow> 'd \<Rightarrow> bool \<times> 'd"

definition persisted :: "'d persist \<Rightarrow> 'd channel \<Rightarrow> bool \<times> 'd channel" where
  "persisted persist ch =
     (let (ok, b) = persist (ch_items ch) (ch_backing ch) in (ok, ch\<lparr>ch_backing := b\<rparr>))"

definition put_row :: "string \<Rightarrow> approval_row \<Rightarrow> 'd channel \<Rightarrow> 'd channel" where
  "put_row rid row ch = ch\<lparr>ch_items := AList.update rid row (ch_items ch)\<rparr>"

definition ch_row :: "'d channel \<Rightarrow> string \<Rightarrow> approval_row option" where
  "ch_row ch rid = map_of (ch_items ch) rid"

text \<open>\<open>open\<close> overwrites, and a hook that raised leaves the row in memory.\<close>

definition ch_open :: "'d persist \<Rightarrow> approval_row \<Rightarrow> 'd channel \<Rightarrow> (store_error + unit) \<times> 'd channel" where
  "ch_open persist row ch =
     (let (ok, ch') = persisted persist (put_row (ar_request_id row) row ch)
      in (if ok then Inr () else Inl Persist_Raised, ch'))"

definition ch_open_exact :: "'d persist \<Rightarrow> instant \<Rightarrow> approval_row \<Rightarrow> 'd channel \<Rightarrow>
    (store_error + unit) \<times> 'd channel" where
  "ch_open_exact persist now row0 ch =
     (let row = row0\<lparr>ar_delivery_channel := Some ''web''\<rparr>; rid = ar_request_id row
      in case ch_row ch rid of
           Some prior \<Rightarrow> (assert_open now prior (ar_fingerprint row), ch)
         | None \<Rightarrow>
             (let (ok, ch') = persisted persist (put_row rid row ch)
              in if ok then (Inr (), ch')
                 else (Inl Persist_Raised, ch'\<lparr>ch_items := AList.delete rid (ch_items ch')\<rparr>)))"

definition ch_decide_exact :: "'d persist \<Rightarrow> (string \<Rightarrow> string) \<Rightarrow> instant \<Rightarrow> string \<Rightarrow> string \<Rightarrow>
    string \<Rightarrow> string \<Rightarrow> string \<Rightarrow> 'd channel \<Rightarrow> (store_error + approval_row) \<times> 'd channel" where
  "ch_decide_exact persist redact now rid decision fp responder reason ch =
     (if decision \<notin> {''approve'', ''decline''} \<or> responder = []
      then (Inl Invalid_Decision_Or_Responder, ch)
      else case ch_row ch rid of
             None \<Rightarrow> (Inl (Unknown_Request rid), ch)
           | Some before \<Rightarrow>
               (case assert_open now before fp of
                  Inl e \<Rightarrow> (Inl e, ch)
                | Inr _ \<Rightarrow>
                    let row = before\<lparr>ar_decision := decision, ar_responder := responder,
                                ar_reason := redact reason, ar_decided_at := Aware_Stamp now\<rparr>;
                        (ok, ch') = persisted persist (put_row rid row ch)
                    in if ok then (Inr row, ch')
                       else (Inl Persist_Raised, put_row rid before ch')))"

definition ch_consume_exact :: "'d persist \<Rightarrow> instant \<Rightarrow> string \<Rightarrow> string \<Rightarrow> 'd channel \<Rightarrow>
    (store_error + bool) \<times> 'd channel" where
  "ch_consume_exact persist now rid fp ch =
     (case ch_row ch rid of
        None \<Rightarrow> (Inr False, ch)
      | Some row \<Rightarrow>
          if ar_decision row \<noteq> ''approve'' \<or> ar_consumed_at row \<noteq> No_Stamp then (Inr False, ch)
          else case assert_open now (row\<lparr>ar_decision := []\<rparr>) fp of
                 Inl _ \<Rightarrow> (Inr False, ch)
               | Inr _ \<Rightarrow>
                   let (ok, ch') = persisted persist
                         (put_row rid (row\<lparr>ar_consumed_at := Aware_Stamp now\<rparr>) ch)
                   in if ok then (Inr True, ch')
                      else (Inl Persist_Raised, put_row rid row ch'))"

text \<open>The listing sorts by \<open>(pending, requested_at, request_id)\<close>, highest first.\<close>

datatype rank = Rank (rank_pending: bool) (rank_when: instant) (rank_id: string)

instantiation rank :: linorder
begin

definition less_eq_rank :: "rank \<Rightarrow> rank \<Rightarrow> bool" where
  "less_eq_rank a b \<longleftrightarrow>
     rank_pending a < rank_pending b \<or>
     rank_pending a = rank_pending b \<and>
       (rank_when a < rank_when b \<or> rank_when a = rank_when b \<and> rank_id a \<le> rank_id b)"

definition less_rank :: "rank \<Rightarrow> rank \<Rightarrow> bool" where
  "less_rank (a::rank) b \<longleftrightarrow> a \<le> b \<and> \<not> b \<le> a"

instance
proof
  fix x y z :: rank
  show "x < y \<longleftrightarrow> x \<le> y \<and> \<not> y \<le> x" by (simp add: less_rank_def)
  show "x \<le> x" by (simp add: less_eq_rank_def)
  show "x \<le> y \<Longrightarrow> y \<le> z \<Longrightarrow> x \<le> z" by (auto simp: less_eq_rank_def)
  show "x \<le> y \<Longrightarrow> y \<le> x \<Longrightarrow> x = y"
    by (cases x; cases y) (auto simp: less_eq_rank_def)
  show "x \<le> y \<or> y \<le> x" by (auto simp: less_eq_rank_def)
qed

end

text \<open>
  The channel writes UTC texts of one width, whose order is that of the instants.
\<close>

fun stamp_order :: "stamp \<Rightarrow> instant" where
  "stamp_order (Aware_Stamp t) = t"
| "stamp_order (Naive_Stamp t) = t"
| "stamp_order _ = 0"

definition row_rank :: "instant \<Rightarrow> approval_row \<Rightarrow> rank" where
  "row_rank now row =
     Rank (pending_priority now row) (stamp_order (ar_requested_at row)) (ar_request_id row)"

definition clamp_limit :: "int \<Rightarrow> int" where
  "clamp_limit limit = max 1 (min limit 500)"

definition ch_list_requests :: "instant \<Rightarrow> int \<Rightarrow> 'd channel \<Rightarrow> approval_row list" where
  "ch_list_requests now limit ch =
     take (nat (clamp_limit limit)) (rev (sort_key (row_rank now) (rev (map snd (ch_items ch)))))"

definition ch_poll :: "string \<Rightarrow> 'd channel \<Rightarrow> approval_row option" where
  "ch_poll rid ch =
     (case ch_row ch rid of
        None \<Rightarrow> None | Some row \<Rightarrow> if ar_decision row = [] then None else Some row)"

text \<open>\<open>decide\<close> checks neither the expiry nor the fingerprint, and does not roll back.\<close>

definition ch_decide :: "'d persist \<Rightarrow> instant \<Rightarrow> string \<Rightarrow> string \<Rightarrow> string \<Rightarrow> string \<Rightarrow>
    'd channel \<Rightarrow> (store_error + approval_row) \<times> 'd channel" where
  "ch_decide persist now rid decision responder reason ch =
     (case ch_row ch rid of
        None \<Rightarrow> (Inl (Unknown_Request rid), ch)
      | Some before \<Rightarrow>
          if ar_decision before \<noteq> []
          then (Inl (Answered_Before (ar_decision before) (str_or (ar_responder before) ''unknown'')), ch)
          else let row = before\<lparr>ar_decision := decision, ar_responder := responder,
                          ar_reason := reason, ar_decided_at := Aware_Stamp now\<rparr>;
                   (ok, ch') = persisted persist (put_row rid row ch)
               in (if ok then Inr row else Inl Persist_Raised, ch'))"

definition ch_pending :: "'d channel \<Rightarrow> approval_row list" where
  "ch_pending ch = filter (\<lambda>row. ar_decision row = []) (map snd (ch_items ch))"

definition ch_reset :: "('d \<Rightarrow> 'd) \<Rightarrow> 'd channel \<Rightarrow> 'd channel" where
  "ch_reset on_reset ch = ch\<lparr>ch_items := [], ch_backing := on_reset (ch_backing ch)\<rparr>"

definition no_hook :: "unit persist" where
  "no_hook items b = (True, ())"

section \<open>The operations of a channel as one machine\<close>

text \<open>
  The operations the web gate, the command line and the polling gate perform. Each
  carries the hook outcome that it will meet.
\<close>

datatype ch_op =
    Ch_Open_Exact instant approval_row
  | Ch_Decide_Exact instant string string string string string
  | Ch_Consume instant string string
  | Ch_Decide instant string string string string
  | Ch_Poll string
  | Ch_List instant int

datatype ch_answer =
    Ch_Done "store_error + unit"
  | Ch_Row "store_error + approval_row"
  | Ch_Consumed "store_error + bool"
  | Ch_Found "approval_row option"
  | Ch_Rows "approval_row list"

fun ch_step :: "'d persist \<Rightarrow> (string \<Rightarrow> string) \<Rightarrow> ch_op \<Rightarrow> 'd channel \<Rightarrow> ch_answer \<times> 'd channel" where
  "ch_step p redact (Ch_Open_Exact now row) ch = apfst Ch_Done (ch_open_exact p now row ch)"
| "ch_step p redact (Ch_Decide_Exact now rid decision fp who reason) ch =
     apfst Ch_Row (ch_decide_exact p redact now rid decision fp who reason ch)"
| "ch_step p redact (Ch_Consume now rid fp) ch = apfst Ch_Consumed (ch_consume_exact p now rid fp ch)"
| "ch_step p redact (Ch_Decide now rid decision who reason) ch =
     apfst Ch_Row (ch_decide p now rid decision who reason ch)"
| "ch_step p redact (Ch_Poll rid) ch = (Ch_Found (ch_poll rid ch), ch)"
| "ch_step p redact (Ch_List now limit) ch = (Ch_Rows (ch_list_requests now limit ch), ch)"

fun ch_won :: "ch_op \<Rightarrow> ch_answer \<Rightarrow> string option" where
  "ch_won (Ch_Consume now rid fp) (Ch_Consumed (Inr True)) = Some rid"
| "ch_won _ _ = None"

definition ch_spent :: "'d channel \<Rightarrow> string \<Rightarrow> bool" where
  "ch_spent ch rid \<longleftrightarrow> (\<exists>row. ch_row ch rid = Some row \<and> ar_consumed_at row \<noteq> No_Stamp)"

lemma ch_row_put [simp]:
  "ch_row (put_row rid row ch) rid' = (if rid' = rid then Some row else ch_row ch rid')"
  by (simp add: ch_row_def put_row_def)

lemma map_of_items [simp]: "map_of (ch_items ch) rid = ch_row ch rid"
  by (simp add: ch_row_def)

lemma ch_row_items [simp]: "ch_row (ch\<lparr>ch_items := items\<rparr>) rid = map_of items rid"
  by (simp add: ch_row_def)

lemma persisted_row [simp]:
  "persisted p ch = (ok, ch') \<Longrightarrow> ch_row ch' rid = ch_row ch rid"
  by (auto simp: persisted_def ch_row_def simp del: map_of_items split: prod.splits)

lemmas channel_defs =
  ch_open_exact_def ch_decide_exact_def ch_consume_exact_def ch_decide_def Let_def

text \<open>What one operation does to the row of one request.\<close>

lemma ch_step_row:
  assumes "ch_row ch rid = Some row"
  shows "\<exists>row'. ch_row (snd (ch_step p redact x ch)) rid = Some row' \<and>
    ar_fingerprint row' = ar_fingerprint row \<and> ar_expires_at row' = ar_expires_at row \<and>
    ar_action row' = ar_action row \<and> ar_arguments row' = ar_arguments row \<and>
    (ar_consumed_at row \<noteq> No_Stamp \<longrightarrow> ar_consumed_at row' = ar_consumed_at row) \<and>
    (ar_decision row \<noteq> [] \<longrightarrow> ar_decision row' = ar_decision row \<and>
       ar_responder row' = ar_responder row \<and> ar_decided_at row' = ar_decided_at row)"
  using assms
  by (cases x) (auto simp: channel_defs assert_open_def split: option.splits if_splits prod.splits sum.splits stamp.splits)

lemma ch_won_iff: "ch_won x a = Some rid \<longleftrightarrow> (\<exists>now fp. x = Ch_Consume now rid fp \<and> a = Ch_Consumed (Inr True))"
  by (auto elim!: ch_won.elims)

lemma assert_open_ok:
  "assert_open now row fp = Inr u \<longleftrightarrow>
     fp \<noteq> [] \<and> ar_fingerprint row = fp \<and> ar_decision row = [] \<and>
     ar_consumed_at row = No_Stamp \<and> (\<exists>e. ar_expires_at row = Aware_Stamp e \<and> now < e)"
  by (auto simp: assert_open_def split: stamp.splits)

lemma ch_consume_cases:
  assumes "fst (ch_consume_exact p now rid fp ch) = Inr True"
  obtains row where "ch_row ch rid = Some row" "ar_decision row = ''approve''"
    "ar_consumed_at row = No_Stamp" "assert_open now (row\<lparr>ar_decision := []\<rparr>) fp = Inr ()"
    "ch_row (snd (ch_consume_exact p now rid fp ch)) rid =
       Some (row\<lparr>ar_consumed_at := Aware_Stamp now\<rparr>)"
  using assms
  by (simp add: ch_consume_exact_def Let_def split: option.splits if_splits prod.splits sum.splits)

interpretation chan: one_shot "ch_step p redact" "\<lambda>_. True" ch_won ch_spent
proof (unfold_locales, goal_cases)
  case (2 ch x rid)
  then show ?case
    by (auto simp: ch_won_iff ch_spent_def elim!: ch_consume_cases)
next
  case (3 ch x rid)
  then show ?case
    by (auto simp: ch_won_iff ch_spent_def elim!: ch_consume_cases)
next
  case (4 ch rid x)
  then obtain row where row: "ch_row ch rid = Some row" "ar_consumed_at row \<noteq> No_Stamp"
    by (auto simp: ch_spent_def)
  from ch_step_row [OF row(1), of p redact x] row(2) show ?case
    by (auto simp: ch_spent_def)
qed simp

section \<open>The JSON-file channel\<close>

text \<open>
  The file is absent, unreadable (or not an object), or holds the rows. A write either
  completes or raises and leaves the file in some state. Every overridden operation
  re-reads the file into the rows first; \<open>open\<close> and \<open>reset\<close> are inherited as they
  are and do not.
\<close>

datatype disk = No_File | Unreadable_File | File_Rows rows

datatype write_outcome = Written | Write_Broke disk

definition loaded :: "disk \<Rightarrow> rows" where
  "loaded d = (case d of No_File \<Rightarrow> [] | Unreadable_File \<Rightarrow> [] | File_Rows rows \<Rightarrow> rows)"

definition file_hook :: "write_outcome \<Rightarrow> disk persist" where
  "file_hook io items d = (case io of Written \<Rightarrow> (True, File_Rows items) | Write_Broke d' \<Rightarrow> (False, d'))"

definition reload :: "disk channel \<Rightarrow> disk channel" where
  "reload ch = ch\<lparr>ch_items := loaded (ch_backing ch)\<rparr>"

definition file_channel :: "disk \<Rightarrow> disk channel" where
  "file_channel d = \<lparr>ch_items = loaded d, ch_backing = d\<rparr>"

definition file_step :: "write_outcome \<Rightarrow> (string \<Rightarrow> string) \<Rightarrow> ch_op \<Rightarrow> disk channel \<Rightarrow>
    ch_answer \<times> disk channel" where
  "file_step io redact x ch = ch_step (file_hook io) redact x (reload ch)"

definition file_pending :: "disk channel \<Rightarrow> approval_row list" where
  "file_pending ch = ch_pending (reload ch)"

definition file_get :: "string \<Rightarrow> disk channel \<Rightarrow> approval_row option" where
  "file_get rid ch = ch_row (reload ch) rid"

definition file_open :: "write_outcome \<Rightarrow> approval_row \<Rightarrow> disk channel \<Rightarrow> (store_error + unit) \<times> disk channel" where
  "file_open io row ch = ch_open (file_hook io) row ch"

definition file_reset :: "disk channel \<Rightarrow> disk channel" where
  "file_reset ch = ch_reset (\<lambda>_. No_File) ch"

text \<open>
  Several processes share the file, each with rows of its own that may be stale:
  an operation is performed by a process that remembers \<open>cache\<close>.
\<close>

fun shared_step :: "(string \<Rightarrow> string) \<Rightarrow> rows \<times> ch_op \<Rightarrow> disk \<Rightarrow> ch_answer \<times> disk" where
  "shared_step redact (cache, x) d =
     apsnd ch_backing (file_step Written redact x \<lparr>ch_items = cache, ch_backing = d\<rparr>)"

lemma written_put [simp]:
  "persisted (file_hook Written) ch = (True, ch\<lparr>ch_backing := File_Rows (ch_items ch)\<rparr>)"
  by (simp add: persisted_def file_hook_def)

lemma no_hook_put [simp]: "persisted no_hook ch = (True, ch)"
  by (simp add: persisted_def no_hook_def)

definition mem_channel :: "rows \<Rightarrow> unit channel" where
  "mem_channel rows = \<lparr>ch_items = rows, ch_backing = ()\<rparr>"

lemma ch_row_mem [simp]: "ch_row (mem_channel rows) rid = map_of rows rid"
  by (simp add: mem_channel_def ch_row_def)

lemma ch_row_file [simp]: "ch_row (file_channel d) rid = map_of (loaded d) rid"
  by (simp add: file_channel_def ch_row_def)

lemma items_mem [simp]: "ch_items (mem_channel rows) = rows"
  by (simp add: mem_channel_def)

lemma mem_channel_items [simp]: "mem_channel (ch_items ch) = ch"
  by (simp add: mem_channel_def)

lemma items_file [simp]: "ch_items (file_channel d) = loaded d" "ch_backing (file_channel d) = d"
  by (simp_all add: file_channel_def)

lemma loaded_rows [simp]: "loaded (File_Rows rows) = rows"
  by (simp add: loaded_def)

lemma reload_eq: "reload ch = file_channel (ch_backing ch)"
  by (cases ch) (simp add: reload_def file_channel_def)

text \<open>One operation on the file answers and acts as the in-memory channel on its rows.\<close>

lemma file_step_refines:
  "ch_step (file_hook Written) redact x (file_channel d) = (a, ch) \<Longrightarrow>
   ch_step no_hook redact x (mem_channel (loaded d)) = (a', ch') \<Longrightarrow>
   a = a' \<and> loaded (ch_backing ch) = ch_items ch' \<and> ch_items ch = ch_items ch'"
  by (cases x)
     (auto simp: channel_defs put_row_def ch_poll_def ch_list_requests_def
       split: option.splits if_splits sum.splits)

lemma shared_step_refines:
  "fst (shared_step redact cx d) = fst (ch_step no_hook redact (snd cx) (mem_channel (loaded d)))
   \<and> loaded (snd (shared_step redact cx d)) =
     ch_items (snd (ch_step no_hook redact (snd cx) (mem_channel (loaded d))))"
proof (cases cx)
  case (Pair cache x)
  obtain a ch where f: "ch_step (file_hook Written) redact x (file_channel d) = (a, ch)"
    by fastforce
  obtain a' ch' where m: "ch_step no_hook redact x (mem_channel (loaded d)) = (a', ch')"
    by fastforce
  show ?thesis
    using file_step_refines [OF f m] f m by (simp add: Pair file_step_def reload_eq)
qed

section \<open>The SQL channel\<close>

text \<open>
  A row of the table has the decision columns (empty for \<open>NULL\<close>) and the payload,
  \<open>None\<close> when its text does not parse. A statement is acknowledged with its count,
  or it raises or answers without a reliable count, and then it may or may not have been
  applied. \<open>now\<close> is the client's clock, \<open>srv\<close> the server's.
\<close>

record sql_row =
  col_decision :: string
  col_responder :: string
  col_decided_at :: stamp
  col_payload :: "approval_row option"

type_synonym sql_table = "(string, sql_row) dict"

datatype db_reply = Db_Replied | Db_Raised bool | Db_Uncounted bool

definition db_execute :: "db_reply \<Rightarrow> int \<Rightarrow> 't \<Rightarrow> 't \<Rightarrow> (store_error + int) \<times> 't" where
  "db_execute reply n t' t =
     (case reply of
        Db_Replied \<Rightarrow> (Inr n, t')
      | Db_Raised applied \<Rightarrow> (Inl Db_Unavailable, if applied then t' else t)
      | Db_Uncounted applied \<Rightarrow> (Inr (- 1), if applied then t' else t))"

definition aware :: "stamp \<Rightarrow> bool" where
  "aware s \<longleftrightarrow> (case s of Aware_Stamp _ \<Rightarrow> True | _ \<Rightarrow> False)"

definition decodable :: "string option \<Rightarrow> approval_row \<Rightarrow> bool" where
  "decodable rid row \<longleftrightarrow>
     ar_request_id row \<noteq> [] \<and> action_name (ar_action row) \<noteq> [] \<and> ar_fingerprint row \<noteq> [] \<and>
     (rid = None \<or> rid = Some (ar_request_id row)) \<and>
     ar_decision row \<in> {[], ''approve'', ''decline''} \<and>
     aware (ar_requested_at row) \<and> aware (ar_expires_at row) \<and>
     (ar_decided_at row = No_Stamp \<or> aware (ar_decided_at row)) \<and>
     (ar_consumed_at row = No_Stamp \<or> aware (ar_consumed_at row)) \<and>
     (ar_decision row \<noteq> [] \<longrightarrow> ar_responder row \<noteq> [] \<and> ar_decided_at row \<noteq> No_Stamp) \<and>
     (ar_consumed_at row \<noteq> No_Stamp \<longrightarrow> ar_decision row = ''approve'')"

definition sql_decode :: "string option \<Rightarrow> approval_row option \<Rightarrow> store_error + approval_row" where
  "sql_decode rid payload =
     (case payload of
        None \<Rightarrow> Inl Unreadable_State
      | Some row \<Rightarrow> if decodable rid row then Inr row else Inl Unreadable_State)"

definition sql_fetch :: "bool \<Rightarrow> string \<Rightarrow> sql_table \<Rightarrow> store_error + approval_row option" where
  "sql_fetch readable rid t =
     (if \<not> readable then Inl Db_Unavailable
      else case map_of t rid of
             None \<Rightarrow> Inr None
           | Some r \<Rightarrow> map_sum id Some (sql_decode (Some rid) (col_payload r)))"

definition sql_poll :: "bool \<Rightarrow> instant \<Rightarrow> string \<Rightarrow> sql_table \<Rightarrow> store_error + approval_row option" where
  "sql_poll readable now rid t =
     (case sql_fetch readable rid t of
        Inl e \<Rightarrow> Inl e
      | Inr None \<Rightarrow> Inr None
      | Inr (Some row) \<Rightarrow>
          if ar_decision row = [] \<or> ar_consumed_at row \<noteq> No_Stamp
             \<or> stamp_order (ar_expires_at row) \<le> now
          then Inr None else Inr (Some row))"

text \<open>
  \<open>TRY_CAST(... AS DATETIMEOFFSET)\<close> reads a text without a zone as UTC and yields
  \<open>NULL\<close>, which no comparison accepts, for one that is no timestamp.
\<close>

definition sql_unexpired :: "instant \<Rightarrow> approval_row \<Rightarrow> bool" where
  "sql_unexpired srv row \<longleftrightarrow>
     (case ar_expires_at row of
        Aware_Stamp e \<Rightarrow> srv < e | Naive_Stamp e \<Rightarrow> srv < e | _ \<Rightarrow> False)"

text \<open>
  An \<open>UPDATE\<close> of the row \<open>rid\<close> under a condition on its payload. On a payload that is
  not JSON, \<open>JSON_VALUE\<close> raises.
\<close>

definition sql_update :: "db_reply \<Rightarrow> string \<Rightarrow> (sql_row \<Rightarrow> bool) \<Rightarrow> (approval_row \<Rightarrow> bool) \<Rightarrow>
    (sql_row \<Rightarrow> approval_row \<Rightarrow> sql_row) \<Rightarrow> sql_table \<Rightarrow> (store_error + int) \<times> sql_table" where
  "sql_update reply rid cond_columns cond_payload change t =
     (case map_of t rid of
        None \<Rightarrow> db_execute reply 0 t t
      | Some r \<Rightarrow>
          if \<not> cond_columns r then db_execute reply 0 t t
          else (case col_payload r of
                  None \<Rightarrow> (Inl Db_Unavailable, t)
                | Some row \<Rightarrow>
                    if cond_payload row
                    then db_execute reply 1 (AList.update rid (change r row) t) t
                    else db_execute reply 0 t t))"

definition sql_decide_row :: "(string \<Rightarrow> string) \<Rightarrow> db_reply \<Rightarrow> instant \<Rightarrow> instant \<Rightarrow> string \<Rightarrow>
    approval_row \<Rightarrow> string \<Rightarrow> string \<Rightarrow> string \<Rightarrow> string \<Rightarrow> sql_table \<Rightarrow> (store_error + approval_row) \<times> sql_table" where
  "sql_decide_row redact reply now srv rid row decision fp responder reason t =
     (case assert_open now row fp of
        Inl e \<Rightarrow> (Inl e, t)
      | Inr _ \<Rightarrow>
          let answer = (\<lambda>p. p\<lparr>ar_decision := decision, ar_responder := responder,
                         ar_reason := redact reason, ar_decided_at := Aware_Stamp now\<rparr>);
              (won, t') = sql_update reply rid (\<lambda>r. col_decision r = [])
                (\<lambda>p. ar_fingerprint p = fp \<and> ar_consumed_at p = No_Stamp \<and> sql_unexpired srv p)
                (\<lambda>r p. \<lparr>col_decision = decision, col_responder = responder,
                         col_decided_at = Aware_Stamp now, col_payload = Some (answer p)\<rparr>) t
          in case won of
               Inl e \<Rightarrow> (Inl e, t')
             | Inr n \<Rightarrow>
                 if n \<notin> {0, 1} then (Inl No_Reliable_Count, t')
                 else if n = 0 then (Inl Lost_The_Update, t')
                 else (Inr (answer row), t'))"

definition valid_answer :: "string \<Rightarrow> string \<Rightarrow> string \<Rightarrow> bool" where
  "valid_answer decision responder fp \<longleftrightarrow>
     decision \<in> {''approve'', ''decline''} \<and> responder \<noteq> [] \<and> fp \<noteq> []"

definition sql_decide_exact :: "(string \<Rightarrow> string) \<Rightarrow> bool \<Rightarrow> db_reply \<Rightarrow> instant \<Rightarrow> instant \<Rightarrow> string \<Rightarrow>
    string \<Rightarrow> string \<Rightarrow> string \<Rightarrow> string \<Rightarrow> sql_table \<Rightarrow> (store_error + approval_row) \<times> sql_table" where
  "sql_decide_exact redact readable reply now srv rid decision fp responder reason t =
     (if \<not> valid_answer decision responder fp then (Inl Invalid_Decision_Or_Responder, t)
      else case sql_fetch readable rid t of
             Inl e \<Rightarrow> (Inl e, t)
           | Inr None \<Rightarrow> (Inl (Unknown_Request rid), t)
           | Inr (Some row) \<Rightarrow> sql_decide_row redact reply now srv rid row decision fp responder reason t)"

definition sql_decide :: "(string \<Rightarrow> string) \<Rightarrow> bool \<Rightarrow> db_reply \<Rightarrow> instant \<Rightarrow> instant \<Rightarrow> string \<Rightarrow>
    string \<Rightarrow> string \<Rightarrow> string \<Rightarrow> sql_table \<Rightarrow> (store_error + approval_row) \<times> sql_table" where
  "sql_decide redact readable reply now srv rid decision responder reason t =
     (case sql_fetch readable rid t of
        Inl e \<Rightarrow> (Inl e, t)
      | Inr None \<Rightarrow> (Inl (Unknown_Request rid), t)
      | Inr (Some row) \<Rightarrow>
          sql_decide_exact redact readable reply now srv rid decision (ar_fingerprint row) responder reason t)"

definition sql_consume_exact :: "db_reply \<Rightarrow> instant \<Rightarrow> instant \<Rightarrow> string \<Rightarrow> string \<Rightarrow>
    sql_table \<Rightarrow> (store_error + bool) \<times> sql_table" where
  "sql_consume_exact reply now srv rid fp t =
     (let (n, t') = sql_update reply rid (\<lambda>r. col_decision r = ''approve'')
            (\<lambda>p. ar_fingerprint p = fp \<and> ar_consumed_at p = No_Stamp \<and> sql_unexpired srv p)
            (\<lambda>r p. r\<lparr>col_payload := Some (p\<lparr>ar_consumed_at := Aware_Stamp now\<rparr>)\<rparr>) t
      in case n of
           Inl e \<Rightarrow> (Inl e, t')
         | Inr k \<Rightarrow> (if k \<notin> {0, 1} then Inl No_Reliable_Count else Inr (k = 1), t'))"

text \<open>
  \<open>_write\<close> inserts only where no row exists; an existing row is confirmed to be the
  same open proposal and left alone.
\<close>

definition sql_write :: "bool \<Rightarrow> db_reply \<Rightarrow> instant \<Rightarrow> string \<Rightarrow> approval_row \<Rightarrow> sql_table \<Rightarrow>
    (store_error + unit) \<times> sql_table" where
  "sql_write readable reply now rid row t =
     (if \<not> decodable (Some rid) row then (Inl Unreadable_State, t)
      else case assert_open now row (ar_fingerprint row) of
             Inl e \<Rightarrow> (Inl e, t)
           | Inr _ \<Rightarrow>
               let fresh = \<lparr>col_decision = [], col_responder = [], col_decided_at = No_Stamp,
                            col_payload = Some row\<rparr>;
                   (inserted, t') =
                     (if map_of t rid = None then db_execute reply 1 (AList.update rid fresh t) t
                      else db_execute reply 0 t t)
               in case inserted of
                    Inl e \<Rightarrow> (Inl e, t')
                  | Inr n \<Rightarrow>
                      if n \<notin> {0, 1} then (Inl No_Reliable_Count, t')
                      else if n = 0
                      then (case sql_fetch readable rid t' of
                              Inl e \<Rightarrow> (Inl e, t')
                            | Inr None \<Rightarrow> (Inl Existing_Not_Confirmed, t')
                            | Inr (Some prior) \<Rightarrow> (assert_open now prior (ar_fingerprint row), t'))
                      else (Inr (), t'))"

definition sql_open_exact :: "bool \<Rightarrow> db_reply \<Rightarrow> instant \<Rightarrow> approval_row \<Rightarrow> sql_table \<Rightarrow>
    (store_error + unit) \<times> sql_table" where
  "sql_open_exact readable reply now row t =
     sql_write readable reply now (ar_request_id row) (row\<lparr>ar_delivery_channel := Some ''web''\<rparr>) t"

definition sql_reset :: "db_reply \<Rightarrow> sql_table \<Rightarrow> (store_error + unit) \<times> sql_table" where
  "sql_reset reply t =
     (let (n, t') = db_execute reply (int (List.length t)) [] t
      in case n of
           Inl e \<Rightarrow> (Inl e, t')
         | Inr k \<Rightarrow> (if k < 0 then Inl No_Reliable_Count else Inr (), t'))"

text \<open>
  The statements of all clients of the table as one machine, whatever each meets. The
  read and the update of a decision are separate statements: \<open>Sql_Decide_Seen\<close> is the
  update of a client that read \<open>row\<close> at some earlier time.
\<close>

datatype sql_op =
    Sql_Open bool db_reply instant approval_row
  | Sql_Decide_Exact bool db_reply instant instant string string string string string
  | Sql_Decide bool db_reply instant instant string string string string
  | Sql_Decide_Seen db_reply instant instant string approval_row string string string string
  | Sql_Consume db_reply instant instant string string
  | Sql_Poll bool instant string

fun sql_step :: "(string \<Rightarrow> string) \<Rightarrow> sql_op \<Rightarrow> sql_table \<Rightarrow> ch_answer \<times> sql_table" where
  "sql_step redact (Sql_Open rd re now row) t = apfst Ch_Done (sql_open_exact rd re now row t)"
| "sql_step redact (Sql_Decide_Exact rd re now srv rid decision fp who reason) t =
     apfst Ch_Row (sql_decide_exact redact rd re now srv rid decision fp who reason t)"
| "sql_step redact (Sql_Decide rd re now srv rid decision who reason) t =
     apfst Ch_Row (sql_decide redact rd re now srv rid decision who reason t)"
| "sql_step redact (Sql_Decide_Seen re now srv rid row decision fp who reason) t =
     (if valid_answer decision who fp
      then apfst Ch_Row (sql_decide_row redact re now srv rid row decision fp who reason t)
      else (Ch_Row (Inl Invalid_Decision_Or_Responder), t))"
| "sql_step redact (Sql_Consume re now srv rid fp) t =
     apfst Ch_Consumed (sql_consume_exact re now srv rid fp t)"
| "sql_step redact (Sql_Poll rd now rid) t =
     (Ch_Found (case sql_poll rd now rid t of Inr r \<Rightarrow> r | Inl _ \<Rightarrow> None), t)"

fun sql_won :: "sql_op \<Rightarrow> ch_answer \<Rightarrow> string option" where
  "sql_won (Sql_Consume re now srv rid fp) (Ch_Consumed (Inr True)) = Some rid"
| "sql_won _ _ = None"

definition sql_spent :: "sql_table \<Rightarrow> string \<Rightarrow> bool" where
  "sql_spent t rid \<longleftrightarrow>
     (\<exists>r p. map_of t rid = Some r \<and> col_payload r = Some p \<and> ar_consumed_at p \<noteq> No_Stamp)"

lemma sql_won_iff: "sql_won x a = Some rid \<longleftrightarrow>
    (\<exists>re now srv fp. x = Sql_Consume re now srv rid fp \<and> a = Ch_Consumed (Inr True))"
  by (auto elim!: sql_won.elims)

lemma db_execute_cases:
  assumes "db_execute reply n t' t = (a, s)"
  shows "s = t' \<or> s = t" and "a = Inr 1 \<Longrightarrow> s = t'" and "a = Inr k \<Longrightarrow> k = n \<or> k = - 1"
  using assms by (auto simp: db_execute_def split: db_reply.splits if_splits)

text \<open>What an update can have done, acknowledged or not.\<close>

lemma sql_update_cases:
  assumes "sql_update reply rid cc cp ch t = (a, t')"
  shows "t' = t \<or> (\<exists>r p. map_of t rid = Some r \<and> cc r \<and> col_payload r = Some p \<and> cp p \<and>
           t' = AList.update rid (ch r p) t)"
    and "a = Inr 1 \<Longrightarrow> (\<exists>r p. map_of t rid = Some r \<and> cc r \<and> col_payload r = Some p \<and> cp p \<and>
           t' = AList.update rid (ch r p) t)"
  using assms
  by (auto simp: sql_update_def db_execute_def split: option.splits if_splits db_reply.splits)

lemma sql_consume_won:
  assumes "fst (sql_consume_exact reply now srv rid fp t) = Inr True"
  obtains r p where "map_of t rid = Some r" "col_decision r = ''approve''" "col_payload r = Some p"
    "ar_fingerprint p = fp" "ar_consumed_at p = No_Stamp" "sql_unexpired srv p"
    "snd (sql_consume_exact reply now srv rid fp t) =
       AList.update rid (r\<lparr>col_payload := Some (p\<lparr>ar_consumed_at := Aware_Stamp now\<rparr>)\<rparr>) t"
proof -
  define u where "u = sql_update reply rid (\<lambda>r. col_decision r = ''approve'')
            (\<lambda>p. ar_fingerprint p = fp \<and> ar_consumed_at p = No_Stamp \<and> sql_unexpired srv p)
            (\<lambda>r p. r\<lparr>col_payload := Some (p\<lparr>ar_consumed_at := Aware_Stamp now\<rparr>)\<rparr>) t"
  have "u = (Inr 1, snd u)"
    using assms unfolding u_def sql_consume_exact_def
    by (auto simp: Let_def split: prod.splits sum.splits if_splits)
  from sql_update_cases(2) [OF this [unfolded u_def] refl] that assms show ?thesis
    unfolding sql_consume_exact_def u_def [symmetric] using \<open>u = (Inr 1, snd u)\<close>
    by (fastforce simp: Let_def u_def split: prod.splits)
qed

text \<open>
  A statement leaves the row of a request with its proposal, its consumption and its
  answer once they are there.
\<close>

definition row_kept :: "sql_row \<Rightarrow> sql_row \<Rightarrow> bool" where
  "row_kept r r' \<longleftrightarrow>
     (col_decision r \<noteq> [] \<longrightarrow> col_decision r' = col_decision r \<and> col_responder r' = col_responder r \<and>
        col_decided_at r' = col_decided_at r) \<and>
     (\<forall>p. col_payload r = Some p \<longrightarrow> (\<exists>p'. col_payload r' = Some p' \<and>
        ar_fingerprint p' = ar_fingerprint p \<and> ar_action p' = ar_action p \<and>
        ar_arguments p' = ar_arguments p \<and> ar_expires_at p' = ar_expires_at p \<and>
        (ar_consumed_at p \<noteq> No_Stamp \<longrightarrow> ar_consumed_at p' = ar_consumed_at p)))"

lemma row_kept_refl [simp, intro]: "row_kept r r"
  by (auto simp: row_kept_def)

lemma row_kept_trans: "row_kept a b \<Longrightarrow> row_kept b c \<Longrightarrow> row_kept a c"
  unfolding row_kept_def
  by (cases "col_payload a"; cases "col_payload b"; cases "col_payload c") auto

lemma sql_update_kept:
  assumes "sql_update reply rid' cc cp ch t = (a, t')" and "map_of t rid = Some r"
    and "\<And>r p. cc r \<Longrightarrow> cp p \<Longrightarrow> col_payload r = Some p \<Longrightarrow> row_kept r (ch r p)"
  shows "\<exists>r'. map_of t' rid = Some r' \<and> row_kept r r'"
  using sql_update_cases(1) [OF assms(1)] assms(2,3) by (auto split: if_splits)

lemma sql_decide_row_kept:
  assumes "map_of t rid = Some r"
  shows "\<exists>r'. map_of (snd (sql_decide_row redact re now srv rid' row d fp who why t)) rid = Some r'
           \<and> row_kept r r'"
proof -
  let ?u = "sql_update re rid' (\<lambda>r. col_decision r = [])
     (\<lambda>p. ar_fingerprint p = fp \<and> ar_consumed_at p = No_Stamp \<and> sql_unexpired srv p)
     (\<lambda>r p. \<lparr>col_decision = d, col_responder = who, col_decided_at = Aware_Stamp now,
        col_payload = Some (p\<lparr>ar_decision := d, ar_responder := who,
          ar_reason := redact why, ar_decided_at := Aware_Stamp now\<rparr>)\<rparr>) t"
  have "snd (sql_decide_row redact re now srv rid' row d fp who why t) \<in> {t, snd ?u}"
    by (auto simp: sql_decide_row_def Let_def split: sum.splits option.splits prod.splits)
  moreover have "\<exists>r'. map_of (snd ?u) rid = Some r' \<and> row_kept r r'"
    by (rule sql_update_kept [OF prod.collapse [symmetric] assms]) (auto simp: row_kept_def)
  ultimately show ?thesis using assms by auto
qed

lemma sql_decide_exact_kept:
  assumes "map_of t rid = Some r"
  shows "\<exists>r'. map_of (snd (sql_decide_exact redact rd re now srv rid' d fp who why t)) rid = Some r'
           \<and> row_kept r r'"
  using assms sql_decide_row_kept [OF assms]
  by (auto simp: sql_decide_exact_def split: sum.splits option.splits)

lemma sql_consume_kept:
  assumes "map_of t rid = Some r"
  shows "\<exists>r'. map_of (snd (sql_consume_exact re now srv rid' fp t)) rid = Some r' \<and> row_kept r r'"
proof -
  let ?u = "sql_update re rid' (\<lambda>r. col_decision r = ''approve'')
     (\<lambda>p. ar_fingerprint p = fp \<and> ar_consumed_at p = No_Stamp \<and> sql_unexpired srv p)
     (\<lambda>r p. r\<lparr>col_payload := Some (p\<lparr>ar_consumed_at := Aware_Stamp now\<rparr>)\<rparr>) t"
  have "snd (sql_consume_exact re now srv rid' fp t) = snd ?u"
    by (auto simp: sql_consume_exact_def Let_def split: sum.splits prod.splits)
  moreover have "\<exists>r'. map_of (snd ?u) rid = Some r' \<and> row_kept r r'"
    by (rule sql_update_kept [OF prod.collapse [symmetric] assms]) (auto simp: row_kept_def)
  ultimately show ?thesis by simp
qed

lemma sql_open_table:
  "snd (sql_open_exact rd re now row t) = t \<or>
   map_of t (ar_request_id row) = None \<and>
   (\<exists>r. snd (sql_open_exact rd re now row t) = AList.update (ar_request_id row) r t)"
  by (auto simp: sql_open_exact_def sql_write_def db_execute_def Let_def
      split: sum.splits prod.splits db_reply.splits option.splits)

lemma sql_step_kept:
  assumes "map_of t rid = Some r"
  shows "\<exists>r'. map_of (snd (sql_step redact x t)) rid = Some r' \<and> row_kept r r'"
proof (cases x)
  case (Sql_Open rd re now row)
  then show ?thesis using assms sql_open_table [of rd re now row t] by auto
next
  case (Sql_Decide_Exact rd re now srv rid' d fp who why)
  then show ?thesis using sql_decide_exact_kept [OF assms] by simp
next
  case (Sql_Decide rd re now srv rid' d who why)
  then show ?thesis using sql_decide_exact_kept [OF assms] assms
    by (auto simp: sql_decide_def split: sum.splits option.splits)
next
  case (Sql_Decide_Seen re now srv rid' row d fp who why)
  then show ?thesis using sql_decide_row_kept [OF assms] assms by auto
next
  case (Sql_Consume re now srv rid' fp)
  then show ?thesis using sql_consume_kept [OF assms] by simp
next
  case (Sql_Poll rd now rid')
  then show ?thesis using assms by auto
qed

lemma sql_run_kept:
  "map_of t rid = Some r \<Longrightarrow> \<exists>r'. map_of (run (sql_step redact) xs t) rid = Some r' \<and> row_kept r r'"
proof (induction xs arbitrary: t r)
  case Nil
  then show ?case by auto
next
  case (Cons x xs)
  obtain r1 where r1: "map_of (snd (sql_step redact x t)) rid = Some r1" "row_kept r r1"
    using sql_step_kept [OF Cons.prems] by blast
  from Cons.IH [OF r1(1)] r1(2) show ?case by (auto intro: row_kept_trans)
qed

interpretation sql: one_shot "sql_step redact" "\<lambda>_. True" sql_won sql_spent
proof (unfold_locales, goal_cases)
  case (2 t x rid)
  then show ?case by (auto simp: sql_won_iff sql_spent_def elim!: sql_consume_won)
next
  case (3 t x rid)
  then show ?case by (auto simp: sql_won_iff sql_spent_def elim!: sql_consume_won)
next
  case (4 t rid x)
  then obtain r p where r: "map_of t rid = Some r" "col_payload r = Some p" "ar_consumed_at p \<noteq> No_Stamp"
    by (auto simp: sql_spent_def)
  from sql_step_kept [OF r(1), of redact x] r(2,3) show ?case
    by (fastforce simp: sql_spent_def row_kept_def)
qed simp

text \<open>Of all answers to one request, at most one is acknowledged as recorded.\<close>

fun sql_answered :: "sql_op \<Rightarrow> ch_answer \<Rightarrow> string option" where
  "sql_answered (Sql_Decide_Exact _ _ _ _ rid _ _ _ _) (Ch_Row (Inr _)) = Some rid"
| "sql_answered (Sql_Decide _ _ _ _ rid _ _ _) (Ch_Row (Inr _)) = Some rid"
| "sql_answered (Sql_Decide_Seen _ _ _ rid _ _ _ _ _) (Ch_Row (Inr _)) = Some rid"
| "sql_answered _ _ = None"

definition sql_is_answered :: "sql_table \<Rightarrow> string \<Rightarrow> bool" where
  "sql_is_answered t rid \<longleftrightarrow> (\<exists>r. map_of t rid = Some r \<and> col_decision r \<noteq> [])"

lemma sql_decide_row_won:
  assumes "fst (sql_decide_row redact re now srv rid row d fp who why t) = Inr row'"
    and "valid_answer d who fp"
  shows "\<not> sql_is_answered t rid \<and>
         sql_is_answered (snd (sql_decide_row redact re now srv rid row d fp who why t)) rid"
proof -
  define u where "u = sql_update re rid (\<lambda>r. col_decision r = [])
     (\<lambda>p. ar_fingerprint p = fp \<and> ar_consumed_at p = No_Stamp \<and> sql_unexpired srv p)
     (\<lambda>r p. \<lparr>col_decision = d, col_responder = who, col_decided_at = Aware_Stamp now,
        col_payload = Some (p\<lparr>ar_decision := d, ar_responder := who,
          ar_reason := redact why, ar_decided_at := Aware_Stamp now\<rparr>)\<rparr>) t"
  have "u = (Inr 1, snd u) \<and> snd (sql_decide_row redact re now srv rid row d fp who why t) = snd u"
    using assms(1) unfolding u_def sql_decide_row_def
    by (auto simp: Let_def split: prod.splits sum.splits if_splits)
  with sql_update_cases(2) [of re rid _ _ _ t "Inr 1" "snd u", folded u_def] assms(2)
  show ?thesis
    unfolding u_def by (fastforce simp: sql_is_answered_def valid_answer_def)
qed

lemma sql_decide_row_won_eq:
  assumes "sql_decide_row redact re now srv rid row d fp who why t = (Inr row', t')"
    and "valid_answer d who fp"
  shows "\<not> sql_is_answered t rid \<and> sql_is_answered t' rid"
  using sql_decide_row_won [of redact re now srv rid row d fp who why t row'] assms by simp

lemma sql_answered_won:
  assumes "sql_answered x (fst (sql_step redact x t)) = Some rid"
  shows "\<not> sql_is_answered t rid \<and> sql_is_answered (snd (sql_step redact x t)) rid"
  using assms
  by (auto elim!: sql_answered.elims
      simp: sql_decide_exact_def sql_decide_def apfst_def map_prod_def
      split: if_splits sum.splits option.splits prod.splits)
     (use sql_decide_row_won_eq in blast)+

interpretation answer: one_shot "sql_step redact" "\<lambda>_. True" sql_answered sql_is_answered
proof (unfold_locales, goal_cases)
  case (1 t x rid)
  then show ?case using sql_answered_won by blast
next
  case (2 t x rid)
  then show ?case using sql_answered_won by blast
next
  case (3 t rid x)
  then show ?case
    using sql_step_kept [of t rid _ redact x] by (fastforce simp: sql_is_answered_def row_kept_def)
qed

section \<open>Properties\<close>


text \<open>
  The SQL channel lets a consumption succeed only for a recorded approval of exactly
  that proposal, unexpired by the server's clock and not consumed before, and then the
  only change is the consumption mark; the in-memory channel demands the same of its
  own clock and an expiry with a time zone.
\<close>

lemma consumption_needs_live_approval:
  "(fst (sql_consume_exact reply now srv rid fp t) = Inr True \<longrightarrow>
      (\<exists>r p. map_of t rid = Some r \<and> col_decision r = ''approve'' \<and> col_payload r = Some p \<and>
         ar_fingerprint p = fp \<and> ar_consumed_at p = No_Stamp \<and> sql_unexpired srv p \<and>
         snd (sql_consume_exact reply now srv rid fp t) =
           AList.update rid (r\<lparr>col_payload := Some (p\<lparr>ar_consumed_at := Aware_Stamp now\<rparr>)\<rparr>) t)) \<and>
   (fst (ch_consume_exact no_hook now rid fp ch) = Inr True \<longleftrightarrow>
      (\<exists>row e. ch_row ch rid = Some row \<and> ar_decision row = ''approve'' \<and>
         ar_consumed_at row = No_Stamp \<and> fp \<noteq> [] \<and> ar_fingerprint row = fp \<and>
         ar_expires_at row = Aware_Stamp e \<and> now < e))"
proof (intro conjI impI, goal_cases)
  case 1
  then show ?case by (blast elim: sql_consume_won)
next
  case 2
  show ?case
    by (auto simp: ch_consume_exact_def assert_open_def Let_def
        split: option.splits sum.splits stamp.splits)
qed

definition example_row :: approval_row where
  "example_row = (request_row id id (\<lambda>_. None) example_request)
     \<lparr>ar_decision := ''approve'', ar_responder := ''ann'', ar_decided_at := Aware_Stamp 1\<rparr>"

definition example_table :: sql_table where
  "example_table = [(''r1'', \<lparr>col_decision = ''approve'', col_responder = ''ann'',
      col_decided_at = Aware_Stamp 1, col_payload = Some example_row\<rparr>)]"

lemma example_consumption:
  "fst (sql_consume_exact Db_Replied 2 2 ''r1'' (ar_fingerprint example_row) example_table) = Inr True"
  by code_simp

lemma consumption_needs_live_approval_witness:
  "\<exists>r p. map_of example_table ''r1'' = Some r \<and> col_payload r = Some p \<and> sql_unexpired 2 p"
  using consumption_needs_live_approval [of Db_Replied 2 2 "''r1''" "ar_fingerprint example_row" example_table]
    example_consumption by blast

text \<open>
  Answers are write-once in the SQL channel: of all the answers of any responders to
  one request, however their reads and updates interleave, at most one is acknowledged,
  and a recorded answer keeps its decision, responder and time, and its proposal, through
  every later statement.
\<close>

lemma sql_answers_write_once:
  "count_wins (sql_step redact) sql_answered rid xs t \<le> 1 \<and>
   (\<forall>r. map_of t rid = Some r \<and> col_decision r \<noteq> [] \<longrightarrow>
     (\<exists>r'. map_of (run (sql_step redact) xs t) rid = Some r' \<and> row_kept r r' \<and>
        col_decision r' = col_decision r \<and> col_responder r' = col_responder r \<and>
        col_decided_at r' = col_decided_at r))"
proof (intro conjI allI impI)
  show "count_wins (sql_step redact) sql_answered rid xs t \<le> 1"
    by (rule answer.wins_once) simp
  fix r
  assume r: "map_of t rid = Some r \<and> col_decision r \<noteq> []"
  with sql_run_kept [of t rid r redact xs] obtain r' where
    "map_of (run (sql_step redact) xs t) rid = Some r'" "row_kept r r'" by blast
  with r show "\<exists>r'. map_of (run (sql_step redact) xs t) rid = Some r' \<and> row_kept r r' \<and>
        col_decision r' = col_decision r \<and> col_responder r' = col_responder r \<and>
        col_decided_at r' = col_decided_at r"
    by (auto simp: row_kept_def)
qed

lemma sql_answers_write_once_witness:
  "\<exists>r'. map_of (run (sql_step id) [Sql_Decide True (Db_Raised True) 3 3 ''r1'' ''decline'' ''bob'' []]
         example_table) ''r1'' = Some r' \<and> col_decision r' = ''approve''"
  using sql_answers_write_once [of id "''r1''"
      "[Sql_Decide True (Db_Raised True) 3 3 ''r1'' ''decline'' ''bob'' []]" example_table]
  by (auto simp: example_table_def)


lemma sorted_rev_rank: "sorted_wrt (\<lambda>a b. f b \<le> f a) (rev (sort_key f xs))"
  using sorted_sort_key [of f xs] by (simp only: sorted_wrt_rev sorted_map)

text \<open>
  The operator's list never shows an answered, consumed or expired request ahead of
  an open one, is ordered newest first among each, and is the requested number of the
  channel's rows, between 1 and 500.
\<close>

theorem listing_puts_open_requests_first:
  "let rows = ch_list_requests now limit ch
   in sorted_wrt (\<lambda>a b. row_rank now b \<le> row_rank now a) rows \<and>
      sorted_wrt (\<lambda>a b. pending_priority now b \<le> pending_priority now a) rows \<and>
      set rows \<subseteq> snd ` set (ch_items ch) \<and>
      List.length rows = min (List.length (ch_items ch)) (nat (max 1 (min limit 500)))"
proof -
  let ?xs = "rev (sort_key (row_rank now) (rev (map snd (ch_items ch))))"
  have s: "sorted_wrt (\<lambda>a b. row_rank now b \<le> row_rank now a) (take n ?xs)" for n
    by (rule sorted_wrt_take) (rule sorted_rev_rank)
  then have "sorted_wrt (\<lambda>a b. pending_priority now b \<le> pending_priority now a) (take n ?xs)" for n
    by (rule sorted_wrt_mono_rel [rotated])
       (auto simp: row_rank_def less_eq_rank_def)
  with s show ?thesis
    by (auto simp: Let_def ch_list_requests_def clamp_limit_def dest!: in_set_takeD)
qed


definition example_decision :: approval_decision where
  "example_decision = fst (auto_approve id ''apr-1'' 1 ''ann'' example_request [])"


end
