(* ===== verification/Claims.thy ===== *)
theory Claims
  imports Approval_Store
begin

text \<open>
  \<^verbatim>\<open>src/src/triage/store/claims.py\<close>: the claim that keeps two invocations from doing
  the same work. The in-memory store holds expiry times; the SQL store holds rows, takes a
  claim by inserting its key, steals it when it has expired by the server's clock, and
  deletes it only where the owner token still matches.
\<close>

definition DEFAULT_LEASE_SECONDS :: int where
  "DEFAULT_LEASE_SECONDS = 600"

section \<open>One process\<close>

type_synonym held_claims = "(string, instant) dict"

definition mem_claim :: "instant \<Rightarrow> string \<Rightarrow> int \<Rightarrow> held_claims \<Rightarrow> bool \<times> held_claims" where
  "mem_claim now key lease_seconds held =
     (if (case map_of held key of None \<Rightarrow> False | Some expires \<Rightarrow> now < expires)
      then (False, held)
      else (True, AList.update key (now + seconds lease_seconds) held))"

definition mem_release :: "string \<Rightarrow> held_claims \<Rightarrow> held_claims" where
  "mem_release key held = AList.delete key held"

section \<open>Many processes\<close>

record claim_row =
  cl_owner :: string
  cl_claimed_at :: instant
  cl_expires_at :: instant
  cl_text :: string

type_synonym claim_table = "(string, claim_row) dict"

text \<open>\<open>row_key\<close>: the first 48 digits of the hash, an argument, of the key.\<close>

definition row_key :: "(string \<Rightarrow> string) \<Rightarrow> string \<Rightarrow> string" where
  "row_key sha key = take 48 (sha key)"

text \<open>
  The insert raises for a present key; \<open>Db_Raised\<close> is any other failure, after which an
  insert of an absent key may or may not have happened.
\<close>

definition claim_insert :: "db_reply \<Rightarrow> instant \<Rightarrow> string \<Rightarrow> string \<Rightarrow> int \<Rightarrow> string \<Rightarrow> claim_table \<Rightarrow>
    (bool + unit) \<times> claim_table" where
  "claim_insert reply now row owner ttl text t =
     (let t' = AList.update row \<lparr>cl_owner = owner, cl_claimed_at = now,
                 cl_expires_at = now + seconds ttl, cl_text = text\<rparr> t
      in case reply of
           Db_Raised applied \<Rightarrow> (Inl False, if applied \<and> map_of t row = None then t' else t)
         | _ \<Rightarrow> if map_of t row = None then (Inr (), t') else (Inl True, t))"

definition claim_steal :: "db_reply \<Rightarrow> instant \<Rightarrow> string \<Rightarrow> string \<Rightarrow> int \<Rightarrow> claim_table \<Rightarrow>
    (store_error + int) \<times> claim_table" where
  "claim_steal reply now row owner ttl t =
     (case map_of t row of
        None \<Rightarrow> db_execute reply 0 t t
      | Some r \<Rightarrow>
          if cl_expires_at r < now
          then db_execute reply 1 (AList.update row (r\<lparr>cl_owner := owner, cl_claimed_at := now,
                 cl_expires_at := now + seconds ttl\<rparr>) t) t
          else db_execute reply 0 t t)"

text \<open>
  \<open>claim\<close>: the token that \<open>_owner()\<close> makes is an argument. Only a duplicate key leads
  to the conditional update, and any count but zero is taken for a win.
\<close>

definition sql_claim :: "(string \<Rightarrow> string) \<Rightarrow> db_reply \<Rightarrow> db_reply \<Rightarrow> instant \<Rightarrow> string \<Rightarrow> string \<Rightarrow> int \<Rightarrow>
    (string, string) dict \<Rightarrow> claim_table \<Rightarrow> bool \<times> (string, string) dict \<times> claim_table" where
  "sql_claim sha r1 r2 now owner key ttl held t =
     (let row = row_key sha key; (ins, t1) = claim_insert r1 now row owner ttl (take 512 key) t
      in case ins of
           Inr _ \<Rightarrow> (True, AList.update row owner held, t1)
         | Inl duplicate \<Rightarrow>
             if \<not> duplicate then (False, held, t1)
             else let (won, t2) = claim_steal r2 now row owner ttl t1
                  in case won of
                       Inl _ \<Rightarrow> (False, held, t2)
                     | Inr n \<Rightarrow> if n \<noteq> 0 then (True, AList.update row owner held, t2)
                                else (False, held, t2))"

definition claim_delete :: "db_reply \<Rightarrow> string \<Rightarrow> string \<Rightarrow> claim_table \<Rightarrow> claim_table" where
  "claim_delete reply row owner t =
     (case map_of t row of
        None \<Rightarrow> t
      | Some r \<Rightarrow>
          if cl_owner r = owner then snd (db_execute reply 1 (AList.delete row t) t) else t)"

definition sql_release :: "(string \<Rightarrow> string) \<Rightarrow> db_reply \<Rightarrow> string \<Rightarrow> (string, string) dict \<Rightarrow>
    claim_table \<Rightarrow> (string, string) dict \<times> claim_table" where
  "sql_release sha reply key held t =
     (let row = row_key sha key; held' = AList.delete row held
      in case map_of held row of
           None \<Rightarrow> (held', t)
         | Some owner \<Rightarrow> (held', claim_delete reply row owner t))"

section \<open>The table as a lease\<close>

text \<open>
  A row of the table is a lease for the owner tokens. The environment of an attempt is
  its row and the replies to its two statements.
\<close>

definition claim_holder :: "string \<Rightarrow> claim_table \<Rightarrow> (string \<times> instant) option" where
  "claim_holder row t = map_option (\<lambda>r. (cl_owner r, cl_expires_at r)) (map_of t row)"

definition counted :: "db_reply \<Rightarrow> bool" where
  "counted reply \<longleftrightarrow> (case reply of Db_Uncounted _ \<Rightarrow> False | _ \<Rightarrow> True)"

fun claim_acquire :: "(string \<Rightarrow> string) \<Rightarrow> string \<times> db_reply \<times> db_reply \<Rightarrow> instant \<Rightarrow> string \<Rightarrow> int \<Rightarrow>
    claim_table \<Rightarrow> bool \<times> claim_table" where
  "claim_acquire sha (key, r1, r2) now owner ttl t =
     (let (won, _, t') = sql_claim sha r1 (if counted r2 then r2 else Db_Replied) now owner key ttl [] t
      in (won, t'))"

fun claim_release :: "(string \<Rightarrow> string) \<Rightarrow> string \<times> db_reply \<times> db_reply \<Rightarrow> string \<Rightarrow> claim_table \<Rightarrow> claim_table" where
  "claim_release sha (key, r1, r2) owner t = claim_delete r1 (row_key sha key) owner t"

lemmas claim_defs =
  sql_claim_def claim_insert_def claim_steal_def db_execute_def counted_def Let_def

lemma sql_claim_held_irrelevant:
  "fst (sql_claim sha r1 r2 now owner key ttl held t) = fst (sql_claim sha r1 r2 now owner key ttl [] t)"
  "snd (snd (sql_claim sha r1 r2 now owner key ttl held t)) =
     snd (snd (sql_claim sha r1 r2 now owner key ttl [] t))"
  by (auto simp: claim_defs split: db_reply.splits option.splits sum.splits prod.splits)

lemma sql_claim_acquire:
  assumes "counted r2"
  shows "fst (sql_claim sha r1 r2 now owner key ttl held t) = fst (claim_acquire sha (key, r1, r2) now owner ttl t)"
    and "snd (snd (sql_claim sha r1 r2 now owner key ttl held t)) =
           snd (claim_acquire sha (key, r1, r2) now owner ttl t)"
  using assms sql_claim_held_irrelevant [of sha r1 r2 now owner key ttl held t]
  by (auto split: prod.splits)

interpretation claims: lease "claim_acquire sha" "claim_release sha" "claim_holder row"
  "\<lambda>(key, _, _). row_key sha key = row"
proof (unfold_locales, goal_cases)
  case (1 r now me ttl t)
  then show ?case
    by (cases r) (auto simp: claim_defs claim_holder_def
        split: db_reply.splits option.splits if_splits)
next
  case (2 r t other e me now ttl)
  then show ?case
    by (cases r) (auto simp: claim_defs claim_holder_def
        split: db_reply.splits option.splits if_splits)
next
  case (3 r now me ttl t)
  then show ?case
    by (cases r) (auto simp: claim_defs claim_holder_def
        split: db_reply.splits option.splits if_splits)
next
  case (4 t other e me r)
  then show ?case
    by (cases r) (auto simp: claim_delete_def claim_holder_def db_execute_def
        split: option.splits if_splits db_reply.splits)
qed

section \<open>Clients of the table\<close>

text \<open>
  Each client (a process with its store object) remembers the tokens of the claims it
  holds; the table is shared.
\<close>

record claim_world =
  cw_table :: claim_table
  cw_held :: "nat \<Rightarrow> (string, string) dict"

datatype client_op =
    Client_Claim nat db_reply db_reply instant string string int
  | Client_Release nat db_reply string

fun client_step :: "(string \<Rightarrow> string) \<Rightarrow> client_op \<Rightarrow> claim_world \<Rightarrow> bool \<times> claim_world" where
  "client_step sha (Client_Claim c r1 r2 now owner key ttl) w =
     (let (won, held, t) = sql_claim sha r1 r2 now owner key ttl (cw_held w c) (cw_table w)
      in (won, w\<lparr>cw_table := t, cw_held := (cw_held w)(c := held)\<rparr>))"
| "client_step sha (Client_Release c r key) w =
     (let (held, t) = sql_release sha r key (cw_held w c) (cw_table w)
      in (False, w\<lparr>cw_table := t, cw_held := (cw_held w)(c := held)\<rparr>))"

fun client_won :: "(string \<Rightarrow> string) \<Rightarrow> client_op \<Rightarrow> bool \<Rightarrow> string option" where
  "client_won sha (Client_Claim c r1 r2 now owner key ttl) True = Some (row_key sha key)"
| "client_won sha _ _ = None"

text \<open>Operations that respect a claim that client \<open>c\<close> holds on \<open>row\<close> with \<open>token\<close> until \<open>e\<close>.\<close>

fun abides :: "(string \<Rightarrow> string) \<Rightarrow> nat \<Rightarrow> string \<Rightarrow> string \<Rightarrow> instant \<Rightarrow> client_op \<Rightarrow> bool" where
  "abides sha c row token e (Client_Claim c' r1 r2 now owner key ttl) \<longleftrightarrow>
     counted r2 \<and> owner \<noteq> token \<and> now < e"
| "abides sha c row token e (Client_Release c' r key) \<longleftrightarrow> c' \<noteq> c \<or> row_key sha key \<noteq> row"

definition sole_token :: "nat \<Rightarrow> string \<Rightarrow> string \<Rightarrow> claim_world \<Rightarrow> bool" where
  "sole_token c row token w \<longleftrightarrow>
     (\<forall>c' k. map_of (cw_held w c') k = Some token \<longrightarrow> c' = c \<and> k = row)"

lemma sql_claim_held:
  "map_of (fst (snd (sql_claim sha r1 r2 now owner key ttl held t))) k =
     (if fst (sql_claim sha r1 r2 now owner key ttl held t) \<and> k = row_key sha key
      then Some owner else map_of held k)"
  by (auto simp: claim_defs split: db_reply.splits option.splits)

lemma client_step_held:
  assumes "claim_holder row (cw_table w) = Some (token, e)" and "sole_token c row token w"
    and "abides sha c row token e x"
  shows "claim_holder row (cw_table (snd (client_step sha x w))) = Some (token, e)
    \<and> sole_token c row token (snd (client_step sha x w))
    \<and> client_won sha x (fst (client_step sha x w)) \<noteq> Some row"
proof (cases x)
  case (Client_Claim c' r1 r2 now owner key ttl)
  let ?r = "sql_claim sha r1 r2 now owner key ttl (cw_held w c') (cw_table w)"
  have ok: "counted r2" "owner \<noteq> token" "now < e"
    using assms(3) Client_Claim by simp_all
  note acq = sql_claim_acquire [OF ok(1), of sha r1 now owner key ttl "cw_held w c'" "cw_table w"]
  have "claim_holder row (snd (snd ?r)) = Some (token, e)"
    using claims.held_against_acquire(1) [OF assms(1) ok(2,3)] acq by metis
  moreover have "fst ?r \<Longrightarrow> row_key sha key \<noteq> row"
    using claims.held_against_acquire(2) [OF assms(1) ok(2,3), of sha "(key, r1, r2)" ttl] acq(1)
    by auto
  moreover have "sole_token c row token (w\<lparr>cw_table := snd (snd ?r), cw_held := (cw_held w)(c' := fst (snd ?r))\<rparr>)"
    using assms(2) ok(2) by (auto simp: sole_token_def sql_claim_held split: if_splits)
  ultimately show ?thesis
    by (cases ?r) (auto simp: Client_Claim elim!: client_won.elims)
next
  case (Client_Release c' r key)
  have other: "map_of (cw_held w c') (row_key sha key) \<noteq> Some token \<or> row_key sha key \<noteq> row"
    using assms(2,3) Client_Release by (auto simp: sole_token_def)
  then have "claim_holder row (snd (sql_release sha r key (cw_held w c') (cw_table w))) = Some (token, e)"
    using assms(1) by (auto simp: sql_release_def claim_delete_def claim_holder_def db_execute_def
        Let_def split: option.splits db_reply.splits)
  moreover have "sole_token c row token (snd (client_step sha x w))"
    using assms(2) Client_Release
    by (auto simp: sole_token_def sql_release_def Let_def split: option.splits if_splits)
  ultimately show ?thesis
    by (auto simp: Client_Release split: prod.splits)
qed

lemma client_run_held:
  assumes "claim_holder row (cw_table w) = Some (token, e)" and "sole_token c row token w"
    and "\<And>x. x \<in> set xs \<Longrightarrow> abides sha c row token e x"
  shows "claim_holder row (cw_table (run (client_step sha) xs w)) = Some (token, e)
    \<and> count_wins (client_step sha) (client_won sha) row xs w = 0"
  using assms
proof (induction xs arbitrary: w)
  case Nil
  then show ?case by simp
next
  case (Cons x xs)
  from client_step_held [OF Cons.prems(1,2), of sha x] Cons.prems(3) Cons.IH show ?case
    by auto
qed

section \<open>Properties\<close>

text \<open>
  Mutual exclusion: once a client has won a claim, no other claim of that key by any
  client succeeds before the lease has run out by the server's clock, unless the winner
  gives it back: whatever the others claim and release, whatever fails on the way and
  whichever acknowledgements are lost. It assumes that the owner tokens differ and that
  the driver counts the rows of an update.
\<close>

lemma claims_exclude_each_other:
  assumes "fst (client_step sha (Client_Claim c r1 r2 now token key ttl) w)" and "counted r2"
    and "\<forall>c' k. map_of (cw_held w c') k \<noteq> Some token"
    and "\<forall>x\<in>set xs. abides sha c (row_key sha key) token (now + seconds ttl) x"
  shows "count_wins (client_step sha) (client_won sha) (row_key sha key) xs
           (snd (client_step sha (Client_Claim c r1 r2 now token key ttl) w)) = 0"
proof -
  let ?r = "sql_claim sha r1 r2 now token key ttl (cw_held w c) (cw_table w)"
  let ?w = "snd (client_step sha (Client_Claim c r1 r2 now token key ttl) w)"
  have won: "fst ?r" using assms(1) by (auto split: prod.splits)
  have acq: "fst ?r = fst (claim_acquire sha (key, r1, r2) now token ttl (cw_table w))"
    "snd (snd ?r) = snd (claim_acquire sha (key, r1, r2) now token ttl (cw_table w))"
    using sql_claim_acquire [OF assms(2)] by blast+
  have "claim_holder (row_key sha key) (snd (snd ?r)) = Some (token, now + seconds ttl)"
    unfolding acq(2) by (rule claims.acquire_win) (use won acq(1) in simp_all)
  moreover have "sole_token c (row_key sha key) token ?w"
    using assms(3) sql_claim_held [of sha r1 r2 now token key ttl "cw_held w c" "cw_table w"]
    by (auto simp: sole_token_def split: prod.splits if_splits)
  ultimately show ?thesis
    using client_run_held [of "row_key sha key" ?w token "now + seconds ttl" c xs sha] assms(4)
    by (auto split: prod.splits)
qed

definition example_claims :: claim_world where
  "example_claims = \<lparr>cw_table = [], cw_held = (\<lambda>_. [])\<rparr>"

lemma claims_exclude_each_other_witness:
  "count_wins (client_step id) (client_won id) (row_key id ''m'')
     [Client_Claim 2 Db_Replied Db_Replied 5 ''b'' ''m'' 600, Client_Release 2 Db_Replied ''m'',
      Client_Claim 3 (Db_Raised True) Db_Replied 6 ''c'' ''m'' 600]
     (snd (client_step id (Client_Claim 1 Db_Replied Db_Replied 0 ''a'' ''m'' 600) example_claims)) = 0"
  by (rule claims_exclude_each_other)
     (auto simp: example_claims_def claim_defs row_key_def seconds_def)

text \<open>
  A claim is never granted on a guess: when the insert fails for any reason but a
  present key, or the update that would steal an expired claim fails, the claim answers
  False and the client remembers no token; and an unexpired row of somebody else is
  never taken over.
\<close>

lemma claim_fails_closed:
  assumes "fst (sql_claim sha r1 r2 now owner key ttl held t)"
  shows "(case r1 of Db_Raised _ \<Rightarrow> False | _ \<Rightarrow> True) \<and>
    (case map_of t (row_key sha key) of
       None \<Rightarrow> True
     | Some r \<Rightarrow> (case r2 of Db_Replied \<Rightarrow> cl_expires_at r < now | Db_Raised _ \<Rightarrow> False
                 | Db_Uncounted _ \<Rightarrow> True)) \<and>
    map_of (fst (snd (sql_claim sha r1 r2 now owner key ttl held t))) (row_key sha key) = Some owner"
  using assms sql_claim_held [of sha r1 r2 now owner key ttl held t "row_key sha key"]
  by (auto simp: claim_defs split: db_reply.splits option.splits if_splits)

lemma claim_fails_closed_witness:
  "map_of (fst (snd (sql_claim id Db_Replied Db_Replied 9 ''o'' ''k'' 600 [] []))) (row_key id ''k'') = Some ''o''"
  using claim_fails_closed [of id Db_Replied Db_Replied 9 "''o''" "''k''" 600 "[]" "[]"]
  by (simp add: claim_defs row_key_def)

text \<open>
  A release gives back only what the client still owns: a row whose owner token is
  not the one the client remembers survives its release, so a slow run whose claim was
  stolen cannot free the new holder's claim; and the release is forgotten by the client
  in every case.
\<close>

lemma release_spares_other_owner:
  assumes "map_of t (row_key sha key) = Some r"
    and "map_of held (row_key sha key) \<noteq> Some (cl_owner r)"
  shows "snd (sql_release sha reply key held t) = t \<and>
         map_of (fst (sql_release sha reply key held t)) (row_key sha key) = None"
  using assms by (auto simp: sql_release_def claim_delete_def Let_def split: option.splits)

lemma release_spares_other_owner_witness:
  "snd (sql_release id Db_Replied ''m'' [(''m'', ''a'')]
      [(''m'', \<lparr>cl_owner = ''b'', cl_claimed_at = 9, cl_expires_at = 20, cl_text = ''m''\<rparr>)]) =
   [(''m'', \<lparr>cl_owner = ''b'', cl_claimed_at = 9, cl_expires_at = 20, cl_text = ''m''\<rparr>)]"
  using release_spares_other_owner
    [of "[(''m'', \<lparr>cl_owner = ''b'', cl_claimed_at = 9, cl_expires_at = 20, cl_text = ''m''\<rparr>)]" id "''m''"
      "\<lparr>cl_owner = ''b'', cl_claimed_at = 9, cl_expires_at = 20, cl_text = ''m''\<rparr>" "[(''m'', ''a'')]" Db_Replied]
  by (simp add: row_key_def)

end
