(* ===== verification/Retries.thy ===== *)
theory Retries
  imports Claims
begin

text \<open>
  \<^verbatim>\<open>src/src/triage/store/retries.py\<close>: the retries the agent has postponed, one row
  per failure signature, with a bounded number of deferrals and an exponential wait. The
  \<open>_persist\<close> hook of the three stores is an argument of the shared operations; the SQL
  store writes a row only over the revision that it read.
\<close>

definition DEFAULT_BACKOFF_SECONDS :: int where
  "DEFAULT_BACKOFF_SECONDS = 900"

definition MAX_ATTEMPTS :: int where
  "MAX_ATTEMPTS = 3"

definition backoff_seconds :: "int \<Rightarrow> int \<Rightarrow> int" where
  "backoff_seconds attempt base = base * 2 ^ nat (max 0 (attempt - 1))"

section \<open>Rows\<close>

text \<open>The parts of a linked execution that the store reads.\<close>

record source_execution =
  sx_run_id :: string
  sx_workspace_id :: string
  sx_item_id :: string

datatype retry_status = Pending | Done | Exhausted

datatype retry_reason = Because string | Still_Throttled int | Linked_Successor

record retry_row =
  rt_signature :: string
  rt_request_id :: string
  rt_workspace_id :: string
  rt_dataset_id :: string
  rt_report_name :: string
  rt_reason :: retry_reason
  rt_attempts :: int
  rt_wait_seconds :: int
  rt_due_at :: stamp
  rt_created_at :: stamp
  rt_updated_at :: stamp
  rt_status :: retry_status
  rt_outcome :: "string option"
  rt_source :: "(source_execution \<times> int option) option"
  rt_work_id :: "string option"
  rt_retry_of :: "string option"

type_synonym retry_rows = "(string, retry_row) dict"

text \<open>
  \<open>(row or {}).get(...)\<close>: what is read of an absent row. With \<open>max_attempts\<close> below
  one a first deferral would be exhausted and store a row with no other fields.
\<close>

definition blank_retry :: "instant \<Rightarrow> retry_row" where
  "blank_retry now =
     \<lparr>rt_signature = [], rt_request_id = [], rt_workspace_id = [], rt_dataset_id = [],
      rt_report_name = [], rt_reason = Because [], rt_attempts = 0, rt_wait_seconds = 0,
      rt_due_at = No_Stamp, rt_created_at = Aware_Stamp (floor_second now),
      rt_updated_at = No_Stamp, rt_status = Pending, rt_outcome = None, rt_source = None,
      rt_work_id = None, rt_retry_of = None\<rparr>"

definition DATETIME_MIN :: instant where
  "DATETIME_MIN = - 62135596800000000"

text \<open>\<open>_parse\<close>: what cannot be read is due now, a text without a zone is UTC.\<close>

fun parse_due :: "stamp \<Rightarrow> instant" where
  "parse_due No_Stamp = DATETIME_MIN"
| "parse_due Bad_Stamp = DATETIME_MIN"
| "parse_due (Naive_Stamp t) = t"
| "parse_due (Aware_Stamp t) = t"

section \<open>The shared operations\<close>

record 'd retry_store =
  rs_items :: retry_rows
  rs_backing :: 'd

text \<open>The hook gets the row to persist; it may also drop the remembered rows.\<close>

type_synonym 'd retry_hook = "retry_row \<Rightarrow> 'd retry_store \<Rightarrow> bool \<times> 'd retry_store"

definition store_retry :: "'d retry_hook \<Rightarrow> string \<Rightarrow> retry_row \<Rightarrow> 'd retry_store \<Rightarrow>
    (store_error + retry_row) \<times> 'd retry_store" where
  "store_retry hook sig row st =
     (let (ok, st') = hook row (st\<lparr>rs_items := AList.update sig row (rs_items st)\<rparr>)
      in (if ok then Inr row else Inl Persist_Raised, st'))"

record deferral =
  df_signature :: string
  df_request_id :: string
  df_workspace_id :: string
  df_dataset_id :: string
  df_report_name :: string
  df_reason :: string
  df_retry_after_seconds :: int
  df_source :: "(source_execution \<times> int option) option"

definition exhausted_row :: "int \<Rightarrow> instant \<Rightarrow> retry_row \<Rightarrow> retry_row" where
  "exhausted_row max_attempts now row =
     row\<lparr>rt_status := Exhausted, rt_reason := Still_Throttled max_attempts,
         rt_updated_at := Aware_Stamp (floor_second now)\<rparr>"

definition next_attempt :: "retry_row option \<Rightarrow> int" where
  "next_attempt prior = (case prior of None \<Rightarrow> 1 | Some row \<Rightarrow> rt_attempts row + 1)"

definition deferred_row :: "instant \<Rightarrow> deferral \<Rightarrow> retry_row option \<Rightarrow> retry_row" where
  "deferred_row now d prior =
     (let old = (case prior of None \<Rightarrow> blank_retry now | Some row \<Rightarrow> row);
          attempts = next_attempt prior;
          wait = (if df_retry_after_seconds d \<noteq> 0 then df_retry_after_seconds d
                  else backoff_seconds attempts DEFAULT_BACKOFF_SECONDS)
      in \<lparr>rt_signature = df_signature d,
          rt_request_id = str_or (df_request_id d) (rt_request_id old),
          rt_workspace_id = str_or (df_workspace_id d) (rt_workspace_id old),
          rt_dataset_id = str_or (df_dataset_id d) (rt_dataset_id old),
          rt_report_name = str_or (df_report_name d) (rt_report_name old),
          rt_reason = Because (df_reason d), rt_attempts = attempts, rt_wait_seconds = wait,
          rt_due_at = Aware_Stamp (floor_second (now + seconds wait)),
          rt_created_at = rt_created_at old,
          rt_updated_at = Aware_Stamp (floor_second now), rt_status = Pending,
          rt_outcome = None,
          rt_source = (case df_source d of Some s \<Rightarrow> Some s | None \<Rightarrow> rt_source old),
          rt_work_id = None, rt_retry_of = None\<rparr>)"

definition defer_retry :: "'d retry_hook \<Rightarrow> int \<Rightarrow> instant \<Rightarrow> deferral \<Rightarrow> 'd retry_store \<Rightarrow>
    (store_error + retry_row) \<times> 'd retry_store" where
  "defer_retry hook max_attempts now d st =
     (let sig = df_signature d; prior = map_of (rs_items st) sig
      in if max_attempts < next_attempt prior
         then store_retry hook sig
                (exhausted_row max_attempts now
                   (case prior of None \<Rightarrow> blank_retry now | Some row \<Rightarrow> row)) st
         else store_retry hook sig (deferred_row now d prior) st)"

record linked_retry =
  lk_signature :: string
  lk_work_id :: string
  lk_retry_of :: string
  lk_attempt :: int
  lk_due_at :: stamp
  lk_created_at :: stamp
  lk_source :: source_execution
  lk_policy_revision :: int
  lk_report_name :: string

datatype linked_error = Attempt_Out_Of_Bounds | No_Timezone | Linked_Store store_error

definition linked_row :: "instant \<Rightarrow> linked_retry \<Rightarrow> instant \<Rightarrow> instant \<Rightarrow> retry_row option \<Rightarrow> retry_row" where
  "linked_row now k due created prior =
     \<lparr>rt_signature = lk_signature k, rt_request_id = sx_run_id (lk_source k),
      rt_workspace_id = sx_workspace_id (lk_source k), rt_dataset_id = sx_item_id (lk_source k),
      rt_report_name = str_or (lk_report_name k)
        (case prior of None \<Rightarrow> [] | Some p \<Rightarrow> rt_report_name p),
      rt_reason = Linked_Successor, rt_attempts = lk_attempt k,
      rt_wait_seconds = max 0 ((due - created) div 1000000),
      rt_due_at = Aware_Stamp due, rt_created_at = Aware_Stamp created,
      rt_updated_at = Aware_Stamp now, rt_status = Pending, rt_outcome = None,
      rt_source = Some (lk_source k, Some (lk_policy_revision k)),
      rt_work_id = Some (lk_work_id k), rt_retry_of = Some (lk_retry_of k)\<rparr>"

definition record_linked_retry :: "'d retry_hook \<Rightarrow> int \<Rightarrow> instant \<Rightarrow> linked_retry \<Rightarrow> 'd retry_store \<Rightarrow>
    (linked_error + retry_row) \<times> 'd retry_store" where
  "record_linked_retry hook max_attempts now k st =
     (if \<not> (1 \<le> lk_attempt k \<and> lk_attempt k \<le> max_attempts) then (Inl Attempt_Out_Of_Bounds, st)
      else case (lk_due_at k, lk_created_at k) of
             (Aware_Stamp due, Aware_Stamp created) \<Rightarrow>
               (let prior = map_of (rs_items st) (lk_signature k)
                in case prior of
                     Some p \<Rightarrow>
                       if rt_work_id p = Some (lk_work_id k) \<or> lk_attempt k < rt_attempts p
                       then (Inr p, st)
                       else apfst (map_sum Linked_Store id)
                              (store_retry hook (lk_signature k) (linked_row now k due created prior) st)
                   | None \<Rightarrow> apfst (map_sum Linked_Store id)
                              (store_retry hook (lk_signature k) (linked_row now k due created prior) st))
           | _ \<Rightarrow> (Inl No_Timezone, st))"

definition get_retry :: "string \<Rightarrow> 'd retry_store \<Rightarrow> retry_row option" where
  "get_retry sig st = map_of (rs_items st) sig"

definition is_deferred :: "string \<Rightarrow> instant \<Rightarrow> 'd retry_store \<Rightarrow> bool" where
  "is_deferred sig now st =
     (case get_retry sig st of
        None \<Rightarrow> False
      | Some row \<Rightarrow> if rt_status row \<noteq> Pending then False else now < parse_due (rt_due_at row))"

definition due_retries :: "instant \<Rightarrow> 'd retry_store \<Rightarrow> retry_row list" where
  "due_retries now st =
     filter (\<lambda>r. rt_status r = Pending \<and> parse_due (rt_due_at r) \<le> now) (map snd (rs_items st))"

definition pending_retries :: "'d retry_store \<Rightarrow> retry_row list" where
  "pending_retries st = filter (\<lambda>r. rt_status r = Pending) (map snd (rs_items st))"

definition complete_retry :: "'d retry_hook \<Rightarrow> instant \<Rightarrow> string \<Rightarrow> string \<Rightarrow> 'd retry_store \<Rightarrow>
    (store_error + unit) \<times> 'd retry_store" where
  "complete_retry hook now sig outcome st =
     (case map_of (rs_items st) sig of
        None \<Rightarrow> (Inr (), st)
      | Some row \<Rightarrow>
          apfst (map_sum id (\<lambda>_. ()))
            (store_retry hook sig
               (row\<lparr>rt_status := Done, rt_outcome := Some outcome,
                    rt_updated_at := Aware_Stamp (floor_second now)\<rparr>) st))"

definition reset_retries :: "('d \<Rightarrow> 'd) \<Rightarrow> 'd retry_store \<Rightarrow> 'd retry_store" where
  "reset_retries on_reset st = st\<lparr>rs_items := [], rs_backing := on_reset (rs_backing st)\<rparr>"

definition quiet :: "'d retry_hook" where
  "quiet row st = (True, st)"

section \<open>The SQL store\<close>

text \<open>
  A payload is the text of a row or a text that is none. \<open>digest\<close> is the hash by which
  the client and the server compare payloads. The client remembers the rows it read and
  their revisions.
\<close>

datatype retry_payload = Retry_Text retry_row | Other_Text string

record retry_backing =
  rb_table :: "(string, retry_payload) dict"
  rb_loaded :: bool
  rb_revisions :: "(string, string) dict"

definition aware_retry :: "string \<Rightarrow> retry_row \<Rightarrow> bool" where
  "aware_retry key row \<longleftrightarrow>
     key \<noteq> [] \<and> rt_signature row = key \<and> 1 \<le> rt_attempts row \<and> 0 \<le> rt_wait_seconds row \<and>
     aware (rt_due_at row) \<and> aware (rt_created_at row) \<and> aware (rt_updated_at row)"

fun load_payload :: "string \<times> retry_payload \<Rightarrow> retry_row option" where
  "load_payload (key, Other_Text _) = None"
| "load_payload (key, Retry_Text row) = (if aware_retry key row then Some row else None)"

definition load_rows :: "string option \<Rightarrow> (string, retry_payload) dict \<Rightarrow>
    (string, retry_payload) dict" where
  "load_rows only t = (case only of None \<Rightarrow> t | Some sig \<Rightarrow> filter (\<lambda>(k, _). k = sig) t)"

text \<open>
  \<open>_ensure_loaded\<close>: the rows selected are all read and checked, or none is remembered
  and the operation stops.
\<close>

definition ensure_loaded :: "(retry_payload \<Rightarrow> string) \<Rightarrow> bool \<Rightarrow> string option \<Rightarrow>
    retry_backing retry_store \<Rightarrow> (store_error + unit) \<times> retry_backing retry_store" where
  "ensure_loaded digest readable only st =
     (let b = rs_backing st; selected = load_rows only (rb_table b);
          cleared = st\<lparr>rs_items := [], rs_backing := b\<lparr>rb_loaded := False, rb_revisions := []\<rparr>\<rparr>
      in if \<not> readable then (Inl Db_Unavailable, cleared)
         else if list_all (\<lambda>kp. load_payload kp \<noteq> None) selected
         then (Inr (), \<lparr>rs_items = map (\<lambda>kp. (fst kp, the (load_payload kp))) selected,
                 rs_backing = b\<lparr>rb_loaded := True,
                   rb_revisions := map (\<lambda>kp. (fst kp, digest (snd kp))) selected\<rparr>\<rparr>)
         else (Inl Unreadable_State, cleared))"

text \<open>
  The hook: an insert where the client read no row, else an update of the revision that
  it read. Anything but one affected row drops what the client remembers and raises.
\<close>

definition retry_write :: "(retry_payload \<Rightarrow> string) \<Rightarrow> db_reply \<Rightarrow> string option \<Rightarrow> retry_row \<Rightarrow>
    (string, retry_payload) dict \<Rightarrow> (store_error + int) \<times> (string, retry_payload) dict" where
  "retry_write digest reply revision row t =
     (let sig = rt_signature row; t' = AList.update sig (Retry_Text row) t
      in case (revision, map_of t sig) of
           (None, None) \<Rightarrow> db_execute reply 1 t' t
         | (None, Some _) \<Rightarrow> (Inl Db_Unavailable, t)
         | (Some seen, None) \<Rightarrow> db_execute reply 0 t t
         | (Some seen, Some p) \<Rightarrow>
             if digest p = seen then db_execute reply 1 t' t else db_execute reply 0 t t)"

definition sql_retry_hook :: "(retry_payload \<Rightarrow> string) \<Rightarrow> db_reply \<Rightarrow> retry_backing retry_hook" where
  "sql_retry_hook digest reply row st =
     (let b = rs_backing st; sig = rt_signature row;
          (n, t') = retry_write digest reply (map_of (rb_revisions b) sig) row (rb_table b)
      in if n = Inr 1
         then (True, st\<lparr>rs_backing := b\<lparr>rb_table := t',
                 rb_revisions := AList.update sig (digest (Retry_Text row)) (rb_revisions b)\<rparr>\<rparr>)
         else (False, st\<lparr>rs_items := [],
                 rs_backing := b\<lparr>rb_table := t', rb_loaded := False, rb_revisions := []\<rparr>\<rparr>))"

text \<open>
  An operation first loads its row from the table, then works on what it remembers;
  other clients may change the table in between (\<open>moved\<close>).
\<close>

definition sql_defer :: "(retry_payload \<Rightarrow> string) \<Rightarrow> bool \<Rightarrow> db_reply \<Rightarrow>
    ((string, retry_payload) dict \<Rightarrow> (string, retry_payload) dict) \<Rightarrow> int \<Rightarrow> instant \<Rightarrow> deferral \<Rightarrow>
    retry_backing retry_store \<Rightarrow> (store_error + retry_row) \<times> retry_backing retry_store" where
  "sql_defer digest readable reply moved max_attempts now d st =
     (let (r, st1) = ensure_loaded digest readable (Some (df_signature d)) st;
          st2 = st1\<lparr>rs_backing := (rs_backing st1)\<lparr>rb_table := moved (rb_table (rs_backing st1))\<rparr>\<rparr>
      in case r of
           Inl e \<Rightarrow> (Inl e, st1)
         | Inr _ \<Rightarrow> defer_retry (sql_retry_hook digest reply) max_attempts now d st2)"

definition sql_complete :: "(retry_payload \<Rightarrow> string) \<Rightarrow> bool \<Rightarrow> db_reply \<Rightarrow>
    ((string, retry_payload) dict \<Rightarrow> (string, retry_payload) dict) \<Rightarrow> instant \<Rightarrow> string \<Rightarrow> string \<Rightarrow>
    retry_backing retry_store \<Rightarrow> (store_error + unit) \<times> retry_backing retry_store" where
  "sql_complete digest readable reply moved now sig outcome st =
     (let (r, st1) = ensure_loaded digest readable (Some sig) st;
          st2 = st1\<lparr>rs_backing := (rs_backing st1)\<lparr>rb_table := moved (rb_table (rs_backing st1))\<rparr>\<rparr>
      in case r of
           Inl e \<Rightarrow> (Inl e, st1)
         | Inr _ \<Rightarrow> complete_retry (sql_retry_hook digest reply) now sig outcome st2)"

definition sql_due :: "(retry_payload \<Rightarrow> string) \<Rightarrow> bool \<Rightarrow> instant \<Rightarrow> retry_backing retry_store \<Rightarrow>
    (store_error + retry_row list) \<times> retry_backing retry_store" where
  "sql_due digest readable now st =
     (let (r, st1) = ensure_loaded digest readable None st
      in (map_sum id (\<lambda>_. due_retries now st1) r, st1))"

section \<open>The operations as one machine\<close>

datatype retry_op =
    Rt_Defer instant deferral
  | Rt_Linked instant linked_retry
  | Rt_Complete instant string string

datatype retry_answer =
    Rt_Deferred "store_error + retry_row"
  | Rt_Recorded "linked_error + retry_row"
  | Rt_Completed "store_error + unit"

fun retry_step :: "int \<Rightarrow> retry_op \<Rightarrow> unit retry_store \<Rightarrow> retry_answer \<times> unit retry_store" where
  "retry_step m (Rt_Defer now d) st = apfst Rt_Deferred (defer_retry quiet m now d st)"
| "retry_step m (Rt_Linked now k) st = apfst Rt_Recorded (record_linked_retry quiet m now k st)"
| "retry_step m (Rt_Complete now sig out) st = apfst Rt_Completed (complete_retry quiet now sig out st)"

definition empty_retries :: "unit retry_store" where
  "empty_retries = \<lparr>rs_items = [], rs_backing = ()\<rparr>"

definition retries_inv :: "int \<Rightarrow> unit retry_store \<Rightarrow> bool" where
  "retries_inv m st \<longleftrightarrow> dict_wf (rs_items st) \<and>
     (\<forall>sig row. map_of (rs_items st) sig = Some row \<longrightarrow>
        rt_signature row = sig \<and> 1 \<le> rt_attempts row \<and> rt_attempts row \<le> m)"

lemma store_quiet [simp]:
  "store_retry quiet sig row st = (Inr row, st\<lparr>rs_items := AList.update sig row (rs_items st)\<rparr>)"
  by (simp add: store_retry_def quiet_def)

lemmas retry_defs =
  defer_retry_def record_linked_retry_def complete_retry_def deferred_row_def exhausted_row_def
  linked_row_def next_attempt_def Let_def

lemma retry_step_inv:
  assumes "1 \<le> m" and "retries_inv m st"
  shows "retries_inv m (snd (retry_step m x st))"
  using assms
  by (cases x) (fastforce simp: retry_defs retries_inv_def split: option.splits stamp.splits if_splits)+

interpretation rt: machine "retry_step m" "\<lambda>st. 1 \<le> m \<and> retries_inv m st"
  by unfold_locales (simp add: retry_step_inv)

lemma retries_inv_empty: "retries_inv m empty_retries"
  by (simp add: retries_inv_def empty_retries_def)

fun defers :: "string \<Rightarrow> retry_op \<Rightarrow> bool" where
  "defers sig (Rt_Defer now d) \<longleftrightarrow> df_signature d = sig"
| "defers sig _ \<longleftrightarrow> False"

fun plain_op :: "retry_op \<Rightarrow> bool" where
  "plain_op (Rt_Linked now k) \<longleftrightarrow> False"
| "plain_op _ \<longleftrightarrow> True"

definition attempts_of :: "string \<Rightarrow> unit retry_store \<Rightarrow> int" where
  "attempts_of sig st = (case map_of (rs_items st) sig of None \<Rightarrow> 0 | Some row \<Rightarrow> rt_attempts row)"

lemma attempts_step:
  assumes "1 \<le> m" and "retries_inv m st" and "plain_op x"
  shows "attempts_of sig (snd (retry_step m x st)) =
           (if defers sig x then min m (attempts_of sig st + 1) else attempts_of sig st)"
  using assms
  by (cases x) (fastforce simp: retry_defs retries_inv_def attempts_of_def split: option.splits)+

lemma attempts_bound: "1 \<le> m \<Longrightarrow> retries_inv m st \<Longrightarrow> attempts_of sig st \<le> m"
  by (auto simp: attempts_of_def retries_inv_def split: option.splits)

lemma attempts_run:
  assumes "1 \<le> m" and "retries_inv m st" and "\<And>x. x \<in> set xs \<Longrightarrow> plain_op x"
  shows "attempts_of sig (run (retry_step m) xs st) =
           min m (attempts_of sig st + int (List.length (filter (defers sig) xs)))"
  using assms
proof (induction xs arbitrary: st)
  case Nil
  then show ?case using attempts_bound [of m st sig] by simp
next
  case (Cons x xs)
  have "retries_inv m (snd (retry_step m x st))"
    using Cons.prems by (simp add: retry_step_inv)
  with Cons attempts_step [of m st x sig] attempts_bound [of m st sig] show ?case
    by auto
qed

section \<open>Properties\<close>

text \<open>
  C26. The n-th deferral of a signature, whatever completions and deferrals of other
  signatures lie in between, is scheduled with attempt number n and, without a hint, the
  wait \<open>900 * 2 ^ (n - 1)\<close> seconds while n is within the bound, and marks the row
  exhausted with the bound as its attempt count from then on.
\<close>

theorem nth_deferral:
  assumes "1 \<le> m" and "\<forall>x\<in>set xs. plain_op x" and "df_retry_after_seconds d = 0"
    and "n = int (List.length (filter (defers (df_signature d)) xs)) + 1"
  shows "\<exists>row. fst (defer_retry quiet m now d (run (retry_step m) xs empty_retries)) = Inr row \<and>
     (if n \<le> m
      then rt_status row = Pending \<and> rt_attempts row = n \<and> rt_wait_seconds row = 900 * 2 ^ nat (n - 1) \<and>
           rt_due_at row = Aware_Stamp (floor_second (now + seconds (rt_wait_seconds row)))
      else rt_status row = Exhausted \<and> rt_attempts row = m)"
proof -
  let ?st = "run (retry_step m) xs empty_retries"
  have "attempts_of (df_signature d) ?st = min m (n - 1)"
    using attempts_run [OF assms(1) retries_inv_empty, of xs "df_signature d"] assms(2,4)
    by (simp add: empty_retries_def attempts_of_def)
  moreover have "retries_inv m ?st"
    using rt.inv_run [of m empty_retries xs] retries_inv_empty assms(1) by blast
  ultimately show ?thesis
    using assms(1,3,4)
    by (auto simp: retry_defs attempts_of_def backoff_seconds_def DEFAULT_BACKOFF_SECONDS_def
        split: option.splits)
qed

definition example_deferral :: deferral where
  "example_deferral =
     \<lparr>df_signature = ''s'', df_request_id = ''r'', df_workspace_id = ''w'', df_dataset_id = ''d'',
      df_report_name = [], df_reason = ''throttled'', df_retry_after_seconds = 0, df_source = None\<rparr>"

theorem nth_deferral_witness:
  "\<exists>row. fst (defer_retry quiet MAX_ATTEMPTS 7 example_deferral
       (run (retry_step MAX_ATTEMPTS)
          [Rt_Defer 0 example_deferral, Rt_Complete 1 ''s'' ''resolved'', Rt_Defer 2 example_deferral,
           Rt_Defer 3 example_deferral] empty_retries)) = Inr row \<and>
     rt_status row = Exhausted \<and> rt_attempts row = MAX_ATTEMPTS"
  using nth_deferral [of MAX_ATTEMPTS "[Rt_Defer 0 example_deferral, Rt_Complete 1 ''s'' ''resolved'',
      Rt_Defer 2 example_deferral, Rt_Defer 3 example_deferral]" example_deferral 4 7]
  by (simp add: example_deferral_def MAX_ATTEMPTS_def)

text \<open>
  No postponed retry is stranded: at every instant each pending row is either due,
  and then the sweep's list has it, or deferred, never both; a row whose due time cannot
  be read is due; and every row stays within the attempt bound, linked retries included.
\<close>

lemma pending_is_due_or_deferred:
  assumes "1 \<le> m"
  shows "let st = run (retry_step m) xs empty_retries
    in \<forall>sig row. map_of (rs_items st) sig = Some row \<longrightarrow>
        1 \<le> rt_attempts row \<and> rt_attempts row \<le> m \<and>
        (rt_status row = Pending \<longrightarrow>
           row \<in> set (pending_retries st) \<and> (row \<in> set (due_retries now st) \<longleftrightarrow> \<not> is_deferred sig now st)) \<and>
        (rt_status row \<noteq> Pending \<longrightarrow> row \<notin> set (due_retries now st) \<and> \<not> is_deferred sig now st)"
proof -
  let ?st = "run (retry_step m) xs empty_retries"
  have "retries_inv m ?st"
    using rt.inv_run [of m empty_retries xs] retries_inv_empty assms by blast
  then show ?thesis
    by (auto simp: Let_def retries_inv_def pending_retries_def due_retries_def is_deferred_def
        get_retry_def intro: rev_image_eqI [OF map_of_SomeD])
qed

lemma pending_is_due_or_deferred_witness:
  "(let st = run (retry_step MAX_ATTEMPTS) [Rt_Defer 0 example_deferral] empty_retries
    in \<exists>row. map_of (rs_items st) ''s'' = Some row \<and> row \<in> set (pending_retries st)) \<and>
   is_deferred ''s'' 5 (run (retry_step MAX_ATTEMPTS) [Rt_Defer 0 example_deferral] empty_retries)"
  using pending_is_due_or_deferred [of MAX_ATTEMPTS "[Rt_Defer 0 example_deferral]" 5]
  by (simp add: Let_def MAX_ATTEMPTS_def example_deferral_def empty_retries_def retry_defs
      is_deferred_def get_retry_def floor_second_def seconds_def backoff_seconds_def
      DEFAULT_BACKOFF_SECONDS_def)

lemma ensure_loaded_row:
  assumes "ensure_loaded digest readable (Some sig) st = (Inr u, st1)"
  shows "rb_table (rs_backing st1) = rb_table (rs_backing st)"
    and "map_of (rs_items st1) sig = Option.bind (map_of (rb_table (rs_backing st)) sig)
           (\<lambda>p. load_payload (sig, p))"
    and "map_of (rb_revisions (rs_backing st1)) sig =
           map_option digest (map_of (rb_table (rs_backing st)) sig)"
proof -
  let ?t = "rb_table (rs_backing st)"
  let ?sel = "filter (\<lambda>(k, _). k = sig) ?t"
  have all: "list_all (\<lambda>kp. load_payload kp \<noteq> None) ?sel"
    and st1: "st1 = \<lparr>rs_items = map (\<lambda>kp. (fst kp, the (load_payload kp))) ?sel,
                 rs_backing = (rs_backing st)\<lparr>rb_loaded := True,
                   rb_revisions := map (\<lambda>kp. (fst kp, digest (snd kp))) ?sel\<rparr>\<rparr>"
    using assms by (auto simp: ensure_loaded_def load_rows_def Let_def split: if_splits)
  show "rb_table (rs_backing st1) = ?t" by (simp add: st1)
  have "list_all (\<lambda>kp. load_payload kp \<noteq> None) (filter (\<lambda>(k, _). k = sig) t) \<Longrightarrow>
      map_of (map (\<lambda>kp. (fst kp, the (load_payload kp))) (filter (\<lambda>(k, _). k = sig) t)) sig =
        Option.bind (map_of t sig) (\<lambda>p. load_payload (sig, p))" for t
    by (induction t) auto
  from this [OF all] show "map_of (rs_items st1) sig =
      Option.bind (map_of ?t sig) (\<lambda>p. load_payload (sig, p))"
    by (simp add: st1)
  have "map_of (map (\<lambda>kp. (fst kp, digest (snd kp))) (filter (\<lambda>(k, _). k = sig) t)) sig =
      map_option digest (map_of t sig)" for t
    by (induction t) auto
  then show "map_of (rb_revisions (rs_backing st1)) sig = map_option digest (map_of ?t sig)"
    by (simp add: st1)
qed

lemma sql_hook_ok:
  assumes "sql_retry_hook digest reply row st = (True, st')"
  shows "rb_table (rs_backing st') = AList.update (rt_signature row) (Retry_Text row) (rb_table (rs_backing st))
    \<and> map_of (rb_revisions (rs_backing st)) (rt_signature row) =
        map_option digest (map_of (rb_table (rs_backing st)) (rt_signature row))"
  using assms
  by (auto simp: sql_retry_hook_def retry_write_def db_execute_def Let_def
      split: option.splits if_splits db_reply.splits prod.splits)

text \<open>
  The SQL store loses no deferral: when it acknowledges one, the row that it replaced
  was still the one it had read, however other clients moved the table in between, and
  the stored attempt count is the read one plus one, or the row is exhausted at its old
  count. The hash is assumed not to confuse the payloads of this row.
\<close>

lemma sql_deferral_not_lost:
  assumes "sql_defer digest readable reply moved m now d st = (Inr row, st')"
    and "\<And>p q. map_of (moved (rb_table (rs_backing st))) (df_signature d) = Some p \<Longrightarrow>
           map_of (rb_table (rs_backing st)) (df_signature d) = Some q \<Longrightarrow> digest p = digest q \<Longrightarrow> p = q"
    and "1 \<le> m"
  shows "let before = map_of (rb_table (rs_backing st)) (df_signature d);
             prior = Option.bind before (\<lambda>p. load_payload (df_signature d, p))
    in map_of (moved (rb_table (rs_backing st))) (df_signature d) = before \<and>
       map_of (rb_table (rs_backing st')) (df_signature d) = Some (Retry_Text row) \<and>
       (if m < next_attempt prior
        then rt_status row = Exhausted \<and> (\<exists>p. prior = Some p \<and> rt_attempts row = rt_attempts p)
        else rt_status row = Pending \<and> rt_attempts row = next_attempt prior)"
proof -
  let ?sig = "df_signature d" and ?t = "rb_table (rs_backing st)"
  obtain u st1 where load: "ensure_loaded digest readable (Some ?sig) st = (Inr u, st1)"
    using assms(1) by (auto simp: sql_defer_def Let_def split: prod.splits sum.splits)
  define st2 where "st2 = st1\<lparr>rs_backing := (rs_backing st1)\<lparr>rb_table := moved (rb_table (rs_backing st1))\<rparr>\<rparr>"
  have run: "defer_retry (sql_retry_hook digest reply) m now d st2 = (Inr row, st')"
    using assms(1) load by (simp add: sql_defer_def Let_def st2_def)
  note st1 = ensure_loaded_row [OF load]
  define prior where "prior = Option.bind (map_of ?t ?sig) (\<lambda>p. load_payload (?sig, p))"
  have items: "map_of (rs_items st2) ?sig = prior" and bk: "rb_table (rs_backing st2) = moved ?t"
    "map_of (rb_revisions (rs_backing st2)) ?sig = map_option digest (map_of ?t ?sig)"
    using st1 by (simp_all add: st2_def prior_def)
  have prior_sig: "prior = Some p \<Longrightarrow> rt_signature p = ?sig" for p
    by (cases "map_of ?t ?sig"; cases "the (map_of ?t ?sig)")
       (auto simp: prior_def aware_retry_def split: if_splits)
  let ?row = "if m < next_attempt prior
      then exhausted_row m now (case prior of None \<Rightarrow> blank_retry now | Some r \<Rightarrow> r)
      else deferred_row now d prior"
  have "store_retry (sql_retry_hook digest reply) ?sig ?row st2 = (Inr row, st')"
    using run items by (simp add: defer_retry_def Let_def split: if_splits)
  then have row: "row = ?row" and hook: "sql_retry_hook digest reply ?row
      (st2\<lparr>rs_items := AList.update ?sig ?row (rs_items st2)\<rparr>) = (True, st')"
    by (auto simp: store_retry_def Let_def split: prod.splits if_splits)
  have sig: "rt_signature ?row = ?sig"
    using prior_sig assms(3)
    by (auto simp: exhausted_row_def deferred_row_def next_attempt_def Let_def split: option.splits)
  have "map_option digest (map_of (moved ?t) ?sig) = map_option digest (map_of ?t ?sig)"
    and "map_of (rb_table (rs_backing st')) ?sig = Some (Retry_Text row)"
    using sql_hook_ok [OF hook] sig bk row by auto
  moreover from this have "map_of (moved ?t) ?sig = map_of ?t ?sig"
    using assms(2) by (auto simp: map_option_case split: option.splits)
  moreover have "if m < next_attempt prior
        then rt_status row = Exhausted \<and> (\<exists>p. prior = Some p \<and> rt_attempts row = rt_attempts p)
        else rt_status row = Pending \<and> rt_attempts row = next_attempt prior"
    using row assms(3)
    by (auto simp: exhausted_row_def deferred_row_def next_attempt_def Let_def split: option.splits if_splits)
  ultimately show ?thesis by (simp add: Let_def prior_def [symmetric])
qed

definition first_deferred :: retry_row where
  "first_deferred = deferred_row 0 example_deferral None"

definition example_backing :: "retry_backing retry_store" where
  "example_backing =
     \<lparr>rs_items = [], rs_backing = \<lparr>rb_table = [(''s'', Retry_Text first_deferred)],
        rb_loaded = True, rb_revisions = []\<rparr>\<rparr>"

lemma example_facts:
  "df_signature example_deferral = ''s''" "rt_attempts first_deferred = 1"
  "rt_signature (deferred_row now example_deferral prior) = ''s''" "aware_retry ''s'' first_deferred"
  "rb_table (rs_backing example_backing) = [(''s'', Retry_Text first_deferred)]"
  by code_simp (simp_all add: example_deferral_def first_deferred_def deferred_row_def
      next_attempt_def example_backing_def Let_def, code_simp)

lemma example_sql_defer:
  "\<exists>st'. sql_defer (\<lambda>_. ''h'') True Db_Replied id MAX_ATTEMPTS 7 example_deferral example_backing =
     (Inr (deferred_row 7 example_deferral (Some first_deferred)), st')"
  unfolding sql_defer_def ensure_loaded_def load_rows_def example_backing_def Let_def
  by (simp add: example_facts defer_retry_def store_retry_def sql_retry_hook_def retry_write_def
      db_execute_def MAX_ATTEMPTS_def next_attempt_def Let_def)

lemma sql_deferral_not_lost_witness:
  "\<exists>row st'. sql_defer (\<lambda>_. ''h'') True Db_Replied id MAX_ATTEMPTS 7 example_deferral example_backing = (Inr row, st')
     \<and> map_of (rb_table (rs_backing st')) ''s'' = Some (Retry_Text row)"
proof -
  obtain st' where *: "sql_defer (\<lambda>_. ''h'') True Db_Replied id MAX_ATTEMPTS 7 example_deferral example_backing =
     (Inr (deferred_row 7 example_deferral (Some first_deferred)), st')"
    using example_sql_defer by blast
  from sql_deferral_not_lost [OF *] * show ?thesis
    by (auto simp: example_facts MAX_ATTEMPTS_def Let_def)
qed

end
