(* ===== verification/Models.thy ===== *)
theory Models
  imports Retries
begin

text \<open>
  \<^verbatim>\<open>src/src/triage/models.py\<close> and \<^verbatim>\<open>src/src/triage/pipeline_models.py\<close>: the typed
  contracts of a triage run and the facts about pipelines. Identifiers are the canonical
  texts that the validators leave, times are UTC instants. The \<open>confidence\<close> scores, which
  no decision reads, are left out.
\<close>

section \<open>Outcomes of a run\<close>

datatype outcome =
    Resolved
  | Flagged_Data_Quality
  | Duplicate_Suppressed
  | Approval_Denied
  | Deferred_Retry
  | Needs_Human
  | Declared_Failed
  | Agent_Crashed
  | Timed_Out_Run
  | Budget_Exceeded_Run
  | Max_Turns_Exceeded_Run
  | Policy_Blocked_Run

fun outcome_name :: "outcome \<Rightarrow> string" where
  "outcome_name Resolved = ''resolved''"
| "outcome_name Flagged_Data_Quality = ''flagged_data_quality''"
| "outcome_name Duplicate_Suppressed = ''duplicate_suppressed''"
| "outcome_name Approval_Denied = ''approval_denied''"
| "outcome_name Deferred_Retry = ''deferred_retry''"
| "outcome_name Needs_Human = ''needs_human''"
| "outcome_name Declared_Failed = ''declared_failed''"
| "outcome_name Agent_Crashed = ''agent_crashed''"
| "outcome_name Timed_Out_Run = ''timed_out''"
| "outcome_name Budget_Exceeded_Run = ''budget_exceeded''"
| "outcome_name Max_Turns_Exceeded_Run = ''max_turns_exceeded''"
| "outcome_name Policy_Blocked_Run = ''policy_blocked''"

definition all_outcomes :: "outcome list" where
  "all_outcomes =
     [Resolved, Flagged_Data_Quality, Duplicate_Suppressed, Approval_Denied, Deferred_Retry,
      Needs_Human, Declared_Failed, Agent_Crashed, Timed_Out_Run, Budget_Exceeded_Run,
      Max_Turns_Exceeded_Run, Policy_Blocked_Run]"

definition parse_outcome :: "string \<Rightarrow> outcome option" where
  "parse_outcome s = find (\<lambda>x. outcome_name x = s) all_outcomes"

definition RESOLVED_OUTCOMES :: "outcome set" where
  "RESOLVED_OUTCOMES = {Resolved, Flagged_Data_Quality, Duplicate_Suppressed}"

lemma in_all_outcomes: "x \<in> set all_outcomes"
  by (cases x) (simp_all add: all_outcomes_def)

lemma outcome_name_inject: "outcome_name x = outcome_name y \<longleftrightarrow> x = y"
  by (cases x; cases y) simp_all

lemma parse_outcome_name [simp]: "parse_outcome (outcome_name x) = Some x"
  by (cases x) (simp_all add: parse_outcome_def all_outcomes_def)

lemma parse_outcome_some: "parse_outcome s = Some x \<Longrightarrow> s = outcome_name x"
  by (auto simp: parse_outcome_def find_Some_iff)

section \<open>Requests, findings, actions\<close>

datatype request_source = Src_Mock | Src_Graph | Src_Interactive | Src_Detector | Src_Pipeline | Src_Web

record bi_request =
  bi_request_id :: string
  bi_received_at :: string
  bi_sender :: string
  bi_subject :: string
  bi_body :: string
  bi_report_name :: "string option"
  bi_dataset_id :: "string option"
  bi_workspace_id :: "string option"
  bi_error_code :: "string option"
  bi_source :: request_source

definition request_error_text :: "bi_request \<Rightarrow> string" where
  "request_error_text r = py_strip (bi_subject r @ [CHR 0x0A] @ bi_body r)"

record duplicate_evidence =
  de_table :: string
  de_key_columns :: "string list"
  de_group_count :: nat
  de_row_count :: nat
  de_total :: nat
  de_samples :: "string list"

datatype issue_type = Duplicates | No_Issue | Unknown_Issue

datatype dq_advice = Flag_And_Notify | No_Action | Escalate

record dq_finding =
  dq_has_issue :: bool
  dq_issue_type :: issue_type
  dq_detail :: string
  dq_evidence :: "duplicate_evidence option"
  dq_checked_tables :: "string list"
  dq_recommended :: dq_advice
  dq_agent_name :: string

datatype flag_status = Flag_Open | Flag_Acknowledged | Flag_Resolved

record dq_flag =
  fl_flag_id :: string
  fl_flagged_at :: string
  fl_request_id :: string
  fl_table_name :: string
  fl_issue_type :: string
  fl_key_columns :: string
  fl_group_count :: nat
  fl_row_count :: nat
  fl_total :: nat
  fl_detail :: string
  fl_detected_by :: string
  fl_status :: flag_status

datatype tier = Tier_1 | Tier_2 | Tier_Needs_Human

datatype category = Transient | Data_Quality | Config | App | User

datatype severity = Low | Medium | High

record classification =
  tc_tier :: tier
  tc_category :: category
  tc_severity :: severity
  tc_root_cause :: string
  tc_reasoning :: "string list"
  tc_proposed_action :: string
  tc_requires_human :: bool

text \<open>The decision time of a record that nobody decided is empty (\<open>None\<close>).\<close>

record approval_record =
  ap_action :: action
  ap_fingerprint :: string
  ap_requested_at :: instant
  ap_justification :: string
  ap_impact :: string
  ap_granted :: bool
  ap_outcome :: verdict
  ap_decided_by :: string
  ap_decided_at :: "instant option"
  ap_reason :: remark
  ap_waited_ms :: int

record triage_action =
  ta_tool_name :: action
  ta_arguments :: "(string, json) dict"
  ta_result_summary :: string
  ta_duration_ms :: int
  ta_is_remediation :: bool
  ta_blocked :: bool

record triage_result =
  tr_outcome :: outcome
  tr_summary :: string
  tr_request_id :: string
  tr_signature :: string
  tr_signature_version :: string
  tr_root_cause :: string
  tr_action_taken :: string
  tr_classification :: "classification option"
  tr_dq_finding :: "dq_finding option"
  tr_actions :: "triage_action list"
  tr_approvals :: "approval_record list"
  tr_llm_turns :: int
  tr_tool_calls :: int
  tr_write_actions :: int
  tr_attempted_actions :: int
  tr_tokens_used :: int
  tr_wall_clock_ms :: int
  tr_blocked_attempts :: "action list"
  tr_denied_actions :: "action list"
  tr_notification_failed :: bool
  tr_notification_delivered :: bool
  tr_notification_suppressed :: bool
  tr_exception_class :: string
  tr_exception_message :: string

definition result_succeeded :: "triage_result \<Rightarrow> bool" where
  "result_succeeded r \<longleftrightarrow> tr_outcome r \<in> RESOLVED_OUTCOMES"

section \<open>Pipelines\<close>

definition PIPELINE_JOB_TYPES :: "string list" where
  "PIPELINE_JOB_TYPES = [''Pipeline'', ''Execute'']"

definition PIPELINE_TERMINAL_STATUSES :: "string list" where
  "PIPELINE_TERMINAL_STATUSES = [''Completed'', ''Failed'', ''Cancelled'', ''Deduped'']"

text \<open>No replay parameters (\<open>None\<close>) have not been reviewed; an empty object has.\<close>

record pipeline_target =
  pt_name :: string
  pt_workspace_id :: string
  pt_pipeline_id :: string
  pt_rerun_safe :: bool
  pt_rerun_parameters :: "(string, json) dict option"

definition target_key :: "pipeline_target \<Rightarrow> string" where
  "target_key t = pt_workspace_id t @ '':'' @ pt_pipeline_id t"

definition permits_rerun :: "pipeline_target \<Rightarrow> bool" where
  "permits_rerun t \<longleftrightarrow> pt_rerun_safe t \<and> pt_rerun_parameters t \<noteq> None"

definition parameter_hash :: "(string \<Rightarrow> string) \<Rightarrow> pipeline_target \<Rightarrow> string" where
  "parameter_hash sha t =
     sha (dumps (case pt_rerun_parameters t of None \<Rightarrow> JNull | Some ps \<Rightarrow> JObj ps))"

record pipeline_run =
  pr_id :: string
  pr_item_id :: string
  pr_status :: string
  pr_job_type :: string
  pr_invoke_type :: string
  pr_start_time :: "instant option"
  pr_end_time :: "instant option"
  pr_error_code :: string
  pr_failure_reason :: string
  pr_retry_after_seconds :: int

definition failed_scheduled :: "pipeline_run \<Rightarrow> bool" where
  "failed_scheduled r \<longleftrightarrow>
     pr_status r = ''Failed'' \<and> pr_invoke_type r = ''Scheduled'' \<and> pr_job_type r \<in> set PIPELINE_JOB_TYPES"

definition strip_chars :: "string \<Rightarrow> string \<Rightarrow> string" where
  "strip_chars cs s = rev (dropWhile (\<lambda>c. c \<in> set cs) (rev (dropWhile (\<lambda>c. c \<in> set cs) s)))"

definition run_error_text :: "pipeline_run \<Rightarrow> string" where
  "run_error_text r = strip_chars '': '' (pr_error_code r @ '': '' @ pr_failure_reason r)"

record pipeline_activity =
  pa_name :: string
  pa_type :: string
  pa_status :: string
  pa_error_code :: string
  pa_message :: string

record pipeline_failure =
  pf_target :: pipeline_target
  pf_run :: pipeline_run
  pf_recent_runs :: "pipeline_run list"
  pf_activities :: "pipeline_activity list"
  pf_diagnostics_error :: string

definition valid_failure :: "pipeline_failure \<Rightarrow> bool" where
  "valid_failure f \<longleftrightarrow>
     pr_item_id (pf_run f) = pt_pipeline_id (pf_target f) \<and>
     failed_scheduled (pf_run f) \<and> pr_end_time (pf_run f) \<noteq> None \<and>
     (case (pr_start_time (pf_run f), pr_end_time (pf_run f)) of
        (Some s, Some e) \<Rightarrow> s \<le> e | _ \<Rightarrow> True) \<and>
     list_all (\<lambda>r. pr_item_id r = pt_pipeline_id (pf_target f)) (pf_recent_runs f)"

definition failure_key :: "pipeline_failure \<Rightarrow> string" where
  "failure_key f = target_key (pf_target f) @ '':'' @ pr_id (pf_run f)"

definition start_or_min :: "pipeline_run \<Rightarrow> instant" where
  "start_or_min r = (case pr_start_time r of None \<Rightarrow> DATETIME_MIN | Some s \<Rightarrow> s)"

record pipeline_evidence =
  pe_workspace_id :: string
  pe_pipeline_id :: string
  pe_pipeline_name :: string
  pe_run :: pipeline_run
  pe_recent_runs :: "pipeline_run list"
  pe_recent_run_count :: nat
  pe_activities :: "pipeline_activity list"
  pe_activity_count :: nat
  pe_truncated :: bool
  pe_diagnostics_error :: string
  pe_rerun_safe :: bool
  pe_parameter_hash :: string

text \<open>Newest runs first, failed activities first and then by name.\<close>

definition failure_evidence :: "(string \<Rightarrow> string) \<Rightarrow> pipeline_failure \<Rightarrow> pipeline_evidence" where
  "failure_evidence sha f =
     (let recent = rev (sort_key start_or_min (rev (pf_recent_runs f)));
          acts = sort_key (\<lambda>a. pa_status a \<noteq> ''Failed'') (sort_key pa_name (pf_activities f))
      in \<lparr>pe_workspace_id = pt_workspace_id (pf_target f),
          pe_pipeline_id = pt_pipeline_id (pf_target f),
          pe_pipeline_name = pt_name (pf_target f), pe_run = pf_run f,
          pe_recent_runs = take 10 recent, pe_recent_run_count = List.length recent,
          pe_activities = take 30 acts, pe_activity_count = List.length acts,
          pe_truncated = (10 < List.length recent \<or> 30 < List.length acts),
          pe_diagnostics_error = pf_diagnostics_error f,
          pe_rerun_safe = permits_rerun (pf_target f),
          pe_parameter_hash = parameter_hash sha (pf_target f)\<rparr>)"

definition failure_error_text :: "pipeline_failure \<Rightarrow> string" where
  "failure_error_text f =
     (let errs = map (\<lambda>a. pa_name a @ '' '' @ pa_error_code a @ '': '' @ pa_message a)
                   (filter (\<lambda>a. pa_status a = ''Failed'') (sort_key pa_name (pf_activities f)))
      in py_strip (join_with [CHR 0x0A] (errs @ [run_error_text (pf_run f)])))"

datatype rerun_state = Reserved | Submitted | Completed | Failed_Rerun | Unknown_Rerun

record rerun_record =
  rr_workspace_id :: string
  rr_pipeline_id :: string
  rr_failed_run_id :: string
  rr_signature :: string
  rr_parameter_hash :: string
  rr_state :: rerun_state
  rr_rerun_id :: string
  rr_detail :: string
  rr_next_poll_at :: "instant option"
  rr_updated_at :: instant

definition rerun_key :: "rerun_record \<Rightarrow> string" where
  "rerun_key r = rr_workspace_id r @ '':'' @ rr_pipeline_id r @ '':'' @ rr_failed_run_id r"

text \<open>The outcome of a remediation: of a rerun, a refresh or a configuration change.\<close>

record rerun_outcome =
  ro_status :: string
  ro_run_id :: string
  ro_detail :: string

definition rerun_succeeded :: "rerun_outcome \<Rightarrow> bool" where
  "rerun_succeeded r \<longleftrightarrow> ro_status r = ''Completed''"

record pipeline_submission =
  ps_run_id :: string
  ps_retry_after_seconds :: int

section \<open>Incidents\<close>

datatype incident_status = Open | Investigating | Settled | Wont_Fix

datatype action_type =
    Nondeterministic_Retry | Known_Workaround | Deterministic_Fix | Flag_Only | None_Taken
  | Unknown_Type

record incident =
  in_id :: string
  in_signature :: string
  in_signature_version :: string
  in_outcome :: outcome
  in_status :: incident_status
  in_request_id :: string
  in_report_name :: string
  in_source :: string
  in_pipeline_failure :: "pipeline_failure option"
  in_occurrence_count :: int
  in_first_seen_at :: instant
  in_last_seen_at :: instant
  in_notified_count :: int
  in_last_notified_at :: "instant option"
  in_original_error :: string
  in_root_cause :: string
  in_action_applied :: string
  in_action_type :: action_type
  in_requires_investigation :: bool
  in_agent_name :: string
  in_prompt_version_hash :: string
  in_model_provider :: string
  in_model_name :: string
  in_app_version :: string
  in_redaction_kinds :: "string list"
  in_triage_notes :: string

end
