(* ===== verification/Pipeline_Reruns.thy ===== *)
theory Pipeline_Reruns
  imports Models
begin

text \<open>
  \<^verbatim>\<open>src/src/triage/store/pipeline_reruns.py\<close>: the reservation that must exist before a
  pipeline rerun is posted. Nothing expires or removes a reservation. \<open>sha\<close> hashes the
  key, \<open>redact\<close> the details; \<open>ok\<close> says whether the hook that persists the in-memory rows
  returned.
\<close>

datatype rerun_error = Not_A_Reservation | Rerun_Persist_Raised | Rerun_Db_Raised | Not_Exactly_One_Row

type_synonym rerun_rows = "(string, rerun_record) dict"

definition redacted_rerun :: "(string \<Rightarrow> string) \<Rightarrow> rerun_record \<Rightarrow> rerun_record" where
  "redacted_rerun redact r = r\<lparr>rr_detail := take 2000 (redact (rr_detail r))\<rparr>"

definition get_rerun :: "(string \<Rightarrow> string) \<Rightarrow> string \<Rightarrow> rerun_rows \<Rightarrow> rerun_record option" where
  "get_rerun sha key rows = map_of rows (sha key)"

definition reserve_rerun :: "(string \<Rightarrow> string) \<Rightarrow> (string \<Rightarrow> string) \<Rightarrow> bool \<Rightarrow> rerun_record \<Rightarrow> rerun_rows \<Rightarrow>
    (rerun_error + bool) \<times> rerun_rows" where
  "reserve_rerun sha redact ok r rows =
     (if rr_state r \<noteq> Reserved then (Inl Not_A_Reservation, rows)
      else let key = sha (rerun_key r)
           in if map_of rows key \<noteq> None then (Inr False, rows)
              else let rows' = AList.update key (redacted_rerun redact r) rows
                   in if ok then (Inr True, rows')
                      else (Inl Rerun_Persist_Raised, AList.delete key rows'))"

definition update_rerun :: "(string \<Rightarrow> string) \<Rightarrow> (string \<Rightarrow> string) \<Rightarrow> bool \<Rightarrow> rerun_record \<Rightarrow> rerun_state \<Rightarrow>
    rerun_rows \<Rightarrow> (rerun_error + bool) \<times> rerun_rows" where
  "update_rerun sha redact ok r expected rows =
     (let key = sha (rerun_key r)
      in case map_of rows key of
           None \<Rightarrow> (Inr False, rows)
         | Some prior \<Rightarrow>
             if rr_state prior \<noteq> expected then (Inr False, rows)
             else if ok then (Inr True, AList.update key (redacted_rerun redact r) rows)
             else (Inl Rerun_Persist_Raised,
                   AList.update key prior (AList.update key (redacted_rerun redact r) rows)))"

definition pending_reruns :: "string \<Rightarrow> string \<Rightarrow> rerun_rows \<Rightarrow> rerun_record list" where
  "pending_reruns workspace pipeline rows =
     filter (\<lambda>r. rr_workspace_id r = workspace \<and> rr_pipeline_id r = pipeline \<and> rr_state r = Submitted)
       (map snd rows)"

text \<open>
  The SQL store inserts under the primary key and updates under the expected state. Its
  rows have the state column and the payload, which every write sets together.
\<close>

definition sql_reserve_rerun :: "(string \<Rightarrow> string) \<Rightarrow> (string \<Rightarrow> string) \<Rightarrow> db_reply \<Rightarrow> rerun_record \<Rightarrow>
    rerun_rows \<Rightarrow> (rerun_error + bool) \<times> rerun_rows" where
  "sql_reserve_rerun sha redact reply r rows =
     (if rr_state r \<noteq> Reserved then (Inl Not_A_Reservation, rows)
      else let key = sha (rerun_key r)
           in if map_of rows key \<noteq> None
              then (case reply of Db_Raised _ \<Rightarrow> (Inl Rerun_Db_Raised, rows) | _ \<Rightarrow> (Inr False, rows))
              else let (n, rows') = db_execute reply 1 (AList.update key (redacted_rerun redact r) rows) rows
                   in case n of
                        Inl _ \<Rightarrow> (Inl Rerun_Db_Raised, rows')
                      | Inr k \<Rightarrow> (if k \<noteq> 1 then Inl Not_Exactly_One_Row else Inr True, rows'))"

definition sql_update_rerun :: "(string \<Rightarrow> string) \<Rightarrow> (string \<Rightarrow> string) \<Rightarrow> db_reply \<Rightarrow> rerun_record \<Rightarrow>
    rerun_state \<Rightarrow> rerun_rows \<Rightarrow> (rerun_error + bool) \<times> rerun_rows" where
  "sql_update_rerun sha redact reply r expected rows =
     (let key = sha (rerun_key r);
          (n, rows') =
            (case map_of rows key of
               Some prior \<Rightarrow>
                 if rr_state prior = expected
                 then db_execute reply 1 (AList.update key (redacted_rerun redact r) rows) rows
                 else db_execute reply 0 rows rows
             | None \<Rightarrow> db_execute reply 0 rows rows)
      in (case n of Inl _ \<Rightarrow> Inl Rerun_Db_Raised | Inr k \<Rightarrow> Inr (k = 1), rows'))"

section \<open>Both stores as one-shot resources\<close>

datatype 'w rerun_op = Reserve_Op 'w rerun_record | Update_Op 'w rerun_record rerun_state

fun rerun_step :: "(string \<Rightarrow> string) \<Rightarrow> (string \<Rightarrow> string) \<Rightarrow> bool rerun_op \<Rightarrow> rerun_rows \<Rightarrow>
    (rerun_error + bool) \<times> rerun_rows" where
  "rerun_step sha redact (Reserve_Op ok r) rows = reserve_rerun sha redact ok r rows"
| "rerun_step sha redact (Update_Op ok r e) rows = update_rerun sha redact ok r e rows"

fun sql_rerun_step :: "(string \<Rightarrow> string) \<Rightarrow> (string \<Rightarrow> string) \<Rightarrow> db_reply rerun_op \<Rightarrow> rerun_rows \<Rightarrow>
    (rerun_error + bool) \<times> rerun_rows" where
  "sql_rerun_step sha redact (Reserve_Op reply r) rows = sql_reserve_rerun sha redact reply r rows"
| "sql_rerun_step sha redact (Update_Op reply r e) rows = sql_update_rerun sha redact reply r e rows"

fun reserved_key :: "(string \<Rightarrow> string) \<Rightarrow> 'w rerun_op \<Rightarrow> rerun_error + bool \<Rightarrow> string option" where
  "reserved_key sha (Reserve_Op _ r) (Inr True) = Some (sha (rerun_key r))"
| "reserved_key sha _ _ = None"

lemma reserved_key_iff: "reserved_key sha x a = Some k \<longleftrightarrow>
    (\<exists>w r. x = Reserve_Op w r \<and> a = Inr True \<and> k = sha (rerun_key r))"
  by (auto elim!: reserved_key.elims)

lemmas rerun_defs =
  reserve_rerun_def update_rerun_def sql_reserve_rerun_def sql_update_rerun_def db_execute_def Let_def

interpretation rerun_store: one_shot "rerun_step sha redact" "\<lambda>_. True" "reserved_key sha"
  "\<lambda>rows k. map_of rows k \<noteq> None"
proof (unfold_locales, goal_cases)
  case (4 rows k x)
  then show ?case by (cases x) (auto simp: rerun_defs split: option.splits)
qed (auto simp: reserved_key_iff rerun_defs split: if_splits)

interpretation sql_rerun_store: one_shot "sql_rerun_step sha redact" "\<lambda>_. True" "reserved_key sha"
  "\<lambda>rows k. map_of rows k \<noteq> None"
proof (unfold_locales, goal_cases)
  case (4 rows k x)
  then show ?case by (cases x) (auto simp: rerun_defs split: option.splits db_reply.splits)
qed (auto simp: reserved_key_iff rerun_defs split: if_splits db_reply.splits)

lemma reserve_won_iff:
  "reserve_rerun sha redact ok r rows = (Inr True, rows') \<longleftrightarrow>
     rr_state r = Reserved \<and> map_of rows (sha (rerun_key r)) = None \<and> ok \<and>
     rows' = AList.update (sha (rerun_key r)) (redacted_rerun redact r) rows"
  by (auto simp: reserve_rerun_def Let_def)

lemma redacted_rerun_sel [simp]:
  "rr_state (redacted_rerun redact r) = rr_state r"
  "rr_rerun_id (redacted_rerun redact r) = rr_rerun_id r"
  "rerun_key (redacted_rerun redact r) = rerun_key r"
  by (simp_all add: redacted_rerun_def rerun_key_def)

section \<open>Properties\<close>

text \<open>
  A failed run is reserved for a rerun at most once and for ever: over any sequence
  of reservations and updates, with persists that fail and acknowledgements that are
  lost, at most one reservation of a key succeeds in either store, and once a key has a
  row it keeps one.
\<close>

lemma rerun_reserved_once:
  "count_wins (rerun_step sha redact) (reserved_key sha) k xs rows \<le> 1 \<and>
   count_wins (sql_rerun_step sha redact) (reserved_key sha) k ys rows \<le> 1 \<and>
   (map_of rows k \<noteq> None \<longrightarrow>
      map_of (run (rerun_step sha redact) xs rows) k \<noteq> None \<and>
      map_of (run (sql_rerun_step sha redact) ys rows) k \<noteq> None)"
  by (intro conjI impI rerun_store.wins_once sql_rerun_store.wins_once rerun_store.spent_run
      sql_rerun_store.spent_run) simp_all

definition example_rerun :: rerun_record where
  "example_rerun =
     \<lparr>rr_workspace_id = ''w'', rr_pipeline_id = ''p'', rr_failed_run_id = ''r'', rr_signature = ''s'',
      rr_parameter_hash = ''h'', rr_state = Reserved, rr_rerun_id = [], rr_detail = [],
      rr_next_poll_at = None, rr_updated_at = 0\<rparr>"

lemma rerun_reserved_once_witness:
  "count_wins (rerun_step id id) (reserved_key id) ''w:p:r''
       [Reserve_Op True example_rerun, Reserve_Op True example_rerun] [] \<le> 1 \<and>
   map_of (run (rerun_step id id) [Update_Op True example_rerun Submitted]
     [(''w:p:r'', example_rerun)]) ''w:p:r'' \<noteq> None"
  using rerun_reserved_once [of id id "''w:p:r''" "[Reserve_Op True example_rerun, Reserve_Op True example_rerun]" "[]" "[]"]
    rerun_reserved_once [of id id "''w:p:r''" "[Update_Op True example_rerun Submitted]" "[(''w:p:r'', example_rerun)]" "[]"]
  by simp

text \<open>
  An update is a compare-and-set: the SQL store reports success only when the row was
  in the expected state, and then the row is the redacted new record; in the in-memory
  store success is equivalent to that, and a failed update changes no row.
\<close>

lemma rerun_update_is_compare_and_set:
  "(fst (sql_update_rerun sha redact reply r e rows) = Inr True \<longrightarrow>
      (\<exists>p. map_of rows (sha (rerun_key r)) = Some p \<and> rr_state p = e) \<and>
      map_of (snd (sql_update_rerun sha redact reply r e rows)) (sha (rerun_key r)) =
        Some (redacted_rerun redact r)) \<and>
   (fst (update_rerun sha redact ok r e rows) = Inr True \<longleftrightarrow>
      ok \<and> (\<exists>p. map_of rows (sha (rerun_key r)) = Some p \<and> rr_state p = e)) \<and>
   (fst (update_rerun sha redact ok r e rows) \<noteq> Inr True \<longrightarrow>
      map_of (snd (update_rerun sha redact ok r e rows)) = map_of rows)"
  by (auto simp: rerun_defs split: option.splits db_reply.splits)

lemma rerun_update_is_compare_and_set_witness:
  "map_of (snd (sql_update_rerun id id Db_Replied (example_rerun\<lparr>rr_state := Submitted\<rparr>) Reserved
      [(''w:p:r'', example_rerun)])) ''w:p:r'' = Some (redacted_rerun id (example_rerun\<lparr>rr_state := Submitted\<rparr>))"
  using rerun_update_is_compare_and_set [of id id Db_Replied "example_rerun\<lparr>rr_state := Submitted\<rparr>" Reserved
      "[(''w:p:r'', example_rerun)]"]
  by (simp add: sql_update_rerun_def example_rerun_def rerun_key_def db_execute_def Let_def)

end
