(* ===== verification/Pipeline_Actions.thy ===== *)
theory Pipeline_Actions
  imports Pipeline_Reruns
begin

text \<open>
  \<^verbatim>\<open>src/src/triage/tools/pipeline_actions.py\<close>: the deterministic conditions of a
  pipeline rerun, its submission behind a reservation, and the verification of the run it
  started. The Fabric client answers as \<open>pipeline_client\<close> says, \<open>None\<close> (or the
  name of the exception) where a call raised; \<open>retry_allowed\<close> is the playbooks' verdict on an error text and an activity type;
  \<open>monitored\<close> is the answer of the monitoring execution where one is attached.
\<close>

record pipeline_client =
  pc_get_run :: "string \<Rightarrow> pipeline_run option"
  pc_list_runs :: "pipeline_run list option"
  pc_rerun :: "string + pipeline_submission"
  pc_activity_runs :: "pipeline_activity list option"

record pipeline_context =
  px_failure :: pipeline_failure
  px_signature :: string
  px_live :: bool
  px_monitored :: bool
  px_evidence_read :: bool
  px_reservation :: "rerun_record option"
  px_outcome :: "rerun_outcome option"
  px_approval_hash :: string
  px_approved_target :: "pipeline_target option"

section \<open>Verifying a rerun\<close>

datatype verify_error = No_Activity_Evidence | Nonterminal_Activities | Activities_Unavailable

definition verify_rerun :: "pipeline_activity list option \<Rightarrow> pipeline_activity list option \<Rightarrow>
    pipeline_run \<Rightarrow> verify_error + rerun_outcome" where
  "verify_rerun fetched given job =
     (if pr_status job = ''Completed''
      then (case (case given of Some as \<Rightarrow> Some as | None \<Rightarrow> fetched) of
              None \<Rightarrow> Inl Activities_Unavailable
            | Some as \<Rightarrow>
                if as = [] then Inl No_Activity_Evidence
                else let failed = filter (\<lambda>a. pa_status a = ''Failed'') as
                     in if failed \<noteq> []
                        then Inr \<lparr>ro_status = ''ActivityFailed'', ro_run_id = pr_id job,
                               ro_detail = join_with ''; ''
                                 (map (\<lambda>a. pa_name a @ '': '' @ pa_error_code a) failed)\<rparr>
                        else if list_ex (\<lambda>a. pa_status a \<notin> {''Succeeded'', ''Skipped''}) as
                        then Inl Nonterminal_Activities
                        else Inr \<lparr>ro_status = ''Completed'', ro_run_id = pr_id job,
                                  ro_detail = pr_failure_reason job\<rparr>)
      else Inr \<lparr>ro_status = pr_status job, ro_run_id = pr_id job, ro_detail = pr_failure_reason job\<rparr>)"

section \<open>The conditions of a rerun\<close>

datatype rerun_refusal =
    Parameters_Changed
  | Other_Job_Api
  | Replay_Not_Approved
  | Live_Needs_Monitoring
  | Diagnostics_Incomplete
  | Activity_Unknown
  | Nested_Pipelines
  | Already_Reserved
  | No_Retry_Playbook
  | Source_No_Longer_Failed
  | Evidence_Changed
  | No_Start_Time
  | Absent_From_History
  | Job_Active
  | Newer_Job

text \<open>The checks that need no call, in their order.\<close>

definition static_refusal :: "(string \<Rightarrow> string) \<Rightarrow> (string \<Rightarrow> string option \<Rightarrow> bool) \<Rightarrow> rerun_rows \<Rightarrow>
    pipeline_context \<Rightarrow> rerun_refusal option" where
  "static_refusal sha retry_allowed rows px =
     (let f = px_failure px; t = pf_target f; acts = pf_activities f
      in if px_approval_hash px \<noteq> [] \<and> parameter_hash sha t \<noteq> px_approval_hash px then Some Parameters_Changed
         else if pr_job_type (pf_run f) \<noteq> ''Pipeline'' then Some Other_Job_Api
         else if \<not> permits_rerun t then Some Replay_Not_Approved
         else if px_live px \<and> \<not> px_monitored px then Some Live_Needs_Monitoring
         else if pf_diagnostics_error f \<noteq> [] then Some Diagnostics_Incomplete
         else if list_ex (\<lambda>a. pa_status a \<notin> {''Succeeded'', ''Failed'', ''Skipped'', ''Cancelled''}) acts
         then Some Activity_Unknown
         else if list_ex (\<lambda>a. pa_type a \<in> {''InvokePipeline'', ''ExecutePipeline''}) acts then Some Nested_Pipelines
         else if \<not> px_monitored px \<and> get_rerun sha (failure_key f) rows \<noteq> None then Some Already_Reserved
         else if \<not> retry_allowed (failure_error_text f) None \<or>
                 list_ex (\<lambda>a. pa_status a = ''Failed'' \<and>
                   \<not> retry_allowed (pa_error_code a @ '': '' @ pa_message a) (Some (pa_type a))) acts
         then Some No_Retry_Playbook
         else None)"

text \<open>The checks against the service: \<open>None\<close> on the outside where a call raised.\<close>

definition history_refusal :: "pipeline_run \<Rightarrow> pipeline_run list \<Rightarrow> rerun_refusal option" where
  "history_refusal current history =
     (case pr_start_time current of
        None \<Rightarrow> Some No_Start_Time
      | Some started \<Rightarrow>
          if \<not> list_ex (\<lambda>r. pr_id r = pr_id current) history then Some Absent_From_History
          else if list_ex (\<lambda>r. pr_status r \<notin> set PIPELINE_TERMINAL_STATUSES) history then Some Job_Active
          else if list_ex (\<lambda>r. pr_id r \<noteq> pr_id current \<and>
                 (case pr_start_time r of None \<Rightarrow> True | Some s \<Rightarrow> started < s)) history then Some Newer_Job
          else None)"

definition service_refusal :: "pipeline_client \<Rightarrow> pipeline_failure \<Rightarrow> rerun_refusal option option" where
  "service_refusal client f =
     (case pc_get_run client (pr_id (pf_run f)) of
        None \<Rightarrow> None
      | Some current \<Rightarrow>
          if \<not> failed_scheduled current \<or> pr_end_time current = None then Some (Some Source_No_Longer_Failed)
          else if run_error_text current \<noteq> run_error_text (pf_run f) then Some (Some Evidence_Changed)
          else if pr_start_time current = None then Some (Some No_Start_Time)
          else map_option (history_refusal current) (pc_list_runs client))"

definition rerun_refused :: "(string \<Rightarrow> string) \<Rightarrow> (string \<Rightarrow> string option \<Rightarrow> bool) \<Rightarrow> pipeline_client \<Rightarrow>
    rerun_rows \<Rightarrow> pipeline_context \<Rightarrow> rerun_refusal option option" where
  "rerun_refused sha retry_allowed client rows px =
     (case static_refusal sha retry_allowed rows px of
        Some why \<Rightarrow> Some (Some why)
      | None \<Rightarrow> service_refusal client (px_failure px))"

definition approval_arguments :: "(string \<Rightarrow> string) \<Rightarrow> (string \<Rightarrow> string) \<Rightarrow> string \<Rightarrow> pipeline_context \<Rightarrow>
    (string, json) dict \<times> pipeline_context" where
  "approval_arguments sha redact justification px =
     (let t = pf_target (px_failure px); h = parameter_hash sha t
      in ([(''justification'', JStr justification), (''workspace_id'', JStr (pt_workspace_id t)),
           (''pipeline_id'', JStr (pt_pipeline_id t)),
           (''failed_run_id'', JStr (pr_id (pf_run (px_failure px)))),
           (''parameter_hash'', JStr h),
           (''parameter_preview'', JStr (take 1800 (redact
              (dumps (case pt_rerun_parameters t of None \<Rightarrow> JNull | Some ps \<Rightarrow> JObj ps)))))],
          px\<lparr>px_approved_target := Some t, px_approval_hash := h\<rparr>))"

section \<open>Reservation, submission, polling\<close>

datatype rerun_fault =
    Live_Reservation
  | Hash_Changed
  | Store_Fault rerun_error
  | No_Reservation
  | Hash_Differs_From_Reservation
  | No_Approved_Profile
  | Correlation_Not_Persisted string
  | Reservation_Changed string
  | No_Correlated_Rerun
  | Read_Failed
  | Response_Mismatch
  | Verify_Fault verify_error
  | State_Changed_On_Completion
  | Interval_Not_Retained

definition reservation_record :: "(string \<Rightarrow> string) \<Rightarrow> instant \<Rightarrow> pipeline_context \<Rightarrow> rerun_record" where
  "reservation_record sha now px =
     (let t = pf_target (px_failure px)
      in \<lparr>rr_workspace_id = pt_workspace_id t, rr_pipeline_id = pt_pipeline_id t,
          rr_failed_run_id = pr_id (pf_run (px_failure px)), rr_signature = px_signature px,
          rr_parameter_hash = parameter_hash sha t, rr_state = Reserved, rr_rerun_id = [],
          rr_detail = [], rr_next_poll_at = None, rr_updated_at = now\<rparr>)"

definition pipeline_reserve :: "(string \<Rightarrow> string) \<Rightarrow> (string \<Rightarrow> string) \<Rightarrow> bool \<Rightarrow> instant \<Rightarrow> pipeline_context \<Rightarrow>
    rerun_rows \<Rightarrow> (rerun_fault + bool) \<times> pipeline_context \<times> rerun_rows" where
  "pipeline_reserve sha redact ok now px rows =
     (if px_live px then (Inl Live_Reservation, px, rows)
      else if parameter_hash sha (pf_target (px_failure px)) \<noteq> px_approval_hash px
      then (Inl Hash_Changed, px, rows)
      else let r = reservation_record sha now px; (a, rows') = reserve_rerun sha redact ok r rows
           in case a of
                Inl e \<Rightarrow> (Inl (Store_Fault e), px, rows')
              | Inr won \<Rightarrow> (Inr won, if won then px\<lparr>px_reservation := Some r\<rparr> else px, rows'))"

text \<open>
  What a call leaves: its answer, the context, the rows and the POSTs it made, each named
  by the key of its failed run.
\<close>

record pipeline_reply =
  pl_status :: string
  pl_run_id :: "string option"
  pl_succeeded :: "bool option"
  pl_detail :: string

definition reply_of :: "bool \<Rightarrow> rerun_outcome \<Rightarrow> pipeline_reply" where
  "reply_of succeeded r =
     \<lparr>pl_status = ro_status r, pl_run_id = Some (ro_run_id r), pl_succeeded = Some succeeded,
      pl_detail = ro_detail r\<rparr>"

record rerun_result =
  rs_answer :: "rerun_fault + pipeline_reply"
  rs_context :: pipeline_context
  rs_rows :: rerun_rows
  rs_posts :: "string list"

definition unconfirmed :: "string \<Rightarrow> rerun_outcome" where
  "unconfirmed exc =
     \<lparr>ro_status = ''Unknown'', ro_run_id = [],
      ro_detail = ''Pipeline submission was not confirmed ('' @ exc @
        ''). Check run history before any manual replay.''\<rparr>"

definition accepted :: "string \<Rightarrow> rerun_outcome" where
  "accepted run_id = \<lparr>ro_status = ''Submitted'', ro_run_id = run_id, 
     ro_detail = ''Fabric accepted the run. Execution has not yet been verified.''\<rparr>"

text \<open>
  \<open>submit\<close>: the POST is made when the reservation and the approved profile still match.
  When it raised, the service may have started the run all the same; the row then becomes
  unknown if it can be written, and stays reserved if not.
\<close>

definition pipeline_submit :: "(string \<Rightarrow> string) \<Rightarrow> (string \<Rightarrow> string) \<Rightarrow> bool \<Rightarrow> instant \<Rightarrow> pipeline_client \<Rightarrow>
    (pipeline_target \<Rightarrow> rerun_outcome) \<Rightarrow> pipeline_context \<Rightarrow> rerun_rows \<Rightarrow> rerun_result" where
  "pipeline_submit sha redact ok now client monitored px rows =
     (let fail = (\<lambda>e. \<lparr>rs_answer = Inl e, rs_context = px, rs_rows = rows, rs_posts = []\<rparr>);
          h = parameter_hash sha (pf_target (px_failure px))
      in if px_monitored px
         then (case px_approved_target px of
                 None \<Rightarrow> fail Hash_Changed
               | Some t \<Rightarrow>
                   if h \<noteq> px_approval_hash px then fail Hash_Changed
                   else \<lparr>rs_answer = Inr (reply_of False (monitored t)),
                         rs_context = px\<lparr>px_outcome := Some (monitored t)\<rparr>,
                         rs_rows = rows, rs_posts = []\<rparr>)
         else case px_reservation px of
           None \<Rightarrow> fail No_Reservation
         | Some r \<Rightarrow>
             if h \<noteq> rr_parameter_hash r then fail Hash_Differs_From_Reservation
             else case px_approved_target px of
               None \<Rightarrow> fail No_Approved_Profile
             | Some t \<Rightarrow>
                 if parameter_hash sha t \<noteq> rr_parameter_hash r then fail No_Approved_Profile
                 else let post = [failure_key (px_failure px)]
                      in case pc_rerun client of
                           Inl exc \<Rightarrow>
                             \<lparr>rs_answer = Inr \<lparr>pl_status = ''submission_unknown'', pl_run_id = None,
                                pl_succeeded = None, pl_detail = ro_detail (unconfirmed exc)\<rparr>,
                              rs_context = px\<lparr>px_outcome := Some (unconfirmed exc)\<rparr>,
                              rs_rows = snd (update_rerun sha redact ok
                                (r\<lparr>rr_state := Unknown_Rerun, rr_detail := ro_detail (unconfirmed exc)\<rparr>) Reserved rows),
                              rs_posts = post\<rparr>
                         | Inr sub \<Rightarrow>
                             let outcome = accepted (ps_run_id sub);
                                 (a, rows') = update_rerun sha redact ok
                                   (r\<lparr>rr_state := Submitted, rr_rerun_id := ps_run_id sub,
                                      rr_next_poll_at := Some (now + seconds (ps_retry_after_seconds sub)),
                                      rr_updated_at := now\<rparr>) Reserved rows
                             in \<lparr>rs_answer = (case a of
                                   Inl _ \<Rightarrow> Inl (Correlation_Not_Persisted (ps_run_id sub))
                                 | Inr attached \<Rightarrow> if attached then Inr (reply_of False outcome)
                                                  else Inl (Reservation_Changed (ps_run_id sub))),
                                 rs_context = px\<lparr>px_outcome := Some outcome\<rparr>, rs_rows = rows',
                                 rs_posts = post\<rparr>)"

definition check_rerun :: "(string \<Rightarrow> string) \<Rightarrow> (string \<Rightarrow> string) \<Rightarrow> bool \<Rightarrow> instant \<Rightarrow> pipeline_client \<Rightarrow>
    (pipeline_target \<Rightarrow> rerun_outcome) \<Rightarrow> pipeline_context \<Rightarrow> rerun_rows \<Rightarrow> rerun_result" where
  "check_rerun sha redact ok now client monitored px rows =
     (let t = pf_target (px_failure px);
          fail = (\<lambda>e px rows. \<lparr>rs_answer = Inl e, rs_context = px, rs_rows = rows, rs_posts = []\<rparr>)
      in if px_monitored px
         then \<lparr>rs_answer = Inr (reply_of (rerun_succeeded (monitored t)) (monitored t)),
               rs_context = px\<lparr>px_outcome := Some (monitored t)\<rparr>, rs_rows = rows, rs_posts = []\<rparr>
         else case get_rerun sha (failure_key (px_failure px)) rows of
           None \<Rightarrow> fail No_Correlated_Rerun px rows
         | Some r \<Rightarrow>
             if rr_rerun_id r = [] then fail No_Correlated_Rerun px rows
             else if (case rr_next_poll_at r of None \<Rightarrow> False | Some at \<Rightarrow> now < at)
             then \<lparr>rs_answer = Inr (reply_of False \<lparr>ro_status = ''Submitted'', ro_run_id = rr_rerun_id r,
                      ro_detail = ''Waiting for the service's Retry-After interval before polling.''\<rparr>),
                   rs_context = px, rs_rows = rows, rs_posts = []\<rparr>
             else case pc_get_run client (rr_rerun_id r) of
               None \<Rightarrow> fail Read_Failed px rows
             | Some job \<Rightarrow>
                 if pr_id job \<noteq> rr_rerun_id r \<or> pr_item_id job \<noteq> pt_pipeline_id t
                 then fail Response_Mismatch px rows
                 else case verify_rerun (pc_activity_runs client) None job of
                   Inl e \<Rightarrow> fail (Verify_Fault e) px rows
                 | Inr outcome \<Rightarrow>
                     let px' = px\<lparr>px_outcome := Some outcome\<rparr>;
                         done = \<lparr>rs_answer = Inr (reply_of (rerun_succeeded outcome) outcome), rs_context = px', rs_rows = rows, rs_posts = []\<rparr>
                     in if rr_state r \<noteq> Submitted then done
                        else let terminal = pr_status job \<in> set PIPELINE_TERMINAL_STATUSES;
                                 r' = (if terminal
                                       then r\<lparr>rr_state := (if rerun_succeeded outcome then Completed else Failed_Rerun),
                                              rr_detail := ro_detail outcome, rr_updated_at := now\<rparr>
                                       else r\<lparr>rr_next_poll_at := Some (now + seconds (pr_retry_after_seconds job))\<rparr>);
                                 (a, rows') = update_rerun sha redact ok r' Submitted rows
                             in case a of
                                  Inl e \<Rightarrow> fail (Store_Fault e) px' rows'
                                | Inr won \<Rightarrow>
                                    if won then done\<lparr>rs_rows := rows'\<rparr>
                                    else fail (if terminal then State_Changed_On_Completion else Interval_Not_Retained) px' rows')"

section \<open>Attempts at rerunning, as one machine\<close>

text \<open>
  Attempts from any contexts against one store: the reservation and, when it was won, the
  submission, as the dispatcher composes them; and polls. The state is the rows and the
  POSTs made so far.
\<close>

record rerun_try =
  ry_context :: pipeline_context
  ry_now :: instant
  ry_client :: pipeline_client
  ry_reserve_ok :: bool
  ry_update_ok :: bool
  ry_monitored :: "pipeline_target \<Rightarrow> rerun_outcome"

datatype rerun_attempt = Try rerun_try | Poll_Rerun rerun_try

definition reserve_and_submit :: "(string \<Rightarrow> string) \<Rightarrow> (string \<Rightarrow> string) \<Rightarrow> rerun_try \<Rightarrow>
    rerun_rows \<Rightarrow> (rerun_fault + bool) \<times> rerun_rows \<times> string list" where
  "reserve_and_submit sha redact y rows =
     (let (a, px, rows1) = pipeline_reserve sha redact (ry_reserve_ok y) (ry_now y) (ry_context y) rows
      in case a of
           Inl e \<Rightarrow> (Inl e, rows1, [])
         | Inr won \<Rightarrow>
             if \<not> won then (Inr False, rows1, [])
             else let s = pipeline_submit sha redact (ry_update_ok y) (ry_now y) (ry_client y)
                            (ry_monitored y) px rows1
                  in (Inr True, rs_rows s, rs_posts s))"

fun attempt_step :: "(string \<Rightarrow> string) \<Rightarrow> (string \<Rightarrow> string) \<Rightarrow> rerun_attempt \<Rightarrow>
    rerun_rows \<times> string list \<Rightarrow> (rerun_fault + bool) \<times> rerun_rows \<times> string list" where
  "attempt_step sha redact (Try y) (rows, posts) =
     (let (a, rows', new) = reserve_and_submit sha redact y rows in (a, rows', posts @ new))"
| "attempt_step sha redact (Poll_Rerun y) (rows, posts) =
     (let s = check_rerun sha redact (ry_update_ok y) (ry_now y) (ry_client y) (ry_monitored y) (ry_context y) rows
      in (map_sum id (\<lambda>_. True) (rs_answer s), rs_rows s, posts @ rs_posts s))"

definition posted_once :: "(string \<Rightarrow> string) \<Rightarrow> rerun_rows \<times> string list \<Rightarrow> bool" where
  "posted_once sha w \<longleftrightarrow>
     (\<forall>k. count_list (snd w) k \<le> 1 \<and> (k \<in> set (snd w) \<longrightarrow> map_of (fst w) (sha k) \<noteq> None))"

lemma update_keeps_rows:
  "update_rerun sha redact ok r e rows = (a, rows') \<Longrightarrow> map_of rows k = Some x \<Longrightarrow>
     \<exists>y. map_of rows' k = Some y"
  by (auto simp: update_rerun_def Let_def split: option.splits if_splits)

lemma update_keeps_rows_snd:
  "map_of rows k = Some x \<Longrightarrow> \<exists>y. map_of (snd (update_rerun sha redact ok r e rows)) k = Some y"
  by (rule update_keeps_rows [OF prod.collapse [symmetric]])

lemma reservation_key: "rerun_key (reservation_record sha now px) = failure_key (px_failure px)"
  by (simp add: reservation_record_def rerun_key_def failure_key_def target_key_def Let_def)

lemma submit_posts:
  "set (rs_posts (pipeline_submit sha redact ok now client mon px rows)) \<subseteq> {failure_key (px_failure px)}"
  "List.length (rs_posts (pipeline_submit sha redact ok now client mon px rows)) \<le> 1"
  "map_of rows k = Some x \<Longrightarrow>
     \<exists>y. map_of (rs_rows (pipeline_submit sha redact ok now client mon px rows)) k = Some y"
  by (auto simp: pipeline_submit_def Let_def split: option.splits sum.splits prod.splits
      dest: update_keeps_rows update_keeps_rows_snd)

lemma check_posts:
  "rs_posts (check_rerun sha redact ok now client mon px rows) = []"
  "map_of rows k = Some x \<Longrightarrow>
     \<exists>y. map_of (rs_rows (check_rerun sha redact ok now client mon px rows)) k = Some y"
  by (auto simp: check_rerun_def Let_def split: option.splits sum.splits prod.splits if_splits
      dest: update_keeps_rows)

lemma pipeline_reserve_rows:
  assumes "pipeline_reserve sha redact ok now px rows = (a, px', rows')"
  shows "px_failure px' = px_failure px"
    and "map_of rows k = Some x \<Longrightarrow> map_of rows' k = Some x"
    and "a = Inr True \<Longrightarrow> map_of rows (sha (failure_key (px_failure px))) = None \<and>
           map_of rows' (sha (failure_key (px_failure px))) \<noteq> None"
  using assms
  by (auto simp: pipeline_reserve_def reserve_rerun_def reservation_key Let_def
      split: if_splits sum.splits prod.splits)

lemma reserve_and_submit_rows:
  assumes "reserve_and_submit sha redact y rows = (a, rows', new)"
  shows "map_of rows k = Some x \<Longrightarrow> \<exists>z. map_of rows' k = Some z"
    and "k \<in> set new \<Longrightarrow> map_of rows (sha k) = None \<and> map_of rows' (sha k) \<noteq> None"
    and "count_list new k \<le> 1"
proof -
  obtain b px rows1 where r: "pipeline_reserve sha redact (ry_reserve_ok y) (ry_now y) (ry_context y) rows = (b, px, rows1)"
    by (metis prod.collapse)
  let ?s = "pipeline_submit sha redact (ry_update_ok y) (ry_now y) (ry_client y) (ry_monitored y) px rows1"
  have eq: "(b = Inr True \<and> rows' = rs_rows ?s \<and> new = rs_posts ?s) \<or> (b \<noteq> Inr True \<and> rows' = rows1 \<and> new = [])"
    using assms r by (auto simp: reserve_and_submit_def Let_def split: sum.splits if_splits)
  note rr = pipeline_reserve_rows [OF r] and sub = submit_posts [where px = px and rows = rows1]
  show "map_of rows k = Some x \<Longrightarrow> \<exists>z. map_of rows' k = Some z"
    using eq rr(2) [of k x] sub(3) by metis
  show "k \<in> set new \<Longrightarrow> map_of rows (sha k) = None \<and> map_of rows' (sha k) \<noteq> None"
  proof -
    assume k: "k \<in> set new"
    then have b: "b = Inr True" "new = rs_posts ?s" "rows' = rs_rows ?s" using eq by auto
    then have "k = failure_key (px_failure (ry_context y))"
      using k sub(1) rr(1) by fastforce
    then show ?thesis using rr(3) b sub(3) by (metis not_None_eq)
  qed
  have "List.length new \<le> 1" using eq sub(2) by auto
  then show "count_list new k \<le> 1"
    using count_le_length [of new k] by linarith
qed

lemma attempt_step_inv:
  assumes "posted_once sha w"
  shows "posted_once sha (snd (attempt_step sha redact x w))"
proof -
  obtain rows posts where w: "w = (rows, posts)" by fastforce
  show ?thesis
  proof (cases x)
    case (Try y)
    obtain a rows' new where r: "reserve_and_submit sha redact y rows = (a, rows', new)"
      by (metis prod.collapse)
    have "count_list (posts @ new) k \<le> 1 \<and> (k \<in> set (posts @ new) \<longrightarrow> map_of rows' (sha k) \<noteq> None)" for k
    proof (cases "k \<in> set new")
      case True
      then have "map_of rows (sha k) = None" "map_of rows' (sha k) \<noteq> None"
        using reserve_and_submit_rows(2) [OF r] by blast+
      then have "k \<notin> set posts" using assms by (auto simp: posted_once_def w)
      then show ?thesis
        using reserve_and_submit_rows(3) [OF r, of k] \<open>map_of rows' (sha k) \<noteq> None\<close> by simp
    next
      case False
      then show ?thesis
        using assms reserve_and_submit_rows(1) [OF r, of "sha k"]
        by (force simp: posted_once_def w)
    qed
    then show ?thesis by (simp add: Try w r posted_once_def)
  next
    case (Poll_Rerun y)
    then show ?thesis
      using assms check_posts by (fastforce simp: w posted_once_def Let_def)
  qed
qed

lemma attempt_step_spent:
  assumes "map_of rows (sha k) = Some z" and "attempt_step sha redact x (rows, posts) = (a, rows', posts')"
  shows "(k \<in> set posts' \<longleftrightarrow> k \<in> set posts) \<and> (\<exists>z'. map_of rows' (sha k) = Some z')"
proof (cases x)
  case (Try y)
  obtain b rows1 new where r: "reserve_and_submit sha redact y rows = (b, rows1, new)"
    by (metis prod.collapse)
  have "k \<notin> set new" using reserve_and_submit_rows(2) [OF r, of k] assms(1) by auto
  then show ?thesis
    using assms reserve_and_submit_rows(1) [OF r assms(1)] by (auto simp: Try r)
next
  case (Poll_Rerun y)
  then show ?thesis
    using assms(2) check_posts(2) [OF assms(1)] by (auto simp: check_posts(1) Let_def)
qed

interpretation attempts: machine "attempt_step sha redact" "posted_once sha"
  by unfold_locales (rule attempt_step_inv)

section \<open>Properties\<close>

text \<open>
  C13. At most one POST per failed run: however many invocations try to rerun failed
  pipelines, from contexts with any failures, approvals and parameters, with submissions
  whose acknowledgement is lost and store writes that fail, interleaved with polls, the
  service receives at most one rerun request for each failed run, and none for a run
  that already had a reservation.
\<close>

theorem at_most_one_post:
  "count_list (snd (run (attempt_step sha redact) xs (rows, []))) key \<le> 1 \<and>
   (map_of rows (sha key) \<noteq> None \<longrightarrow> key \<notin> set (snd (run (attempt_step sha redact) xs (rows, []))))"
proof -
  have inv: "posted_once sha (run (attempt_step sha redact) xs (rows, []))"
    by (rule attempts.inv_run) (simp add: posted_once_def)
  have kept: "map_of rows (sha key) = Some z \<Longrightarrow>
      (key \<in> set (snd (run (attempt_step sha redact) xs (rows, posts))) \<longleftrightarrow> key \<in> set posts)" for posts z
  proof (induction xs arbitrary: rows posts z)
    case Nil
    then show ?case by simp
  next
    case (Cons x xs)
    obtain a rows' posts' where s: "attempt_step sha redact x (rows, posts) = (a, rows', posts')"
      by (metis prod.collapse)
    from attempt_step_spent [OF Cons.prems s] Cons.IH s show ?case by auto
  qed
  from inv kept [of _ "[]"] show ?thesis by (auto simp: posted_once_def)
qed

definition example_target :: pipeline_target where
  "example_target =
     \<lparr>pt_name = ''load'', pt_workspace_id = ''w'', pt_pipeline_id = ''p'', pt_rerun_safe = True,
      pt_rerun_parameters = Some []\<rparr>"

definition example_run :: pipeline_run where
  "example_run =
     \<lparr>pr_id = ''r'', pr_item_id = ''p'', pr_status = ''Failed'', pr_job_type = ''Pipeline'',
      pr_invoke_type = ''Scheduled'', pr_start_time = Some 1, pr_end_time = Some 2,
      pr_error_code = ''E'', pr_failure_reason = ''timeout'', pr_retry_after_seconds = 0\<rparr>"

definition example_failure :: pipeline_failure where
  "example_failure =
     \<lparr>pf_target = example_target, pf_run = example_run, pf_recent_runs = [example_run],
      pf_activities = [], pf_diagnostics_error = []\<rparr>"

definition example_context :: pipeline_context where
  "example_context =
     \<lparr>px_failure = example_failure, px_signature = ''s'', px_live = False, px_monitored = False,
      px_evidence_read = True, px_reservation = None, px_outcome = None, px_approval_hash = ''{}'',
      px_approved_target = Some example_target\<rparr>"

definition example_client :: pipeline_client where
  "example_client =
     \<lparr>pc_get_run = (\<lambda>_. Some example_run), pc_list_runs = Some [example_run],
      pc_rerun = Inl ''ReadTimeout'', pc_activity_runs = Some []\<rparr>"

definition example_try :: rerun_try where
  "example_try =
     \<lparr>ry_context = example_context, ry_now = 5, ry_client = example_client, ry_reserve_ok = True,
      ry_update_ok = False, ry_monitored = (\<lambda>_. accepted [])\<rparr>"

theorem at_most_one_post_witness:
  "''w:p:r'' \<notin> set (snd (run (attempt_step id id) [Try example_try] ([(''w:p:r'', example_rerun)], [])))"
  using at_most_one_post [of id id "[Try example_try]" "[(''w:p:r'', example_rerun)]" "''w:p:r''"]
  by simp

lemma history_refusal_none:
  "history_refusal current history = None \<longleftrightarrow>
     (\<exists>started. pr_start_time current = Some started \<and>
        (\<exists>r\<in>set history. pr_id r = pr_id current) \<and>
        (\<forall>r\<in>set history. pr_status r \<in> set PIPELINE_TERMINAL_STATUSES \<and>
           (pr_id r \<noteq> pr_id current \<longrightarrow> (\<exists>s. pr_start_time r = Some s \<and> s \<le> started))))"
  by (cases "pr_start_time current")
     (auto simp: history_refusal_def list_ex_iff not_less split: option.splits)

lemma service_refusal_none:
  "service_refusal client f = Some None \<longleftrightarrow>
     (\<exists>current history. pc_get_run client (pr_id (pf_run f)) = Some current \<and>
        failed_scheduled current \<and> pr_end_time current \<noteq> None \<and>
        run_error_text current = run_error_text (pf_run f) \<and>
        pc_list_runs client = Some history \<and> history_refusal current history = None)"
  by (auto simp: service_refusal_def history_refusal_none split: option.splits)

text \<open>
  A rerun that is not refused satisfies every condition: reviewed replay
  parameters unchanged since the approval, a Core Pipeline job whose activities are all
  settled and not nested, no earlier reservation, a playbook that allows the retry of
  the failure and of each failed activity, and by the service's own answers the same
  failure still standing, no job active and none newer than the failed one.
\<close>

lemma unrefused_rerun_is_safe:
  assumes "rerun_refused sha retry_allowed client rows px = Some None"
  shows "let f = px_failure px; t = pf_target f
    in permits_rerun t \<and> (px_approval_hash px = [] \<or> parameter_hash sha t = px_approval_hash px) \<and>
       pr_job_type (pf_run f) = ''Pipeline'' \<and> (px_live px \<longrightarrow> px_monitored px) \<and>
       (\<forall>a\<in>set (pf_activities f). pa_status a \<in> {''Succeeded'', ''Failed'', ''Skipped'', ''Cancelled''} \<and>
          pa_type a \<notin> {''InvokePipeline'', ''ExecutePipeline''} \<and>
          (pa_status a = ''Failed'' \<longrightarrow>
             retry_allowed (pa_error_code a @ '': '' @ pa_message a) (Some (pa_type a)))) \<and>
       retry_allowed (failure_error_text f) None \<and>
       (\<not> px_monitored px \<longrightarrow> map_of rows (sha (failure_key f)) = None) \<and>
       (\<exists>current history started.
          pc_get_run client (pr_id (pf_run f)) = Some current \<and> failed_scheduled current \<and>
          run_error_text current = run_error_text (pf_run f) \<and> pr_start_time current = Some started \<and>
          pc_list_runs client = Some history \<and>
          (\<forall>r\<in>set history. pr_status r \<in> set PIPELINE_TERMINAL_STATUSES \<and>
             (pr_id r \<noteq> pr_id current \<longrightarrow> (\<exists>s. pr_start_time r = Some s \<and> s \<le> started))))"
proof -
  have static: "static_refusal sha retry_allowed rows px = None"
    and service: "service_refusal client (px_failure px) = Some None"
    using assms by (auto simp: rerun_refused_def split: option.splits)
  from service show ?thesis
    using static
    by (auto simp: service_refusal_none history_refusal_none static_refusal_def get_rerun_def
        Let_def list_ex_iff split: if_splits)
qed

lemma unrefused_rerun_is_safe_witness:
  "permits_rerun example_target \<and>
   rerun_refused id (\<lambda>_ _. True) example_client [] example_context = Some None"
proof -
  have ok: "rerun_refused id (\<lambda>_ _. True) example_client [] example_context = Some None"
    by code_simp
  from unrefused_rerun_is_safe [OF ok] show ?thesis
    using ok by (simp add: Let_def example_context_def example_failure_def)
qed


definition polled_rows :: rerun_rows where
  "polled_rows = [(''w:p:r'', example_rerun\<lparr>rr_state := Submitted, rr_rerun_id := ''r2''\<rparr>)]"

definition polled_client :: pipeline_client where
  "polled_client = example_client\<lparr>
     pc_get_run := (\<lambda>i. Some (example_run\<lparr>pr_id := i, pr_status := ''Completed''\<rparr>)),
     pc_activity_runs := Some [\<lparr>pa_name = ''copy'', pa_type = ''Copy'', pa_status = ''Succeeded'',
       pa_error_code = [], pa_message = []\<rparr>]\<rparr>"


end
