(* ===== verification/Incidents.thy ===== *)
theory Incidents
  imports Pipeline_Actions
begin

text \<open>
  \<^verbatim>\<open>src/src/triage/store/incidents.py\<close> and \<open>incident_id\<close> of
  \<^verbatim>\<open>src/src/triage/signature.py\<close>: deduplicated incidents, one row per signature and
  namespace. \<open>redact\<close> returns the redacted text and the names of the patterns that fired,
  \<open>dump\<close> serialises a pipeline failure, \<open>ok\<close> says whether the hook that persists the
  rows returned; the rows in memory change either way.
\<close>

type_synonym redactor = "string \<Rightarrow> string \<times> string list"

type_synonym incidents = "(string, incident) dict"

definition incident_id :: "string \<Rightarrow> bool \<Rightarrow> string" where
  "incident_id signature resolved = (if resolved then ''sig'' else ''usig'') @ '':'' @ signature"

definition action_type_of :: "string \<Rightarrow> action_type" where
  "action_type_of taken =
     (if taken = ''refresh_powerbi_dataset'' \<or> taken = ''rerun_fabric_pipeline'' then Nondeterministic_Retry
      else if taken = ''rebind_dataset_gateway'' then Known_Workaround
      else if taken = ''reenable_refresh_schedule'' then Deterministic_Fix
      else if taken = ''write_data_quality_flag'' then Flag_Only
      else if taken = [] then None_Taken
      else Unknown_Type)"

definition INVESTIGATE_OUTCOMES :: "outcome set" where
  "INVESTIGATE_OUTCOMES =
     {Agent_Crashed, Policy_Blocked_Run, Budget_Exceeded_Run, Max_Turns_Exceeded_Run, Timed_Out_Run,
      Needs_Human, Declared_Failed, Approval_Denied}"

definition status_for :: "outcome \<Rightarrow> incident_status" where
  "status_for x = (if x = Resolved then Settled else Open)"

definition needs_investigation :: "triage_result \<Rightarrow> bool" where
  "needs_investigation r \<longleftrightarrow>
     tr_outcome r \<in> INVESTIGATE_OUTCOMES \<or> tr_blocked_attempts r \<noteq> [] \<or> tr_notification_failed r"

definition clean_run :: "redactor \<Rightarrow> pipeline_run \<Rightarrow> pipeline_run" where
  "clean_run redact r =
     r\<lparr>pr_error_code := fst (redact (pr_error_code r)),
       pr_failure_reason := fst (redact (pr_failure_reason r))\<rparr>"

definition clean_activity :: "redactor \<Rightarrow> pipeline_activity \<Rightarrow> pipeline_activity" where
  "clean_activity redact a =
     \<lparr>pa_name = fst (redact (pa_name a)), pa_type = fst (redact (pa_type a)),
      pa_status = fst (redact (pa_status a)), pa_error_code = fst (redact (pa_error_code a)),
      pa_message = fst (redact (pa_message a))\<rparr>"

definition redacted_pipeline :: "redactor \<Rightarrow> pipeline_failure \<Rightarrow> pipeline_failure" where
  "redacted_pipeline redact f =
     f\<lparr>pf_target := (pf_target f)\<lparr>pt_name := fst (redact (pt_name (pf_target f))),
                                  pt_rerun_parameters := None\<rparr>,
       pf_run := clean_run redact (pf_run f),
       pf_recent_runs := map (clean_run redact) (pf_recent_runs f),
       pf_activities := map (clean_activity redact) (pf_activities f),
       pf_diagnostics_error := fst (redact (pf_diagnostics_error f))\<rparr>"

section \<open>Reads\<close>

definition is_open :: "string \<Rightarrow> incident \<Rightarrow> bool" where
  "is_open signature i \<longleftrightarrow> in_signature i = signature \<and> in_status i \<in> {Open, Investigating}"

definition find_open_entry :: "string \<Rightarrow> incidents \<Rightarrow> (string \<times> incident) option" where
  "find_open_entry signature items = find (\<lambda>(_, i). is_open signature i) items"

definition find_open :: "string \<Rightarrow> incidents \<Rightarrow> incident option" where
  "find_open signature items = map_option snd (find_open_entry signature items)"

definition get_incident :: "string \<Rightarrow> incidents \<Rightarrow> incident option" where
  "get_incident iid items = map_of items iid"

section \<open>Recording a result\<close>

record provenance =
  pv_report_name :: string
  pv_original_error :: string
  pv_agent_name :: string
  pv_prompt_version_hash :: string
  pv_model_provider :: string
  pv_model_name :: string
  pv_app_version :: string
  pv_source :: string
  pv_notified :: bool
  pv_pipeline_failure :: "pipeline_failure option"

type_synonym persisted_incident = "(store_error + incident) \<times> incidents"

definition store_incident :: "bool \<Rightarrow> string \<Rightarrow> incident \<Rightarrow> incidents \<Rightarrow> persisted_incident" where
  "store_incident ok k i items = (if ok then Inr i else Inl Persist_Raised, AList.update k i items)"

text \<open>One more occurrence, perhaps announced, perhaps with fresh pipeline evidence.\<close>

definition counted_again :: "instant \<Rightarrow> bool \<Rightarrow> pipeline_failure option \<Rightarrow> incident \<Rightarrow> incident" where
  "counted_again now notified clean i =
     i\<lparr>in_occurrence_count := in_occurrence_count i + 1, in_last_seen_at := now,
       in_pipeline_failure := (case clean of None \<Rightarrow> in_pipeline_failure i | Some f \<Rightarrow> Some f),
       in_notified_count := in_notified_count i + (if notified then 1 else 0),
       in_last_notified_at := (if notified then Some now else in_last_notified_at i)\<rparr>"

definition recur :: "instant \<Rightarrow> redactor \<Rightarrow> bool \<Rightarrow> pipeline_failure option \<Rightarrow> triage_result \<Rightarrow> incident \<Rightarrow> incident" where
  "recur now redact notified clean r i =
     (let cause = fst (redact (tr_root_cause r))
      in (counted_again now notified clean i)
           \<lparr>in_outcome := tr_outcome r, in_status := status_for (tr_outcome r),
            in_root_cause := str_or cause (in_root_cause i),
            in_requires_investigation := (needs_investigation r \<or> in_requires_investigation i)\<rparr>)"

definition fresh_incident :: "instant \<Rightarrow> redactor \<Rightarrow> (pipeline_failure \<Rightarrow> string) \<Rightarrow> provenance \<Rightarrow>
    triage_result \<Rightarrow> string \<Rightarrow> incident" where
  "fresh_incident now redact dump pv r iid =
     \<lparr>in_id = iid, in_signature = tr_signature r, in_signature_version = tr_signature_version r,
      in_outcome = tr_outcome r, in_status = status_for (tr_outcome r),
      in_request_id = tr_request_id r, in_report_name = pv_report_name pv, in_source = pv_source pv,
      in_pipeline_failure = map_option (redacted_pipeline redact) (pv_pipeline_failure pv),
      in_occurrence_count = 1, in_first_seen_at = now, in_last_seen_at = now,
      in_notified_count = (if pv_notified pv then 1 else 0),
      in_last_notified_at = (if pv_notified pv then Some now else None),
      in_original_error = fst (redact (pv_original_error pv)),
      in_root_cause = fst (redact (tr_root_cause r)),
      in_action_applied = fst (redact (tr_action_taken r)),
      in_action_type = action_type_of (tr_action_taken r),
      in_requires_investigation = needs_investigation r, in_agent_name = pv_agent_name pv,
      in_prompt_version_hash = pv_prompt_version_hash pv, in_model_provider = pv_model_provider pv,
      in_model_name = pv_model_name pv, in_app_version = pv_app_version pv,
      in_redaction_kinds = sort (remdups
        (snd (redact (pv_original_error pv)) @ snd (redact (tr_root_cause r)) @
         snd (redact (tr_action_taken r)) @
         (case pv_pipeline_failure pv of None \<Rightarrow> [] | Some f \<Rightarrow> snd (redact (dump f))))),
      in_triage_notes = []\<rparr>"

definition record_outcome :: "bool \<Rightarrow> instant \<Rightarrow> redactor \<Rightarrow> (pipeline_failure \<Rightarrow> string) \<Rightarrow> provenance \<Rightarrow>
    triage_result \<Rightarrow> incidents \<Rightarrow> persisted_incident" where
  "record_outcome ok now redact dump pv r items =
     (let iid = incident_id (tr_signature r) (tr_outcome r \<in> {Resolved, Flagged_Data_Quality});
          clean = map_option (redacted_pipeline redact) (pv_pipeline_failure pv)
      in case map_of items iid of
           Some i \<Rightarrow> store_incident ok iid (recur now redact (pv_notified pv) clean r i) items
         | None \<Rightarrow> store_incident ok iid (fresh_incident now redact dump pv r iid) items)"

definition record_result :: "bool \<Rightarrow> instant \<Rightarrow> redactor \<Rightarrow> (pipeline_failure \<Rightarrow> string) \<Rightarrow> provenance \<Rightarrow>
    triage_result \<Rightarrow> incidents \<Rightarrow> persisted_incident" where
  "record_result ok now redact dump pv r items =
     (if tr_outcome r = Duplicate_Suppressed
      then (case find_open_entry (tr_signature r) items of
              Some (k, parent) \<Rightarrow>
                store_incident ok k
                  (counted_again now (pv_notified pv)
                     (map_option (redacted_pipeline redact) (pv_pipeline_failure pv)) parent) items
            | None \<Rightarrow> record_outcome ok now redact dump pv (r\<lparr>tr_outcome := Needs_Human\<rparr>) items)
      else record_outcome ok now redact dump pv r items)"

definition mark_incident :: "bool \<Rightarrow> redactor \<Rightarrow> string \<Rightarrow> incident_status \<Rightarrow> string \<Rightarrow> incidents \<Rightarrow>
    (store_error + incident option) \<times> incidents" where
  "mark_incident ok redact iid status notes items =
     (case map_of items iid of
        None \<Rightarrow> (Inr None, items)
      | Some i \<Rightarrow>
          apfst (map_sum id Some) (store_incident ok iid
            (i\<lparr>in_status := status,
               in_triage_notes := (if notes = [] then in_triage_notes i else fst (redact notes))\<rparr>) items))"

definition note_pipeline_occurrence :: "bool \<Rightarrow> instant \<Rightarrow> string \<Rightarrow> pipeline_failure \<Rightarrow> incidents \<Rightarrow>
    (store_error + incident option) \<times> incidents" where
  "note_pipeline_occurrence ok now iid f items =
     (case map_of items iid of
        None \<Rightarrow> (Inr None, items)
      | Some i \<Rightarrow>
          (case in_pipeline_failure i of
             None \<Rightarrow> (Inr None, items)
           | Some known \<Rightarrow>
               (case (pr_end_time (pf_run known), pr_end_time (pf_run f)) of
                  (Some latest, Some ended) \<Rightarrow>
                    if latest < ended then (Inr None, items)
                    else if pr_id (pf_run f) = pr_id (pf_run known) then (Inr (Some i), items)
                    else apfst (map_sum id Some) (store_incident ok iid
                           (i\<lparr>in_occurrence_count := in_occurrence_count i + 1, in_last_seen_at := now\<rparr>) items)
                | _ \<Rightarrow> (Inr None, items))))"

section \<open>The operations as one machine\<close>

datatype incident_op =
    Record_Op bool instant provenance triage_result
  | Mark_Op bool string incident_status string
  | Note_Op bool instant string pipeline_failure

fun incident_step :: "redactor \<Rightarrow> (pipeline_failure \<Rightarrow> string) \<Rightarrow> incident_op \<Rightarrow> incidents \<Rightarrow>
    (store_error + incident option) \<times> incidents" where
  "incident_step redact dump (Record_Op ok now pv r) items =
     apfst (map_sum id Some) (record_result ok now redact dump pv r items)"
| "incident_step redact dump (Mark_Op ok iid status notes) items = mark_incident ok redact iid status notes items"
| "incident_step redact dump (Note_Op ok now iid f) items = note_pipeline_occurrence ok now iid f items"

definition incident_wf :: "string \<Rightarrow> incident \<Rightarrow> bool" where
  "incident_wf k i \<longleftrightarrow>
     in_id i = k \<and> (\<exists>b. k = incident_id (in_signature i) b) \<and> 1 \<le> in_occurrence_count i \<and>
     0 \<le> in_notified_count i \<and> in_notified_count i \<le> in_occurrence_count i"

definition incidents_wf :: "incidents \<Rightarrow> bool" where
  "incidents_wf items \<longleftrightarrow> dict_wf items \<and> (\<forall>k i. map_of items k = Some i \<longrightarrow> incident_wf k i)"

lemma incident_id_inject: "incident_id s b = incident_id s' b' \<longleftrightarrow> s = s' \<and> b = b'"
  by (auto simp: incident_id_def)

lemma incidents_wf_update: "incidents_wf items \<Longrightarrow> incident_wf k i \<Longrightarrow> incidents_wf (AList.update k i items)"
  by (auto simp: incidents_wf_def)

lemma find_open_entry_some:
  assumes "incidents_wf items" and "find_open_entry s items = Some (k, i)"
  shows "map_of items k = Some i" and "is_open s i"
proof -
  have "(k, i) \<in> set items" "is_open s i"
    using assms(2) by (auto simp: find_open_entry_def find_Some_iff in_set_conv_nth)
  then show "map_of items k = Some i" "is_open s i"
    using assms(1) by (auto simp: incidents_wf_def dict_wf_get)
qed

lemma find_open_entry_none: "find_open_entry s items = None \<longleftrightarrow> (\<forall>(k, i)\<in>set items. \<not> is_open s i)"
  by (auto simp: find_open_entry_def find_None_iff)

lemma counted_again_sel [simp]:
  "in_signature (counted_again now n c i) = in_signature i"
  "in_id (counted_again now n c i) = in_id i"
  "in_status (counted_again now n c i) = in_status i"
  "in_outcome (counted_again now n c i) = in_outcome i"
  "in_occurrence_count (counted_again now n c i) = in_occurrence_count i + 1"
  "in_notified_count (counted_again now n c i) = in_notified_count i + (if n then 1 else 0)"
  by (simp_all add: counted_again_def)

lemma recur_sel [simp]:
  "in_signature (recur now redact n c r i) = in_signature i"
  "in_id (recur now redact n c r i) = in_id i"
  "in_status (recur now redact n c r i) = status_for (tr_outcome r)"
  "in_occurrence_count (recur now redact n c r i) = in_occurrence_count i + 1"
  "in_notified_count (recur now redact n c r i) = in_notified_count i + (if n then 1 else 0)"
  by (simp_all add: recur_def Let_def)

lemma fresh_sel [simp]:
  "in_signature (fresh_incident now redact dump pv r iid) = tr_signature r"
  "in_id (fresh_incident now redact dump pv r iid) = iid"
  "in_status (fresh_incident now redact dump pv r iid) = status_for (tr_outcome r)"
  "in_occurrence_count (fresh_incident now redact dump pv r iid) = 1"
  "in_notified_count (fresh_incident now redact dump pv r iid) = (if pv_notified pv then 1 else 0)"
  by (simp_all add: fresh_incident_def)

text \<open>What a record stores: exactly one incident of the result's signature, counted once more.\<close>

definition tally :: "string \<Rightarrow> incident \<Rightarrow> int" where
  "tally s i = (if in_signature i = s then in_occurrence_count i else 0)"

lemma record_outcome_step:
  assumes "incidents_wf items"
  shows "\<exists>k i. snd (record_outcome ok now redact dump pv r items) = AList.update k i items \<and>
     incident_wf k i \<and> in_signature i = tr_signature r \<and> in_status i = status_for (tr_outcome r) \<and>
     dict_sum (tally s) (AList.update k i items) =
       dict_sum (tally s) items + (if tr_signature r = s then 1 else 0)"
proof -
  let ?k = "incident_id (tr_signature r) (tr_outcome r \<in> {Resolved, Flagged_Data_Quality})"
  show ?thesis
  proof (cases "map_of items ?k")
    case None
    then show ?thesis
      by (intro exI [of _ ?k] exI [of _ "fresh_incident now redact dump pv r ?k"])
         (auto simp: record_outcome_def store_incident_def incident_wf_def tally_def Let_def dict_simps)
  next
    case (Some i)
    then have "incident_wf ?k i" using assms by (simp add: incidents_wf_def)
    with Some show ?thesis
      by (intro exI [of _ ?k] exI [of _ "recur now redact (pv_notified pv)
            (map_option (redacted_pipeline redact) (pv_pipeline_failure pv)) r i"])
         (auto simp: record_outcome_def store_incident_def incident_wf_def tally_def Let_def
           incident_id_inject dict_simps)
  qed
qed

lemma record_result_step:
  assumes "incidents_wf items"
  shows "\<exists>k i. snd (record_result ok now redact dump pv r items) = AList.update k i items \<and>
     incident_wf k i \<and> in_signature i = tr_signature r \<and>
     (tr_outcome r \<noteq> Resolved \<longrightarrow> is_open (tr_signature r) i) \<and>
     dict_sum (tally s) (AList.update k i items) =
       dict_sum (tally s) items + (if tr_signature r = s then 1 else 0)"
proof (cases "tr_outcome r = Duplicate_Suppressed")
  case False
  with record_outcome_step [OF assms, of ok now redact dump pv r s] show ?thesis
    by (fastforce simp: record_result_def is_open_def status_for_def)
next
  case True
  show ?thesis
  proof (cases "find_open_entry (tr_signature r) items")
    case None
    with True record_outcome_step [OF assms, of ok now redact dump pv "r\<lparr>tr_outcome := Needs_Human\<rparr>" s]
    show ?thesis by (fastforce simp: record_result_def is_open_def status_for_def)
  next
    case (Some e)
    then obtain k i where e: "find_open_entry (tr_signature r) items = Some (k, i)" by (cases e) auto
    from find_open_entry_some [OF assms e] have i: "map_of items k = Some i" "is_open (tr_signature r) i" .
    then have "incident_wf k i" using assms by (simp add: incidents_wf_def)
    with True e i show ?thesis
      by (intro exI [of _ k] exI [of _ "counted_again now (pv_notified pv)
            (map_option (redacted_pipeline redact) (pv_pipeline_failure pv)) i"])
         (auto simp: record_result_def store_incident_def incident_wf_def is_open_def tally_def dict_simps)
  qed
qed

lemma incident_step_wf:
  assumes "incidents_wf items"
  shows "incidents_wf (snd (incident_step redact dump x items))"
proof (cases x)
  case (Record_Op ok now pv r)
  then show ?thesis
    using record_result_step [OF assms, of ok now redact dump pv r "[]"] assms
    by (auto intro: incidents_wf_update)
next
  case (Mark_Op ok iid status memo)
  then show ?thesis
    using assms by (auto simp: mark_incident_def store_incident_def incidents_wf_def incident_wf_def
        split: option.splits)
next
  case (Note_Op ok now iid f)
  then show ?thesis
    using assms by (fastforce simp: note_pipeline_occurrence_def store_incident_def incidents_wf_def
        incident_wf_def split: option.splits)
qed

interpretation inc: machine "incident_step redact dump" incidents_wf
  by unfold_locales (rule incident_step_wf)

text \<open>How many occurrences of a signature an operation adds, by its answer.\<close>

fun adds :: "string \<Rightarrow> incident_op \<Rightarrow> int" where
  "adds s (Record_Op ok now pv r) = (if tr_signature r = s then 1 else 0)"
| "adds s _ = 0"

fun no_note :: "incident_op \<Rightarrow> bool" where
  "no_note (Note_Op _ _ _ _) \<longleftrightarrow> False"
| "no_note _ \<longleftrightarrow> True"

lemma incident_step_tally:
  assumes "incidents_wf items" and "no_note x"
  shows "dict_sum (tally s) (snd (incident_step redact dump x items)) = dict_sum (tally s) items + adds s x"
proof (cases x)
  case (Record_Op ok now pv r)
  with record_result_step [OF assms(1), of ok now redact dump pv r s] show ?thesis by auto
next
  case (Mark_Op ok iid status memo)
  then show ?thesis
    by (auto simp: mark_incident_def store_incident_def tally_def dict_simps split: option.splits)
next
  case (Note_Op ok now iid f)
  with assms(2) show ?thesis by simp
qed

lemma find_open_after_update:
  assumes "is_open s i"
  shows "find_open s (AList.update k i items) \<noteq> None"
proof -
  have "(k, i) \<in> set (AList.update k i items)"
    by (rule map_of_SomeD) simp
  with assms show ?thesis
    by (auto simp: find_open_def find_open_entry_none)
qed

section \<open>Properties\<close>


definition example_provenance :: provenance where
  "example_provenance =
     \<lparr>pv_report_name = ''Sales'', pv_original_error = ''boom'', pv_agent_name = ''a'',
      pv_prompt_version_hash = [], pv_model_provider = [], pv_model_name = [], pv_app_version = [],
      pv_source = ''powerbi_refresh_failure'', pv_notified = True, pv_pipeline_failure = None\<rparr>"

definition example_result :: triage_result where
  "example_result =
     \<lparr>tr_outcome = Needs_Human, tr_summary = [], tr_request_id = ''m1'', tr_signature = ''abc'',
      tr_signature_version = ''v2'', tr_root_cause = [], tr_action_taken = [],
      tr_classification = None, tr_dq_finding = None, tr_actions = [], tr_approvals = [],
      tr_llm_turns = 1, tr_tool_calls = 1, tr_write_actions = 0, tr_attempted_actions = 1,
      tr_tokens_used = 0, tr_wall_clock_ms = 0, tr_blocked_attempts = [], tr_denied_actions = [],
      tr_notification_failed = False, tr_notification_delivered = True,
      tr_notification_suppressed = False, tr_exception_class = [], tr_exception_message = []\<rparr>"

definition example_ops :: "incident_op list" where
  "example_ops =
     [Record_Op True 1 example_provenance example_result,
      Record_Op True 2 example_provenance (example_result\<lparr>tr_outcome := Duplicate_Suppressed\<rparr>),
      Mark_Op True ''usig:abc'' Settled [],
      Record_Op True 3 example_provenance (example_result\<lparr>tr_outcome := Duplicate_Suppressed\<rparr>)]"


text \<open>
  Suppression is sound: a result that is not resolved leaves an open incident of its
  signature, whatever was there before, so the next alert is suppressed; a duplicate of
  an open incident adds no row and changes neither status nor outcome of any; and a
  duplicate without an open incident is filed for a human instead of as a duplicate.
\<close>

lemma unresolved_results_suppress:
  assumes "incidents_wf items"
  shows "let items' = snd (record_result ok now redact dump pv r items)
    in (tr_outcome r \<noteq> Resolved \<longrightarrow> find_open (tr_signature r) items' \<noteq> None) \<and>
       (tr_outcome r = Duplicate_Suppressed \<and> find_open (tr_signature r) items \<noteq> None \<longrightarrow>
          map fst items' = map fst items \<and>
          (\<forall>k i. map_of items k = Some i \<longrightarrow> (\<exists>i'. map_of items' k = Some i' \<and>
             in_status i' = in_status i \<and> in_outcome i' = in_outcome i))) \<and>
       (tr_outcome r = Duplicate_Suppressed \<and> find_open (tr_signature r) items = None \<longrightarrow>
          items' = snd (record_result ok now redact dump pv (r\<lparr>tr_outcome := Needs_Human\<rparr>) items))"
proof -
  obtain k i where step: "snd (record_result ok now redact dump pv r items) = AList.update k i items"
    "tr_outcome r \<noteq> Resolved \<longrightarrow> is_open (tr_signature r) i"
    using record_result_step [OF assms, of ok now redact dump pv r "[]"] by blast
  have a: "tr_outcome r \<noteq> Resolved \<longrightarrow>
      find_open (tr_signature r) (snd (record_result ok now redact dump pv r items)) \<noteq> None"
    using step find_open_after_update by metis
  have b: "map fst (snd (record_result ok now redact dump pv r items)) = map fst items \<and>
      (\<forall>k i. map_of items k = Some i \<longrightarrow>
         (\<exists>i'. map_of (snd (record_result ok now redact dump pv r items)) k = Some i' \<and>
            in_status i' = in_status i \<and> in_outcome i' = in_outcome i))"
    if dup: "tr_outcome r = Duplicate_Suppressed" "find_open (tr_signature r) items \<noteq> None"
  proof -
    obtain k p where e: "find_open_entry (tr_signature r) items = Some (k, p)"
      using dup(2) by (auto simp: find_open_def)
    have p: "map_of items k = Some p" by (rule find_open_entry_some [OF assms e])
    then have "k \<in> fst ` set items" by (force dest: map_of_SomeD)
    then show ?thesis
      using dup(1) e p by (auto simp: record_result_def store_incident_def update_keys)
  qed
  show ?thesis
    using a b by (auto simp: Let_def record_result_def find_open_def)
qed

lemma unresolved_results_suppress_witness:
  "find_open ''abc'' (snd (record_result True 1 (\<lambda>t. (t, [])) (\<lambda>_. []) example_provenance example_result [])) \<noteq> None"
  using unresolved_results_suppress [of "[]" True 1 "\<lambda>t. (t, [])" "\<lambda>_. []" example_provenance example_result]
  by (simp add: incidents_wf_def example_result_def Let_def)

end
