(* ===== verification/Evidence.thy ===== *)
theory Evidence
  imports Incidents
begin

text \<open>
  The deterministic evidence that the agents get: the refresh-history count
  (\<^verbatim>\<open>src/src/triage/knowledge/refresh_history.py\<close>), the duplicate scan
  (\<^verbatim>\<open>src/src/triage/tools/dataset.py\<close>), the data quality flags
  (\<^verbatim>\<open>src/src/triage/tools/flags.py\<close>) and the log of processed messages
  (\<^verbatim>\<open>src/src/triage/store/processed.py\<close>).
\<close>

section \<open>Refresh history\<close>

definition DEACTIVATION_THRESHOLD :: int where
  "DEACTIVATION_THRESHOLD = 4"

record refresh_entry =
  re_refresh_type :: string
  re_status :: string

record deactivation_risk =
  dr_consecutive :: int
  dr_threshold :: int
  dr_remaining :: int
  dr_at_risk :: bool
  dr_scheduled_runs :: nat
  dr_ignored :: nat

definition is_scheduled :: "refresh_entry \<Rightarrow> bool" where
  "is_scheduled e \<longleftrightarrow> py_lower (py_strip (re_refresh_type e)) = ''scheduled''"

definition is_failure :: "refresh_entry \<Rightarrow> bool" where
  "is_failure e \<longleftrightarrow> py_lower (py_strip (re_status e)) \<in> {''failed'', ''disabled''}"

fun count_failures :: "refresh_entry list \<Rightarrow> int" where
  "count_failures [] = 0"
| "count_failures (e # es) = (if is_failure e then count_failures es + 1 else 0)"

definition assess_deactivation_risk :: "refresh_entry list \<Rightarrow> int \<Rightarrow> deactivation_risk" where
  "assess_deactivation_risk history threshold =
     (let scheduled = filter is_scheduled history; consecutive = count_failures scheduled
      in \<lparr>dr_consecutive = consecutive, dr_threshold = threshold,
          dr_remaining = max (threshold - consecutive) 0,
          dr_at_risk = (threshold - 1 \<le> consecutive),
          dr_scheduled_runs = List.length scheduled,
          dr_ignored = List.length history - List.length scheduled\<rparr>)"

definition risk_headline :: "deactivation_risk \<Rightarrow> string" where
  "risk_headline r =
     (if dr_scheduled_runs r = 0 then ''No scheduled refresh runs in the available history.''
      else if dr_consecutive r = 0
      then ''The most recent scheduled refresh succeeded; the schedule is not at risk.''
      else let base = show_int (dr_consecutive r) @ '' consecutive scheduled refresh failure''
                 @ (if dr_consecutive r \<noteq> 1 then ''s'' else []) @ '' (threshold ''
                 @ show_int (dr_threshold r) @ '').''
           in if dr_at_risk r
              then base @ '' The NEXT scheduled failure deactivates the refresh schedule, after which the report goes stale with no further alerts.''
              else base @ '' '' @ show_int (dr_remaining r) @ '' more would deactivate the schedule.'')"

lemma count_failures_takeWhile: "count_failures es = int (List.length (takeWhile is_failure es))"
  by (induction es) auto

section \<open>Duplicate scan\<close>

text \<open>A row of the table gives a text for some of its columns.\<close>

type_synonym table_row = "(string, string) dict"

definition row_value :: "table_row \<Rightarrow> string \<Rightarrow> string" where
  "row_value row col = py_strip (case map_of row col of None \<Rightarrow> [] | Some v \<Rightarrow> v)"

definition row_keys :: "string list \<Rightarrow> table_row \<Rightarrow> string list" where
  "row_keys cols row = map (row_value row) cols"

definition bump :: "'k \<Rightarrow> ('k, nat) dict \<Rightarrow> ('k, nat) dict" where
  "bump k groups = AList.update k ((case map_of groups k of None \<Rightarrow> 0 | Some n \<Rightarrow> n) + 1) groups"

definition group_counts :: "'k list \<Rightarrow> ('k, nat) dict" where
  "group_counts ks = fold bump ks []"

definition sample_text :: "string list \<Rightarrow> string list \<Rightarrow> string" where
  "sample_text cols key = join_with '' | '' (map (\<lambda>(c, v). c @ ''='' @ v) (zip cols key))"

definition detect_duplicates :: "table_row list \<Rightarrow> string list \<Rightarrow> string \<Rightarrow> nat \<Rightarrow> duplicate_evidence" where
  "detect_duplicates rows cols table sample_limit =
     (if cols = []
      then \<lparr>de_table = table, de_key_columns = [], de_group_count = 0, de_row_count = 0,
            de_total = List.length rows, de_samples = []\<rparr>
      else let dupes = filter (\<lambda>(_, n). 1 < n) (group_counts (map (row_keys cols) rows))
           in \<lparr>de_table = table, de_key_columns = cols, de_group_count = List.length dupes,
               de_row_count = sum_list (map (\<lambda>(_, n). n - 1) dupes),
               de_total = List.length rows,
               de_samples = map (sample_text cols \<circ> fst) (take sample_limit dupes)\<rparr>)"

lemma group_counts_snoc: "group_counts (ks @ [k]) = bump k (group_counts ks)"
  by (simp add: group_counts_def)

lemma group_counts_map:
  "map_of (group_counts ks) k = (if k \<in> set ks then Some (count_list ks k) else None)"
  by (induction ks rule: rev_induct)
     (auto simp: group_counts_snoc bump_def count_notin, simp add: group_counts_def)

lemma group_counts_wf: "dict_wf (group_counts ks)"
  by (induction ks rule: rev_induct) (auto simp: group_counts_snoc bump_def, simp add: group_counts_def)

lemma group_counts_entries:
  "(k, n) \<in> set (group_counts ks) \<longleftrightarrow> k \<in> set ks \<and> n = count_list ks k"
  using group_counts_wf [of ks] by (auto simp: dict_wf_get group_counts_map split: if_splits)

lemma group_counts_keys: "set (map fst (group_counts ks)) = set ks"
  using group_counts_entries [of _ _ ks] by force

lemma sum_over_dict:
  assumes "dict_wf d"
  shows "sum_list (map f d) = (\<Sum>kv\<in>set d. f kv)"
  using assms by (simp add: dict_wf_def distinct_map sum_list_distinct_conv_sum_set)

lemma group_counts_set: "set (group_counts ks) = (\<lambda>k. (k, count_list ks k)) ` set ks"
  using group_counts_entries [of _ _ ks] by auto

lemma group_counts_distinct: "distinct (group_counts ks)"
  using group_counts_wf [of ks] by (auto simp: dict_wf_def distinct_map)

lemma duplicate_rows_sum:
  "sum_list (map (\<lambda>(_, n). n - 1) (filter (\<lambda>(_, n). 1 < n) (group_counts ks))) + card (set ks)
     = List.length ks"
proof -
  note dis = group_counts_distinct [of ks]
  have "sum_list (map (\<lambda>(_, n). n - 1) (filter (\<lambda>(_, n). 1 < n) d)) = sum_list (map (\<lambda>(_, n). n - 1) d)"
    for d :: "('a \<times> nat) list"
    by (induction d) auto
  then have "sum_list (map (\<lambda>(_, n). n - 1) (filter (\<lambda>(_, n). 1 < n) (group_counts ks)))
      = sum_list (map (\<lambda>(_, n). n - 1) (group_counts ks))" .
  also have "\<dots> = (\<Sum>(_, n)\<in>set (group_counts ks). n - 1)"
    using dis by (simp add: sum_list_distinct_conv_sum_set)
  also have "\<dots> = (\<Sum>k\<in>set ks. count_list ks k - 1)"
    by (simp add: group_counts_set sum.reindex inj_on_def)
  also have "\<dots> + card (set ks) = (\<Sum>k\<in>set ks. (count_list ks k - 1) + 1)"
    by (simp add: sum_Suc)
  also have "\<dots> = (\<Sum>k\<in>set ks. count_list ks k)"
    by (rule sum.cong) (auto simp: count_list_0_iff Suc_leI neq0_conv [symmetric])
  also have "\<dots> = List.length ks"
    by (simp add: sum_count_set)
  finally show ?thesis .
qed

lemma duplicate_groups_card:
  "List.length (filter (\<lambda>(_, n). 1 < n) (group_counts ks)) = card {k \<in> set ks. 1 < count_list ks k}"
proof -
  have dis: "distinct (filter (\<lambda>(_, n). 1 < n) (group_counts ks))"
    using group_counts_distinct [of ks] by simp
  have "set (filter (\<lambda>(_, n). 1 < n) (group_counts ks))
      = (\<lambda>k. (k, count_list ks k)) ` {k \<in> set ks. 1 < count_list ks k}"
    by (auto simp: group_counts_set)
  then have "card (set (filter (\<lambda>(_, n). 1 < n) (group_counts ks))) = card {k \<in> set ks. 1 < count_list ks k}"
    by (simp add: card_image inj_on_def)
  then show ?thesis using distinct_card [OF dis] by simp
qed

section \<open>Data quality flags\<close>

text \<open>The identifier of a flag hashes the evidence it asserts.\<close>

definition flag_identity :: "string \<Rightarrow> duplicate_evidence \<Rightarrow> json" where
  "flag_identity request_id e =
     JObj [(''request_id'', JStr request_id), (''table'', JStr (de_table e)),
           (''key_columns'', JList (map JStr (de_key_columns e))),
           (''duplicate_group_count'', JInt (int (de_group_count e))),
           (''duplicate_row_count'', JInt (int (de_row_count e))),
           (''total_row_count'', JInt (int (de_total e)))]"

definition build_flag :: "(string \<Rightarrow> string) \<Rightarrow> string \<Rightarrow> string \<Rightarrow> duplicate_evidence \<Rightarrow> string \<Rightarrow> dq_flag" where
  "build_flag sha flagged_at request_id e detail =
     \<lparr>fl_flag_id = ''dqf-'' @ sha (dumps (flag_identity request_id e)), fl_flagged_at = flagged_at,
      fl_request_id = request_id, fl_table_name = de_table e, fl_issue_type = ''duplicates'',
      fl_key_columns = join_with '','' (de_key_columns e), fl_group_count = de_group_count e,
      fl_row_count = de_row_count e, fl_total = de_total e, fl_detail = detail,
      fl_detected_by = ''DataQualityAgent'', fl_status = Flag_Open\<rparr>"

definition persisted_flag :: "(string \<Rightarrow> string) \<Rightarrow> dq_flag \<Rightarrow> dq_flag" where
  "persisted_flag redact f =
     f\<lparr>fl_flag_id := redact (fl_flag_id f), fl_flagged_at := redact (fl_flagged_at f),
       fl_request_id := redact (fl_request_id f), fl_table_name := redact (fl_table_name f),
       fl_issue_type := redact (fl_issue_type f), fl_key_columns := redact (fl_key_columns f),
       fl_detail := redact (fl_detail f), fl_detected_by := redact (fl_detected_by f)\<rparr>"

datatype flag_error = Flag_Db_Raised | Flag_Unconfirmed | Flag_Not_Reconciled | Flag_Unreadable | Flag_Conflict

text \<open>A stored payload that does not validate is \<open>None\<close>. The table is append-only.\<close>

type_synonym flag_table = "(string, dq_flag option) dict"

definition sql_append_flag :: "(string \<Rightarrow> string) \<Rightarrow> db_reply \<Rightarrow> bool \<Rightarrow> dq_flag \<Rightarrow> flag_table \<Rightarrow>
    (flag_error + dq_flag) \<times> flag_table" where
  "sql_append_flag redact reply readable flag0 t =
     (let flag = persisted_flag redact flag0;
          (changed, t') = (if map_of t (fl_flag_id flag) = None
                           then db_execute reply 1 (AList.update (fl_flag_id flag) (Some flag) t) t
                           else db_execute reply 0 t t)
      in case changed of
           Inl _ \<Rightarrow> (Inl Flag_Db_Raised, t')
         | Inr n \<Rightarrow>
             if n = 1 then (Inr flag, t')
             else if n \<noteq> 0 then (Inl Flag_Unconfirmed, t')
             else if \<not> readable then (Inl Flag_Db_Raised, t')
             else (case map_of t' (fl_flag_id flag) of
                     None \<Rightarrow> (Inl Flag_Not_Reconciled, t')
                   | Some None \<Rightarrow> (Inl Flag_Unreadable, t')
                   | Some (Some original) \<Rightarrow>
                       if original\<lparr>fl_flagged_at := []\<rparr> \<noteq> flag\<lparr>fl_flagged_at := []\<rparr>
                       then (Inl Flag_Conflict, t') else (Inr original, t')))"

text \<open>The offline CSV file only ever grows by a line.\<close>

definition csv_append_flag :: "(string \<Rightarrow> string) \<Rightarrow> dq_flag \<Rightarrow> dq_flag list \<Rightarrow> dq_flag \<times> dq_flag list" where
  "csv_append_flag redact flag rows =
     (persisted_flag redact flag, rows @ [persisted_flag redact flag])"

lemma sql_append_cases:
  assumes "sql_append_flag redact reply readable f t = (a, t')"
  shows "t' = t \<or> map_of t (fl_flag_id (persisted_flag redact f)) = None \<and>
           t' = AList.update (fl_flag_id (persisted_flag redact f)) (Some (persisted_flag redact f)) t"
    and "a = Inr g \<Longrightarrow> map_of t' (fl_flag_id (persisted_flag redact f)) = Some (Some g) \<and>
           g\<lparr>fl_flagged_at := []\<rparr> = (persisted_flag redact f)\<lparr>fl_flagged_at := []\<rparr>"
proof -
  define flag where "flag = persisted_flag redact f"
  note eq = assms [unfolded sql_append_flag_def Let_def flag_def [symmetric]]
  show "t' = t \<or> map_of t (fl_flag_id (persisted_flag redact f)) = None \<and>
           t' = AList.update (fl_flag_id (persisted_flag redact f)) (Some (persisted_flag redact f)) t"
    using eq unfolding flag_def [symmetric]
    by (cases "map_of t (fl_flag_id flag)"; cases reply)
       (simp_all add: db_execute_def split: if_splits option.splits)
  show "a = Inr g \<Longrightarrow> map_of t' (fl_flag_id (persisted_flag redact f)) = Some (Some g) \<and>
           g\<lparr>fl_flagged_at := []\<rparr> = (persisted_flag redact f)\<lparr>fl_flagged_at := []\<rparr>"
    using eq unfolding flag_def [symmetric]
    by (cases "map_of t (fl_flag_id flag)"; cases reply)
       (auto simp: db_execute_def split: if_splits option.splits)
qed

lemma sql_append_again:
  assumes "map_of t (fl_flag_id (persisted_flag redact f)) = Some (Some g)"
    and "g\<lparr>fl_flagged_at := []\<rparr> = (persisted_flag redact f)\<lparr>fl_flagged_at := []\<rparr>"
  shows "sql_append_flag redact Db_Replied True f t = (Inr g, t)"
  using assms by (simp add: sql_append_flag_def db_execute_def Let_def)

section \<open>Processed messages\<close>

type_synonym processed = "(string, string) dict"

definition seen_message :: "(string \<Rightarrow> string) \<Rightarrow> string \<Rightarrow> processed \<Rightarrow> bool" where
  "seen_message sha m items \<longleftrightarrow> map_of items (sha m) \<noteq> None"

definition mark_message :: "(string \<Rightarrow> string) \<Rightarrow> string \<Rightarrow> string \<Rightarrow> processed \<Rightarrow> processed" where
  "mark_message sha m received items = AList.update (sha m) received items"

text \<open>
  The SQL log updates the row and inserts it if there was none; a count that is not 0 or
  1, or an exception, leaves the work unfinished.
\<close>

definition sql_mark_message :: "(string \<Rightarrow> string) \<Rightarrow> db_reply \<Rightarrow> db_reply \<Rightarrow> string \<Rightarrow> string \<Rightarrow> processed \<Rightarrow>
    (store_error + unit) \<times> processed" where
  "sql_mark_message sha r1 r2 m received t =
     (let key = sha m; t' = AList.update key received t;
          (updated, t1) = (if map_of t key = None then db_execute r1 0 t t else db_execute r1 1 t' t)
      in case updated of
           Inl e \<Rightarrow> (Inl e, t1)
         | Inr n \<Rightarrow>
             if n \<notin> {0, 1} then (Inl No_Reliable_Count, t1)
             else if n = 1 then (Inr (), t1)
             else let (inserted, t2) = (if map_of t1 key = None
                                        then db_execute r2 1 (AList.update key received t1) t1
                                        else db_execute r2 0 t1 t1)
                  in case inserted of
                       Inl e \<Rightarrow> (Inl e, t2)
                     | Inr k \<Rightarrow> (if k \<notin> {0, 1} then Inl No_Reliable_Count else Inr (), t2))"

definition sql_seen_message :: "(string \<Rightarrow> string) \<Rightarrow> bool \<Rightarrow> string \<Rightarrow> processed \<Rightarrow> store_error + bool" where
  "sql_seen_message sha readable m t =
     (if \<not> readable then Inl Db_Unavailable
      else case map_of t (sha m) of
             None \<Rightarrow> Inr False
           | Some _ \<Rightarrow> if List.length (sha m) \<noteq> 64 then Inl Unreadable_State else Inr True)"

datatype mark_op = Mark_Message db_reply db_reply string string

fun mark_step :: "(string \<Rightarrow> string) \<Rightarrow> mark_op \<Rightarrow> processed \<Rightarrow> (store_error + unit) \<times> processed" where
  "mark_step sha (Mark_Message r1 r2 m received) t = sql_mark_message sha r1 r2 m received t"

fun marked :: "(string \<Rightarrow> string) \<Rightarrow> mark_op \<Rightarrow> string" where
  "marked sha (Mark_Message r1 r2 m received) = sha m"

lemma sql_mark_cases:
  assumes "sql_mark_message sha r1 r2 m received t = (a, t')"
  shows "t' = t \<or> t' = AList.update (sha m) received t" and "a = Inr () \<Longrightarrow> map_of t' (sha m) \<noteq> None"
  using assms
  by (auto simp: sql_mark_message_def db_execute_def Let_def split: db_reply.splits if_splits option.splits)

lemma mark_step_cases:
  "snd (mark_step sha x t) = t \<or> (\<exists>v. snd (mark_step sha x t) = AList.update (marked sha x) v t)"
proof (cases x)
  case (Mark_Message r1 r2 m received)
  obtain a t' where s: "sql_mark_message sha r1 r2 m received t = (a, t')" by fastforce
  from sql_mark_cases(1) [OF s] show ?thesis by (auto simp: Mark_Message s)
qed

lemma mark_run_seen:
  "map_of (run (mark_step sha) xs t) k \<noteq> None \<Longrightarrow> map_of t k \<noteq> None \<or> k \<in> marked sha ` set xs"
proof (induction xs arbitrary: t)
  case (Cons x xs)
  from Cons.IH [of "snd (mark_step sha x t)"] Cons.prems mark_step_cases [of sha x t] show ?case
    by (auto split: if_splits)
qed simp

lemma mark_run_keeps: "map_of t k \<noteq> None \<Longrightarrow> map_of (run (mark_step sha) xs t) k \<noteq> None"
proof (induction xs arbitrary: t)
  case (Cons x xs)
  have "map_of (snd (mark_step sha x t)) k \<noteq> None"
    using Cons.prems mark_step_cases [of sha x t] by auto
  with Cons.IH show ?case by simp
qed simp

section \<open>Properties\<close>

text \<open>
  The count of consecutive failures is the length of the leading failed part of the
  scheduled runs; a refresh through the API or on demand, whatever its status and
  wherever in the history it stands, changes neither the count nor the risk, only the
  number of runs ignored; and the risk is announced exactly when one more scheduled
  failure reaches the threshold.
\<close>

lemma only_scheduled_runs_count:
  assumes "\<not> is_scheduled e"
  shows "let r = assess_deactivation_risk (before @ after) n; r' = assess_deactivation_risk (before @ e # after) n
    in dr_consecutive r' = dr_consecutive r \<and> dr_remaining r' = dr_remaining r \<and>
       dr_at_risk r' = dr_at_risk r \<and> dr_ignored r' = dr_ignored r + 1 \<and>
       risk_headline r' = risk_headline r \<and>
       dr_consecutive r = int (List.length (takeWhile is_failure (filter is_scheduled (before @ after)))) \<and>
       (dr_at_risk r \<longleftrightarrow> n \<le> dr_consecutive r + 1)"
proof -
  have "List.length (filter is_scheduled (before @ after)) \<le> List.length (before @ after)"
    by (rule length_filter_le)
  then show ?thesis
    using assms
    by (auto simp: assess_deactivation_risk_def risk_headline_def Let_def count_failures_takeWhile)
qed

lemma only_scheduled_runs_count_witness:
  "dr_consecutive (assess_deactivation_risk
      ([\<lparr>re_refresh_type = ''Scheduled'', re_status = ''Failed''\<rparr>] @
       \<lparr>re_refresh_type = ''ViaApi'', re_status = ''Completed''\<rparr> #
       [\<lparr>re_refresh_type = ''Scheduled'', re_status = ''Failed''\<rparr>]) DEACTIVATION_THRESHOLD) = 2"
proof -
  have e: "\<not> is_scheduled \<lparr>re_refresh_type = ''ViaApi'', re_status = ''Completed''\<rparr>" by code_simp
  have two: "dr_consecutive (assess_deactivation_risk
      ([\<lparr>re_refresh_type = ''Scheduled'', re_status = ''Failed''\<rparr>] @
       [\<lparr>re_refresh_type = ''Scheduled'', re_status = ''Failed''\<rparr>]) DEACTIVATION_THRESHOLD) = 2"
    by code_simp
  from only_scheduled_runs_count [OF e, where n = DEACTIVATION_THRESHOLD
      and before = "[\<lparr>re_refresh_type = ''Scheduled'', re_status = ''Failed''\<rparr>]"
      and after = "[\<lparr>re_refresh_type = ''Scheduled'', re_status = ''Failed''\<rparr>]"] two
  show ?thesis by (simp only: Let_def)
qed

text \<open>
  The duplicate scan counts what it says: the groups are the keys that occur more
  than once, the duplicate rows are the rows beyond the first of each key, so that rows
  minus duplicates is the number of distinct keys, and a finding exists exactly when the
  keys are not distinct; none of it depends on the order of the rows.
\<close>

lemma duplicates_are_redundant_rows:
  assumes "cols \<noteq> []"
  shows "let e = detect_duplicates rows cols table n; ks = map (row_keys cols) rows
    in de_group_count e = card {k \<in> set ks. 1 < count_list ks k} \<and>
       de_row_count e + card (set ks) = de_total e \<and> de_total e = List.length rows \<and>
       (de_row_count e = 0 \<longleftrightarrow> distinct ks) \<and>
       (mset rows' = mset rows \<longrightarrow>
          de_group_count (detect_duplicates rows' cols table n) = de_group_count e \<and>
          de_row_count (detect_duplicates rows' cols table n) = de_row_count e)"
proof -
  have count: "count_list (map f xs) k = count (mset (map f xs)) k" for f :: "table_row \<Rightarrow> string list" and xs k
    by (simp only: count_mset)
  have e: "de_group_count (detect_duplicates rs cols table n) = card {k \<in> set (map (row_keys cols) rs). 1 < count_list (map (row_keys cols) rs) k}"
    "de_row_count (detect_duplicates rs cols table n) + card (set (map (row_keys cols) rs)) = List.length rs"
    for rs
    using assms duplicate_groups_card [of "map (row_keys cols) rs"] duplicate_rows_sum [of "map (row_keys cols) rs"]
    by (simp_all add: detect_duplicates_def Let_def)
  have perm: "set (map (row_keys cols) rows') = set (map (row_keys cols) rows) \<and> List.length rows' = List.length rows \<and>
      (\<forall>k. count_list (map (row_keys cols) rows') k = count_list (map (row_keys cols) rows) k)"
    if "mset rows' = mset rows"
  proof -
    have m: "mset (map (row_keys cols) rows') = mset (map (row_keys cols) rows)" using that by simp
    show ?thesis
      unfolding count m using mset_eq_setD [OF m] mset_eq_length [OF that] by simp
  qed
  have "card (set (map (row_keys cols) rows)) = List.length rows \<longleftrightarrow> distinct (map (row_keys cols) rows)"
    by (metis card_distinct distinct_card length_map)
  then have empty: "de_row_count (detect_duplicates rows cols table n) = 0 \<longleftrightarrow> distinct (map (row_keys cols) rows)"
    using e(2) [of rows] by linarith
  have total: "de_total (detect_duplicates rows cols table n) = List.length rows"
    by (simp add: detect_duplicates_def Let_def)
  have same: "de_group_count (detect_duplicates rows' cols table n) = de_group_count (detect_duplicates rows cols table n) \<and>
      de_row_count (detect_duplicates rows' cols table n) = de_row_count (detect_duplicates rows cols table n)"
    if "mset rows' = mset rows"
  proof -
    note p = perm [OF that]
    then have "{k \<in> set (map (row_keys cols) rows'). 1 < count_list (map (row_keys cols) rows') k} =
        {k \<in> set (map (row_keys cols) rows). 1 < count_list (map (row_keys cols) rows) k}"
      by simp
    then show ?thesis
      using e [of rows] e [of rows'] p by simp
  qed
  show ?thesis
    unfolding Let_def using e [of rows] empty total same by simp
qed

definition example_rows :: "table_row list" where
  "example_rows = [[(''id'', ''1'')], [(''id'', ''2'')], [(''id'', ''1 '')]]"

lemma duplicates_are_redundant_rows_witness:
  "de_row_count (detect_duplicates example_rows [''id''] ''t'' 5)
     + card (set (map (row_keys [''id'']) example_rows)) = 3"
  using duplicates_are_redundant_rows [of "[''id'']" example_rows "''t''" 5 example_rows]
  by (simp add: Let_def example_rows_def)

text \<open>
  Flagging is idempotent: appending a flag whose identity is stored returns the stored
  flag and leaves the table alone, or fails when the stored evidence differs; an append
  that is acknowledged leaves a row for its identifier, and no append removes or changes
  a row.
\<close>

lemma flag_append_is_idempotent:
  "let r = sql_append_flag redact reply readable f t; fid = fl_flag_id (persisted_flag redact f)
   in (\<forall>k v. map_of t k = Some v \<longrightarrow> map_of (snd r) k = Some v) \<and>
      (\<forall>g. fst r = Inr g \<longrightarrow>
         map_of (snd r) fid = Some (Some g) \<and>
         g\<lparr>fl_flagged_at := []\<rparr> = (persisted_flag redact f)\<lparr>fl_flagged_at := []\<rparr> \<and>
         sql_append_flag redact Db_Replied True f (snd r) = (Inr g, snd r))"
proof -
  obtain a t' where r: "sql_append_flag redact reply readable f t = (a, t')" by fastforce
  show ?thesis
    unfolding Let_def r fst_conv snd_conv
    using sql_append_cases(1) [OF r] sql_append_cases(2) [OF r] sql_append_again by auto
qed

lemma flag_append_is_idempotent_witness:
  "let f = build_flag id ''t0'' ''m1'' (detect_duplicates example_rows [''id''] ''orders'' 5) ''dup'';
       r = sql_append_flag id Db_Replied True f []
   in sql_append_flag id Db_Replied True f (snd r) = (Inr (persisted_flag id f), snd r)"
  using flag_append_is_idempotent [of id Db_Replied True
      "build_flag id ''t0'' ''m1'' (detect_duplicates example_rows [''id''] ''orders'' 5) ''dup''" "[]"]
  by (simp add: Let_def sql_append_flag_def db_execute_def)

text \<open>
  Processed messages stay processed: after any sequence of marks, with any failures
  and lost acknowledgements, a message that was seen is still seen, one whose mark was
  acknowledged is seen, and none is seen that no one marked (or shares its hash).
\<close>

lemma processed_messages_stay_processed:
  assumes "fst (sql_mark_message sha r1 r2 m received (run (mark_step sha) xs t)) = Inr ()"
  shows "seen_message sha m (run (mark_step sha) (xs @ Mark_Message r1 r2 m received # ys) t) \<and>
    (seen_message sha m' (run (mark_step sha) xs t) \<longrightarrow> seen_message sha m' t \<or> sha m' \<in> marked sha ` set xs)"
proof -
  obtain t' where s: "sql_mark_message sha r1 r2 m received (run (mark_step sha) xs t) = (Inr (), t')"
    using assms by (metis prod.collapse)
  then have "map_of (run (mark_step sha) (xs @ Mark_Message r1 r2 m received # ys) t) (sha m) \<noteq> None"
    using sql_mark_cases(2) [OF s] mark_run_keeps [of t' "sha m" sha ys] by (simp add: run_simps)
  then show ?thesis
    using mark_run_seen [of sha xs t "sha m'"] by (auto simp: seen_message_def)
qed

lemma processed_messages_stay_processed_witness:
  "seen_message id ''m1'' (run (mark_step id) ([] @ Mark_Message Db_Replied Db_Replied ''m1'' ''now'' #
      [Mark_Message (Db_Raised True) Db_Replied ''m2'' ''later'']) [])"
proof -
  have "fst (sql_mark_message id Db_Replied Db_Replied ''m1'' ''now'' (run (mark_step id) [] [])) = Inr ()"
    by (simp add: sql_mark_message_def db_execute_def)
  from processed_messages_stay_processed [OF this] show ?thesis by blast
qed

end
