(* ===== verification/Health_Store.thy ===== *)
theory Health_Store
  imports Evidence Complex_Main
begin

text \<open>
  \<^verbatim>\<open>src/src/triage/store/semantic_health.py\<close>: the remembered state of a probe and
  the sweep leases, in memory and in SQL. Both lease stores are interpreted as leases.
\<close>

section \<open>Probe states\<close>

record probe_state =
  st_workspace_id :: string
  st_dataset_id :: string
  st_probe_name :: string
  st_report_name :: string
  st_last_max_date :: string
  st_last_row_count :: "int option"
  st_last_control_totals :: "(string, rat) dict"
  st_last_healthy_at :: stamp
  st_suspect_count :: int
  st_first_suspect_at :: stamp
  st_suspect_kind :: string
  st_consecutive_errors :: int
  st_last_error :: string
  st_circuit_opened_at :: stamp
  st_last_schema :: "string list"
  st_observations :: int
  st_updated_at :: stamp

definition new_probe_state :: "string \<Rightarrow> string \<Rightarrow> string \<Rightarrow> string \<Rightarrow> probe_state" where
  "new_probe_state workspace dataset probe report =
     \<lparr>st_workspace_id = workspace, st_dataset_id = dataset, st_probe_name = probe,
      st_report_name = report, st_last_max_date = [], st_last_row_count = None,
      st_last_control_totals = [], st_last_healthy_at = No_Stamp, st_suspect_count = 0,
      st_first_suspect_at = No_Stamp, st_suspect_kind = [], st_consecutive_errors = 0,
      st_last_error = [], st_circuit_opened_at = No_Stamp, st_last_schema = [],
      st_observations = 0, st_updated_at = No_Stamp\<rparr>"

definition probe_key :: "(string \<Rightarrow> string) \<Rightarrow> string \<Rightarrow> string \<Rightarrow> string \<Rightarrow> string" where
  "probe_key sha workspace dataset probe = take 32 (sha (workspace @ ''|'' @ dataset @ ''|'' @ probe))"

type_synonym probe_states = "(string, probe_state) dict"

definition get_probe :: "(string \<Rightarrow> string) \<Rightarrow> string \<Rightarrow> string \<Rightarrow> string \<Rightarrow> probe_states \<Rightarrow> probe_state option" where
  "get_probe sha workspace dataset probe items = map_of items (probe_key sha workspace dataset probe)"

definition put_probe :: "(string \<Rightarrow> string) \<Rightarrow> instant \<Rightarrow> probe_state \<Rightarrow> probe_states \<Rightarrow> probe_states" where
  "put_probe sha now s items =
     AList.update (probe_key sha (st_workspace_id s) (st_dataset_id s) (st_probe_name s))
       (s\<lparr>st_updated_at := Aware_Stamp (floor_second now)\<rparr>) items"

text \<open>\<open>_validate_state\<close>: what the SQL store accepts under a key.\<close>

definition zoned_or_absent :: "stamp \<Rightarrow> bool" where
  "zoned_or_absent s \<longleftrightarrow> s = No_Stamp \<or> aware s"

definition valid_probe_state :: "(string \<Rightarrow> string) \<Rightarrow> string \<Rightarrow> probe_state \<Rightarrow> bool" where
  "valid_probe_state sha key s \<longleftrightarrow>
     st_workspace_id s \<noteq> [] \<and> st_dataset_id s \<noteq> [] \<and> st_probe_name s \<noteq> [] \<and>
     key = probe_key sha (st_workspace_id s) (st_dataset_id s) (st_probe_name s) \<and>
     0 \<le> st_suspect_count s \<and> 0 \<le> st_consecutive_errors s \<and> 0 \<le> st_observations s \<and>
     (case st_last_row_count s of None \<Rightarrow> True | Some n \<Rightarrow> 0 \<le> n) \<and>
     zoned_or_absent (st_last_healthy_at s) \<and> zoned_or_absent (st_first_suspect_at s) \<and>
     zoned_or_absent (st_circuit_opened_at s) \<and> aware (st_updated_at s)"

section \<open>Sweep leases in memory\<close>

type_synonym mem_leases = "(string, string \<times> instant) dict"

definition mem_acquire_lease :: "instant \<Rightarrow> string \<Rightarrow> string \<Rightarrow> int \<Rightarrow> mem_leases \<Rightarrow> bool \<times> mem_leases" where
  "mem_acquire_lease now lease_name owner ttl leases =
     (case map_of leases lease_name of
        Some (other, expires) \<Rightarrow>
          if other \<noteq> owner \<and> now < expires then (False, leases)
          else (True, AList.update lease_name (owner, now + seconds ttl) leases)
      | None \<Rightarrow> (True, AList.update lease_name (owner, now + seconds ttl) leases))"

definition mem_release_lease :: "string \<Rightarrow> string \<Rightarrow> mem_leases \<Rightarrow> mem_leases" where
  "mem_release_lease lease_name owner leases =
     (case map_of leases lease_name of
        Some (other, _) \<Rightarrow> if other = owner then AList.delete lease_name leases else leases
      | None \<Rightarrow> leases)"

interpretation mem_lease: lease
  "\<lambda>n now me ttl s. mem_acquire_lease now n me ttl s" "\<lambda>n me s. mem_release_lease n me s"
  "\<lambda>s. map_of s lease_name" "\<lambda>n. n = lease_name"
  by unfold_locales
     (auto simp: mem_acquire_lease_def mem_release_lease_def split: option.splits if_splits)

section \<open>Sweep leases in SQL\<close>

datatype lease_error = Lease_Arguments | Lease_Db_Raised | Lease_No_Count

record sweep_lease =
  sl_owner :: string
  sl_expires_at :: instant

type_synonym lease_table = "(string, sweep_lease) dict"

text \<open>\<open>now\<close> is the server's clock; the two replies are those to the update and the insert.\<close>

definition sql_acquire_lease :: "db_reply \<Rightarrow> db_reply \<Rightarrow> instant \<Rightarrow> string \<Rightarrow> string \<Rightarrow> int \<Rightarrow> lease_table \<Rightarrow>
    (lease_error + bool) \<times> lease_table" where
  "sql_acquire_lease r1 r2 now lease_name owner ttl t =
     (if lease_name = [] \<or> owner = [] \<or> ttl \<le> 0 then (Inl Lease_Arguments, t)
      else let mine = \<lparr>sl_owner = owner, sl_expires_at = now + seconds ttl\<rparr>;
               (won, t1) =
                 (case map_of t lease_name of
                    None \<Rightarrow> db_execute r1 0 t t
                  | Some l \<Rightarrow>
                      if sl_expires_at l < now \<or> sl_owner l = owner
                      then db_execute r1 1 (AList.update lease_name mine t) t
                      else db_execute r1 0 t t)
           in case won of
                Inl _ \<Rightarrow> (Inl Lease_Db_Raised, t1)
              | Inr n \<Rightarrow>
                  if n \<notin> {0, 1} then (Inl Lease_No_Count, t1)
                  else if n = 1 then (Inr True, t1)
                  else let (ins, t2) =
                             (if map_of t1 lease_name = None
                              then db_execute r2 1 (AList.update lease_name mine t1) t1
                              else db_execute r2 0 t1 t1)
                       in case ins of
                            Inl _ \<Rightarrow> (Inl Lease_Db_Raised, t2)
                          | Inr k \<Rightarrow> (if k \<notin> {0, 1} then Inl Lease_No_Count else Inr (k = 1), t2))"

definition sql_release_lease :: "db_reply \<Rightarrow> string \<Rightarrow> string \<Rightarrow> lease_table \<Rightarrow>
    (lease_error + unit) \<times> lease_table" where
  "sql_release_lease reply lease_name owner t =
     (let (n, t') =
        (case map_of t lease_name of
           None \<Rightarrow> db_execute reply 0 t t
         | Some l \<Rightarrow>
             if sl_owner l = owner then db_execute reply 1 (AList.delete lease_name t) t
             else db_execute reply 0 t t)
      in (case n of
            Inl _ \<Rightarrow> Inl Lease_Db_Raised
          | Inr k \<Rightarrow> if k \<notin> {0, 1} then Inl Lease_No_Count else Inr (), t'))"

definition lease_holder :: "string \<Rightarrow> lease_table \<Rightarrow> (string \<times> instant) option" where
  "lease_holder lease_name t = map_option (\<lambda>l. (sl_owner l, sl_expires_at l)) (map_of t lease_name)"

definition acquire_sweep :: "string \<times> db_reply \<times> db_reply \<Rightarrow> instant \<Rightarrow> string \<Rightarrow> int \<Rightarrow> lease_table \<Rightarrow>
    bool \<times> lease_table" where
  "acquire_sweep r now owner ttl t =
     apfst (\<lambda>a. a = Inr True) (case r of (n, r1, r2) \<Rightarrow> sql_acquire_lease r1 r2 now n owner ttl t)"

definition release_sweep :: "string \<times> db_reply \<times> db_reply \<Rightarrow> string \<Rightarrow> lease_table \<Rightarrow> lease_table" where
  "release_sweep r owner t = (case r of (n, r1, _) \<Rightarrow> snd (sql_release_lease r1 n owner t))"

lemmas lease_defs =
  acquire_sweep_def release_sweep_def sql_acquire_lease_def sql_release_lease_def lease_holder_def
  db_execute_def Let_def

lemma acquire_sweep_won:
  assumes "fst (acquire_sweep (n, r1, r2) now me ttl t)"
  shows "lease_holder n (snd (acquire_sweep (n, r1, r2) now me ttl t)) = Some (me, now + seconds ttl)"
  using assms
  by (auto simp: lease_defs split: option.splits if_splits db_reply.splits)

lemma acquire_sweep_live:
  assumes "lease_holder n t = Some (other, e)" and "other \<noteq> me" and "now < e"
  shows "\<not> fst (acquire_sweep (n, r1, r2) now me ttl t) \<and>
         lease_holder n (snd (acquire_sweep (n, r1, r2) now me ttl t)) = lease_holder n t"
  using assms
  by (auto simp: lease_defs split: db_reply.splits)

lemma acquire_sweep_off:
  assumes "n' \<noteq> n"
  shows "lease_holder n (snd (acquire_sweep (n', r1, r2) now me ttl t)) = lease_holder n t"
  using assms
  by (auto simp: lease_defs split: option.splits if_splits db_reply.splits)

interpretation sql_lease: lease acquire_sweep release_sweep "lease_holder lease_name" "\<lambda>r. fst r = lease_name"
proof (unfold_locales, goal_cases)
  case (1 r now me ttl s)
  then show ?case using acquire_sweep_won by (cases r) auto
next
  case (2 r s other e me now ttl)
  then show ?case using acquire_sweep_live by (cases r) auto
next
  case (3 r now me ttl s)
  then show ?case using acquire_sweep_off by (cases r) auto
next
  case (4 s other e me r)
  then show ?case
    by (cases r) (auto simp: lease_defs split: option.splits if_splits db_reply.splits)
qed

section \<open>Properties\<close>

text \<open>
  Sweeps exclude each other: while a sweep lease is held and unexpired, no attempt of
  any other owner acquires it and no release of another owner ends it, in the memory
  store and in the SQL store, whatever statements fail or are applied without an
  acknowledgement; the holder alone can extend it.
\<close>

lemma sweeps_exclude_each_other:
  assumes "\<forall>x\<in>set xs. lease_actor x \<noteq> owner \<and> lease_before e x"
    and "\<forall>x\<in>set ys. lease_actor x \<noteq> owner \<and> lease_before e x"
  shows "(lease_holder n t = Some (owner, e) \<longrightarrow>
      lease_holder n (run (lease_step acquire_sweep release_sweep) xs t) = Some (owner, e) \<and>
      count_wins (lease_step acquire_sweep release_sweep) (lease_won (\<lambda>r. fst r = n)) () xs t = 0) \<and>
    (map_of held n = Some (owner, e) \<longrightarrow>
      map_of (run (lease_step (\<lambda>n now me ttl s. mem_acquire_lease now n me ttl s)
                     (\<lambda>n me s. mem_release_lease n me s)) ys held) n = Some (owner, e))"
  using sql_lease.exclusive_run [of n t owner e xs] mem_lease.exclusive_run [of held n owner e ys] assms
  by blast

lemma sweeps_exclude_each_other_witness:
  "lease_holder ''sweep'' (run (lease_step acquire_sweep release_sweep)
      [Acquire (''sweep'', Db_Raised True, Db_Replied) 5 ''b'' 60, Release (''sweep'', Db_Replied, Db_Replied) ''b'']
      [(''sweep'', \<lparr>sl_owner = ''a'', sl_expires_at = 9\<rparr>)]) = Some (''a'', 9)"
  using sweeps_exclude_each_other [of "[Acquire (''sweep'', Db_Raised True, Db_Replied) 5 ''b'' 60,
      Release (''sweep'', Db_Replied, Db_Replied) ''b'']" "''a''" 9 "[]" "''sweep''"
      "[(''sweep'', \<lparr>sl_owner = ''a'', sl_expires_at = 9\<rparr>)]" "[]"]
  by (simp add: lease_holder_def)

end
