(* ===== verification/Silent_Failures.thy ===== *)
theory Silent_Failures
  imports Health_Store
begin

text \<open>
  \<^verbatim>\<open>src/src/triage/detectors/silent_failures.py\<close>: the scanner that compares a semantic
  model with its own history. One scan is a function of the clock, the probe's
  configuration, what the client answered and the remembered state. Fractions are exact
  rationals, dates are day numbers, and the prose of the findings is left out.
\<close>

section \<open>Configuration and readings\<close>

definition DEFAULT_MAX_DROP_FRACTION :: rat where
  "DEFAULT_MAX_DROP_FRACTION = 3 / 10"

definition DEFAULT_MIN_ABSOLUTE_DROP :: int where
  "DEFAULT_MIN_ABSOLUTE_DROP = 1000"

definition DEFAULT_MAX_CONSECUTIVE_ERRORS :: int where
  "DEFAULT_MAX_CONSECUTIVE_ERRORS = 5"

definition DEFAULT_CIRCUIT_COOLDOWN_MINUTES :: int where
  "DEFAULT_CIRCUIT_COOLDOWN_MINUTES = 60"

definition DEFAULT_CONFIRMATIONS :: int where
  "DEFAULT_CONFIRMATIONS = 2"

definition DEFAULT_GRACE_MINUTES :: int where
  "DEFAULT_GRACE_MINUTES = 90"

record health_probe =
  hp_name :: string
  hp_workspace_id :: string
  hp_dataset_id :: string
  hp_report_name :: string
  hp_date_column :: string
  hp_watch_schema :: bool
  hp_expected_lag_hours :: int
  hp_grace_minutes :: int
  hp_max_drop_fraction :: rat
  hp_min_absolute_drop :: int
  hp_confirmations :: int
  hp_max_consecutive_errors :: int
  hp_circuit_cooldown_minutes :: int
  hp_load_weekdays :: "int list"

text \<open>The newest date of a reading: absent, a text that is no date, or a day.\<close>

datatype watermark = No_Watermark | Unreadable_Watermark string | Watermark string int

fun watermark_text :: "watermark \<Rightarrow> string" where
  "watermark_text No_Watermark = []"
| "watermark_text (Unreadable_Watermark s) = s"
| "watermark_text (Watermark s _) = s"

record reading =
  rd_max_date :: watermark
  rd_row_count :: "int option"
  rd_control_totals :: "(string, rat) dict"

text \<open>A probe that raised or reported that it could not run has an error text.\<close>

datatype probe_reply = Probe_Failed string | Probe_Read reading

datatype schema_reply = No_Schema_Reader | Schema_Raised | Schema_Unreadable | Schema_Entries "string list"

datatype finding_status = Healthy | Suspect | Confirmed | Detector_Fault | Parked

record health_finding =
  hf_probe :: string
  hf_status :: finding_status
  hf_kind :: string
  hf_report_name :: string
  hf_workspace_id :: string
  hf_dataset_id :: string
  hf_observed :: "(string \<times> int option) option"
  hf_baseline :: "(string \<times> int option) option"
  hf_suspect_count :: int

definition actionable :: "health_finding \<Rightarrow> bool" where
  "actionable f \<longleftrightarrow> hf_status f = Confirmed"

section \<open>Judgement\<close>

definition day_of :: "instant \<Rightarrow> int" where
  "day_of t = t div 86400000000"

text \<open>Day 0 of the epoch was a Thursday.\<close>

definition isoweekday :: "int \<Rightarrow> int" where
  "isoweekday d = (d + 3) mod 7 + 1"

definition expected_loads_between :: "int \<Rightarrow> int \<Rightarrow> int list \<Rightarrow> nat" where
  "expected_loads_between mark today weekdays =
     (if today - mark \<le> 0 then 0
      else List.length (filter (\<lambda>off. isoweekday (mark + off) \<in> set weekdays) [1..today - mark]))"

definition check_staleness :: "instant \<Rightarrow> health_probe \<Rightarrow> reading \<Rightarrow> bool" where
  "check_staleness now p r =
     (if hp_date_column p = [] then False
      else case rd_max_date r of
             No_Watermark \<Rightarrow> False
           | Unreadable_Watermark _ \<Rightarrow> False
           | Watermark _ observed \<Rightarrow>
               if day_of (now - hours (hp_expected_lag_hours p) - minutes (hp_grace_minutes p)) \<le> observed
               then False
               else if hp_load_weekdays p \<noteq> []
                       \<and> expected_loads_between observed (day_of now) (hp_load_weekdays p) = 0
               then False
               else True)"

definition check_row_count :: "health_probe \<Rightarrow> probe_state \<Rightarrow> reading \<Rightarrow> bool" where
  "check_row_count p s r =
     (case (st_last_row_count s, rd_row_count r) of
        (Some baseline, Some current) \<Rightarrow>
          if baseline \<le> 0 then False
          else if baseline - current \<le> 0 then False
          else if baseline - current < hp_min_absolute_drop p then False
          else \<not> (of_int (baseline - current) / of_int baseline < hp_max_drop_fraction p)
      | _ \<Rightarrow> False)"

definition judge :: "instant \<Rightarrow> health_probe \<Rightarrow> probe_state \<Rightarrow> reading \<Rightarrow> string" where
  "judge now p s r =
     (if check_staleness now p r then ''stale''
      else if check_row_count p s r then ''row_collapse'' else [])"

text \<open>Only removals count; the first schema and every extension become the baseline.\<close>

definition check_schema :: "health_probe \<Rightarrow> schema_reply \<Rightarrow> probe_state \<Rightarrow> string \<times> probe_state" where
  "check_schema p reply s =
     (if \<not> hp_watch_schema p then ([], s)
      else case reply of
             Schema_Entries current \<Rightarrow>
               if st_last_schema s = [] then ([], s\<lparr>st_last_schema := current\<rparr>)
               else if filter (\<lambda>e. e \<notin> set current) (st_last_schema s) = []
               then ([], s\<lparr>st_last_schema := current\<rparr>)
               else (''schema_drift'', s)
           | _ \<Rightarrow> ([], s))"

section \<open>The circuit breaker\<close>

fun parse_stamp :: "stamp \<Rightarrow> instant option" where
  "parse_stamp (Aware_Stamp t) = Some t"
| "parse_stamp (Naive_Stamp t) = Some t"
| "parse_stamp _ = None"

definition bare_finding :: "health_probe \<Rightarrow> finding_status \<Rightarrow> string \<Rightarrow> health_finding" where
  "bare_finding p status kind =
     \<lparr>hf_probe = hp_name p, hf_status = status, hf_kind = kind, hf_report_name = hp_report_name p,
      hf_workspace_id = hp_workspace_id p, hf_dataset_id = hp_dataset_id p, hf_observed = None,
      hf_baseline = None, hf_suspect_count = 0\<rparr>"

text \<open>Whether the probe is parked, and the state as it is stored and carried on.\<close>

definition circuit_open :: "instant \<Rightarrow> health_probe \<Rightarrow> probe_state \<Rightarrow> health_finding option \<times> probe_state" where
  "circuit_open now p s =
     (if st_consecutive_errors s < hp_max_consecutive_errors p then (None, s)
      else let (opened, s1) =
             (case parse_stamp (st_circuit_opened_at s) of
                Some t \<Rightarrow> (t, s)
              | None \<Rightarrow> (now, s\<lparr>st_circuit_opened_at := Aware_Stamp (floor_second now)\<rparr>))
           in if opened + minutes (hp_circuit_cooldown_minutes p) \<le> now
              then (None, s1\<lparr>st_circuit_opened_at := No_Stamp\<rparr>)
              else (Some (bare_finding p Parked ''detector_fault''), s1))"

section \<open>Outcomes of a scan\<close>

definition observed_of :: "reading \<Rightarrow> string \<times> int option" where
  "observed_of r = (watermark_text (rd_max_date r), rd_row_count r)"

definition record_healthy :: "instant \<Rightarrow> health_probe \<Rightarrow> probe_state \<Rightarrow> reading \<Rightarrow> health_finding \<times> probe_state" where
  "record_healthy now p s r =
     ((bare_finding p Healthy [])\<lparr>hf_observed := Some (observed_of r)\<rparr>,
      s\<lparr>st_last_max_date := str_or (watermark_text (rd_max_date r)) (st_last_max_date s),
        st_last_row_count := (case rd_row_count r of None \<Rightarrow> st_last_row_count s | Some n \<Rightarrow> Some n),
        st_last_control_totals := (if rd_control_totals r = [] then st_last_control_totals s
                                   else rd_control_totals r),
        st_last_healthy_at := Aware_Stamp (floor_second now), st_suspect_count := 0,
        st_first_suspect_at := No_Stamp, st_suspect_kind := []\<rparr>)"

definition record_suspect :: "instant \<Rightarrow> health_probe \<Rightarrow> probe_state \<Rightarrow> reading \<Rightarrow> string \<Rightarrow>
    health_finding \<times> probe_state" where
  "record_suspect now p s r kind =
     (let s1 = (if st_suspect_kind s \<noteq> kind
                then s\<lparr>st_suspect_count := 0, st_first_suspect_at := Aware_Stamp (floor_second now)\<rparr> else s);
          s2 = s1\<lparr>st_suspect_kind := kind, st_suspect_count := st_suspect_count s1 + 1\<rparr>;
          status = (if hp_confirmations p \<le> st_suspect_count s2 then Confirmed else Suspect)
      in ((bare_finding p status kind)
            \<lparr>hf_observed := Some (observed_of r),
             hf_baseline := Some (st_last_max_date s2, st_last_row_count s2),
             hf_suspect_count := st_suspect_count s2\<rparr>, s2))"

definition record_fault :: "health_probe \<Rightarrow> probe_state \<Rightarrow> string \<Rightarrow> health_finding \<times> probe_state" where
  "record_fault p s error =
     (bare_finding p Detector_Fault ''detector_fault'',
      s\<lparr>st_consecutive_errors := st_consecutive_errors s + 1, st_last_error := take 400 error\<rparr>)"

text \<open>A scan that got a reading: the error budget is reset, then the reading is judged.\<close>

definition scan_reading :: "instant \<Rightarrow> health_probe \<Rightarrow> reading \<Rightarrow> schema_reply \<Rightarrow> probe_state \<Rightarrow>
    health_finding \<times> probe_state" where
  "scan_reading now p r schema s =
     (let s1 = s\<lparr>st_consecutive_errors := 0, st_last_error := [],
                 st_circuit_opened_at := No_Stamp, st_observations := st_observations s + 1\<rparr>;
          kind = judge now p s1 r;
          (schema_kind, s2) = check_schema p schema s1;
          kind' = (if kind = [] then schema_kind else kind)
      in if kind' = [] then record_healthy now p s2 r
         else record_suspect now p s2 r kind')"

definition scan_state :: "instant \<Rightarrow> health_probe \<Rightarrow> probe_reply \<Rightarrow> schema_reply \<Rightarrow> probe_state \<Rightarrow>
    health_finding \<times> probe_state" where
  "scan_state now p reply schema s =
     (case circuit_open now p s of
        (Some parked, s1) \<Rightarrow> (parked, s1)
      | (None, s1) \<Rightarrow>
          (case reply of
             Probe_Failed error \<Rightarrow> record_fault p s1 error
           | Probe_Read r \<Rightarrow> scan_reading now p r schema s1))"

definition initial_state :: "health_probe \<Rightarrow> probe_state" where
  "initial_state p = new_probe_state (hp_workspace_id p) (hp_dataset_id p) (hp_name p) (hp_report_name p)"

definition scan :: "(string \<Rightarrow> string) \<Rightarrow> instant \<Rightarrow> health_probe \<Rightarrow> probe_reply \<Rightarrow> schema_reply \<Rightarrow>
    probe_states \<Rightarrow> health_finding \<times> probe_states" where
  "scan sha now p reply schema items =
     (let s = (case get_probe sha (hp_workspace_id p) (hp_dataset_id p) (hp_name p) items of
                 None \<Rightarrow> initial_state p | Some s \<Rightarrow> s);
          (f, s') = scan_state now p reply schema s
      in (f, if s' = s then items else put_probe sha now s' items))"

definition sweep :: "(string \<Rightarrow> string) \<Rightarrow> instant \<Rightarrow> (health_probe \<times> probe_reply \<times> schema_reply) list \<Rightarrow>
    probe_states \<Rightarrow> health_finding list \<times> probe_states" where
  "sweep sha now probes items =
     fold (\<lambda>(p, reply, schema) (fs, its).
             let (f, its') = scan sha now p reply schema its in (fs @ [f], its')) probes ([], items)"

section \<open>Repeated scans of one probe\<close>

record scan_input =
  si_now :: instant
  si_reply :: probe_reply
  si_schema :: schema_reply

definition scan_step :: "health_probe \<Rightarrow> scan_input \<Rightarrow> probe_state \<Rightarrow> health_finding \<times> probe_state" where
  "scan_step p x s = scan_state (si_now x) p (si_reply x) (si_schema x) s"

text \<open>The findings that rest on a reading: a fault or a parked probe says nothing about the data.\<close>

definition about_data :: "health_finding \<Rightarrow> bool" where
  "about_data f \<longleftrightarrow> hf_status f \<in> {Healthy, Suspect, Confirmed}"

definition judged_kinds :: "health_finding list \<Rightarrow> string list" where
  "judged_kinds fs = map hf_kind (filter about_data fs)"

lemma bare_sel [simp]:
  "hf_status (bare_finding p status kind) = status" "hf_kind (bare_finding p status kind) = kind"
  "hf_suspect_count (bare_finding p status kind) = 0"
  by (simp_all add: bare_finding_def)

lemma circuit_open_state [simp]:
  assumes "circuit_open now p s = (q, s1)"
  shows "st_suspect_count s1 = st_suspect_count s" "st_suspect_kind s1 = st_suspect_kind s"
    "st_last_max_date s1 = st_last_max_date s" "st_last_row_count s1 = st_last_row_count s"
    "st_last_control_totals s1 = st_last_control_totals s" "st_last_healthy_at s1 = st_last_healthy_at s"
    "st_last_schema s1 = st_last_schema s"
  using assms by (auto simp: circuit_open_def Let_def split: if_splits option.splits)

lemma circuit_open_parked:
  "circuit_open now p s = (Some f, s1) \<Longrightarrow> f = bare_finding p Parked ''detector_fault''"
  by (auto simp: circuit_open_def Let_def split: if_splits option.splits)

lemma check_schema_state [simp]:
  assumes "check_schema p reply s = (k, s1)"
  shows "st_suspect_count s1 = st_suspect_count s" "st_suspect_kind s1 = st_suspect_kind s"
    "st_last_max_date s1 = st_last_max_date s" "st_last_row_count s1 = st_last_row_count s"
    "st_last_control_totals s1 = st_last_control_totals s" "st_last_healthy_at s1 = st_last_healthy_at s"
    "k = [] \<or> k = ''schema_drift''"
  using assms by (auto simp: check_schema_def split: if_splits schema_reply.splits)

text \<open>The four ways a scan ends.\<close>

lemma scan_reading_cases:
  obtains (healthy) s2 where "scan_reading now p r schema s = record_healthy now p s2 r"
    | (suspect) s2 k where "k \<noteq> []" "scan_reading now p r schema s = record_suspect now p s2 r k"
      "st_suspect_count s2 = st_suspect_count s" "st_suspect_kind s2 = st_suspect_kind s"
      "st_last_max_date s2 = st_last_max_date s" "st_last_row_count s2 = st_last_row_count s"
      "st_last_control_totals s2 = st_last_control_totals s" "st_last_healthy_at s2 = st_last_healthy_at s"
proof -
  obtain s1 where s1: "s1 = s\<lparr>st_consecutive_errors := 0, st_last_error := [],
                 st_circuit_opened_at := No_Stamp, st_observations := st_observations s + 1\<rparr>" by blast
  obtain sk s2 where c: "check_schema p schema s1 = (sk, s2)" by fastforce
  obtain kind where kind: "kind = (if judge now p s1 r = [] then sk else judge now p s1 r)" by blast
  have res: "scan_reading now p r schema s =
      (if kind = [] then record_healthy now p s2 r else record_suspect now p s2 r kind)"
    unfolding scan_reading_def Let_def s1 [symmetric] c prod.case kind [symmetric] by (rule refl)
  show thesis
  proof (cases "kind = []")
    case True
    with res show ?thesis by (intro healthy) simp
  next
    case False
    with res s1 c show ?thesis by (intro suspect [of kind s2]) simp_all
  qed
qed

lemma scan_state_cases:
  assumes "scan_state now p reply schema s = (f, s')"
  obtains (parked) "hf_status f = Parked" "st_suspect_count s' = st_suspect_count s"
      "st_suspect_kind s' = st_suspect_kind s"
      "st_last_max_date s' = st_last_max_date s" "st_last_row_count s' = st_last_row_count s"
      "st_last_control_totals s' = st_last_control_totals s" "st_last_healthy_at s' = st_last_healthy_at s"
    | (fault) "hf_status f = Detector_Fault" "st_suspect_count s' = st_suspect_count s"
      "st_suspect_kind s' = st_suspect_kind s"
      "st_last_max_date s' = st_last_max_date s" "st_last_row_count s' = st_last_row_count s"
      "st_last_control_totals s' = st_last_control_totals s" "st_last_healthy_at s' = st_last_healthy_at s"
    | (healthy) "hf_status f = Healthy" "hf_kind f = []" "st_suspect_count s' = 0" "st_suspect_kind s' = []"
    | (suspect) k where "hf_kind f = k" "k \<noteq> []" "st_suspect_kind s' = k"
      "hf_suspect_count f = st_suspect_count s'"
      "st_suspect_count s' = (if st_suspect_kind s = k then st_suspect_count s + 1 else 1)"
      "hf_status f = (if hp_confirmations p \<le> st_suspect_count s' then Confirmed else Suspect)"
      "st_last_max_date s' = st_last_max_date s" "st_last_row_count s' = st_last_row_count s"
      "st_last_control_totals s' = st_last_control_totals s" "st_last_healthy_at s' = st_last_healthy_at s"
proof -
  obtain q s1 where c: "circuit_open now p s = (q, s1)" by fastforce
  show thesis
  proof (cases q)
    case (Some parkedf)
    then have "f = parkedf" "s' = s1" using assms c by (simp_all add: scan_state_def)
    with Some c circuit_open_parked [of now p s parkedf s1] show ?thesis by (intro parked) simp_all
  next
    case None
    show ?thesis
    proof (cases reply)
      case (Probe_Failed e)
      then show ?thesis using assms c None by (intro fault) (auto simp: scan_state_def record_fault_def)
    next
      case (Probe_Read r)
      then have res: "(f, s') = scan_reading now p r schema s1" using assms c None by (simp add: scan_state_def)
      show ?thesis
      proof (cases rule: scan_reading_cases [where now = now and p = p and r = r and schema = schema and s = s1])
        case (healthy s2)
        with res show ?thesis by (intro that(3)) (auto simp: record_healthy_def)
      next
        case (suspect s2 k)
        with res c show ?thesis
          by (intro that(4) [of k]) (auto simp: record_suspect_def Let_def split: if_splits)
      qed
    qed
  qed
qed

text \<open>The suspect count is the length of the current streak of equal judgements.\<close>

definition streak :: "string list \<Rightarrow> probe_state \<Rightarrow> bool" where
  "streak ks s \<longleftrightarrow> 0 \<le> st_suspect_count s \<and> (\<exists>pre. ks = pre @ replicate (nat (st_suspect_count s)) (st_suspect_kind s))"

lemma scan_step_streak:
  assumes "streak ks s"
  shows "streak (ks @ judged_kinds [fst (scan_step p x s)]) (snd (scan_step p x s))"
proof -
  obtain f s' where r: "scan_step p x s = (f, s')" by fastforce
  obtain pre where ks: "ks = pre @ replicate (nat (st_suspect_count s)) (st_suspect_kind s)"
    and pos: "0 \<le> st_suspect_count s"
    using assms by (auto simp: streak_def)
  from r [unfolded scan_step_def] show ?thesis
  proof (cases rule: scan_state_cases)
    case (suspect k)
    have "about_data f" using suspect by (auto simp: about_data_def)
    moreover have "\<exists>pre. ks @ [k] = pre @ replicate (nat (st_suspect_count s')) k"
    proof (cases "st_suspect_kind s = k")
      case True
      then have "nat (st_suspect_count s') = Suc (nat (st_suspect_count s))"
        using suspect pos by (simp add: Suc_nat_eq_nat_zadd1 add.commute)
      then show ?thesis
        using ks True by (intro exI [of _ pre]) (simp add: replicate_append_same)
    next
      case False
      then show ?thesis using suspect by (intro exI [of _ ks]) simp
    qed
    ultimately show ?thesis
      using suspect pos r by (auto simp: streak_def judged_kinds_def)
  qed (use assms r in \<open>auto simp: streak_def judged_kinds_def about_data_def\<close>)
qed

lemma streak_run:
  "streak ks s \<Longrightarrow> streak (ks @ judged_kinds (answers (scan_step p) xs s)) (run (scan_step p) xs s)"
proof (induction xs arbitrary: ks s)
  case Nil
  then show ?case by (simp add: judged_kinds_def)
next
  case (Cons x xs)
  from Cons.IH [OF scan_step_streak [OF Cons.prems, of p x]] show ?case
    by (auto simp: judged_kinds_def split: if_splits)
qed

text \<open>Each check against a description of the readings it objects to.\<close>

lemma check_row_count_iff:
  "check_row_count p s r \<longleftrightarrow>
     (\<exists>b c. st_last_row_count s = Some b \<and> rd_row_count r = Some c \<and> 0 < b \<and> c < b \<and>
        hp_min_absolute_drop p \<le> b - c \<and> hp_max_drop_fraction p * of_int b \<le> of_int (b - c))"
proof (cases "st_last_row_count s")
  case (Some b)
  show ?thesis
  proof (cases "rd_row_count r")
    case (Some c)
    show ?thesis
    proof (cases "0 < b \<and> c < b")
      case True
      then have "hp_max_drop_fraction p \<le> of_int (b - c) / of_int b \<longleftrightarrow>
          hp_max_drop_fraction p * of_int b \<le> of_int (b - c)"
        by (intro pos_le_divide_eq) simp
      then show ?thesis
        using True Some \<open>st_last_row_count s = Some b\<close>
        by (simp add: check_row_count_def not_less del: of_int_diff)
    next
      case False
      then consider "b \<le> 0" | "b - c \<le> 0" by linarith
      then have "\<not> check_row_count p s r"
        by cases (simp_all add: check_row_count_def Some \<open>st_last_row_count s = Some b\<close>)
      then show ?thesis using False Some \<open>st_last_row_count s = Some b\<close> by (simp del: of_int_diff) blast
    qed
  qed (cases "st_last_row_count s"; simp add: check_row_count_def)
qed (simp add: check_row_count_def)

lemma no_loads_iff:
  "expected_loads_between day today ws = 0 \<longleftrightarrow>
      \<not> (\<exists>d. day < d \<and> d \<le> today \<and> isoweekday d \<in> set ws)"
proof -
  have "(\<exists>off\<in>{1..today - day}. isoweekday (day + off) \<in> set ws) \<longleftrightarrow>
      (\<exists>d. day < d \<and> d \<le> today \<and> isoweekday d \<in> set ws)" (is "?l \<longleftrightarrow> ?r")
  proof
    assume ?r
    then obtain d where "day < d" "d \<le> today" "isoweekday d \<in> set ws" by blast
    then show ?l by (intro bexI [of _ "d - day"]) auto
  next
    assume ?l
    then obtain off where "off \<in> {1..today - day}" "isoweekday (day + off) \<in> set ws" by blast
    then show ?r by (intro exI [of _ "day + off"]) auto
  qed
  then show ?thesis
    by (auto simp: expected_loads_between_def filter_empty_conv)
qed

lemma check_staleness_iff:
  "check_staleness now p r \<longleftrightarrow>
     (\<exists>text day. rd_max_date r = Watermark text day \<and> hp_date_column p \<noteq> [] \<and>
        day < day_of (now - hours (hp_expected_lag_hours p) - minutes (hp_grace_minutes p)) \<and>
        (hp_load_weekdays p = [] \<or>
           (\<exists>d. day < d \<and> d \<le> day_of now \<and> isoweekday d \<in> set (hp_load_weekdays p))))"
  by (cases "rd_max_date r") (auto simp: check_staleness_def no_loads_iff not_le)

lemma check_schema_iff:
  "fst (check_schema p reply s) \<noteq> [] \<longleftrightarrow>
     (\<exists>current. hp_watch_schema p \<and> reply = Schema_Entries current \<and>
        (\<exists>e\<in>set (st_last_schema s). e \<notin> set current))"
  by (cases reply) (auto simp: check_schema_def filter_empty_conv)

section \<open>Properties\<close>

lemma initial_streak: "streak [] (initial_state p)"
  by (simp add: streak_def initial_state_def new_probe_state_def)

text \<open>
  C28. No finding on a single odd reading: whatever a probe's scans meet, a scan that
  confirms a condition comes after at least \<open>confirmations\<close> consecutive readings, itself
  included, that were all judged to be that same condition; faults of the detector and
  parked scans in between count for nothing.
\<close>

theorem confirmation_needs_consecutive_readings:
  assumes "scan_step p x (run (scan_step p) xs (initial_state p)) = (f, s)" and "actionable f"
  shows "\<exists>pre n. judged_kinds (answers (scan_step p) xs (initial_state p) @ [f]) = pre @ replicate n (hf_kind f)
      \<and> 1 \<le> n \<and> hp_confirmations p \<le> int n \<and> hf_kind f \<noteq> []"
proof -
  let ?s = "run (scan_step p) xs (initial_state p)"
  have "streak (judged_kinds (answers (scan_step p) xs (initial_state p))) ?s"
    using streak_run [OF initial_streak] by simp
  from scan_step_streak [OF this, of p x] have st: "streak (judged_kinds (answers (scan_step p) xs (initial_state p) @ [f])) s"
    using assms(1) by (simp add: judged_kinds_def)
  from assms(1) have "scan_state (si_now x) p (si_reply x) (si_schema x) ?s = (f, s)"
    by (simp only: scan_step_def [of p x])
  then show ?thesis
  proof (cases rule: scan_state_cases)
    case (suspect k)
    from st obtain pre where "judged_kinds (answers (scan_step p) xs (initial_state p) @ [f]) = pre @ replicate (nat (st_suspect_count s)) k"
      using suspect by (auto simp: streak_def)
    moreover have "hp_confirmations p \<le> st_suspect_count s"
      using suspect assms(2) by (auto simp: actionable_def split: if_splits)
    moreover have "1 \<le> st_suspect_count s"
    proof -
      have "0 \<le> st_suspect_count ?s"
        using \<open>streak (judged_kinds (answers (scan_step p) xs (initial_state p))) ?s\<close> by (simp add: streak_def)
      with suspect show ?thesis by auto
    qed
    ultimately show ?thesis
      using suspect by (intro exI [of _ pre] exI [of _ "nat (st_suspect_count s)"]) auto
  qed (use assms(2) in \<open>auto simp: actionable_def\<close>)
qed

definition example_probe :: health_probe where
  "example_probe =
     \<lparr>hp_name = ''sales'', hp_workspace_id = ''w'', hp_dataset_id = ''d'', hp_report_name = [],
      hp_date_column = ''date'', hp_watch_schema = False, hp_expected_lag_hours = 24,
      hp_grace_minutes = DEFAULT_GRACE_MINUTES, hp_max_drop_fraction = DEFAULT_MAX_DROP_FRACTION,
      hp_min_absolute_drop = DEFAULT_MIN_ABSOLUTE_DROP, hp_confirmations = DEFAULT_CONFIRMATIONS,
      hp_max_consecutive_errors = DEFAULT_MAX_CONSECUTIVE_ERRORS,
      hp_circuit_cooldown_minutes = DEFAULT_CIRCUIT_COOLDOWN_MINUTES, hp_load_weekdays = []\<rparr>"

definition example_scan :: "int \<Rightarrow> int \<Rightarrow> scan_input" where
  "example_scan today mark =
     \<lparr>si_now = today * 86400000000, si_reply = Probe_Read \<lparr>rd_max_date = Watermark ''x'' mark,
        rd_row_count = Some 5000, rd_control_totals = []\<rparr>, si_schema = No_Schema_Reader\<rparr>"

lemma example_confirmed:
  "scan_step example_probe (example_scan 21 10)
     (run (scan_step example_probe) [example_scan 11 10, example_scan 20 10] (initial_state example_probe)) =
   (\<lparr>hf_probe = ''sales'', hf_status = Confirmed, hf_kind = ''stale'', hf_report_name = [],
     hf_workspace_id = ''w'', hf_dataset_id = ''d'', hf_observed = Some (''x'', Some 5000),
     hf_baseline = Some (''x'', Some 5000), hf_suspect_count = 2\<rparr>,
    snd (scan_step example_probe (example_scan 21 10)
     (run (scan_step example_probe) [example_scan 11 10, example_scan 20 10] (initial_state example_probe))))"
  by code_simp

theorem confirmation_needs_consecutive_readings_witness:
  "\<exists>pre n. judged_kinds (answers (scan_step example_probe) [example_scan 11 10, example_scan 20 10]
        (initial_state example_probe) @
      [fst (scan_step example_probe (example_scan 21 10)
        (run (scan_step example_probe) [example_scan 11 10, example_scan 20 10] (initial_state example_probe)))])
     = pre @ replicate n ''stale'' \<and> 2 \<le> n"
proof -
  from confirmation_needs_consecutive_readings [OF example_confirmed]
  obtain pre n where *: "judged_kinds (answers (scan_step example_probe) [example_scan 11 10, example_scan 20 10]
        (initial_state example_probe) @
      [\<lparr>hf_probe = ''sales'', hf_status = Confirmed, hf_kind = ''stale'', hf_report_name = [],
     hf_workspace_id = ''w'', hf_dataset_id = ''d'', hf_observed = Some (''x'', Some 5000),
     hf_baseline = Some (''x'', Some 5000), hf_suspect_count = 2\<rparr>]) = pre @ replicate n ''stale''"
    "hp_confirmations example_probe \<le> int n"
    by (auto simp: actionable_def)
  then show ?thesis
    unfolding arg_cong [OF example_confirmed, of fst, unfolded fst_conv]
    by (intro exI [of _ pre] exI [of _ n])
       (simp add: example_probe_def DEFAULT_CONFIRMATIONS_def)
qed

text \<open>
  Baselines learn from healthy readings only: over any scans none of which is found
  healthy, the newest date, the row count, the control totals and the time of the last
  healthy scan stay what they were, so a standing failure cannot become the new normal.
\<close>

lemma baseline_only_from_healthy:
  assumes "\<forall>f\<in>set (answers (scan_step p) xs s). hf_status f \<noteq> Healthy"
  shows "let s' = run (scan_step p) xs s
    in st_last_max_date s' = st_last_max_date s \<and> st_last_row_count s' = st_last_row_count s \<and>
       st_last_control_totals s' = st_last_control_totals s \<and> st_last_healthy_at s' = st_last_healthy_at s"
  using assms
proof (induction xs arbitrary: s)
  case Nil
  then show ?case by simp
next
  case (Cons x xs)
  obtain f s1 where r: "scan_step p x s = (f, s1)" by fastforce
  have "st_last_max_date s1 = st_last_max_date s \<and> st_last_row_count s1 = st_last_row_count s \<and>
       st_last_control_totals s1 = st_last_control_totals s \<and> st_last_healthy_at s1 = st_last_healthy_at s"
    using r [unfolded scan_step_def] Cons.prems r by (cases rule: scan_state_cases) auto
  with Cons.IH [of s1] Cons.prems r show ?case by (simp add: Let_def)
qed

lemma baseline_only_from_healthy_witness:
  "st_last_row_count (run (scan_step example_probe) [example_scan 20 10] (initial_state example_probe)) = None"
proof -
  have "\<forall>f\<in>set (answers (scan_step example_probe) [example_scan 20 10] (initial_state example_probe)).
      hf_status f \<noteq> Healthy"
    by code_simp
  from baseline_only_from_healthy [OF this] show ?thesis
    by (simp add: Let_def initial_state_def new_probe_state_def)
qed

text \<open>
  The circuit breaker: a probe with too many consecutive faults whose breaker opened
  less than the cooldown ago is parked without looking at the client's answer or moving
  the state; once the cooldown has passed exactly one attempt is let through, and if it
  fails too, the next scan opens the breaker again and, with a positive cooldown, parks.
\<close>

lemma breaker_parks_and_reopens:
  assumes "hp_max_consecutive_errors p \<le> st_consecutive_errors s"
    and "st_circuit_opened_at s = Aware_Stamp opened"
  shows "(now < opened + minutes (hp_circuit_cooldown_minutes p) \<longrightarrow>
       scan_state now p reply schema s = (bare_finding p Parked ''detector_fault'', s)) \<and>
    (opened + minutes (hp_circuit_cooldown_minutes p) \<le> now \<longrightarrow>
       scan_state now p (Probe_Failed e) schema s =
         record_fault p (s\<lparr>st_circuit_opened_at := No_Stamp\<rparr>) e \<and>
       (0 < hp_circuit_cooldown_minutes p \<longrightarrow>
          hf_status (fst (scan_state later p reply schema (snd (scan_state now p (Probe_Failed e) schema s)))) = Parked))"
proof (intro conjI impI)
  assume "now < opened + minutes (hp_circuit_cooldown_minutes p)"
  then show "scan_state now p reply schema s = (bare_finding p Parked ''detector_fault'', s)"
    using assms by (simp add: scan_state_def circuit_open_def)
next
  assume "opened + minutes (hp_circuit_cooldown_minutes p) \<le> now"
  then have failed: "scan_state now p (Probe_Failed e) schema s =
      record_fault p (s\<lparr>st_circuit_opened_at := No_Stamp\<rparr>) e"
    using assms by (simp add: scan_state_def circuit_open_def)
  then show "scan_state now p (Probe_Failed e) schema s =
      record_fault p (s\<lparr>st_circuit_opened_at := No_Stamp\<rparr>) e" .
  assume cool: "0 < hp_circuit_cooldown_minutes p"
  obtain s' where s': "s' = snd (record_fault p (s\<lparr>st_circuit_opened_at := No_Stamp\<rparr>) e)" by blast
  then have "hp_max_consecutive_errors p \<le> st_consecutive_errors s'" "st_circuit_opened_at s' = No_Stamp"
    using assms(1) by (simp_all add: record_fault_def)
  then have "hf_status (fst (scan_state later p reply schema s')) = Parked"
    using cool by (simp add: scan_state_def circuit_open_def minutes_def)
  then show "hf_status (fst (scan_state later p reply schema
      (snd (scan_state now p (Probe_Failed e) schema s)))) = Parked"
    by (simp only: failed s')
qed

lemma breaker_parks_and_reopens_witness:
  "scan_state 5 example_probe (Probe_Failed ''boom'') No_Schema_Reader
     ((initial_state example_probe)\<lparr>st_consecutive_errors := 12, st_circuit_opened_at := Aware_Stamp 0\<rparr>) =
   (bare_finding example_probe Parked ''detector_fault'',
    (initial_state example_probe)\<lparr>st_consecutive_errors := 12, st_circuit_opened_at := Aware_Stamp 0\<rparr>)"
  using breaker_parks_and_reopens [of example_probe
      "(initial_state example_probe)\<lparr>st_consecutive_errors := 12, st_circuit_opened_at := Aware_Stamp 0\<rparr>" 0 5
      "Probe_Failed ''boom''" No_Schema_Reader]
  by (simp add: example_probe_def DEFAULT_MAX_CONSECUTIVE_ERRORS_def DEFAULT_CIRCUIT_COOLDOWN_MINUTES_def minutes_def)

text \<open>
  A reading is judged exactly as configured: a collapse needs a positive baseline
  and a drop of at least both the absolute and the relative threshold; staleness needs
  a readable date older than the day of the deadline and, with a load calendar, an
  expected load day after it; a schema drift needs an object that has disappeared, never
  one that has appeared.
\<close>

lemma judgement_thresholds:
  "(check_row_count p s r \<longleftrightarrow>
      (\<exists>b c. st_last_row_count s = Some b \<and> rd_row_count r = Some c \<and> 0 < b \<and> c < b \<and>
         hp_min_absolute_drop p \<le> b - c \<and> hp_max_drop_fraction p * of_int b \<le> of_int (b - c))) \<and>
   (check_staleness now p r \<longleftrightarrow>
      (\<exists>text day. rd_max_date r = Watermark text day \<and> hp_date_column p \<noteq> [] \<and>
         day < day_of (now - hours (hp_expected_lag_hours p) - minutes (hp_grace_minutes p)) \<and>
         (hp_load_weekdays p = [] \<or>
            (\<exists>d. day < d \<and> d \<le> day_of now \<and> isoweekday d \<in> set (hp_load_weekdays p))))) \<and>
   (fst (check_schema p reply s) \<noteq> [] \<longleftrightarrow>
      (\<exists>current. hp_watch_schema p \<and> reply = Schema_Entries current \<and>
         (\<exists>e\<in>set (st_last_schema s). e \<notin> set current)))"
  by (intro conjI check_row_count_iff check_staleness_iff check_schema_iff)

definition weekday_probe :: health_probe where
  "weekday_probe = example_probe\<lparr>hp_load_weekdays := [1, 2, 3, 4, 5]\<rparr>"

text \<open>
  A weekday-only feed read on a Monday: with Friday's data, a lag of a day and the
  default grace, the calendar counts the Monday itself as a missed load and the scanner
  judges the model stale, although no load day had passed completely since the watermark.
\<close>

lemma weekday_feed_is_stale_on_monday:
  "isoweekday 20693 = 5 \<and> isoweekday 20696 = 1 \<and>
   judge (20696 * 86400000000 + hours 9) weekday_probe (initial_state weekday_probe)
     \<lparr>rd_max_date = Watermark ''2026-08-28'' 20693, rd_row_count = None, rd_control_totals = []\<rparr> = ''stale''"
  by code_simp

end
