(* ===== verification/DQ_Agent.thy ===== *)
theory DQ_Agent
  imports Silent_Failures
begin

text \<open>
  \<^verbatim>\<open>src/src/triage/agents/data_quality_agent.py\<close>: the consultation of the Data Quality
  agent. The registered tables are scanned first, every scan is charged on the ledger of
  the run, one model call may phrase the result, and the scan wins over what it says.
  \<open>loads\<close> is \<^verbatim>\<open>json.loads\<close> and \<open>repr\<close> Python's rendering of a list or an object; the
  confidence of a finding is left out.
\<close>

section \<open>JSON values as Python reads them\<close>

fun truthy :: "json \<Rightarrow> bool" where
  "truthy JNull = False"
| "truthy (JBool b) = b"
| "truthy (JInt i) = (i \<noteq> 0)"
| "truthy (JStr s) = (s \<noteq> [])"
| "truthy (JList vs) = (vs \<noteq> [])"
| "truthy (JObj kvs) = (kvs \<noteq> [])"

fun py_str :: "(json \<Rightarrow> string) \<Rightarrow> json \<Rightarrow> string" where
  "py_str repr JNull = ''None''"
| "py_str repr (JBool b) = (if b then ''True'' else ''False'')"
| "py_str repr (JInt i) = show_int i"
| "py_str repr (JStr s) = s"
| "py_str repr v = repr v"

definition get_value :: "(string, json) dict \<Rightarrow> string \<Rightarrow> json" where
  "get_value d k = (case map_of d k of None \<Rightarrow> JNull | Some v \<Rightarrow> v)"

text \<open>\<open>str(d.get(k) or "")\<close> and \<open>str(d.get(k, ""))\<close>.\<close>

definition text_or_empty :: "(json \<Rightarrow> string) \<Rightarrow> (string, json) dict \<Rightarrow> string \<Rightarrow> string" where
  "text_or_empty repr d k = (if truthy (get_value d k) then py_str repr (get_value d k) else [])"

definition text_of_arg :: "(json \<Rightarrow> string) \<Rightarrow> (string, json) dict \<Rightarrow> string \<Rightarrow> string" where
  "text_of_arg repr d k = (case map_of d k of None \<Rightarrow> [] | Some v \<Rightarrow> py_str repr v)"

fun find_sub :: "string \<Rightarrow> string \<Rightarrow> nat option" where
  "find_sub sub [] = (if sub = [] then Some 0 else None)"
| "find_sub sub (c # cs) =
     (if take (List.length sub) (c # cs) = sub then Some 0 else map_option Suc (find_sub sub cs))"

definition fence :: string where
  "fence = [CHR 0x60, CHR 0x60, CHR 0x60]"

definition unfenced :: "string \<Rightarrow> string" where
  "unfenced content =
     (let s = py_strip content
      in if take 3 s = fence
         then let body = (case find_sub fence (drop 3 s) of
                            Some j \<Rightarrow> take j (drop 3 s)
                          | None \<Rightarrow> strip_chars [CHR 0x60] s)
              in py_strip (if take 4 body = ''json'' then drop 4 body else body)
         else s)"

definition object_of :: "json option \<Rightarrow> (string, json) dict" where
  "object_of v = (case v of Some (JObj d) \<Rightarrow> d | _ \<Rightarrow> [])"

definition parse_json_object :: "(string \<Rightarrow> json option) \<Rightarrow> string \<Rightarrow> (string, json) dict" where
  "parse_json_object loads content =
     (let s = unfenced content
      in case loads s of
           Some v \<Rightarrow> object_of (Some v)
         | None \<Rightarrow>
             (case (find_sub ''{'' s, find_sub ''}'' (List.rev s)) of
                (Some i, Some j) \<Rightarrow>
                  let last = List.length s - 1 - j
                  in if i < last then object_of (loads (take (Suc last - i) (drop i s))) else []
              | _ \<Rightarrow> []))"

section \<open>The scan\<close>

datatype table_file = No_File | Unreadable_File | Csv_Rows "table_row list"

record dataset_source =
  so_name :: string
  so_path :: string
  so_key_columns :: "string list"
  so_file :: table_file

record scans =
  sn_evidences :: "duplicate_evidence list"
  sn_errors :: "string list"
  sn_scanned :: "string list"

datatype dq_stop = Dq_Violation violation | Dq_Scan_Failed | Dq_Provider_Failed

definition SAMPLE_LIMIT :: nat where
  "SAMPLE_LIMIT = 5"

definition scan_source :: "dataset_source \<Rightarrow> scans \<Rightarrow> scans option" where
  "scan_source s acc =
     (case so_file s of
        No_File \<Rightarrow> Some (acc\<lparr>sn_errors := sn_errors acc @ [so_name s @ '': no file at '' @ so_path s]\<rparr>)
      | Unreadable_File \<Rightarrow> None
      | Csv_Rows rows \<Rightarrow>
          Some (acc\<lparr>sn_evidences := sn_evidences acc
                      @ [detect_duplicates rows (so_key_columns s) (so_name s) SAMPLE_LIMIT],
                    sn_scanned := sn_scanned acc @ [so_name s]\<rparr>))"

text \<open>\<open>clock i\<close> is the time at which the scan of the \<open>i\<close>-th table is charged.\<close>

fun scan_sources :: "(nat \<Rightarrow> instant) \<Rightarrow> nat \<Rightarrow> dataset_source list \<Rightarrow> scans \<Rightarrow> ledger \<Rightarrow>
    (dq_stop + scans) \<times> ledger" where
  "scan_sources clock i [] acc l = (Inr acc, l)"
| "scan_sources clock i (s # ss) acc l =
     (case scan_source s acc of
        None \<Rightarrow> (Inl Dq_Scan_Failed, l)
      | Some acc' \<Rightarrow>
          (case charge_tool_call (clock i) Check_Duplicates False l of
             (Inl v, l') \<Rightarrow> (Inl (Dq_Violation v), l')
           | (Inr _, l') \<Rightarrow> scan_sources clock (Suc i) ss acc' l'))"

text \<open>The first evidence of duplicates, else the first evidence.\<close>

definition announced :: "duplicate_evidence list \<Rightarrow> duplicate_evidence option" where
  "announced es =
     (case find (\<lambda>e. 0 < de_row_count e) es of
        Some e \<Rightarrow> Some e
      | None \<Rightarrow> (case es of [] \<Rightarrow> None | e # _ \<Rightarrow> Some e))"

section \<open>The finding\<close>

definition evidence_headline :: "duplicate_evidence \<Rightarrow> string" where
  "evidence_headline e =
     (let keys = str_or (join_with '', '' (de_key_columns e)) ''no key''
      in if de_row_count e = 0
         then ''No duplicate keys in '' @ de_table e @ '' ('' @ show_int (int (de_total e)) @
              '' rows scanned on ('' @ keys @ ''))''
         else ''Table '' @ de_table e @ '' contains '' @ show_int (int (de_row_count e)) @
              '' duplicate rows across '' @ show_int (int (de_group_count e)) @ '' key groups on ('' @ keys @ '')'')"

definition advice_of :: "json \<Rightarrow> dq_advice option" where
  "advice_of v =
     (if v = JStr ''flag_and_notify'' then Some Flag_And_Notify
      else if v = JStr ''no_action'' then Some No_Action
      else if v = JStr ''escalate'' then Some Escalate else None)"

definition or_advice :: "dq_advice option \<Rightarrow> dq_advice \<Rightarrow> dq_advice" where
  "or_advice a d = (case a of None \<Rightarrow> d | Some x \<Rightarrow> x)"

definition AGENT_NAME :: string where
  "AGENT_NAME = ''DataQualityAgent''"

definition reconcile :: "(json \<Rightarrow> string) \<Rightarrow> (string, json) dict \<Rightarrow> duplicate_evidence option \<Rightarrow>
    string list \<Rightarrow> dq_finding" where
  "reconcile repr payload evidence checked =
     (let detail = py_strip (text_or_empty repr payload ''detail'');
          recommended = advice_of (get_value payload ''recommended_action'');
          claimed = get_value payload ''has_issue''
      in case evidence of
           None \<Rightarrow>
             \<lparr>dq_has_issue = truthy claimed, dq_issue_type = Unknown_Issue,
              dq_detail = str_or detail ''No deterministic scan was completed.'', dq_evidence = None,
              dq_checked_tables = checked, dq_recommended = or_advice recommended Escalate,
              dq_agent_name = AGENT_NAME\<rparr>
         | Some e \<Rightarrow>
             if 0 < de_row_count e
             then let contradicted = (claimed = JBool False)
                  in \<lparr>dq_has_issue = True, dq_issue_type = Duplicates,
                      dq_detail = (if contradicted then evidence_headline e
                                   else str_or detail (evidence_headline e)),
                      dq_evidence = Some e, dq_checked_tables = checked,
                      dq_recommended = (if contradicted then Flag_And_Notify
                                        else or_advice recommended Flag_And_Notify),
                      dq_agent_name = AGENT_NAME\<rparr>
             else let contradicted = (claimed = JBool True);
                      clean = ''No duplicate keys found in '' @ de_table e @ ''.''
                  in \<lparr>dq_has_issue = False, dq_issue_type = No_Issue,
                      dq_detail = (if contradicted then clean else str_or detail clean),
                      dq_evidence = Some e, dq_checked_tables = checked,
                      dq_recommended = No_Action, dq_agent_name = AGENT_NAME\<rparr>)"

definition unscanned :: "string \<Rightarrow> string list \<Rightarrow> dq_advice \<Rightarrow> dq_finding" where
  "unscanned detail checked advice =
     \<lparr>dq_has_issue = False, dq_issue_type = Unknown_Issue, dq_detail = detail, dq_evidence = None,
      dq_checked_tables = checked, dq_recommended = advice, dq_agent_name = AGENT_NAME\<rparr>"

text \<open>
  \<open>provider\<close> is the model's answer, its text and its tokens, or absent when the call
  raised; \<open>later\<close> is the time of the model turn.
\<close>

definition investigate :: "(string \<Rightarrow> json option) \<Rightarrow> (json \<Rightarrow> string) \<Rightarrow> (nat \<Rightarrow> instant) \<Rightarrow> instant \<Rightarrow>
    (string \<times> int) option \<Rightarrow> dataset_source list \<Rightarrow> ledger \<Rightarrow> (dq_stop + dq_finding) \<times> ledger" where
  "investigate loads repr clock later provider sources l =
     (if sources = [] then (Inr (unscanned ''No tables are registered for inspection.'' [] No_Action), l)
      else case scan_sources clock 0 sources \<lparr>sn_evidences = [], sn_errors = [], sn_scanned = []\<rparr> l of
             (Inl e, l1) \<Rightarrow> (Inl e, l1)
           | (Inr acc, l1) \<Rightarrow>
               (case announced (sn_evidences acc) of
                  None \<Rightarrow> (Inr (unscanned (''Deterministic scan could not run: ''
                             @ join_with ''; '' (sn_errors acc)) (sn_scanned acc) Escalate), l1)
                | Some e \<Rightarrow>
                    (case charge_llm_turn later l1 of
                       (Inl v, l2) \<Rightarrow> (Inl (Dq_Violation v), l2)
                     | (Inr _, l2) \<Rightarrow>
                         (case provider of
                            None \<Rightarrow> (Inl Dq_Provider_Failed, l2)
                          | Some (content, tokens) \<Rightarrow>
                              (case charge_tokens tokens l2 of
                                 (Inl v, l3) \<Rightarrow> (Inl (Dq_Violation v), l3)
                               | (Inr _, l3) \<Rightarrow>
                                   (Inr (reconcile repr (parse_json_object loads content) (Some e)
                                           (sn_scanned acc)), l3))))))"

section \<open>What a scan finds\<close>

definition duplicated :: "dataset_source \<Rightarrow> bool" where
  "duplicated s \<longleftrightarrow>
     (case so_file s of
        Csv_Rows rows \<Rightarrow> so_key_columns s \<noteq> [] \<and> \<not> distinct (map (row_keys (so_key_columns s)) rows)
      | _ \<Rightarrow> False)"

definition readable_source :: "dataset_source \<Rightarrow> bool" where
  "readable_source s \<longleftrightarrow> (case so_file s of Csv_Rows _ \<Rightarrow> True | _ \<Rightarrow> False)"

definition evidence_of :: "dataset_source \<Rightarrow> duplicate_evidence" where
  "evidence_of s = detect_duplicates (case so_file s of Csv_Rows rows \<Rightarrow> rows | _ \<Rightarrow> [])
     (so_key_columns s) (so_name s) SAMPLE_LIMIT"

lemma no_duplicates:
  "de_row_count (detect_duplicates rows cols table n) = 0 \<longleftrightarrow>
     cols = [] \<or> distinct (map (row_keys cols) rows)"
proof (cases "cols = []")
  case False
  let ?ks = "map (row_keys cols) rows"
  have "de_row_count (detect_duplicates rows cols table n) = 0 \<longleftrightarrow>
      (\<forall>(k, c)\<in>set (group_counts ?ks). \<not> 1 < c)"
    using False by (fastforce simp: detect_duplicates_def Let_def sum_list_eq_0_iff)
  also have "\<dots> \<longleftrightarrow> (\<forall>k\<in>set ?ks. count_list ?ks k \<le> 1)"
    by (auto simp: group_counts_set not_less)
  also have "\<dots> \<longleftrightarrow> distinct ?ks"
    by (metis count_list_0_iff count_notin distinct_count_atmost_1 count_mset less_one linorder_not_less nle_le)
  finally show ?thesis using False by simp
qed (simp add: detect_duplicates_def)


lemma charge_scan [simp]:
  assumes "charge_tool_call now Check_Duplicates d l = (r, l')"
  shows "write_actions l' = write_actions l" "policy l' = policy l"
    "tool_calls l' = tool_calls l + (case r of Inl _ \<Rightarrow> 0 | Inr _ \<Rightarrow> 1)"
  using assms by (auto simp: charge_defs taxonomy_defs split: if_splits)

lemma scan_sources_found:
  assumes "scan_sources clock i sources acc l = (Inr acc', l')"
  shows "sn_evidences acc' = sn_evidences acc @ map evidence_of (filter readable_source sources)"
    "sn_scanned acc' = sn_scanned acc @ map so_name (filter readable_source sources)"
    "tool_calls l' = tool_calls l + int (List.length sources)"
    "write_actions l' = write_actions l" "policy l' = policy l"
  using assms
proof (induction sources arbitrary: i acc l)
  case (Cons s ss)
  {
    case 1
    then show ?case using Cons.IH(1) by (auto simp: scan_source_def readable_source_def evidence_of_def
          split: table_file.splits prod.splits sum.splits)
  next
    case 2
    then show ?case using Cons.IH(2) by (auto simp: scan_source_def readable_source_def
          split: table_file.splits prod.splits sum.splits)
  next
    case 3
    then show ?case using Cons.IH(3) by (fastforce split: option.splits prod.splits sum.splits)
  next
    case 4
    then show ?case using Cons.IH(4) by (fastforce split: option.splits prod.splits sum.splits)
  next
    case 5
    then show ?case using Cons.IH(5) by (fastforce split: option.splits prod.splits sum.splits)
  }
qed simp_all

lemma evidence_of_count: "0 < de_row_count (evidence_of s) \<longleftrightarrow> duplicated s" if "readable_source s"
  using that no_duplicates [of _ "so_key_columns s" "so_name s" SAMPLE_LIMIT]
  by (auto simp: evidence_of_def duplicated_def readable_source_def zero_less_iff_neq_zero split: table_file.splits)

lemma announced_found:
  assumes "announced es = Some e"
  shows "e \<in> set es \<and> (0 < de_row_count e \<longleftrightarrow> (\<exists>e'\<in>set es. 0 < de_row_count e'))"
proof (cases "find (\<lambda>e. 0 < de_row_count e) es")
  case None
  then have no: "\<not> (\<exists>e'\<in>set es. 0 < de_row_count e')" by (simp add: find_None_iff)
  from None assms have "e \<in> set es" by (cases es) (simp_all add: announced_def)
  with no show ?thesis by auto
next
  case (Some x)
  with assms have "x = e" by (simp add: announced_def)
  with Some have "0 < de_row_count e" "e \<in> set es" by (auto simp: find_Some_iff)
  then show ?thesis by auto
qed

lemma announced_nil [simp]: "announced [] = None"
  by (simp add: announced_def)

lemma announced_none: "announced es = None \<longleftrightarrow> es = []"
  by (cases es) (simp_all add: announced_def split: option.splits)

lemma reconcile_issue:
  "dq_has_issue (reconcile repr payload (Some e) checked) \<longleftrightarrow> 0 < de_row_count e"
  "dq_evidence (reconcile repr payload (Some e) checked) = Some e"
  "dq_checked_tables (reconcile repr payload (Some e) checked) = checked"
  by (auto simp: reconcile_def Let_def)

lemma duplicated_readable: "duplicated s \<Longrightarrow> readable_source s"
  by (auto simp: duplicated_def readable_source_def split: table_file.splits)

text \<open>How a consultation that returns ends.\<close>

lemma investigate_cases:
  assumes "investigate loads repr clock later provider sources l = (Inr f, l')"
  obtains (none) "filter readable_source sources = []" "\<not> dq_has_issue f" "dq_checked_tables f = []"
      "dq_evidence f = None" "tool_calls l' = tool_calls l + int (List.length sources)"
    | (scanned) e payload where "announced (map evidence_of (filter readable_source sources)) = Some e"
      "f = reconcile repr payload (Some e) (map so_name (filter readable_source sources))"
      "tool_calls l' = tool_calls l + int (List.length sources)"
proof (cases "sources = []")
  case True
  with assms show thesis by (intro none) (auto simp: investigate_def unscanned_def)
next
  case False
  obtain r l1 where s: "scan_sources clock 0 sources \<lparr>sn_evidences = [], sn_errors = [], sn_scanned = []\<rparr> l = (r, l1)"
    by fastforce
  with assms False obtain acc where r: "r = Inr acc" by (cases r) (auto simp: investigate_def)
  note found = scan_sources_found [OF s [unfolded r], simplified]
  show thesis
  proof (cases "announced (sn_evidences acc)")
    case None
    then have no: "filter readable_source sources = []" using found by (simp add: announced_none)
    then have empty: "sn_scanned acc = []" using found(2) by simp
    have "f = unscanned (''Deterministic scan could not run: '' @ join_with ''; '' (sn_errors acc)) [] Escalate
        \<and> l' = l1"
      using assms False s r None empty by (simp add: investigate_def)
    then show thesis using no found(3) by (intro none) (simp_all add: unscanned_def)
  next
    case (Some e)
    obtain content tokens where p: "provider = Some (content, tokens)"
      using assms False s r Some
      by (auto simp: investigate_def split: prod.splits sum.splits option.splits)
    show thesis
    proof (rule scanned [of e])
      show "announced (map evidence_of (filter readable_source sources)) = Some e"
        using Some found by simp
      show "f = reconcile repr (parse_json_object loads content) (Some e) (map so_name (filter readable_source sources))"
        using assms False s r Some found p
        by (auto simp: investigate_def split: prod.splits sum.splits)
      show "tool_calls l' = tool_calls l + int (List.length sources)"
        using assms False s r Some found p
        by (auto simp: investigate_def charge_llm_turn_def check_deadline_def charge_tokens_def Let_def
              split: prod.splits sum.splits if_splits)
    qed
  qed
qed

text \<open>A consultation spends tool calls, turns and tokens of the run, never a write.\<close>

definition no_write :: "ledger \<Rightarrow> ledger \<Rightarrow> bool" where
  "no_write l l' \<longleftrightarrow> write_actions l' = write_actions l \<and> policy l' = policy l \<and>
     llm_turns l \<le> llm_turns l' \<and> blocked_attempts l' = blocked_attempts l \<and>
     denied_actions l' = denied_actions l"

lemma no_write_trans: "no_write l l1 \<Longrightarrow> no_write l1 l2 \<Longrightarrow> no_write l l2"
  by (simp add: no_write_def)

lemma charge_no_write:
  "charge_tool_call now Check_Duplicates d l = (r, l') \<Longrightarrow>
     write_actions l' = write_actions l \<and> policy l' = policy l \<and> llm_turns l \<le> llm_turns l'"
  unfolding charge_tool_call_def check_deadline_def assert_action_allowed_def charge_write_def Let_def
  by (simp add: taxonomy_defs split: if_splits) auto

lemma turn_no_write: "charge_llm_turn now l = (r, l') \<Longrightarrow> no_write l l'"
  unfolding charge_llm_turn_def check_deadline_def no_write_def by (simp split: if_splits) auto

lemma tokens_no_write: "charge_tokens n l = (r, l') \<Longrightarrow> no_write l l'"
  unfolding charge_tokens_def no_write_def Let_def by (simp split: if_splits) auto

lemma scan_no_write:
  "scan_sources clock i sources acc l = (r, l') \<Longrightarrow>
     write_actions l' = write_actions l \<and> policy l' = policy l \<and> llm_turns l \<le> llm_turns l'"
proof (induction sources arbitrary: i acc l)
  case (Cons s ss)
  obtain q l1 where c: "charge_tool_call (clock i) Check_Duplicates False l = (q, l1)" by fastforce
  show ?case
  proof (cases "scan_source s acc")
    case None
    with Cons.prems show ?thesis by simp
  next
    case (Some acc')
    with Cons.prems Cons.IH [of "Suc i" acc' l1] charge_no_write [OF c] show ?thesis
      by (cases q) (simp_all add: c)
  qed
qed simp

lemma investigate_no_write:
  assumes "investigate loads repr clock later provider sources l = (r, l')"
  shows "write_actions l' = write_actions l \<and> policy l' = policy l \<and> llm_turns l \<le> llm_turns l'"
proof -
  obtain q l1 where s: "scan_sources clock 0 sources \<lparr>sn_evidences = [], sn_errors = [], sn_scanned = []\<rparr> l = (q, l1)"
    by fastforce
  obtain q2 l2 where t: "charge_llm_turn later l1 = (q2, l2)" by fastforce
  have k: "write_actions l3 = write_actions l2 \<and> policy l3 = policy l2 \<and> llm_turns l2 \<le> llm_turns l3"
    if "charge_tokens n l2 = (q3, l3)" for n q3 l3
    using tokens_no_write [OF that] by (simp add: no_write_def)
  note steps = scan_no_write [OF s] turn_no_write [OF t, unfolded no_write_def]
  show ?thesis
  proof (cases "sources = []")
    case False
    show ?thesis
    proof (cases q)
      case (Inr acc)
      show ?thesis
      proof (cases "announced (sn_evidences acc)")
        case (Some e)
        show ?thesis
        proof (cases q2)
          case (Inr u)
          show ?thesis
          proof (cases provider)
            case (Some ct)
            obtain q3 l3 where c: "charge_tokens (snd ct) l2 = (q3, l3)" by fastforce
            with k [OF c] steps assms False \<open>q = Inr acc\<close> \<open>announced (sn_evidences acc) = Some e\<close> Inr Some
            show ?thesis by (cases ct; cases q3) (simp_all add: investigate_def s t)
          qed (use assms False \<open>q = Inr acc\<close> \<open>announced (sn_evidences acc) = Some e\<close> Inr steps in
              \<open>simp add: investigate_def s t\<close>)
        qed (use assms False \<open>q = Inr acc\<close> \<open>announced (sn_evidences acc) = Some e\<close> steps in
            \<open>simp add: investigate_def s t\<close>)
      qed (use assms False \<open>q = Inr acc\<close> steps in \<open>simp add: investigate_def s\<close>)
    qed (use assms False steps in \<open>simp add: investigate_def s\<close>)
  qed (use assms in \<open>simp add: investigate_def\<close>)
qed

section \<open>Property\<close>

text \<open>
  C27. The scan decides, not the model: whatever the model answers, a consultation that
  returns reports an issue exactly when some registered table that could be read has two
  rows with the same key, its evidence is then of such a table and counts at least one
  duplicate, it lists exactly the tables that were read, and every registered table was
  charged on the run's ledger.
\<close>

theorem scan_overrides_model:
  assumes "investigate loads repr clock later provider sources l = (Inr f, l')"
  shows "(dq_has_issue f \<longleftrightarrow> (\<exists>s\<in>set sources. duplicated s)) \<and>
    (dq_has_issue f \<longrightarrow> (\<exists>s\<in>set sources. duplicated s \<and> dq_evidence f = Some (evidence_of s) \<and>
        0 < de_row_count (evidence_of s))) \<and>
    dq_checked_tables f = map so_name (filter readable_source sources) \<and>
    tool_calls l' = tool_calls l + int (List.length sources)"
  using assms
proof (cases rule: investigate_cases)
  case none
  then show ?thesis by (auto simp: filter_empty_conv dest: duplicated_readable)
next
  case (scanned e payload)
  from announced_found [OF scanned(1)] obtain s where s: "s \<in> set sources" "readable_source s" "e = evidence_of s"
    and all: "0 < de_row_count e \<longleftrightarrow> (\<exists>s\<in>set sources. readable_source s \<and> 0 < de_row_count (evidence_of s))"
    by auto
  then have "0 < de_row_count e \<longleftrightarrow> (\<exists>s\<in>set sources. duplicated s)"
    by (metis duplicated_readable evidence_of_count)
  then show ?thesis
    using s scanned evidence_of_count [OF s(2)] by (auto simp: reconcile_issue)
qed

definition clean_source :: dataset_source where
  "clean_source = \<lparr>so_name = ''regions'', so_path = ''r.csv'', so_key_columns = [''id''],
     so_file = Csv_Rows [[(''id'', ''1'')]]\<rparr>"

definition dirty_source :: dataset_source where
  "dirty_source = \<lparr>so_name = ''orders'', so_path = ''o.csv'', so_key_columns = [''id''],
     so_file = Csv_Rows example_rows\<rparr>"

theorem scan_overrides_model_witness:
  "\<exists>f l'. investigate (\<lambda>_. Some (JObj [(''has_issue'', JBool False)])) dumps (\<lambda>_. 0) 0
       (Some (''{}'', 7)) [clean_source, dirty_source] (new_ledger default_policy 0) = (Inr f, l') \<and>
     dq_has_issue f \<and> dq_checked_tables f = [''regions'', ''orders'']"
proof -
  let ?go = "investigate (\<lambda>_. Some (JObj [(''has_issue'', JBool False)])) dumps (\<lambda>_. 0) 0
       (Some (''{}'', 7)) [clean_source, dirty_source] (new_ledger default_policy 0)"
  have "\<not> isl (fst ?go)" by code_simp
  then obtain f l' where go: "?go = (Inr f, l')" by (metis prod.collapse sum.collapse(2))
  have "duplicated dirty_source" "readable_source clean_source" "readable_source dirty_source"
    by code_simp+
  with scan_overrides_model [OF go] go show ?thesis
    by (auto simp: clean_source_def dirty_source_def)
qed

end
