(* ===== verification/Dispatcher.thy ===== *)
theory Dispatcher
  imports DQ_Agent "HOL-Library.Sublist"
begin

text \<open>
  \<^verbatim>\<open>src/src/triage/tools/registry.py\<close>: the dispatcher through which the agent acts. A
  dispatch charges the ledger, checks the arguments and the preconditions, asks a human
  where one must agree, checks again, reserves, consumes the approval, charges the write
  and only then calls the service. What the outside answers during one dispatch is a
  record of replies; the monitoring execution that a deployed run carries is among them.
  Calls that change something outside are collected as \<open>effect\<close>s.
\<close>

section \<open>Replies of the outside\<close>

text \<open>
  A call answers or raises; \<open>Raised True\<close> is one of the exceptions that the dispatcher
  passes on (policy violations, failures of the shared stores).
\<close>

datatype 'a reply = Answered 'a | Raised bool string

record refresh_outcome =
  fo_status :: string
  fo_request_id :: string
  fo_duration_ms :: int
  fo_detail :: string

definition refresh_succeeded :: "refresh_outcome \<Rightarrow> bool" where
  "refresh_succeeded r \<longleftrightarrow> fo_status r = ''Completed''"

datatype remediation = Refresh_Result refresh_outcome | Rerun_Result rerun_outcome

fun remediation_succeeded :: "remediation \<Rightarrow> bool" where
  "remediation_succeeded (Refresh_Result r) = refresh_succeeded r"
| "remediation_succeeded (Rerun_Result r) = rerun_succeeded r"

record notice =
  nt_title :: string
  nt_report_name :: string
  nt_error :: string
  nt_action_taken :: string
  nt_outcome :: string
  nt_timestamp :: string
  nt_detail :: string
  nt_facts :: "(string, string) dict"

text \<open>
  What the monitoring execution says at a precondition: the work is owned and the target
  admitted and rechecked (and whether the work is a deferred retry), or why it is not.
\<close>

datatype admission = Admitted bool | Admission_Conflict string | Observation_Only | Admission_Raised string

record check_view =
  cv_admission :: admission
  cv_now :: instant
  cv_client :: pipeline_client
  cv_history :: "refresh_entry list reply"
  cv_observe_raises :: "string option"

datatype defer_view = Defer_Raised string | Defer_Observation | Defer_Fenced
  | Defer_Allowed "(source_execution \<times> int option) option"

record monitor_view =
  mo_fixture :: bool
  mo_clock :: instant
  mo_request :: "approval_request \<Rightarrow> string + approval_request"
  mo_open_raises :: "string option"
  mo_decide_raises :: "string option"
  mo_reference_raises :: "string option"
  mo_reserve :: "string + bool \<times> string"
  mo_pipeline :: "pipeline_target \<Rightarrow> rerun_outcome"
  mo_retry_work :: "string option"
  mo_defer :: defer_view
  mo_schedule_raises :: "string option"

record dq_view =
  dv_loads :: "string \<Rightarrow> json option"
  dv_clock :: "nat \<Rightarrow> instant"
  dv_later :: instant
  dv_provider :: "(string \<times> int) option"

section \<open>Refusals and results\<close>

datatype block_reason =
    Policy_Refusal violation
  | Bad_Justification
  | Missing_Gateway
  | Budget_Exhausted int
  | Target_Observation_Only
  | Admission_Refused string
  | Needs_Admission
  | Known_Incident
  | No_Pipeline_Failure
  | Evidence_Not_Read
  | Rerun_Not_Possible rerun_refusal
  | Prerequisites_Unverified
  | Retry_Already_Scheduled
  | History_Unreadable string
  | No_History
  | Last_Refresh_Not_Completed string
  | Reservation_Refused string
  | Already_Reserved

datatype guidance = May_Continue int "action set" | Must_Escalate

datatype tool_fault = Raised_By string | Pipeline_Fault rerun_fault | Retry_Fault store_error

datatype tool_reply =
    Blocked_Reply block_reason "guidance option"
  | Approval_Unavailable
  | Not_Approved verdict string remark
  | Approval_Used
  | Tool_Error tool_fault
  | Context_Reply bool bi_request string string string
  | Evidence_Reply pipeline_evidence string "rerun_refusal option"
  | Rerun_Reply pipeline_reply
  | Incidents_Reply "incident option" string
  | History_Reply "refresh_entry list" deactivation_risk
  | Dq_Unavailable
  | Dq_Reply dq_finding
  | Refresh_Reply refresh_outcome "string option"
  | No_Gateway_Given
  | Gateway_Reply string refresh_outcome
  | No_Duplicate_Evidence
  | Nothing_To_Flag string
  | Flag_Written dq_flag
  | Notice_Suppressed string int
  | Notice_Reply bool
  | Schedule_Reply "bool option"
  | Schedule_Enabled refresh_outcome
  | No_Retry_Store
  | Retry_Observation_Only
  | Retry_Fenced
  | Retry_Reply retry_row
  | Recorded
  | Unknown_Tool

text \<open>The ways a dispatch does not return: a violation, another exception, an endless wait.\<close>

datatype stop = Violated violation | Crashed string | Endless

section \<open>The gates\<close>

datatype gate_kind = Approves string | Denies string string | Times_Out | Asks_Teams

datatype gate = Base_Gate gate_kind "string set" | Web_Gate "(string, approval_request) dict"

fun gate_ask :: "gate_world \<Rightarrow> instant \<Rightarrow> gate \<Rightarrow> approval_request \<Rightarrow> (approval_decision \<times> gate) option" where
  "gate_ask gw now (Base_Gate (Approves who) used) rq =
     Some (fst (auto_approve (gw_digest gw) (gw_decision_id gw) now who rq []), Base_Gate (Approves who) used)"
| "gate_ask gw now (Base_Gate (Denies who why) used) rq =
     Some (fst (auto_deny (gw_digest gw) (gw_decision_id gw) now who why rq []), Base_Gate (Denies who why) used)"
| "gate_ask gw now (Base_Gate Times_Out used) rq =
     Some (fst (timeout_gate (gw_digest gw) (gw_decision_id gw) now rq []), Base_Gate Times_Out used)"
| "gate_ask gw now (Base_Gate Asks_Teams used) rq =
     map_option (\<lambda>d. (d, Base_Gate Asks_Teams used)) (teams_request_approval gw rq)"
| "gate_ask gw now (Web_Gate known) rq =
     map_option (\<lambda>(d, known'). (d, Web_Gate known')) (web_request_approval gw rq known)"

fun gate_take :: "(string \<Rightarrow> string) \<Rightarrow> instant \<Rightarrow> (string \<Rightarrow> string \<Rightarrow> bool option) \<Rightarrow> approval_decision \<Rightarrow>
    gate \<Rightarrow> bool \<times> gate" where
  "gate_take digest now store d (Base_Gate k used) = apsnd (Base_Gate k) (gate_consume d used)"
| "gate_take digest now store d (Web_Gate known) = apsnd Web_Gate (web_consume digest now store d known)"

fun scripted :: "gate \<Rightarrow> bool" where
  "scripted (Base_Gate (Approves _) _) = True"
| "scripted (Base_Gate (Denies _ _) _) = True"
| "scripted _ = False"

section \<open>Context and state\<close>

record tool_context =
  cx_request :: bi_request
  cx_ledger :: ledger
  cx_mock_client :: "bool option"
  cx_datasets :: "dataset_source list"
  cx_dq_agent :: bool
  cx_known :: "incident option"
  cx_signature :: string
  cx_dq_finding :: "dq_finding option"
  cx_remediation :: "remediation option"
  cx_resolution :: "(string, json) dict option"
  cx_notifications :: "notice list"
  cx_flag_written :: bool
  cx_attempted :: bool
  cx_delivered :: bool
  cx_suppressed :: bool
  cx_workspace_id :: string
  cx_dataset_id :: string
  cx_schedule_enabled :: "bool option"
  cx_gate :: "gate option"
  cx_has_retries :: bool
  cx_pipeline :: "pipeline_context option"
  cx_run_id :: string
  cx_retry_deferred :: bool
  cx_approval_timeout :: int
  cx_approvals :: "approval_record list"
  cx_gateway_rebound_to :: string
  cx_deactivation_risk :: "deactivation_risk option"
  cx_monitored :: bool
  cx_pending :: "(approval_request \<times> approval_decision) option"

datatype effect =
    Client_Called action
  | Flag_Appended dq_flag
  | Card_Posted notice
  | Acknowledged approval_record
  | Retry_Stored retry_row
  | Consent_Spent approval_request approval_decision
  | Reserved_By_Monitoring action

record dispatcher =
  ds_ctx :: tool_context
  ds_actions :: "triage_action list"
  ds_reruns :: rerun_rows
  ds_retries :: "unit retry_store"
  ds_effects :: "effect list"

record dispatch_world =
  dw_sha :: "string \<Rightarrow> string"
  dw_redact :: "string \<Rightarrow> string"
  dw_repr :: "json \<Rightarrow> string"
  dw_render :: "tool_reply \<Rightarrow> string"
  dw_retry_allowed :: "string \<Rightarrow> string option \<Rightarrow> bool"
  dw_now :: instant
  dw_duration_ms :: int
  dw_first :: check_view
  dw_second :: check_view
  dw_gate :: gate_world
  dw_asked_at :: instant
  dw_answered_at :: instant
  dw_consumed_at :: instant
  dw_why :: "validity \<Rightarrow> string"
  dw_web_store :: "string \<Rightarrow> string \<Rightarrow> bool option"
  dw_monitor :: monitor_view
  dw_reserve_ok :: bool
  dw_update_ok :: bool
  dw_refresh :: "refresh_outcome reply"
  dw_rebind :: "refresh_outcome reply"
  dw_enable :: "refresh_outcome reply"
  dw_history :: "int \<Rightarrow> refresh_entry list reply"
  dw_schedule :: "bool option reply"
  dw_post :: "bool reply"
  dw_flag :: "dq_flag \<Rightarrow> dq_flag reply"
  dw_flagged_at :: string
  dw_dq :: dq_view
  dw_retry_hook :: "unit retry_hook"

type_synonym 'a step = "(stop + 'a) \<times> dispatcher"

definition on_ctx :: "(tool_context \<Rightarrow> tool_context) \<Rightarrow> dispatcher \<Rightarrow> dispatcher" where
  "on_ctx f s = s\<lparr>ds_ctx := f (ds_ctx s)\<rparr>"

definition on_ledger :: "(ledger \<Rightarrow> ledger) \<Rightarrow> dispatcher \<Rightarrow> dispatcher" where
  "on_ledger f s = on_ctx (\<lambda>c. c\<lparr>cx_ledger := f (cx_ledger c)\<rparr>) s"

definition ledger_of :: "dispatcher \<Rightarrow> ledger" where
  "ledger_of s = cx_ledger (ds_ctx s)"

definition emit :: "effect \<Rightarrow> dispatcher \<Rightarrow> dispatcher" where
  "emit e s = s\<lparr>ds_effects := ds_effects s @ [e]\<rparr>"

text \<open>\<open>ToolDispatcher.__init__\<close> hands the monitoring execution on to the pipeline context.\<close>

definition new_dispatcher :: "tool_context \<Rightarrow> rerun_rows \<Rightarrow> unit retry_store \<Rightarrow> dispatcher" where
  "new_dispatcher c reruns retries =
     \<lparr>ds_ctx = c\<lparr>cx_pipeline := map_option (\<lambda>px. px\<lparr>px_monitored := cx_monitored c\<rparr>) (cx_pipeline c)\<rparr>,
      ds_actions = [], ds_reruns = reruns, ds_retries = retries, ds_effects = []\<rparr>"

section \<open>Arguments\<close>

text \<open>\<open>int()\<close> of a text: blanks around, a sign, decimal digits with single underscores.\<close>

fun digits_value :: "bool \<Rightarrow> int \<Rightarrow> string \<Rightarrow> int option" where
  "digits_value after acc [] = (if after then Some acc else None)"
| "digits_value after acc (c # cs) =
     (let n = (of_char c :: nat)
      in if 48 \<le> n \<and> n \<le> 57 then digits_value True (acc * 10 + (int n - 48)) cs
         else if n = 95 \<and> after \<and> cs \<noteq> [] then digits_value False acc cs
         else None)"

definition py_int :: "string \<Rightarrow> int option" where
  "py_int s =
     (case py_strip s of
        [] \<Rightarrow> None
      | c # cs \<Rightarrow>
          if c = CHR ''-'' then map_option uminus (digits_value False 0 cs)
          else if c = CHR ''+'' then digits_value False 0 cs
          else digits_value False 0 (c # cs))"

fun int_of_json :: "json \<Rightarrow> int option" where
  "int_of_json (JInt i) = Some i"
| "int_of_json (JBool b) = Some (if b then 1 else 0)"
| "int_of_json (JStr s) = py_int s"
| "int_of_json _ = None"

definition int_or :: "(string, json) dict \<Rightarrow> string \<Rightarrow> int \<Rightarrow> int option" where
  "int_or args k d = (if truthy (get_value args k) then int_of_json (get_value args k) else Some d)"

definition argument_block :: "(json \<Rightarrow> string) \<Rightarrow> action \<Rightarrow> (string, json) dict \<Rightarrow> block_reason option" where
  "argument_block repr a args =
     (if a = Rerun_Pipeline
      then (case map_of args ''justification'' of
              Some (JStr s) \<Rightarrow>
                if fst ` set args = {''justification''} \<and> py_strip s \<noteq> [] then None
                else Some Bad_Justification
            | _ \<Rightarrow> Some Bad_Justification)
      else if a = Rebind_Gateway \<and> py_strip (text_or_empty repr args ''target_gateway'') = []
      then Some Missing_Gateway
      else None)"

definition refusal_guidance :: "ledger \<Rightarrow> guidance" where
  "refusal_guidance l =
     (let remaining = max_write_actions (policy l) - write_actions l
      in if 0 < remaining
         then May_Continue remaining (REMEDIATION_ACTIONS \<inter> allowed_actions (policy l))
         else Must_Escalate)"

definition record_call :: "dispatch_world \<Rightarrow> action \<Rightarrow> (string, json) dict \<Rightarrow> tool_reply \<Rightarrow> bool \<Rightarrow>
    dispatcher \<Rightarrow> dispatcher" where
  "record_call w a args r blocked s =
     s\<lparr>ds_actions := ds_actions s @
         [\<lparr>ta_tool_name = a, ta_arguments = args, ta_result_summary = take 600 (dw_render w r),
           ta_duration_ms = dw_duration_ms w, ta_is_remediation = is_remediation a,
           ta_blocked = blocked\<rparr>]\<rparr>"

definition refuse :: "dispatch_world \<Rightarrow> action \<Rightarrow> (string, json) dict \<Rightarrow> tool_reply \<Rightarrow> dispatcher \<Rightarrow>
    tool_reply step" where
  "refuse w a args r s = (Inr r, record_call w a args r True s)"

definition guided :: "block_reason \<Rightarrow> dispatcher \<Rightarrow> tool_reply" where
  "guided why s = Blocked_Reply why (Some (refusal_guidance (ledger_of s)))"

section \<open>Preconditions\<close>

definition live_target :: "tool_context \<Rightarrow> bool" where
  "live_target c = (case cx_pipeline c of Some px \<Rightarrow> px_live px | None \<Rightarrow> cx_mock_client c \<noteq> Some True)"

definition budget_left :: "ledger \<Rightarrow> bool" where
  "budget_left l \<longleftrightarrow> write_actions l < max_write_actions (policy l)"

definition blocked_attempt :: "action \<Rightarrow> ledger \<Rightarrow> ledger" where
  "blocked_attempt a l = l\<lparr>blocked_attempts := blocked_attempts l @ [a]\<rparr>"

definition remediation_block :: "action \<Rightarrow> check_view \<Rightarrow> dispatcher \<Rightarrow> block_reason option step" where
  "remediation_block a cv s =
     (let c = ds_ctx s;
          admission = (if cx_monitored c then Some (cv_admission cv) else None)
      in if \<not> budget_left (cx_ledger c)
         then (Inr (Some (Budget_Exhausted (max_write_actions (policy (cx_ledger c))))),
               on_ledger (blocked_attempt a) s)
         else case admission of
                Some (Admission_Raised e) \<Rightarrow> (Inl (Crashed e), s)
              | Some (Admission_Conflict why) \<Rightarrow> (Inr (Some (Admission_Refused why)), s)
              | Some Observation_Only \<Rightarrow> (Inr (Some Target_Observation_Only), s)
              | _ \<Rightarrow>
                  if \<not> cx_monitored c \<and> live_target c then (Inr (Some Needs_Admission), s)
                  else if cx_known c \<noteq> None \<and> admission \<noteq> Some (Admitted True)
                  then (Inr (Some Known_Incident), s)
                  else (Inr None, s))"

definition rerun_block :: "dispatch_world \<Rightarrow> check_view \<Rightarrow> dispatcher \<Rightarrow> block_reason option step" where
  "rerun_block w cv s =
     (case cx_pipeline (ds_ctx s) of
        None \<Rightarrow> (Inr (Some No_Pipeline_Failure), s)
      | Some px \<Rightarrow>
          if \<not> px_evidence_read px then (Inr (Some Evidence_Not_Read), s)
          else if cx_known (ds_ctx s) \<noteq> None then (Inr (Some Known_Incident), s)
          else if \<not> budget_left (ledger_of s)
          then (Inr (Some (Budget_Exhausted (max_write_actions (policy (ledger_of s))))),
                on_ledger (blocked_attempt Rerun_Pipeline) s)
          else (case rerun_refused (dw_sha w) (dw_retry_allowed w) (cv_client cv) (ds_reruns s) px of
                  None \<Rightarrow> (Inr (Some Prerequisites_Unverified), s)
                | Some why \<Rightarrow> (Inr (map_option Rerun_Not_Possible why), s)))"

definition refresh_block :: "check_view \<Rightarrow> dispatcher \<Rightarrow> block_reason option" where
  "refresh_block cv s =
     (if cx_has_retries (ds_ctx s) \<and> is_deferred (cx_signature (ds_ctx s)) (cv_now cv) (ds_retries s)
      then Some Retry_Already_Scheduled else None)"

definition reenable_block :: "dispatch_world \<Rightarrow> check_view \<Rightarrow> dispatcher \<Rightarrow> block_reason option step" where
  "reenable_block w cv s =
     (let c = ds_ctx s
      in if (case cx_remediation c of None \<Rightarrow> False | Some r \<Rightarrow> remediation_succeeded r) then (Inr None, s)
         else if cx_mock_client c = None then (Inr (Some (History_Unreadable ''ValueError'')), s)
         else case cv_history cv of
                Raised _ e \<Rightarrow> (Inr (Some (History_Unreadable e)), s)
              | Answered [] \<Rightarrow> (Inr (Some No_History), s)
              | Answered (latest # _) \<Rightarrow>
                  if re_status latest \<noteq> ''Completed''
                  then (Inr (Some (Last_Refresh_Not_Completed (re_status latest))), s)
                  else (case (if cx_monitored c \<and> \<not> mo_fixture (dw_monitor w) then cv_observe_raises cv else None) of
                          Some e \<Rightarrow> (Inl (Crashed e), s)
                        | None \<Rightarrow> (Inr None, s)))"

definition tool_block :: "dispatch_world \<Rightarrow> action \<Rightarrow> check_view \<Rightarrow> dispatcher \<Rightarrow> block_reason option step" where
  "tool_block w a cv s =
     (if a = Rerun_Pipeline then rerun_block w cv s
      else if a = Refresh_Dataset then (Inr (refresh_block cv s), s)
      else if a = Reenable_Schedule then reenable_block w cv s
      else (Inr None, s))"

definition precondition :: "dispatch_world \<Rightarrow> action \<Rightarrow> check_view \<Rightarrow> dispatcher \<Rightarrow> block_reason option step" where
  "precondition w a cv s =
     (if is_remediation a
      then (case remediation_block a cv s of
              (Inr None, s1) \<Rightarrow> tool_block w a cv s1
            | other \<Rightarrow> other)
      else tool_block w a cv s)"

section \<open>Asking a human\<close>

text \<open>What the person is told about the consequence.\<close>

definition impact_of :: "(json \<Rightarrow> string) \<Rightarrow> action \<Rightarrow> (string, json) dict \<Rightarrow> string" where
  "impact_of repr a args =
     (let field = (\<lambda>k. py_str repr (get_value args k))
      in if a = Rerun_Pipeline
         then ''Starts the entire pipeline '' @ field ''pipeline_id'' @ '' in workspace '' @ field ''workspace_id''
              @ '' after failed run '' @ field ''failed_run_id'' @ ''. Replay parameter fingerprint: ''
              @ field ''parameter_hash'' @ ''. Redacted parameter preview: '' @ field ''parameter_preview''
              @ ''. Earlier activities may already have committed output; this is not rollback or resume-from-failed-activity.''
         else if a = Rebind_Gateway
         then ''Repoints this dataset to ''
              @ (if map_of args ''target_gateway'' = None then ''the target gateway'' else field ''target_gateway'')
              @ ''. This changes its future routing and may add load to a shared gateway; it does not change other datasets' bindings.''
         else if a = Reenable_Schedule
         then ''Turns the scheduled refresh back on. The dataset resumes refreshing unattended on its existing schedule. If the underlying cause has returned, Power BI will disable it again after four failures.''
         else ''Modifies the live BI environment.'')"

text \<open>
  The call a human is asked about: the model's arguments, or for a rerun the controller's
  own, which the pipeline context then holds on to.
\<close>

definition approval_proposal :: "dispatch_world \<Rightarrow> action \<Rightarrow> (string, json) dict \<Rightarrow> tool_context \<Rightarrow>
    approval_request \<times> tool_context" where
  "approval_proposal w a args c =
     (let justification = text_of_arg (dw_repr w) args ''justification'';
          (args', c') =
            (case (if a = Rerun_Pipeline then cx_pipeline c else None) of
               Some px \<Rightarrow>
                 let (given, px') = approval_arguments (dw_sha w) (dw_redact w) justification px
                 in (given, c\<lparr>cx_pipeline := Some px'\<rparr>)
             | None \<Rightarrow> (args, c))
      in (\<lparr>rq_action = a, rq_arguments = args', rq_justification = justification,
           rq_request_id = bi_request_id (cx_request c) @ '':'' @ action_name a,
           rq_report_name = (case bi_report_name (cx_request c) of None \<Rightarrow> [] | Some n \<Rightarrow> n),
           rq_signature = cx_signature c, rq_impact = impact_of (dw_repr w) a args',
           rq_timeout_seconds = cx_approval_timeout c, rq_requested_at = dw_asked_at w,
           rq_run_id = cx_run_id c\<rparr>, c'))"

definition add_approval :: "approval_record \<Rightarrow> dispatcher \<Rightarrow> dispatcher" where
  "add_approval r s = on_ctx (\<lambda>c. c\<lparr>cx_approvals := cx_approvals c @ [r]\<rparr>) s"

definition unavailable_record :: "dispatch_world \<Rightarrow> approval_request \<Rightarrow> approval_record" where
  "unavailable_record w rq =
     \<lparr>ap_action = rq_action rq, ap_fingerprint = rq_fingerprint (gw_digest (dw_gate w)) rq,
      ap_requested_at = rq_requested_at rq, ap_justification = rq_justification rq,
      ap_impact = rq_impact rq, ap_granted = False, ap_outcome = Error_Verdict, ap_decided_by = [],
      ap_decided_at = None, ap_reason = Said ''No approval channel is configured.'', ap_waited_ms = 0\<rparr>"

definition decision_record :: "dispatch_world \<Rightarrow> approval_request \<Rightarrow> approval_decision \<Rightarrow> validity \<Rightarrow> approval_record" where
  "decision_record w rq d v =
     \<lparr>ap_action = rq_action rq, ap_fingerprint = rq_fingerprint (gw_digest (dw_gate w)) rq,
      ap_requested_at = rq_requested_at rq, ap_justification = rq_justification rq,
      ap_impact = rq_impact rq, ap_granted = (v = Valid), ap_outcome = dc_outcome d,
      ap_decided_by = dc_decided_by d, ap_decided_at = Some (dc_decided_at d),
      ap_reason = (if dc_reason d = Said [] then Said (dw_why w v) else dc_reason d),
      ap_waited_ms = (dw_answered_at w - dw_asked_at w) div 1000\<rparr>"

text \<open>\<open>None\<close> when the answer authorises this very call now.\<close>

definition settle_decision :: "dispatch_world \<Rightarrow> action \<Rightarrow> approval_request \<Rightarrow> approval_decision \<Rightarrow>
    dispatcher \<Rightarrow> tool_reply option \<times> dispatcher" where
  "settle_decision w a rq d s =
     (let now = (if cx_monitored (ds_ctx s) then mo_clock (dw_monitor w) else dw_answered_at w);
          v = is_valid_for (gw_digest (dw_gate w)) d rq now;
          r = decision_record w rq d v;
          s1 = (if v = Valid then on_ctx (\<lambda>c. c\<lparr>cx_pending := Some (rq, d)\<rparr>) s else s);
          s2 = emit (Acknowledged r) (add_approval r s1)
      in if v = Valid then (None, s2)
         else (Some (Not_Approved (ap_outcome r) (ap_decided_by r) (ap_reason r)),
               on_ledger (record_approval_denied a) s2))"

definition seek_approval :: "dispatch_world \<Rightarrow> action \<Rightarrow> (string, json) dict \<Rightarrow> dispatcher \<Rightarrow>
    tool_reply option step" where
  "seek_approval w a args s =
     (let (rq0, c1) = approval_proposal w a args (ds_ctx s);
          s1 = s\<lparr>ds_ctx := c1\<rparr>; m = dw_monitor w; monitored = cx_monitored c1
      in case (if monitored then mo_request m rq0 else Inr rq0) of
           Inl e \<Rightarrow> (Inl (Crashed e), s1)
         | Inr rq \<Rightarrow>
             let s2 = on_ctx (\<lambda>c. c\<lparr>cx_pending := None\<rparr>) s1
             in (case cx_gate c1 of
                   None \<Rightarrow>
                     (Inr (Some Approval_Unavailable),
                      on_ledger (record_approval_denied a) (add_approval (unavailable_record w rq) s2))
                 | Some g \<Rightarrow>
                     let s3 = on_ledger (awaiting_human (dw_asked_at w) (dw_answered_at w)) s2
                     in (case (if monitored then mo_open_raises m else None) of
                           Some e \<Rightarrow> (Inl (Crashed e), s3)
                         | None \<Rightarrow>
                             (case gate_ask (dw_gate w) (dw_asked_at w) g rq of
                                None \<Rightarrow> (Inl Endless, s2)
                              | Some (d, g') \<Rightarrow>
                                  let s4 = on_ctx (\<lambda>c. c\<lparr>cx_gate := Some g'\<rparr>) s3;
                                      answered_by_script = monitored \<and> mo_fixture m \<and> scripted g
                                  in (case (if answered_by_script then mo_decide_raises m else None) of
                                        Some e \<Rightarrow> (Inl (Crashed e), s4)
                                      | None \<Rightarrow>
                                          apfst Inr (settle_decision w a rq
                                            (if answered_by_script then d\<lparr>dc_decided_at := mo_clock m\<rparr> else d) s4))))))"

section \<open>From consent to the call\<close>

definition fault_class :: "rerun_fault \<Rightarrow> string" where
  "fault_class e = (if e = Live_Reservation \<or> e = Hash_Changed then ''ValueError'' else ''Exception'')"

text \<open>
  The reservation: the shared one of a monitored run, which also takes the consent, or the
  pipeline's own row. \<open>None\<close> when nothing stands in the way.
\<close>

definition reserve_shared :: "dispatch_world \<Rightarrow> action \<Rightarrow> dispatcher \<Rightarrow> block_reason option step" where
  "reserve_shared w a s =
     (let c = ds_ctx s; m = dw_monitor w
      in if cx_monitored c
         then (case (if cx_pending c \<noteq> None then mo_reference_raises m else None) of
                 Some e \<Rightarrow> (Inl (Crashed e), s)
               | None \<Rightarrow>
                   (case mo_reserve m of
                      Inl e \<Rightarrow> (Inl (Crashed e), s)
                    | Inr (ok, why) \<Rightarrow>
                        if ok then (Inr None, emit (Reserved_By_Monitoring a) s)
                        else (Inr (Some (Reservation_Refused why)), s)))
         else if a = Rerun_Pipeline
         then (case cx_pipeline c of
                 None \<Rightarrow> (Inr (Some Already_Reserved), s)
               | Some px \<Rightarrow>
                   let (ans, px', rows') = pipeline_reserve (dw_sha w) (dw_redact w) (dw_reserve_ok w)
                                             (dw_now w) px (ds_reruns s);
                       s1 = (on_ctx (\<lambda>c. c\<lparr>cx_pipeline := Some px'\<rparr>) s)\<lparr>ds_reruns := rows'\<rparr>
                   in (case ans of
                         Inl e \<Rightarrow> (Inl (Crashed (fault_class e)), s1)
                       | Inr won \<Rightarrow> (Inr (if won then None else Some Already_Reserved), s1)))
         else (Inr None, s))"

definition spend_consent :: "dispatch_world \<Rightarrow> action \<Rightarrow> dispatcher \<Rightarrow> tool_reply option \<times> dispatcher" where
  "spend_consent w a s =
     (let c = ds_ctx s
      in case (if cx_monitored c then None else cx_pending c) of
           None \<Rightarrow> (None, s)
         | Some (rq, d) \<Rightarrow>
             let (ok, g') = (case cx_gate c of
                               None \<Rightarrow> (False, None)
                             | Some g \<Rightarrow> apsnd Some (gate_take (gw_digest (dw_gate w)) (dw_consumed_at w)
                                                     (dw_web_store w) d g));
                 s1 = on_ctx (\<lambda>c. c\<lparr>cx_gate := g'\<rparr>) s
             in if ok then (None, emit (Consent_Spent rq d) s1)
                else (Some Approval_Used, on_ledger (record_approval_denied a) s1))"

definition charge_action :: "action \<Rightarrow> dispatcher \<Rightarrow> tool_reply option \<times> dispatcher" where
  "charge_action a s =
     (case charge_write a (ledger_of s) of
        (Inl v, l) \<Rightarrow>
          (let s1 = on_ledger (\<lambda>_. l) s in (Some (guided (Policy_Refusal v) s1), s1))
      | (Inr _, l) \<Rightarrow> (None, on_ledger (\<lambda>_. l) s))"

definition admit :: "dispatch_world \<Rightarrow> action \<Rightarrow> dispatcher \<Rightarrow> tool_reply option step" where
  "admit w a s =
     (case precondition w a (dw_second w) s of
        (Inl e, s1) \<Rightarrow> (Inl e, s1)
      | (Inr (Some why), s1) \<Rightarrow> (Inr (Some (Blocked_Reply why None)), s1)
      | (Inr None, s1) \<Rightarrow>
          (case reserve_shared w a s1 of
             (Inl e, s2) \<Rightarrow> (Inl e, s2)
           | (Inr (Some why), s2) \<Rightarrow> (Inr (Some (Blocked_Reply why None)), s2)
           | (Inr None, s2) \<Rightarrow>
               (case spend_consent w a s2 of
                  (Some r, s3) \<Rightarrow> (Inr (Some r), s3)
                | (None, s3) \<Rightarrow> apfst Inr (charge_action a s3))))"

section \<open>The tools\<close>

definition answered :: "'a reply \<Rightarrow> ('a \<Rightarrow> dispatcher \<Rightarrow> tool_reply step) \<Rightarrow> dispatcher \<Rightarrow> tool_reply step" where
  "answered r k s =
     (case r of
        Answered x \<Rightarrow> k x s
      | Raised passed_on e \<Rightarrow>
          if passed_on then (Inl (Crashed e), s) else (Inr (Tool_Error (Raised_By e)), s))"

text \<open>\<open>require_powerbi\<close> raises without a client; otherwise the call is made.\<close>

definition call_client :: "action \<Rightarrow> 'a reply \<Rightarrow> ('a \<Rightarrow> dispatcher \<Rightarrow> tool_reply step) \<Rightarrow> dispatcher \<Rightarrow>
    tool_reply step" where
  "call_client a r k s =
     (if cx_mock_client (ds_ctx s) = None then (Inr (Tool_Error (Raised_By ''ValueError'')), s)
      else answered r k (if is_remediation a then emit (Client_Called a) s else s))"

definition monitored_retry :: "dispatch_world \<Rightarrow> tool_context \<Rightarrow> string option" where
  "monitored_retry w c = (if cx_monitored c then mo_retry_work (dw_monitor w) else None)"

definition exec_refresh :: "dispatch_world \<Rightarrow> dispatcher \<Rightarrow> tool_reply step" where
  "exec_refresh w s =
     call_client Refresh_Dataset (dw_refresh w)
       (\<lambda>r s. (Inr (Refresh_Reply r (monitored_retry w (ds_ctx s))),
               on_ctx (\<lambda>c. c\<lparr>cx_remediation := Some (Refresh_Result r),
                 cx_retry_deferred := (if cx_monitored c then mo_retry_work (dw_monitor w) \<noteq> None
                                       else cx_retry_deferred c)\<rparr>) s)) s"

definition exec_rebind :: "dispatch_world \<Rightarrow> (string, json) dict \<Rightarrow> dispatcher \<Rightarrow> tool_reply step" where
  "exec_rebind w args s =
     (let target = py_strip (text_or_empty (dw_repr w) args ''target_gateway'')
      in if target = [] then (Inr No_Gateway_Given, s)
         else call_client Rebind_Gateway (dw_rebind w)
                (\<lambda>r s. (Inr (Gateway_Reply target r),
                   on_ctx (\<lambda>c. c\<lparr>cx_remediation := Some (Refresh_Result r),
                                 cx_gateway_rebound_to := target\<rparr>) s)) s)"

definition exec_reenable :: "dispatch_world \<Rightarrow> dispatcher \<Rightarrow> tool_reply step" where
  "exec_reenable w s =
     call_client Reenable_Schedule (dw_enable w)
       (\<lambda>r s. (Inr (Schedule_Enabled r),
          on_ctx (\<lambda>c. c\<lparr>cx_remediation := Some (Refresh_Result r),
            cx_schedule_enabled := (if refresh_succeeded r then Some True else cx_schedule_enabled c)\<rparr>) s)) s"

text \<open>\<open>submit\<close> and \<open>check_rerun\<close>: the outcome is copied only when they return.\<close>

definition after_rerun :: "rerun_result \<Rightarrow> dispatcher \<Rightarrow> tool_reply step" where
  "after_rerun r s =
     (let s1 = (on_ctx (\<lambda>c. c\<lparr>cx_pipeline := Some (rs_context r)\<rparr>) s)
                  \<lparr>ds_reruns := rs_rows r,
                   ds_effects := ds_effects s @ map (\<lambda>_. Client_Called Rerun_Pipeline) (rs_posts r)\<rparr>
      in case rs_answer r of
           Inl e \<Rightarrow> (Inr (Tool_Error (Pipeline_Fault e)), s1)
         | Inr reply \<Rightarrow>
             (Inr (Rerun_Reply reply),
              on_ctx (\<lambda>c. c\<lparr>cx_remediation := map_option Rerun_Result (px_outcome (rs_context r))\<rparr>) s1))"

definition exec_rerun :: "dispatch_world \<Rightarrow> dispatcher \<Rightarrow> tool_reply step" where
  "exec_rerun w s =
     (case cx_pipeline (ds_ctx s) of
        None \<Rightarrow> (Inr (Tool_Error (Raised_By ''ValueError'')), s)
      | Some px \<Rightarrow>
          let r = pipeline_submit (dw_sha w) (dw_redact w) (dw_update_ok w) (dw_now w)
                    (cv_client (dw_second w)) (mo_pipeline (dw_monitor w)) px (ds_reruns s);
              s1 = (if px_monitored px \<and> \<not> isl (rs_answer r) then emit (Client_Called Rerun_Pipeline) s else s)
          in after_rerun r s1)"

definition exec_rerun_status :: "dispatch_world \<Rightarrow> dispatcher \<Rightarrow> tool_reply step" where
  "exec_rerun_status w s =
     (case cx_pipeline (ds_ctx s) of
        None \<Rightarrow> (Inr (Tool_Error (Raised_By ''ValueError'')), s)
      | Some px \<Rightarrow>
          after_rerun (check_rerun (dw_sha w) (dw_redact w) (dw_update_ok w) (dw_now w)
            (cv_client (dw_first w)) (mo_pipeline (dw_monitor w)) px (ds_reruns s)) s)"

definition exec_evidence :: "dispatch_world \<Rightarrow> dispatcher \<Rightarrow> tool_reply step" where
  "exec_evidence w s =
     (case cx_pipeline (ds_ctx s) of
        None \<Rightarrow> (Inr (Tool_Error (Raised_By ''ValueError'')), s)
      | Some px \<Rightarrow>
          (case rerun_refused (dw_sha w) (dw_retry_allowed w) (cv_client (dw_first w)) (ds_reruns s) px of
             None \<Rightarrow> (Inr (Tool_Error (Raised_By ''PipelineApiError'')), s)
           | Some why \<Rightarrow>
               (Inr (Evidence_Reply (failure_evidence (dw_sha w) (px_failure px))
                       (str_or (take 8000 (failure_error_text (px_failure px)))
                          ''Fabric did not return a failure reason.'') why),
                on_ctx (\<lambda>c. c\<lparr>cx_pipeline := Some (px\<lparr>px_evidence_read := True\<rparr>)\<rparr>) s)))"

definition exec_history :: "dispatch_world \<Rightarrow> (string, json) dict \<Rightarrow> dispatcher \<Rightarrow> tool_reply step" where
  "exec_history w args s =
     (case int_or args ''top'' 5 of
        None \<Rightarrow> (Inr (Tool_Error (Raised_By ''ValueError'')), s)
      | Some n \<Rightarrow>
          call_client Get_Refresh_History (dw_history w (max 1 (min n 20)))
            (\<lambda>h s. let risk = assess_deactivation_risk h DEACTIVATION_THRESHOLD
                   in (Inr (History_Reply h risk), on_ctx (\<lambda>c. c\<lparr>cx_deactivation_risk := Some risk\<rparr>) s)) s)"

definition exec_schedule :: "dispatch_world \<Rightarrow> dispatcher \<Rightarrow> tool_reply step" where
  "exec_schedule w s =
     call_client Get_Refresh_Schedule (dw_schedule w)
       (\<lambda>enabled s. (Inr (Schedule_Reply enabled), on_ctx (\<lambda>c. c\<lparr>cx_schedule_enabled := enabled\<rparr>) s)) s"

definition exec_dq :: "dispatch_world \<Rightarrow> dispatcher \<Rightarrow> tool_reply step" where
  "exec_dq w s =
     (if \<not> cx_dq_agent (ds_ctx s) then (Inr Dq_Unavailable, s)
      else let v = dw_dq w;
               (r, l) = investigate (dv_loads v) (dw_repr w) (dv_clock v) (dv_later v) (dv_provider v)
                          (cx_datasets (ds_ctx s)) (ledger_of s);
               s1 = on_ledger (\<lambda>_. l) s
           in (case r of
                 Inl (Dq_Violation e) \<Rightarrow> (Inl (Violated e), s1)
               | Inl _ \<Rightarrow> (Inr (Tool_Error (Raised_By ''Exception'')), s1)
               | Inr f \<Rightarrow> (Inr (Dq_Reply f), on_ctx (\<lambda>c. c\<lparr>cx_dq_finding := Some f\<rparr>) s1)))"

definition exec_flag :: "dispatch_world \<Rightarrow> (string, json) dict \<Rightarrow> dispatcher \<Rightarrow> tool_reply step" where
  "exec_flag w args s =
     (case cx_dq_finding (ds_ctx s) of
        None \<Rightarrow> (Inr No_Duplicate_Evidence, s)
      | Some f \<Rightarrow>
          (case dq_evidence f of
             None \<Rightarrow> (Inr No_Duplicate_Evidence, s)
           | Some e \<Rightarrow>
               if \<not> dq_has_issue f \<or> de_row_count e = 0 then (Inr (Nothing_To_Flag (de_table e)), s)
               else let detail = take 1000 (str_or (text_or_empty (dw_repr w) args ''detail'') (dq_detail f));
                        flag = build_flag (dw_sha w) (dw_flagged_at w) (bi_request_id (cx_request (ds_ctx s))) e detail
                    in answered (dw_flag w flag)
                         (\<lambda>stored s. (Inr (Flag_Written stored),
                            emit (Flag_Appended stored) (on_ctx (\<lambda>c. c\<lparr>cx_flag_written := True\<rparr>) s))) s))"

definition facts_for :: "tool_context \<Rightarrow> (string, string) dict" where
  "facts_for c =
     [(''Signature'', str_or (cx_signature c) ''n/a'')]
     @ (case cx_dq_finding c of
          Some f \<Rightarrow> (case dq_evidence f of
                       Some e \<Rightarrow> if dq_has_issue f then [(''Data quality'', evidence_headline e)] else []
                     | None \<Rightarrow> [])
        | None \<Rightarrow> [])
     @ (case cx_known c of
          Some k \<Rightarrow> [(''Known incident'', in_id k @ '' (seen '' @ show_int (in_occurrence_count k) @ ''x)'')]
        | None \<Rightarrow> [])
     @ (case cx_pipeline c of
          None \<Rightarrow> []
        | Some px \<Rightarrow>
            let t = pf_target (px_failure px); r = pf_run (px_failure px)
            in [(''Pipeline'', pt_name t), (''Workspace'', pt_workspace_id t),
                (''Pipeline ID'', pt_pipeline_id t), (''Failed run'', pr_id r), (''Trigger'', pr_invoke_type r)]
               @ (case px_outcome px of
                    Some o' \<Rightarrow> [(''Rerun'', ro_run_id o' @ '': '' @ ro_status o')]
                  | None \<Rightarrow> []))"

definition verified_remediation :: "tool_context \<Rightarrow> bool" where
  "verified_remediation c \<longleftrightarrow> (case cx_remediation c of None \<Rightarrow> False | Some r \<Rightarrow> remediation_succeeded r)"

text \<open>A card never claims a resolution that was not verified.\<close>

definition build_notice :: "(json \<Rightarrow> string) \<Rightarrow> (string, json) dict \<Rightarrow> tool_context \<Rightarrow> notice" where
  "build_notice repr args c =
     (let claimed = text_of_arg repr args ''outcome''; detail = text_of_arg repr args ''detail'';
          unverified = (claimed = ''resolved'' \<and> \<not> verified_remediation c);
          done = (case cx_pipeline c of
                    None \<Rightarrow> text_of_arg repr args ''action_taken''
                  | Some px \<Rightarrow>
                      (case px_outcome px of
                         Some r \<Rightarrow> ''Pipeline rerun '' @ str_or (ro_run_id r) ''(submission unconfirmed)''
                                    @ '': '' @ ro_status r @ ''.''
                       | None \<Rightarrow> ''No pipeline rerun was performed.''))
      in \<lparr>nt_title = (case map_of args ''title'' of None \<Rightarrow> ''BI request triage'' | Some v \<Rightarrow> py_str repr v),
          nt_report_name = (case bi_report_name (cx_request c) of None \<Rightarrow> [] | Some n \<Rightarrow> n),
          nt_error = bi_subject (cx_request c), nt_action_taken = done,
          nt_outcome = (if unverified then ''needs_human'' else claimed),
          nt_timestamp = bi_received_at (cx_request c),
          nt_detail = (if unverified then ''Remediation has not been verified successful. '' @ detail else detail),
          nt_facts = facts_for c\<rparr>)"

definition exec_notify :: "dispatch_world \<Rightarrow> (string, json) dict \<Rightarrow> dispatcher \<Rightarrow> tool_reply step" where
  "exec_notify w args s =
     (let n = build_notice (dw_repr w) args (ds_ctx s);
          s1 = on_ctx (\<lambda>c. c\<lparr>cx_notifications := cx_notifications c @ [n], cx_attempted := True\<rparr>) s
      in case cx_known (ds_ctx s) of
           Some k \<Rightarrow>
             if 0 < in_notified_count k
             then (Inr (Notice_Suppressed (in_id k) (in_occurrence_count k + 1)),
                   on_ctx (\<lambda>c. c\<lparr>cx_suppressed := True, cx_delivered := False\<rparr>) s1)
             else answered (dw_post w)
                    (\<lambda>ok s. (Inr (Notice_Reply ok), on_ctx (\<lambda>c. c\<lparr>cx_delivered := ok\<rparr>) s))
                    (emit (Card_Posted n) s1)
         | None \<Rightarrow> answered (dw_post w)
                    (\<lambda>ok s. (Inr (Notice_Reply ok), on_ctx (\<lambda>c. c\<lparr>cx_delivered := ok\<rparr>) s))
                    (emit (Card_Posted n) s1))"

definition exec_defer :: "dispatch_world \<Rightarrow> (string, json) dict \<Rightarrow> dispatcher \<Rightarrow> tool_reply step" where
  "exec_defer w args s =
     (let c = ds_ctx s; m = dw_monitor w
      in if \<not> cx_has_retries c then (Inr No_Retry_Store, s)
         else case (if cx_monitored c then mo_defer m else Defer_Allowed None) of
                Defer_Raised e \<Rightarrow> (Inl (Crashed e), s)
              | Defer_Observation \<Rightarrow> (Inr Retry_Observation_Only, s)
              | Defer_Fenced \<Rightarrow> (Inr Retry_Fenced, s)
              | Defer_Allowed source \<Rightarrow>
                  (case int_or args ''retry_after_seconds'' 0 of
                     None \<Rightarrow> (Inr (Tool_Error (Raised_By ''ValueError'')), s)
                   | Some requested \<Rightarrow>
                       let d = \<lparr>df_signature = cx_signature c,
                                df_request_id = bi_request_id (cx_request c),
                                df_workspace_id = cx_workspace_id c, df_dataset_id = cx_dataset_id c,
                                df_report_name = (case bi_report_name (cx_request c) of None \<Rightarrow> [] | Some n \<Rightarrow> n),
                                df_reason = text_of_arg (dw_repr w) args ''reason'',
                                df_retry_after_seconds = max 0 requested, df_source = source\<rparr>;
                           (r, st) = defer_retry (dw_retry_hook w) MAX_ATTEMPTS (dw_now w) d (ds_retries s);
                           s1 = s\<lparr>ds_retries := st\<rparr>
                       in (case r of
                             Inl e \<Rightarrow> (Inr (Tool_Error (Retry_Fault e)), s1)
                           | Inr row \<Rightarrow>
                               let pending = (rt_status row = Pending); s2 = emit (Retry_Stored row) s1
                               in (case (if cx_monitored c \<and> pending then mo_schedule_raises m else None) of
                                     Some e \<Rightarrow> (Inl (Crashed e), s2)
                                   | None \<Rightarrow> (Inr (Retry_Reply row),
                                              on_ctx (\<lambda>c. c\<lparr>cx_retry_deferred := pending\<rparr>) s2)))))"

definition execute :: "dispatch_world \<Rightarrow> action \<Rightarrow> (string, json) dict \<Rightarrow> dispatcher \<Rightarrow> tool_reply step" where
  "execute w a args s =
     (let c = ds_ctx s
      in case a of
           Get_Request_Context \<Rightarrow>
             (Inr (Context_Reply (cx_pipeline c \<noteq> None) (cx_request c) (cx_dataset_id c) (cx_workspace_id c)
                     (cx_signature c)), s)
         | Get_Pipeline_Evidence \<Rightarrow> exec_evidence w s
         | Rerun_Pipeline \<Rightarrow> exec_rerun w s
         | Get_Rerun_Status \<Rightarrow> exec_rerun_status w s
         | Get_Known_Incidents \<Rightarrow> (Inr (Incidents_Reply (cx_known c) (cx_signature c)), s)
         | Get_Refresh_History \<Rightarrow> exec_history w args s
         | Consult_DQ \<Rightarrow> exec_dq w s
         | Refresh_Dataset \<Rightarrow> exec_refresh w s
         | Rebind_Gateway \<Rightarrow> exec_rebind w args s
         | Write_Flag \<Rightarrow> exec_flag w args s
         | Notify_Teams \<Rightarrow> exec_notify w args s
         | Get_Refresh_Schedule \<Rightarrow> exec_schedule w s
         | Reenable_Schedule \<Rightarrow> exec_reenable w s
         | Defer_Retry \<Rightarrow> exec_defer w args s
         | Report_Resolution \<Rightarrow> (Inr Recorded, on_ctx (\<lambda>c. c\<lparr>cx_resolution := Some args\<rparr>) s)
         | Check_Duplicates \<Rightarrow> (Inr Unknown_Tool, s)
         | Other_Action _ \<Rightarrow> (Inr Unknown_Tool, s))"

section \<open>One dispatch\<close>

definition perform :: "dispatch_world \<Rightarrow> action \<Rightarrow> (string, json) dict \<Rightarrow> dispatcher \<Rightarrow> tool_reply step" where
  "perform w a args s =
     (case execute w a args s of
        (Inl e, s1) \<Rightarrow> (Inl e, s1)
      | (Inr r, s1) \<Rightarrow> (Inr r, record_call w a args r False s1))"

definition first_block :: "dispatch_world \<Rightarrow> action \<Rightarrow> (string, json) dict \<Rightarrow> dispatcher \<Rightarrow> block_reason option step" where
  "first_block w a args s =
     (case argument_block (dw_repr w) a args of
        Some why \<Rightarrow> (Inr (Some why), s)
      | None \<Rightarrow> precondition w a (dw_first w) s)"

definition consented :: "dispatch_world \<Rightarrow> action \<Rightarrow> (string, json) dict \<Rightarrow> dispatcher \<Rightarrow> tool_reply option step" where
  "consented w a args s = (if requires_approval a then seek_approval w a args s else (Inr None, s))"

definition admitted :: "dispatch_world \<Rightarrow> action \<Rightarrow> dispatcher \<Rightarrow> tool_reply option step" where
  "admitted w a s = (if is_remediation a then admit w a s else (Inr None, s))"

definition dispatch :: "dispatch_world \<Rightarrow> action \<Rightarrow> (string, json) dict \<Rightarrow> dispatcher \<Rightarrow> tool_reply step" where
  "dispatch w a args s =
     (case charge_tool_call (dw_now w) a (is_remediation a) (ledger_of s) of
        (Inl v, l) \<Rightarrow>
          (let s1 = on_ledger (\<lambda>_. l) s
           in if kind_of v = Policy_Blocked then refuse w a args (guided (Policy_Refusal v) s1) s1
              else (Inl (Violated v), s1))
      | (Inr _, l) \<Rightarrow>
          (case first_block w a args (on_ledger (\<lambda>_. l) s) of
             (Inl e, s2) \<Rightarrow> (Inl e, s2)
           | (Inr (Some why), s2) \<Rightarrow> refuse w a args (guided why s2) s2
           | (Inr None, s2) \<Rightarrow>
               (case consented w a args s2 of
                  (Inl e, s3) \<Rightarrow> (Inl e, s3)
                | (Inr (Some r), s3) \<Rightarrow> refuse w a args r s3
                | (Inr None, s3) \<Rightarrow>
                    (case admitted w a s3 of
                       (Inl e, s4) \<Rightarrow> (Inl e, s4)
                     | (Inr (Some r), s4) \<Rightarrow> refuse w a args r s4
                     | (Inr None, s4) \<Rightarrow> perform w a args s4))))"

section \<open>What each stage leaves alone\<close>

text \<open>
  The remediation calls made so far and the writes charged so far. \<open>idle\<close>: a stage makes no
  call and charges no write. \<open>grows\<close>: it only ever adds effects and audit entries.
\<close>

definition calls :: "dispatcher \<Rightarrow> nat" where
  "calls s = List.length (filter (\<lambda>e. case e of Client_Called a \<Rightarrow> is_remediation a | _ \<Rightarrow> False) (ds_effects s))"

definition writes :: "dispatcher \<Rightarrow> int" where
  "writes s = write_actions (ledger_of s)"

definition rules :: "dispatcher \<Rightarrow> triage_policy" where
  "rules s = policy (ledger_of s)"

definition turns :: "dispatcher \<Rightarrow> int" where
  "turns s = llm_turns (ledger_of s)"

abbreviation limit :: "dispatcher \<Rightarrow> int" where
  "limit s \<equiv> max_write_actions (rules s)"

definition calm :: "dispatcher \<Rightarrow> dispatcher \<Rightarrow> bool" where
  "calm s s' \<longleftrightarrow> calls s' = calls s \<and> turns s' = turns s \<and> writes s' = writes s \<and> rules s' = rules s \<and>
     ds_actions s' = ds_actions s \<and> cx_monitored (ds_ctx s') = cx_monitored (ds_ctx s)"

text \<open>What the tools leave in the context for the verdict on the run.\<close>

definition promises :: "dispatcher \<Rightarrow> bool \<times> bool \<times> bool \<times> remediation option \<times> dq_finding option" where
  "promises s =
     (cx_flag_written (ds_ctx s), cx_retry_deferred (ds_ctx s), cx_delivered (ds_ctx s),
      cx_remediation (ds_ctx s), cx_dq_finding (ds_ctx s))"

definition idle :: "dispatcher \<Rightarrow> dispatcher \<Rightarrow> bool" where
  "idle s s' \<longleftrightarrow> calm s s' \<and> promises s' = promises s"

lemma idle_refl [simp]: "idle s s" "calm s s"
  by (simp_all add: idle_def calm_def)

lemma idle_trans: "idle s t \<Longrightarrow> idle t u \<Longrightarrow> idle s u"
  by (simp add: idle_def calm_def)

lemmas idle_defs = idle_def calm_def promises_def Let_def writes_def rules_def turns_def

lemmas state_defs = on_ctx_def on_ledger_def emit_def add_approval_def ledger_of_def

lemma calls_on_ctx [simp]: "calls (on_ctx f s) = calls s" "ds_actions (on_ctx f s) = ds_actions s"
  by (simp_all add: calls_def on_ctx_def)

lemma calls_on_ledger [simp]:
  "calls (on_ledger f s) = calls s" "ds_actions (on_ledger f s) = ds_actions s"
  "ledger_of (on_ledger f s) = f (ledger_of s)"
  "cx_monitored (ds_ctx (on_ledger f s)) = cx_monitored (ds_ctx s)"
  "cx_pending (ds_ctx (on_ledger f s)) = cx_pending (ds_ctx s)"
  "ds_effects (on_ledger f s) = ds_effects s"
  by (simp_all add: state_defs calls_def)

lemma calls_emit [simp]:
  "calls (emit e s) = calls s + (case e of Client_Called a \<Rightarrow> if is_remediation a then 1 else 0 | _ \<Rightarrow> 0)"
  "ds_ctx (emit e s) = ds_ctx s" "ds_actions (emit e s) = ds_actions s"
  "ledger_of (emit e s) = ledger_of s" "ds_effects (emit e s) = ds_effects s @ [e]"
  by (simp_all add: calls_def emit_def ledger_of_def split: effect.splits)

lemma calls_update [simp]:
  "calls (s\<lparr>ds_reruns := r\<rparr>) = calls s" "calls (s\<lparr>ds_retries := st\<rparr>) = calls s"
  "calls (s\<lparr>ds_ctx := c\<rparr>) = calls s" "calls (s\<lparr>ds_actions := xs\<rparr>) = calls s"
  by (simp_all add: calls_def)

lemma calls_record [simp]:
  "calls (record_call w a args r b s) = calls s" "ledger_of (record_call w a args r b s) = ledger_of s"
  "writes (record_call w a args r b s) = writes s" "rules (record_call w a args r b s) = rules s"
  "turns (record_call w a args r b s) = turns s"
  "ds_effects (record_call w a args r b s) = ds_effects s"
  "ds_ctx (record_call w a args r b s) = ds_ctx s" "promises (record_call w a args r b s) = promises s"
  by (simp_all add: calls_def record_call_def ledger_of_def writes_def rules_def turns_def promises_def)

lemma record_entry:
  "\<exists>x. ds_actions (record_call w a args r b s) = ds_actions s @ [x] \<and> ta_tool_name x = a \<and> ta_blocked x = b"
  by (simp add: record_call_def)

lemma calm_on_ctx:
  assumes "cx_ledger (f (ds_ctx s)) = cx_ledger (ds_ctx s)" "cx_monitored (f (ds_ctx s)) = cx_monitored (ds_ctx s)"
  shows "calm s (on_ctx f s)"
  using assms by (simp add: idle_defs state_defs calls_def)

lemma idle_on_ledger:
  assumes "write_actions (f (ledger_of s)) = write_actions (ledger_of s)" "policy (f (ledger_of s)) = policy (ledger_of s)"
    "llm_turns (f (ledger_of s)) = llm_turns (ledger_of s)"
  shows "idle s (on_ledger f s)"
  using assms by (simp add: idle_defs state_defs calls_def)

lemma promises_on_ledger [simp]: "promises (on_ledger f s) = promises s"
  by (simp add: promises_def state_defs)

lemma idle_emit: "(\<And>a. e \<noteq> Client_Called a) \<Longrightarrow> idle s (emit e s)"
  by (auto simp: idle_defs split: effect.splits)

lemma precondition_idle:
  assumes "precondition w a cv s = (r, s')"
  shows "idle s s' \<and> ds_effects s' = ds_effects s \<and> cx_pending (ds_ctx s') = cx_pending (ds_ctx s)
    \<and> cx_gate (ds_ctx s') = cx_gate (ds_ctx s)"
proof -
  have tool: "idle s s' \<and> ds_effects s' = ds_effects s \<and> cx_pending (ds_ctx s') = cx_pending (ds_ctx s)
      \<and> cx_gate (ds_ctx s') = cx_gate (ds_ctx s)"
    if "tool_block w a cv s = (r, s')" for s s' r
    using that
    by (auto simp: tool_block_def rerun_block_def reenable_block_def Let_def blocked_attempt_def state_defs
          intro!: idle_on_ledger [unfolded state_defs] idle_refl
          split: if_splits option.splits reply.splits list.splits)
  have budget: "idle s s' \<and> ds_effects s' = ds_effects s \<and> cx_pending (ds_ctx s') = cx_pending (ds_ctx s)
      \<and> cx_gate (ds_ctx s') = cx_gate (ds_ctx s)"
    if "remediation_block a cv s = (r, s')" for s s' r
    using that
    by (auto simp: remediation_block_def Let_def blocked_attempt_def state_defs
          intro!: idle_on_ledger [unfolded state_defs] idle_refl
          split: if_splits option.splits admission.splits)
  show ?thesis
  proof (cases "is_remediation a")
    case False
    with assms tool show ?thesis by (simp add: precondition_def)
  next
    case True
    obtain q s1 where r: "remediation_block a cv s = (q, s1)" by fastforce
    show ?thesis
    proof (cases "q = Inr None")
      case True
      with r assms \<open>is_remediation a\<close> have "tool_block w a cv s1 = (r, s')" by (simp add: precondition_def)
      with tool budget [OF r] show ?thesis by (metis idle_trans)
    next
      case False
      then have "precondition w a cv s = (q, s1)"
        using r True by (auto simp: precondition_def split: sum.splits option.splits)
      with assms budget [OF r] show ?thesis by simp
    qed
  qed
qed

lemma proposal_kept [simp]:
  assumes "approval_proposal w a args c = (rq, c')"
  shows "cx_ledger c' = cx_ledger c" "cx_monitored c' = cx_monitored c" "cx_gate c' = cx_gate c"
    "cx_flag_written c' = cx_flag_written c" "cx_retry_deferred c' = cx_retry_deferred c"
    "cx_delivered c' = cx_delivered c" "cx_remediation c' = cx_remediation c" "cx_dq_finding c' = cx_dq_finding c"
    "rq_action rq = a" "a \<noteq> Rerun_Pipeline \<Longrightarrow> rq_arguments rq = args"
  using assms by (auto simp: approval_proposal_def Let_def split: prod.splits option.splits if_splits)

text \<open>What asking a human leaves: no call, no write, and a pending consent only when it is valid.\<close>

lemma settle_cases:
  assumes "settle_decision w a rq d s = (r, s')"
  shows "idle s s'"
    and "\<exists>x. ds_effects s' = ds_effects s @ [Acknowledged x]"
    and "r = None \<Longrightarrow> cx_pending (ds_ctx s') = Some (rq, d) \<and>
      is_valid_for (gw_digest (dw_gate w)) d rq
        (if cx_monitored (ds_ctx s) then mo_clock (dw_monitor w) else dw_answered_at w) = Valid"
  using assms
  by (auto simp: settle_decision_def Let_def idle_defs state_defs calls_def
        record_approval_denied_def split: if_splits)

lemma seek_cases:
  assumes "seek_approval w a args s = (r, s')"
  obtains (stopped) e where "r = Inl e" "idle s s'" "ds_effects s' = ds_effects s"
    | (unavailable) "r = Inr (Some Approval_Unavailable)" "idle s s'" "ds_effects s' = ds_effects s"
    | (settled) rq d t r' where "r = Inr r'" "settle_decision w a rq d t = (r', s')" "idle s t"
        "ds_effects t = ds_effects s" "cx_monitored (ds_ctx t) = cx_monitored (ds_ctx s)"
        "\<not> cx_monitored (ds_ctx s) \<Longrightarrow> rq_action rq = a \<and> (a \<noteq> Rerun_Pipeline \<longrightarrow> rq_arguments rq = args)"
proof -
  obtain rq0 c1 where p: "approval_proposal w a args (ds_ctx s) = (rq0, c1)" by fastforce
  obtain s1 where s1: "s1 = s\<lparr>ds_ctx := c1\<rparr>" by blast
  have i1: "idle s s1" "ds_effects s1 = ds_effects s" "ds_ctx s1 = c1"
    using p by (simp_all add: s1 idle_defs ledger_of_def calls_def)
  note unf = assms [unfolded seek_approval_def Let_def p prod.case s1 [symmetric]]
  show thesis
  proof (cases "if cx_monitored c1 then mo_request (dw_monitor w) rq0 else Inr rq0")
    case (Inl e)
    with unf have "r = Inl (Crashed e)" "s' = s1" by auto
    with i1 show thesis by (intro stopped) auto
  next
    case (Inr rq)
    obtain s2 where s2: "s2 = on_ctx (\<lambda>c. c\<lparr>cx_pending := None\<rparr>) s1" by blast
    have i2: "idle s s2" "ds_effects s2 = ds_effects s"
      using i1 by (auto simp: s2 idle_defs state_defs calls_def)
    note unf2 = unf [unfolded Inr sum.case s2 [symmetric]]
    show thesis
    proof (cases "cx_gate c1")
      case None
      with unf2 have "r = Inr (Some Approval_Unavailable)"
        "s' = on_ledger (record_approval_denied a) (add_approval (unavailable_record w rq) s2)" by auto
      with i2 show thesis
        by (intro unavailable)
          (auto simp: idle_defs state_defs calls_def record_approval_denied_def)
    next
      case (Some g)
      obtain s3 where s3: "s3 = on_ledger (awaiting_human (dw_asked_at w) (dw_answered_at w)) s2" by blast
      have i3: "idle s s3" "ds_effects s3 = ds_effects s"
        using i2 by (auto simp: s3 idle_defs state_defs calls_def awaiting_human_def)
      note unf3 = unf2 [unfolded Some option.case s3 [symmetric]]
      show thesis
      proof (cases "if cx_monitored c1 then mo_open_raises (dw_monitor w) else None")
        case (Some e)
        with unf3 have "r = Inl (Crashed e)" "s' = s3" by auto
        with i3 show thesis by (intro stopped) auto
      next
        case None
        note unf4 = unf3 [unfolded None option.case]
        show thesis
        proof (cases "gate_ask (dw_gate w) (dw_asked_at w) g rq")
          case None
          with unf4 have "r = Inl Endless" "s' = s2" by auto
          with i2 show thesis by (intro stopped) auto
        next
          case (Some dg)
          obtain d g' where dg: "dg = (d, g')" by fastforce
          obtain s4 where s4: "s4 = on_ctx (\<lambda>c. c\<lparr>cx_gate := Some g'\<rparr>) s3" by blast
          have i4: "idle s s4" "ds_effects s4 = ds_effects s"
            using i3 by (auto simp: s4 idle_defs state_defs calls_def)
          note unf5 = unf4 [unfolded Some dg option.case prod.case s4 [symmetric]]
          let ?scr = "cx_monitored c1 \<and> mo_fixture (dw_monitor w) \<and> scripted g"
          let ?d = "if ?scr then d\<lparr>dc_decided_at := mo_clock (dw_monitor w)\<rparr> else d"
          show thesis
          proof (cases "if ?scr then mo_decide_raises (dw_monitor w) else None")
            case (Some e)
            with unf5 have "r = Inl (Crashed e)" "s' = s4" by auto
            with i4 show thesis by (intro stopped) auto
          next
            case None
            obtain r' t where st: "settle_decision w a rq ?d s4 = (r', t)" by fastforce
            have "(r, s') = (Inr r', t)"
              using unf5 [unfolded None option.case st] by simp
            then show thesis
              using st i4 p Inr by (intro settled [of r' rq ?d s4]) (auto simp: idle_def calm_def)
          qed
        qed
      qed
    qed
  qed
qed

lemma seek_idle:
  assumes "seek_approval w a args s = (r, s')"
  shows "idle s s'"
    and "\<exists>new. ds_effects s' = ds_effects s @ new \<and> (\<forall>e\<in>set new. \<exists>x. e = Acknowledged x)"
    and "r = Inr None \<Longrightarrow> \<exists>rq d. cx_pending (ds_ctx s') = Some (rq, d) \<and>
      (\<not> cx_monitored (ds_ctx s) \<longrightarrow> rq_action rq = a \<and> (a \<noteq> Rerun_Pipeline \<longrightarrow> rq_arguments rq = args)) \<and>
      is_valid_for (gw_digest (dw_gate w)) d rq
        (if cx_monitored (ds_ctx s) then mo_clock (dw_monitor w) else dw_answered_at w) = Valid"
proof -
  have "idle s s' \<and> (\<exists>new. ds_effects s' = ds_effects s @ new \<and> (\<forall>e\<in>set new. \<exists>x. e = Acknowledged x)) \<and>
    (r = Inr None \<longrightarrow> (\<exists>rq d. cx_pending (ds_ctx s') = Some (rq, d) \<and>
      (\<not> cx_monitored (ds_ctx s) \<longrightarrow> rq_action rq = a \<and> (a \<noteq> Rerun_Pipeline \<longrightarrow> rq_arguments rq = args)) \<and>
      is_valid_for (gw_digest (dw_gate w)) d rq
        (if cx_monitored (ds_ctx s) then mo_clock (dw_monitor w) else dw_answered_at w) = Valid))"
    using assms
  proof (cases rule: seek_cases)
    case (settled rq d t r')
    from settle_cases [OF settled(2)] settled show ?thesis
      by (auto intro: idle_trans)
  qed auto
  then show "idle s s'"
    and "\<exists>new. ds_effects s' = ds_effects s @ new \<and> (\<forall>e\<in>set new. \<exists>x. e = Acknowledged x)"
    and "r = Inr None \<Longrightarrow> \<exists>rq d. cx_pending (ds_ctx s') = Some (rq, d) \<and>
      (\<not> cx_monitored (ds_ctx s) \<longrightarrow> rq_action rq = a \<and> (a \<noteq> Rerun_Pipeline \<longrightarrow> rq_arguments rq = args)) \<and>
      is_valid_for (gw_digest (dw_gate w)) d rq
        (if cx_monitored (ds_ctx s) then mo_clock (dw_monitor w) else dw_answered_at w) = Valid"
    by blast+
qed

text \<open>Reservation, consumption and the charge: which of them leave a mark.\<close>

lemma reserve_shared_cases:
  assumes "reserve_shared w a s = (r, s')"
  shows "idle s s'" "cx_pending (ds_ctx s') = cx_pending (ds_ctx s)"
    and "ds_effects s' = ds_effects s \<or> cx_monitored (ds_ctx s) \<and> ds_effects s' = ds_effects s @ [Reserved_By_Monitoring a]"
    and "r = Inr None \<Longrightarrow> cx_monitored (ds_ctx s) \<Longrightarrow> ds_effects s' = ds_effects s @ [Reserved_By_Monitoring a]"
  using assms
  by (auto simp: reserve_shared_def Let_def idle_defs state_defs calls_def
        split: if_splits option.splits sum.splits prod.splits)

lemma spend_consent_cases:
  assumes "spend_consent w a s = (r, s')"
  shows "idle s s'"
    and "ds_effects s' = ds_effects s \<or>
      (\<exists>rq d. cx_pending (ds_ctx s) = Some (rq, d) \<and> ds_effects s' = ds_effects s @ [Consent_Spent rq d])"
    and "r = None \<Longrightarrow> \<not> cx_monitored (ds_ctx s) \<Longrightarrow> cx_pending (ds_ctx s) = Some (rq, d) \<Longrightarrow>
      ds_effects s' = ds_effects s @ [Consent_Spent rq d]"
  using assms
  by (auto simp: spend_consent_def Let_def idle_defs state_defs calls_def
        record_approval_denied_def split: if_splits option.splits prod.splits)

lemma charge_action_cases:
  assumes "charge_action a s = (r, s')"
  shows "calls s' = calls s" "rules s' = rules s" "ds_actions s' = ds_actions s"
    "ds_effects s' = ds_effects s" "cx_monitored (ds_ctx s') = cx_monitored (ds_ctx s)"
    and "r = None \<Longrightarrow> writes s' = writes s + 1 \<and> writes s' \<le> limit s"
    and "r \<noteq> None \<Longrightarrow> writes s' = writes s"
    and "turns s' = turns s" and "promises s' = promises s"
  using assms
  by (auto simp: charge_action_def Let_def writes_def rules_def turns_def charge_write_def
        split: if_splits prod.splits sum.splits)

lemma answered_cases:
  assumes "answered q k s = (r, s')"
  obtains x where "q = Answered x" "k x s = (r, s')"
    | e where "r = Inl (Crashed e)" "s' = s" | e where "r = Inr (Tool_Error e)" "s' = s"
  using assms by (auto simp: answered_def split: reply.splits if_splits)

lemma after_rerun_frame:
  assumes "after_rerun q s = (r, s')"
  shows "writes s' = writes s" "rules s' = rules s" "ds_actions s' = ds_actions s"
    "calls s' = calls s + List.length (rs_posts q)" "cx_monitored (ds_ctx s') = cx_monitored (ds_ctx s)" "turns s' = turns s"
  using assms
  by (auto simp: after_rerun_def Let_def writes_def rules_def turns_def state_defs calls_def is_remediation_def
        taxonomy_defs filter_map comp_def split: sum.splits)

lemma submit_posts_bound:
  "List.length (rs_posts (pipeline_submit sha redact ok now client monitored px rows)) \<le> (if px_monitored px then 0 else 1)"
  by (auto simp: pipeline_submit_def Let_def split: option.splits sum.splits prod.splits)

lemma check_posts_none: "rs_posts (check_rerun sha redact ok now client monitored px rows) = []"
  by (auto simp: check_rerun_def Let_def split: option.splits sum.splits prod.splits)

definition worked :: "action \<Rightarrow> dispatcher \<Rightarrow> dispatcher \<Rightarrow> bool" where
  "worked a s s' \<longleftrightarrow> writes s' = writes s \<and> turns s \<le> turns s' \<and> rules s' = rules s \<and> ds_actions s' = ds_actions s \<and>
     cx_monitored (ds_ctx s') = cx_monitored (ds_ctx s) \<and>
     calls s' \<le> calls s + (if is_remediation a then 1 else 0)"

lemma calm_work: "calm s s' \<Longrightarrow> worked a s s'"
  by (simp add: calm_def worked_def)

lemma is_remediation_simps [simp]:
  "is_remediation Refresh_Dataset" "is_remediation Rebind_Gateway" "is_remediation Reenable_Schedule"
  "is_remediation Rerun_Pipeline" "\<not> is_remediation Get_Refresh_History"
  "\<not> is_remediation Get_Refresh_Schedule" "\<not> is_remediation Consult_DQ"
  by (simp_all add: is_remediation_def taxonomy_defs)

lemma call_client_work:
  assumes "call_client a q k s = (r, s')"
    and k: "\<And>x t r t'. k x t = (r, t') \<Longrightarrow> calm t t'"
  shows "worked a s s'"
proof -
  have e: "worked a s (if is_remediation a then emit (Client_Called a) s else s)"
    by (simp add: worked_def writes_def rules_def turns_def)
  have more: "worked a s t'" if "worked a s t" "calm t t'" for t t'
    using that by (simp add: worked_def calm_def)
  show ?thesis
  proof (cases "cx_mock_client (ds_ctx s) = None")
    case True
    with assms show ?thesis by (auto simp: call_client_def worked_def)
  next
    case False
    with assms have "answered q k (if is_remediation a then emit (Client_Called a) s else s) = (r, s')"
      by (simp add: call_client_def)
    then show ?thesis
      by (cases rule: answered_cases) (use e more k in blast)+
  qed
qed

lemma execute_work:
  assumes "execute w a args s = (r, s')"
  shows "worked a s s'"
proof (cases a)
  case Refresh_Dataset
  with assms have "exec_refresh w s = (r, s')" by (simp add: execute_def)
  then show ?thesis unfolding Refresh_Dataset exec_refresh_def
    by (rule call_client_work) (auto intro!: calm_on_ctx)
next
  case Rebind_Gateway
  with assms have "exec_rebind w args s = (r, s')" by (simp add: execute_def)
  then show ?thesis unfolding Rebind_Gateway exec_rebind_def Let_def
    by (auto simp: calm_work split: if_splits intro!: calm_on_ctx elim!: call_client_work)
next
  case Reenable_Schedule
  with assms have "exec_reenable w s = (r, s')" by (simp add: execute_def)
  then show ?thesis unfolding Reenable_Schedule exec_reenable_def
    by (rule call_client_work) (auto intro!: calm_on_ctx)
next
  case Rerun_Pipeline
  with assms have e: "exec_rerun w s = (r, s')" by (simp add: execute_def)
  show ?thesis
  proof (cases "cx_pipeline (ds_ctx s)")
    case None
    with e show ?thesis by (simp add: exec_rerun_def calm_work)
  next
    case (Some px)
    obtain q where q: "q = pipeline_submit (dw_sha w) (dw_redact w) (dw_update_ok w) (dw_now w)
        (cv_client (dw_second w)) (mo_pipeline (dw_monitor w)) px (ds_reruns s)" by blast
    obtain s1 where s1: "s1 = (if px_monitored px \<and> \<not> isl (rs_answer q) then emit (Client_Called Rerun_Pipeline) s else s)"
      by blast
    have af: "after_rerun q s1 = (r, s')"
      using e unfolding exec_rerun_def Some option.case Let_def q [symmetric] s1 [symmetric] .
    have "calls s1 \<le> calls s + (if px_monitored px then 1 else 0)" "writes s1 = writes s" "turns s1 = turns s"
      "rules s1 = rules s" "ds_actions s1 = ds_actions s" "cx_monitored (ds_ctx s1) = cx_monitored (ds_ctx s)"
      by (simp_all add: s1 writes_def rules_def turns_def)
    moreover have "List.length (rs_posts q) \<le> (if px_monitored px then 0 else 1)"
      unfolding q by (rule submit_posts_bound)
    ultimately show ?thesis
      using after_rerun_frame [OF af] by (simp add: worked_def Rerun_Pipeline split: if_splits)
  qed
next
  case Get_Rerun_Status
  with assms have "exec_rerun_status w s = (r, s')" by (simp add: execute_def)
  then show ?thesis
    using after_rerun_frame
    by (cases "cx_pipeline (ds_ctx s)")
       (fastforce simp: exec_rerun_status_def Get_Rerun_Status worked_def check_posts_none)+
next
  case Get_Refresh_History
  with assms have "exec_history w args s = (r, s')" by (simp add: execute_def)
  then show ?thesis unfolding Get_Refresh_History exec_history_def Let_def
    by (auto simp: calm_work split: option.splits intro!: calm_on_ctx elim!: call_client_work)
next
  case Get_Refresh_Schedule
  with assms have "exec_schedule w s = (r, s')" by (simp add: execute_def)
  then show ?thesis unfolding Get_Refresh_Schedule exec_schedule_def
    by (rule call_client_work) (auto intro!: calm_on_ctx)
next
  case Consult_DQ
  with assms have "exec_dq w s = (r, s')" by (simp add: execute_def)
  then show ?thesis
    by (auto simp: exec_dq_def Let_def worked_def writes_def rules_def turns_def state_defs calls_def
          dest!: investigate_no_write split: if_splits prod.splits sum.splits dq_stop.splits)
next
  case Write_Flag
  with assms have "exec_flag w args s = (r, s')" by (simp add: execute_def)
  then show ?thesis
    by (intro calm_work)
       (auto simp: exec_flag_def Let_def calm_def writes_def rules_def turns_def state_defs calls_def
          elim!: answered_cases split: option.splits if_splits)
next
  case Notify_Teams
  with assms have "exec_notify w args s = (r, s')" by (simp add: execute_def)
  then show ?thesis
    by (intro calm_work)
       (auto simp: exec_notify_def Let_def calm_def writes_def rules_def turns_def state_defs calls_def
          elim!: answered_cases split: option.splits if_splits)
next
  case Defer_Retry
  with assms have "exec_defer w args s = (r, s')" by (simp add: execute_def)
  then show ?thesis
    by (intro calm_work)
       (auto simp: exec_defer_def Let_def calm_def writes_def rules_def turns_def state_defs calls_def
          split: option.splits if_splits defer_view.splits prod.splits sum.splits)
next
  case Get_Pipeline_Evidence
  with assms have "exec_evidence w s = (r, s')" by (simp add: execute_def)
  then show ?thesis
    by (intro calm_work) (auto simp: exec_evidence_def split: option.splits intro!: calm_on_ctx)
qed (use assms in \<open>simp_all add: execute_def Let_def worked_def writes_def rules_def turns_def state_defs calls_def, (auto simp: calls_def)?\<close>)

text \<open>The tools only ever add effects.\<close>

lemma call_client_grows:
  assumes "call_client a q k s = (r, s')" and "\<And>x t r t'. k x t = (r, t') \<Longrightarrow> ds_effects t' = ds_effects t"
  shows "prefix (ds_effects s) (ds_effects s')"
  using assms by (auto simp: call_client_def split: if_splits elim!: answered_cases)

lemma execute_grows:
  assumes "execute w a args s = (r, s')"
  shows "prefix (ds_effects s) (ds_effects s')"
proof (cases a)
  case Refresh_Dataset
  with assms have "exec_refresh w s = (r, s')" by (simp add: execute_def)
  then show ?thesis unfolding exec_refresh_def by (rule call_client_grows) (auto simp: on_ctx_def)
next
  case Rebind_Gateway
  with assms have "exec_rebind w args s = (r, s')" by (simp add: execute_def)
  then show ?thesis unfolding exec_rebind_def Let_def
    by (auto simp: on_ctx_def split: if_splits elim!: call_client_grows)
next
  case Reenable_Schedule
  with assms have "exec_reenable w s = (r, s')" by (simp add: execute_def)
  then show ?thesis unfolding exec_reenable_def by (rule call_client_grows) (auto simp: on_ctx_def)
next
  case Rerun_Pipeline
  with assms show ?thesis
    by (auto simp: execute_def exec_rerun_def after_rerun_def Let_def state_defs split: option.splits sum.splits if_splits)
next
  case Get_Rerun_Status
  with assms show ?thesis
    by (auto simp: execute_def exec_rerun_status_def after_rerun_def Let_def state_defs split: option.splits sum.splits)
next
  case Get_Refresh_History
  with assms have "exec_history w args s = (r, s')" by (simp add: execute_def)
  then show ?thesis unfolding exec_history_def Let_def
    by (auto simp: on_ctx_def split: option.splits elim!: call_client_grows)
next
  case Get_Refresh_Schedule
  with assms have "exec_schedule w s = (r, s')" by (simp add: execute_def)
  then show ?thesis unfolding exec_schedule_def by (rule call_client_grows) (auto simp: on_ctx_def)
next
  case Consult_DQ
  with assms show ?thesis
    by (auto simp: execute_def exec_dq_def Let_def state_defs split: if_splits prod.splits sum.splits dq_stop.splits)
next
  case Write_Flag
  with assms show ?thesis
    by (auto simp: execute_def exec_flag_def Let_def state_defs elim!: answered_cases split: option.splits if_splits)
next
  case Notify_Teams
  with assms show ?thesis
    by (auto simp: execute_def exec_notify_def Let_def state_defs elim!: answered_cases split: option.splits if_splits)
next
  case Defer_Retry
  with assms show ?thesis
    by (auto simp: execute_def exec_defer_def Let_def state_defs
          split: option.splits if_splits defer_view.splits prod.splits sum.splits)
next
  case Get_Pipeline_Evidence
  with assms show ?thesis
    by (auto simp: execute_def exec_evidence_def state_defs split: option.splits)
qed (use assms in \<open>auto simp: execute_def Let_def state_defs\<close>)

lemma charge_deferred:
  "charge_tool_call now a (is_remediation a) l = (r, l') \<Longrightarrow>
     write_actions l' = write_actions l \<and> policy l' = policy l \<and> llm_turns l' = llm_turns l"
  unfolding charge_tool_call_def check_deadline_def assert_action_allowed_def charge_write_def Let_def is_remediation_def
  by (simp split: if_splits) auto

lemma first_block_idle:
  assumes "first_block w a args s = (r, s')"
  shows "idle s s' \<and> ds_effects s' = ds_effects s"
  using assms precondition_idle [of w a "dw_first w" s r s']
  by (auto simp: first_block_def split: option.splits)

text \<open>The consent that a gated call rests on.\<close>

definition consent :: "dispatch_world \<Rightarrow> action \<Rightarrow> (string, json) dict \<Rightarrow> approval_request \<Rightarrow> approval_decision \<Rightarrow> bool" where
  "consent w a args rq d \<longleftrightarrow>
     rq_action rq = a \<and> (a \<noteq> Rerun_Pipeline \<longrightarrow> rq_arguments rq = args) \<and>
     is_valid_for (gw_digest (dw_gate w)) d rq (dw_answered_at w) = Valid"

definition backed :: "dispatch_world \<Rightarrow> action \<Rightarrow> (string, json) dict \<Rightarrow> dispatcher \<Rightarrow> effect list \<Rightarrow> bool" where
  "backed w a args s new \<longleftrightarrow>
     (if cx_monitored (ds_ctx s) then Reserved_By_Monitoring a \<in> set new
      else \<exists>rq d. Consent_Spent rq d \<in> set new \<and> consent w a args rq d)"

lemma consented_cases:
  assumes "consented w a args s = (r, s')"
  shows "idle s s'" and "prefix (ds_effects s) (ds_effects s')"
    and "r = Inr None \<Longrightarrow> requires_approval a \<Longrightarrow> \<not> cx_monitored (ds_ctx s) \<Longrightarrow>
      \<exists>rq d. cx_pending (ds_ctx s') = Some (rq, d) \<and> consent w a args rq d"
proof -
  have "idle s s' \<and> prefix (ds_effects s) (ds_effects s') \<and>
    (r = Inr None \<longrightarrow> requires_approval a \<longrightarrow> \<not> cx_monitored (ds_ctx s) \<longrightarrow>
      (\<exists>rq d. cx_pending (ds_ctx s') = Some (rq, d) \<and> consent w a args rq d))"
  proof (cases "requires_approval a")
    case True
    with assms have "seek_approval w a args s = (r, s')" by (simp add: consented_def)
    from seek_idle [OF this] show ?thesis by (auto simp: consent_def)
  next
    case False
    with assms show ?thesis by (simp add: consented_def)
  qed
  then show "idle s s'" and "prefix (ds_effects s) (ds_effects s')"
    and "r = Inr None \<Longrightarrow> requires_approval a \<Longrightarrow> \<not> cx_monitored (ds_ctx s) \<Longrightarrow>
      \<exists>rq d. cx_pending (ds_ctx s') = Some (rq, d) \<and> consent w a args rq d" by blast+
qed

lemma admit_cases:
  assumes "admit w a s = (r, s')"
  shows "calls s' = calls s" "rules s' = rules s" "ds_actions s' = ds_actions s"
    "cx_monitored (ds_ctx s') = cx_monitored (ds_ctx s)" "prefix (ds_effects s) (ds_effects s')"
    and "r \<noteq> Inr None \<Longrightarrow> writes s' = writes s"
    and "r = Inr None \<Longrightarrow> writes s' = writes s + 1 \<and> writes s' \<le> limit s"
    and "r = Inr None \<Longrightarrow> cx_monitored (ds_ctx s) \<Longrightarrow> \<exists>new. ds_effects s' = ds_effects s @ new \<and> Reserved_By_Monitoring a \<in> set new"
    and "r = Inr None \<Longrightarrow> \<not> cx_monitored (ds_ctx s) \<Longrightarrow> cx_pending (ds_ctx s) = Some (rq, d) \<Longrightarrow>
      \<exists>new. ds_effects s' = ds_effects s @ new \<and> Consent_Spent rq d \<in> set new"
    and "turns s' = turns s" and "promises s' = promises s"
proof -
  obtain p s1 where p: "precondition w a (dw_second w) s = (p, s1)" by fastforce
  obtain q s2 where q: "reserve_shared w a s1 = (q, s2)" by fastforce
  obtain c s3 where c: "spend_consent w a s2 = (c, s3)" by fastforce
  obtain x s4 where x: "charge_action a s3 = (x, s4)" by fastforce
  note P = precondition_idle [OF p] and Q = reserve_shared_cases [OF q]
    and C = spend_consent_cases [OF c] and X = charge_action_cases [OF x]
  consider "p \<noteq> Inr None" "s' = s1" "r \<noteq> Inr None"
    | "p = Inr None" "q \<noteq> Inr None" "s' = s2" "r \<noteq> Inr None"
    | "p = Inr None" "q = Inr None" "c \<noteq> None" "s' = s3" "r \<noteq> Inr None"
    | "p = Inr None" "q = Inr None" "c = None" "s' = s4" "r = Inr x"
    using assms by (auto simp: admit_def p q c x split: sum.splits option.splits)
  note stages = this
  have all: "promises s' = promises s \<and> turns s' = turns s \<and> calls s' = calls s \<and> rules s' = rules s \<and> ds_actions s' = ds_actions s \<and>
    cx_monitored (ds_ctx s') = cx_monitored (ds_ctx s) \<and> prefix (ds_effects s) (ds_effects s') \<and>
    (r \<noteq> Inr None \<longrightarrow> writes s' = writes s) \<and>
    (r = Inr None \<longrightarrow> writes s' = writes s + 1 \<and> writes s' \<le> limit s)"
    using stages
  proof cases
    case 1
    with P show ?thesis by (auto simp: idle_def calm_def)
  next
    case 2
    with P Q(1,3) show ?thesis by (auto simp: idle_def calm_def)
  next
    case 3
    with P Q(1,3) C(1,2) show ?thesis by (auto simp: idle_def calm_def)
  next
    case 4
    with P Q(1,3) C(1,2) X show ?thesis by (auto simp: idle_def calm_def)
  qed
  then show "calls s' = calls s" "rules s' = rules s" "ds_actions s' = ds_actions s"
    "cx_monitored (ds_ctx s') = cx_monitored (ds_ctx s)" "prefix (ds_effects s) (ds_effects s')"
    and "r \<noteq> Inr None \<Longrightarrow> writes s' = writes s"
    and "r = Inr None \<Longrightarrow> writes s' = writes s + 1 \<and> writes s' \<le> limit s"
    and "turns s' = turns s" and "promises s' = promises s" by blast+
  {
    assume r: "r = Inr None"
    then have ok: "p = Inr None" "q = Inr None" "c = None" "s' = s4" using stages by auto
    show "\<exists>new. ds_effects s' = ds_effects s @ new \<and> Reserved_By_Monitoring a \<in> set new"
      if "cx_monitored (ds_ctx s)"
      using that P Q(4) C(2) X(4) ok by (auto simp: idle_def calm_def)
    show "\<exists>new. ds_effects s' = ds_effects s @ new \<and> Consent_Spent rq d \<in> set new"
      if "\<not> cx_monitored (ds_ctx s)" "cx_pending (ds_ctx s) = Some (rq, d)"
      using that P Q(1,2,3) C(3) X(4) ok by (auto simp: idle_def calm_def)
  }
qed

lemma perform_cases:
  assumes "perform w a args s = (r, s')"
  shows "writes s' = writes s" "rules s' = rules s" "prefix (ds_effects s) (ds_effects s')"
    "calls s' \<le> calls s + (if is_remediation a then 1 else 0)"
    "cx_monitored (ds_ctx s') = cx_monitored (ds_ctx s)"
    and "r = Inr y \<Longrightarrow> \<exists>x. ds_actions s' = ds_actions s @ [x] \<and> ta_tool_name x = a \<and> \<not> ta_blocked x"
    and "turns s \<le> turns s'"
proof -
  obtain q s1 where e: "execute w a args s = (q, s1)" by fastforce
  note E = execute_work [OF e, unfolded worked_def] execute_grows [OF e]
  from assms e have "s' = s1 \<and> (\<forall>y. r \<noteq> Inr y) \<or> (\<exists>y. r = Inr y \<and> s' = record_call w a args y False s1)"
    by (auto simp: perform_def split: sum.splits)
  then show "writes s' = writes s" "rules s' = rules s" "prefix (ds_effects s) (ds_effects s')"
    "calls s' \<le> calls s + (if is_remediation a then 1 else 0)"
    "cx_monitored (ds_ctx s') = cx_monitored (ds_ctx s)"
    and "r = Inr y \<Longrightarrow> \<exists>x. ds_actions s' = ds_actions s @ [x] \<and> ta_tool_name x = a \<and> \<not> ta_blocked x"
    and "turns s \<le> turns s'"
    using E record_entry [of w a args y False s1] by auto
qed

lemma admitted_cases:
  assumes "admitted w a s = (r, s')"
  shows "calls s' = calls s" "rules s' = rules s" "ds_actions s' = ds_actions s"
    "cx_monitored (ds_ctx s') = cx_monitored (ds_ctx s)" "prefix (ds_effects s) (ds_effects s')"
    and "r \<noteq> Inr None \<Longrightarrow> writes s' = writes s"
    and "r = Inr None \<Longrightarrow> writes s' = writes s + (if is_remediation a then 1 else 0) \<and> (is_remediation a \<longrightarrow> writes s' \<le> limit s)"
    and "turns s' = turns s" and "promises s' = promises s"
proof -
  have "promises s' = promises s \<and> turns s' = turns s \<and> calls s' = calls s \<and> rules s' = rules s \<and> ds_actions s' = ds_actions s \<and>
    cx_monitored (ds_ctx s') = cx_monitored (ds_ctx s) \<and> prefix (ds_effects s) (ds_effects s') \<and>
    (r \<noteq> Inr None \<longrightarrow> writes s' = writes s) \<and>
    (r = Inr None \<longrightarrow> writes s' = writes s + (if is_remediation a then 1 else 0) \<and> (is_remediation a \<longrightarrow> writes s' \<le> limit s))"
  proof (cases "is_remediation a")
    case True
    with assms have "admit w a s = (r, s')" by (simp add: admitted_def)
    from admit_cases(1-7,10,11) [OF this] True show ?thesis by auto
  next
    case False
    with assms show ?thesis by (simp add: admitted_def)
  qed
  then show "calls s' = calls s" "rules s' = rules s" "ds_actions s' = ds_actions s"
    "cx_monitored (ds_ctx s') = cx_monitored (ds_ctx s)" "prefix (ds_effects s) (ds_effects s')"
    and "r \<noteq> Inr None \<Longrightarrow> writes s' = writes s"
    and "r = Inr None \<Longrightarrow> writes s' = writes s + (if is_remediation a then 1 else 0) \<and> (is_remediation a \<longrightarrow> writes s' \<le> limit s)"
    and "turns s' = turns s" and "promises s' = promises s"
    by blast+
qed

text \<open>The three ways a dispatch ends: stopped or refused at no cost, or performed.\<close>

definition costless :: "dispatcher \<Rightarrow> dispatcher \<Rightarrow> bool" where
  "costless s s' \<longleftrightarrow> promises s' = promises s \<and> calls s' = calls s \<and> turns s' = turns s \<and> writes s' = writes s \<and> rules s' = rules s \<and>
     ds_actions s' = ds_actions s \<and> cx_monitored (ds_ctx s') = cx_monitored (ds_ctx s) \<and>
     prefix (ds_effects s) (ds_effects s')"

lemma costless_trans: "costless s t \<Longrightarrow> costless t u \<Longrightarrow> costless s u"
  by (auto simp: costless_def intro: prefix_order.trans)

lemma idle_costless: "idle s s' \<Longrightarrow> prefix (ds_effects s) (ds_effects s') \<Longrightarrow> costless s s'"
  by (simp add: idle_def calm_def costless_def)

lemma charged_costless:
  assumes "charge_tool_call now a (is_remediation a) (ledger_of s) = (q, l)"
  shows "costless s (on_ledger (\<lambda>_. l) s)"
  using charge_deferred [OF assms] by (simp add: costless_def writes_def rules_def turns_def promises_def state_defs calls_def)

lemma dispatch_cases:
  assumes "dispatch w a args s = (r, s')"
  obtains (stopped) e where "r = Inl e" "costless s s'"
    | (refused) y t where "r = Inr y" "s' = record_call w a args y True t" "costless s t"
    | (performed) t u where "costless s t" "cx_monitored (ds_ctx t) = cx_monitored (ds_ctx s)"
        "admitted w a t = (Inr None, u)" "perform w a args u = (r, s')"
        "requires_approval a \<Longrightarrow> \<not> cx_monitored (ds_ctx s) \<Longrightarrow>
          \<exists>rq d. cx_pending (ds_ctx t) = Some (rq, d) \<and> consent w a args rq d"
proof -
  obtain q l where c: "charge_tool_call (dw_now w) a (is_remediation a) (ledger_of s) = (q, l)" by fastforce
  obtain s1 where s1: "s1 = on_ledger (\<lambda>_. l) s" by blast
  have C: "costless s s1" unfolding s1 by (rule charged_costless [OF c])
  obtain p s2 where p: "first_block w a args s1 = (p, s2)" by fastforce
  have P: "costless s s2" using first_block_idle [OF p] C idle_costless [of s1 s2] by (auto intro: costless_trans)
  obtain k s3 where k: "consented w a args s2 = (k, s3)" by fastforce
  have K: "costless s s3" using idle_costless [OF consented_cases(1,2) [OF k]] P by (rule costless_trans [rotated])
  obtain m s4 where m: "admitted w a s3 = (m, s4)" by fastforce
  have M: "m \<noteq> Inr None \<Longrightarrow> costless s s4"
    using admitted_cases(1-6,8,9) [OF m] K by (auto simp: costless_def intro: prefix_order.trans)
  note unf = assms [unfolded dispatch_def c prod.case Let_def s1 [symmetric] p k m refuse_def]
  show thesis
  proof (cases q)
    case (Inl v)
    show thesis
    proof (cases "kind_of v = Policy_Blocked")
      case True
      with unf Inl C show thesis by (intro refused) auto
    next
      case False
      with unf Inl C show thesis by (intro stopped) auto
    qed
  next
    case (Inr u)
    note unf1 = unf [unfolded Inr sum.case p k m prod.case]
    consider e where "p = Inl e" | y where "p = Inr (Some y)" | "p = Inr None"
      by (metis not_None_eq sum.exhaust)
    then show thesis
    proof cases
      case 1
      with unf1 P show thesis by (intro stopped) auto
    next
      case 2
      with unf1 P show thesis by (intro refused) auto
    next
      case 3
      note unf2 = unf1 [unfolded 3 sum.case option.case k prod.case]
      consider e where "k = Inl e" | y where "k = Inr (Some y)" | "k = Inr None"
        by (metis not_None_eq sum.exhaust)
      then show thesis
      proof cases
        case 1
        with unf2 K show thesis by (intro stopped) auto
      next
        case 2
        with unf2 K show thesis by (intro refused) auto
      next
        case 3
        note unf3 = unf2 [unfolded 3 sum.case option.case m prod.case]
        consider e where "m = Inl e" | y where "m = Inr (Some y)" | "m = Inr None"
          by (metis not_None_eq sum.exhaust)
        then show thesis
        proof cases
          case 1
          with unf3 M show thesis by (intro stopped) auto
        next
          case 2
          with unf3 M show thesis by (intro refused) auto
        next
          case last: 3
          have "perform w a args s4 = (r, s')" using unf3 [unfolded last sum.case option.case] .
          moreover have "cx_monitored (ds_ctx s2) = cx_monitored (ds_ctx s)" using P by (simp add: costless_def)
          ultimately show thesis
            using K m last 3 consented_cases(3) [OF k] by (intro performed [of s3 s4]) (auto simp: costless_def)
        qed
      qed
    qed
  qed
qed

section \<open>A worked example\<close>

text \<open>An offline run: the mock client, an approving gate, nothing monitored.\<close>

definition offline_view :: check_view where
  "offline_view = \<lparr>cv_admission = Admitted False, cv_now = 0, cv_client = example_client,
     cv_history = Answered [], cv_observe_raises = None\<rparr>"

definition offline_monitor :: monitor_view where
  "offline_monitor = \<lparr>mo_fixture = True, mo_clock = 0, mo_request = Inr, mo_open_raises = None,
     mo_decide_raises = None, mo_reference_raises = None, mo_reserve = Inr (True, []),
     mo_pipeline = \<lambda>_. accepted ''r'', mo_retry_work = None, mo_defer = Defer_Allowed None,
     mo_schedule_raises = None\<rparr>"

definition completed_refresh :: refresh_outcome where
  "completed_refresh = \<lparr>fo_status = ''Completed'', fo_request_id = ''q1'', fo_duration_ms = 5, fo_detail = []\<rparr>"

definition offline_world :: dispatch_world where
  "offline_world =
     \<lparr>dw_sha = id, dw_redact = id, dw_repr = dumps, dw_render = (\<lambda>_. ''reply''),
      dw_retry_allowed = (\<lambda>_ _. True), dw_now = 1000, dw_duration_ms = 1, dw_first = offline_view,
      dw_second = offline_view, dw_gate = example_world, dw_asked_at = 1000, dw_answered_at = 2000,
      dw_consumed_at = 3000, dw_why = (\<lambda>_. []), dw_web_store = (\<lambda>_ _. Some True),
      dw_monitor = offline_monitor, dw_reserve_ok = True, dw_update_ok = True,
      dw_refresh = Answered completed_refresh, dw_rebind = Answered completed_refresh,
      dw_enable = Answered completed_refresh, dw_history = (\<lambda>_. Answered []),
      dw_schedule = Answered (Some False), dw_post = Answered True, dw_flag = Answered,
      dw_flagged_at = ''t'', dw_dq = \<lparr>dv_loads = (\<lambda>_. None), dv_clock = (\<lambda>_. 0), dv_later = 0, dv_provider = None\<rparr>,
      dw_retry_hook = quiet\<rparr>"

definition offline_request :: bi_request where
  "offline_request =
     \<lparr>bi_request_id = ''m1'', bi_received_at = ''t0'', bi_sender = ''bi'', bi_subject = ''refresh failed'',
      bi_body = [], bi_report_name = None, bi_dataset_id = None, bi_workspace_id = None,
      bi_error_code = None, bi_source = Src_Mock\<rparr>"

definition offline_context :: "triage_policy \<Rightarrow> tool_context" where
  "offline_context p =
     \<lparr>cx_request = offline_request, cx_ledger = new_ledger p 0, cx_mock_client = Some True,
      cx_datasets = [], cx_dq_agent = False, cx_known = None, cx_signature = ''sig'',
      cx_dq_finding = None, cx_remediation = None, cx_resolution = None, cx_notifications = [],
      cx_flag_written = False, cx_attempted = False, cx_delivered = False, cx_suppressed = False,
      cx_workspace_id = ''w'', cx_dataset_id = ''d'', cx_schedule_enabled = None,
      cx_gate = Some (Base_Gate (Approves ''ann'') {}), cx_has_retries = True, cx_pipeline = None,
      cx_run_id = ''run'', cx_retry_deferred = False, cx_approval_timeout = 300, cx_approvals = [],
      cx_gateway_rebound_to = [], cx_deactivation_risk = None, cx_monitored = False,
      cx_pending = None\<rparr>"

definition offline_start :: "triage_policy \<Rightarrow> dispatcher" where
  "offline_start p = new_dispatcher (offline_context p) [] \<lparr>rs_items = [], rs_backing = ()\<rparr>"

definition gateway_args :: "(string, json) dict" where
  "gateway_args = [(''target_gateway'', JStr ''gw2''), (''justification'', JStr ''offline'')]"

lemma example_rebind:
  "calls (offline_start default_policy)
     < calls (snd (dispatch offline_world Rebind_Gateway gateway_args (offline_start default_policy)))"
  "\<not> isl (fst (dispatch offline_world Rebind_Gateway gateway_args (offline_start default_policy)))"
  by code_simp+

section \<open>Properties\<close>

definition dispatch_step :: "dispatch_world \<times> action \<times> (string, json) dict \<Rightarrow> dispatcher \<Rightarrow>
    (stop + tool_reply) \<times> dispatcher" where
  "dispatch_step = (\<lambda>(w, a, args). dispatch w a args)"

definition within_writes :: "dispatcher \<Rightarrow> bool" where
  "within_writes s \<longleftrightarrow> int (calls s) \<le> writes s \<and> writes s \<le> limit s"

lemma dispatch_within:
  assumes "dispatch w a args s = (r, s')" and "within_writes s"
  shows "within_writes s' \<and> rules s' = rules s"
  using assms(1)
proof (cases rule: dispatch_cases)
  case (performed t u)
  from admitted_cases(1,2,7) [OF performed(3)] perform_cases(1,2,4) [OF performed(4)] performed(1) assms(2)
  show ?thesis by (auto simp: within_writes_def costless_def)
qed (use assms(2) in \<open>auto simp: within_writes_def costless_def\<close>)

text \<open>A dispatch keeps the policy and gives no turn back.\<close>

lemma dispatch_turns:
  assumes "dispatch w a args s = (r, s')"
  shows "rules s' = rules s \<and> turns s \<le> turns s'"
  using assms
proof (cases rule: dispatch_cases)
  case (performed t u)
  from admitted_cases(2,8) [OF performed(3)] perform_cases(2,7) [OF performed(4)] performed(1)
  show ?thesis by (simp add: costless_def)
qed (simp_all add: costless_def)

lemma run_within:
  "within_writes s \<Longrightarrow> within_writes (run dispatch_step xs s) \<and> rules (run dispatch_step xs s) = rules s"
proof (induction xs arbitrary: s)
  case (Cons x xs)
  obtain w a args where x: "x = (w, a, args)" by (metis prod_cases3)
  obtain r s1 where d: "dispatch w a args s = (r, s1)" by fastforce
  from dispatch_within [OF d Cons.prems] Cons.IH [of s1] show ?case
    by (simp add: x d dispatch_step_def)
qed simp

text \<open>
  C1. The remediation budget binds the service, not only the ledger: after any sequence of
  tool calls the model may make, whatever the outside answers and however approvals go,
  the calls made to the service to change something are at most the writes charged, and
  these are at most the policy's limit.
\<close>

theorem remediation_calls_within_budget:
  assumes "cx_ledger c = new_ledger p now" and "0 \<le> max_write_actions p"
  shows "let s = run dispatch_step xs (new_dispatcher c reruns retries)
    in int (calls s) \<le> write_actions (ledger_of s) \<and> write_actions (ledger_of s) \<le> max_write_actions p"
proof -
  have "within_writes (new_dispatcher c reruns retries)" "rules (new_dispatcher c reruns retries) = p"
    using assms
    by (simp_all add: within_writes_def new_dispatcher_def calls_def writes_def rules_def turns_def ledger_of_def new_ledger_def)
  with run_within [OF this(1), of xs] show ?thesis
    by (auto simp: Let_def within_writes_def writes_def)
qed

theorem remediation_calls_within_budget_witness:
  "int (calls (run dispatch_step (replicate 3 (offline_world, Refresh_Dataset, []))
     (offline_start default_policy))) \<le> 1"
proof -
  have "cx_ledger (offline_context default_policy) = new_ledger default_policy 0"
    "0 \<le> max_write_actions default_policy"
    by (simp_all add: offline_context_def default_policy_def)
  from remediation_calls_within_budget [OF this, of "replicate 3 (offline_world, Refresh_Dataset, [])" "[]"
      "\<lparr>rs_items = [], rs_backing = ()\<rparr>"]
  show ?thesis unfolding offline_start_def Let_def by (simp add: default_policy_def)
qed

text \<open>
  C3. A refusal is free and everything is on record: a tool call that is answered adds
  exactly one audit entry under its name; one that was blocked, not approved or refused for
  any other reason made no call to the service and charged no write, and one that was
  carried out charged exactly one write if it is a remediation and none otherwise.
\<close>

theorem refusals_are_free:
  assumes "dispatch w a args s = (Inr reply, s')"
  shows "\<exists>entry. ds_actions s' = ds_actions s @ [entry] \<and> ta_tool_name entry = a \<and>
    write_actions (ledger_of s') = write_actions (ledger_of s)
      + (if \<not> ta_blocked entry \<and> is_remediation a then 1 else 0) \<and>
    (ta_blocked entry \<longrightarrow> calls s' = calls s)"
  using assms
proof (cases rule: dispatch_cases)
  case (performed t u)
  from admitted_cases(3,7) [OF performed(3)] perform_cases(1,6) [OF performed(4)] performed(1)
  show ?thesis by (auto simp: costless_def writes_def)
next
  case (refused y t)
  with record_entry [of w a args y True t] show ?thesis by (auto simp: costless_def writes_def)
qed auto

theorem refusals_are_free_witness:
  "\<exists>entry. ds_actions (snd (dispatch offline_world Rebind_Gateway [] (offline_start default_policy))) = [entry]"
proof -
  obtain reply s' where d: "dispatch offline_world Rebind_Gateway [] (offline_start default_policy) = (Inr reply, s')"
  proof -
    have "\<not> isl (fst (dispatch offline_world Rebind_Gateway [] (offline_start default_policy)))" by code_simp
    then show thesis using that by (metis prod.collapse sum.collapse(2))
  qed
  from refusals_are_free [OF d] obtain entry where "ds_actions s' = ds_actions (offline_start default_policy) @ [entry]"
    by blast
  with d show ?thesis by (simp add: offline_start_def new_dispatcher_def)
qed

text \<open>
  C2. No gated call without consent: when a dispatch of an action that needs approval made
  a call to the service, it first spent a decision that was granted for this very action
  and these arguments and had not expired when it was given, or, in a monitored run, the
  shared reservation, which takes the consent, was won.
\<close>

theorem gated_call_needs_consent:
  assumes "dispatch w a args s = (r, s')" and "requires_approval a" and "calls s < calls s'"
  shows "\<exists>new. ds_effects s' = ds_effects s @ new \<and> backed w a args s new"
  using assms(1)
proof (cases rule: dispatch_cases)
  case (performed t u)
  have "admit w a t = (Inr None, u)"
    using performed(3) approval_implies_remediation [OF assms(2)] by (simp add: admitted_def)
  note A = admit_cases(8,9) [OF this]
  obtain e1 where e1: "ds_effects t = ds_effects s @ e1"
    using performed(1) by (auto simp: costless_def prefix_def)
  obtain e3 where e3: "ds_effects s' = ds_effects u @ e3"
    using perform_cases(3) [OF performed(4)] by (auto simp: prefix_def)
  show ?thesis
  proof (cases "cx_monitored (ds_ctx s)")
    case True
    with A(1) performed(2) obtain e2 where "ds_effects u = ds_effects t @ e2" "Reserved_By_Monitoring a \<in> set e2"
      by auto
    with e1 e3 True show ?thesis by (intro exI [of _ "e1 @ e2 @ e3"]) (simp add: backed_def)
  next
    case False
    with performed(5) assms(2) obtain rq d where p: "cx_pending (ds_ctx t) = Some (rq, d)" "consent w a args rq d"
      by blast
    with A(2) False performed(2) obtain e2 where "ds_effects u = ds_effects t @ e2" "Consent_Spent rq d \<in> set e2"
      by auto
    with e1 e3 False p show ?thesis by (intro exI [of _ "e1 @ e2 @ e3"]) (auto simp: backed_def)
  qed
qed (use assms(3) in \<open>auto simp: costless_def\<close>)

theorem gated_call_needs_consent_witness:
  "\<exists>rq d. Consent_Spent rq d \<in> set (ds_effects (snd (dispatch offline_world Rebind_Gateway gateway_args
       (offline_start default_policy)))) \<and> consent offline_world Rebind_Gateway gateway_args rq d"
proof -
  obtain r s' where d: "dispatch offline_world Rebind_Gateway gateway_args (offline_start default_policy) = (r, s')"
    by fastforce
  have "requires_approval Rebind_Gateway" by (simp add: requires_approval_def taxonomy_defs)
  moreover have "calls (offline_start default_policy) < calls s'" using example_rebind(1) d by simp
  moreover have "\<not> cx_monitored (ds_ctx (offline_start default_policy))"
    by (simp add: offline_start_def new_dispatcher_def offline_context_def)
  ultimately show ?thesis
    using gated_call_needs_consent [OF d] d by (fastforce simp: backed_def)
qed

definition two_writes :: triage_policy where
  "two_writes = default_policy\<lparr>max_write_actions := 2\<rparr>"


end
