(* ===== verification/Agent.thy ===== *)
theory Agent
  imports Dispatcher
begin

text \<open>
  \<^verbatim>\<open>src/src/triage/agents/triage_agent.py\<close> and \<^verbatim>\<open>agents/triage.py\<close>: the controller loop.
  The language model is the outside: for every turn the world says what it answered, given
  the tools it was offered. The loop charges the turn and the tokens, dispatches the calls
  in order, and at the end holds the model's claim against what the tools left behind.
  A dispatch that waits for a human forever makes the run \<open>None\<close>.
\<close>

section \<open>The loop\<close>

record model_response =
  mr_content :: string
  mr_tool_calls :: "(action \<times> (string, json) dict) list"
  mr_prompt_tokens :: int
  mr_completion_tokens :: int

definition total_tokens :: "model_response \<Rightarrow> int" where
  "total_tokens r = mr_prompt_tokens r + mr_completion_tokens r"

definition wants_tools :: "model_response \<Rightarrow> bool" where
  "wants_tools r \<longleftrightarrow> mr_tool_calls r \<noteq> []"

text \<open>The provider answers, or raises an exception of some class.\<close>

datatype model_reply = Model_Answered model_response | Model_Raised string

record agent_world =
  aw_started :: instant
  aw_now :: "nat \<Rightarrow> instant"
  aw_model :: "nat \<Rightarrow> action list \<Rightarrow> model_reply"
  aw_dispatch :: "nat \<Rightarrow> nat \<Rightarrow> dispatch_world"
  aw_finished :: instant
  aw_repr :: "json \<Rightarrow> string"
  aw_redact :: "string \<Rightarrow> string"
  aw_crash_text :: "string \<Rightarrow> string"

definition TRIAGE_TOOLS :: "action list" where
  "TRIAGE_TOOLS =
     [Get_Pipeline_Evidence, Rerun_Pipeline, Get_Rerun_Status, Get_Request_Context, Get_Known_Incidents,
      Get_Refresh_History, Consult_DQ, Refresh_Dataset, Rebind_Gateway, Get_Refresh_Schedule,
      Reenable_Schedule, Defer_Retry, Write_Flag, Notify_Teams, Report_Resolution]"

definition offered_tools :: "dispatcher \<Rightarrow> action list" where
  "offered_tools s = filter (\<lambda>a. a \<in> allowed_actions (policy (ledger_of s))) TRIAGE_TOOLS"

text \<open>
  The calls of one answer, in order. \<open>Inr True\<close>: a resolution was reported, whatever the
  dispatcher said to it, and the calls after it are not made.
\<close>

fun dispatch_calls :: "(nat \<Rightarrow> dispatch_world) \<Rightarrow> nat \<Rightarrow> (action \<times> (string, json) dict) list \<Rightarrow>
    dispatcher \<Rightarrow> (stop + bool) \<times> dispatcher" where
  "dispatch_calls ws i [] s = (Inr False, s)"
| "dispatch_calls ws i ((a, args) # cs) s =
     (case dispatch (ws i) a args s of
        (Inl e, s1) \<Rightarrow> (Inl e, s1)
      | (Inr _, s1) \<Rightarrow>
          if a = Report_Resolution then (Inr True, s1) else dispatch_calls ws (Suc i) cs s1)"

text \<open>
  One round of \<open>_loop\<close>. \<open>Inl\<close>: the loop is over, with what stopped it, if anything.
\<close>

definition agent_turn :: "agent_world \<Rightarrow> nat \<Rightarrow> dispatcher \<Rightarrow> (stop option + unit) \<times> dispatcher" where
  "agent_turn w i s =
     (case charge_llm_turn (aw_now w i) (ledger_of s) of
        (Inl v, l) \<Rightarrow> (Inl (Some (Violated v)), on_ledger (\<lambda>_. l) s)
      | (Inr _, l) \<Rightarrow>
          let s1 = on_ledger (\<lambda>_. l) s
          in (case aw_model w i (offered_tools s1) of
                Model_Raised e \<Rightarrow> (Inl (Some (Crashed e)), s1)
              | Model_Answered r \<Rightarrow>
                  (case charge_tokens (total_tokens r) (ledger_of s1) of
                     (Inl v, l2) \<Rightarrow> (Inl (Some (Violated v)), on_ledger (\<lambda>_. l2) s1)
                   | (Inr _, l2) \<Rightarrow>
                       let s2 = on_ledger (\<lambda>_. l2) s1
                       in if \<not> wants_tools r then (Inl None, s2)
                          else (case dispatch_calls (aw_dispatch w i) 0 (mr_tool_calls r) s2 of
                                  (Inl e, s3) \<Rightarrow> (Inl (Some e), s3)
                                | (Inr True, s3) \<Rightarrow> (Inl None, s3)
                                | (Inr False, s3) \<Rightarrow> (Inr (), s3)))))"

lemma dispatch_calls_turns:
  "dispatch_calls ws i cs s = (r, s') \<Longrightarrow> rules s' = rules s \<and> turns s \<le> turns s'"
proof (induction ws i cs s rule: dispatch_calls.induct)
  case (2 ws i a args cs s)
  obtain q s1 where d: "dispatch (ws i) a args s = (q, s1)" by fastforce
  from dispatch_turns [OF d] 2 d show ?case
    by (fastforce split: sum.splits if_splits)
qed simp

lemma charge_turn_turns:
  assumes "charge_llm_turn now l = (q, l')"
  shows "policy l' = policy l" "llm_turns l \<le> llm_turns l'"
    "\<not> isl q \<Longrightarrow> llm_turns l' = llm_turns l + 1 \<and> llm_turns l < max_llm_turns (policy l)"
  using assms by (auto simp: charge_llm_turn_def check_deadline_def split: if_splits)

lemma charge_tokens_frame:
  assumes "charge_tokens n l = (q, l')"
  shows "policy l' = policy l" "llm_turns l' = llm_turns l" "write_actions l' = write_actions l"
  using assms by (auto simp: charge_tokens_def Let_def split: if_splits)

lemma agent_turn_continues:
  assumes "agent_turn w i s = (Inr u, s')"
  shows "rules s' = rules s" "turns s < turns s'" "turns s < max_llm_turns (rules s)"
proof -
  obtain q l where c: "charge_llm_turn (aw_now w i) (ledger_of s) = (q, l)" by fastforce
  obtain s1 where s1: "s1 = on_ledger (\<lambda>_. l) s" by blast
  note unf = assms [unfolded agent_turn_def c Let_def prod.case]
  from unf have q: "\<not> isl q" by (auto split: sum.splits)
  from unf q obtain r l2 s2 where
    s2: "s2 = on_ledger (\<lambda>_. l2) s1" and t: "charge_tokens (total_tokens r) (ledger_of s1) = (Inr (), l2)"
    and d: "dispatch_calls (aw_dispatch w i) 0 (mr_tool_calls r) s2 = (Inr False, s')"
    unfolding s1 by (auto split: sum.splits model_reply.splits prod.splits if_splits bool.splits)
  from dispatch_calls_turns [OF d] charge_turn_turns [OF c] q charge_tokens_frame [OF t]
  show "rules s' = rules s" "turns s < turns s'" "turns s < max_llm_turns (rules s)"
    by (simp_all add: s1 s2 rules_def turns_def)
qed

text \<open>
  The loop itself. It ends because every round charges a turn and the ledger refuses to go
  past the policy's limit, which no dispatch changes.
\<close>

function agent_loop :: "agent_world \<Rightarrow> nat \<Rightarrow> dispatcher \<Rightarrow> stop option \<times> dispatcher" where
  "agent_loop w i s =
     (case agent_turn w i s of
        (Inl e, s1) \<Rightarrow> (e, s1)
      | (Inr _, s1) \<Rightarrow> agent_loop w (Suc i) s1)"
  by auto
termination
proof (relation "measure (\<lambda>(w, i, s). nat (max_llm_turns (rules s) - turns s))", goal_cases)
  case (2 w i s q s1 u)
  then have "agent_turn w i s = (Inr u, s1)" by simp
  from agent_turn_continues [OF this] show ?case by simp
qed simp

declare agent_loop.simps [simp del]

section \<open>The verdict on a run\<close>

definition VALID_OUTCOMES :: "outcome list" where
  "VALID_OUTCOMES =
     [Resolved, Flagged_Data_Quality, Duplicate_Suppressed, Approval_Denied, Deferred_Retry,
      Needs_Human, Declared_Failed]"

fun override_of :: "violation_kind \<Rightarrow> outcome" where
  "override_of Max_Turns_Exceeded = Max_Turns_Exceeded_Run"
| "override_of Budget_Exceeded = Budget_Exceeded_Run"
| "override_of Timed_Out = Timed_Out_Run"
| "override_of Policy_Blocked = Policy_Blocked_Run"
| "override_of Approval_Denied_Kind = Approval_Denied"

definition summary_for_override :: "outcome \<Rightarrow> string \<Rightarrow> string" where
  "summary_for_override kind exception_class =
     (case kind of
        Timed_Out_Run \<Rightarrow> ''Run exceeded its wall-clock budget and was stopped by the controller.''
      | Budget_Exceeded_Run \<Rightarrow> ''Run exhausted its token or tool-call budget and was stopped.''
      | Max_Turns_Exceeded_Run \<Rightarrow> ''Run reached the maximum number of reasoning turns without resolving.''
      | Policy_Blocked_Run \<Rightarrow> ''Run was stopped because the agent attempted a disallowed action.''
      | Agent_Crashed \<Rightarrow> ''Agent crashed with '' @ str_or exception_class ''an unhandled exception''
                         @ ''. Recorded for investigation.''
      | _ \<Rightarrow> ''Run ended without a resolution.'')"

fun verdict_text :: "verdict \<Rightarrow> string" where
  "verdict_text Granted = ''granted''"
| "verdict_text Denied = ''denied''"
| "verdict_text Timed_Out_Verdict = ''timed_out''"
| "verdict_text Error_Verdict = ''error''"

definition ungranted :: "tool_context \<Rightarrow> approval_record list" where
  "ungranted c = filter (\<lambda>a. \<not> ap_granted a) (cx_approvals c)"

text \<open>Why a claimed outcome is not believed: the checks in their order, the first one counts.\<close>

definition objection :: "outcome \<Rightarrow> tool_context \<Rightarrow> string option" where
  "objection claim c =
     (if claim = Resolved \<and> ungranted c \<noteq> [] \<and> \<not> list_ex ap_granted (cx_approvals c)
      then Some (''Agent reported success, but the action it proposed was not approved (''
                 @ verdict_text (ap_outcome (last (ungranted c))) @ '').'')
      else if claim = Resolved \<and> \<not> verified_remediation c
      then Some ''Agent reported success, but no remediation completed successfully.''
      else if claim = Deferred_Retry \<and> \<not> cx_retry_deferred c
      then Some ''Agent reported a deferred retry, but no retry was scheduled.''
      else if claim = Flagged_Data_Quality
        \<and> (case cx_dq_finding c of None \<Rightarrow> True | Some f \<Rightarrow> \<not> dq_has_issue f)
      then Some ''Agent reported a data quality issue that the deterministic scan did not find.''
      else if claim = Flagged_Data_Quality \<and> \<not> cx_flag_written c
      then Some ''Agent reported the issue as flagged, but no flag row was written.''
      else if claim = Duplicate_Suppressed \<and> cx_known c = None
      then Some ''Agent suppressed the alert as a duplicate, but no open incident matched its signature.''
      else if claim = Approval_Denied \<and> ungranted c = []
      then Some ''Agent reported that approval was denied, but no approval was ever requested.''
      else if blocked_attempts (cx_ledger c) \<noteq> [] \<and> claim \<in> {Resolved, Flagged_Data_Quality}
      then Some (''Run completed, but the agent attempted ''
                 @ show_int (int (List.length (blocked_attempts (cx_ledger c))))
                 @ '' action(s) that policy refused (''
                 @ join_with '', '' (map action_name (blocked_attempts (cx_ledger c))) @ '').'')
      else None)"

definition downgrade :: "string \<Rightarrow> string \<Rightarrow> outcome \<times> string" where
  "downgrade summary reason =
     (Needs_Human, py_strip (reason @ '' Downgraded by the controller. '' @ summary))"

definition validate_outcome :: "outcome \<Rightarrow> string \<Rightarrow> tool_context \<Rightarrow> outcome \<times> string" where
  "validate_outcome claim summary c =
     (case objection claim c of None \<Rightarrow> (claim, summary) | Some why \<Rightarrow> downgrade summary why)"

definition claimed_outcome :: "(json \<Rightarrow> string) \<Rightarrow> (string, json) dict \<Rightarrow> outcome" where
  "claimed_outcome repr reported =
     (case parse_outcome (if truthy (get_value reported ''outcome'')
                          then py_str repr (get_value reported ''outcome'') else ''needs_human'') of
        None \<Rightarrow> Needs_Human
      | Some x \<Rightarrow> if x \<in> set VALID_OUTCOMES then x else Needs_Human)"

definition action_taken :: "triage_action list \<Rightarrow> string" where
  "action_taken xs =
     (case find (\<lambda>x. ta_is_remediation x \<and> \<not> ta_blocked x) xs of
        Some x \<Rightarrow> action_name (ta_tool_name x)
      | None \<Rightarrow>
          (case find (\<lambda>x. ta_tool_name x = Write_Flag \<and> \<not> ta_blocked x) xs of
             Some x \<Rightarrow> action_name (ta_tool_name x)
           | None \<Rightarrow> []))"

text \<open>The labels of a classification; any other value makes it fail its validation.\<close>

definition tier_of :: "json \<Rightarrow> tier option" where
  "tier_of v =
     (if v = JStr ''tier_1'' then Some Tier_1 else if v = JStr ''tier_2'' then Some Tier_2
      else if v = JStr ''needs_human'' then Some Tier_Needs_Human else None)"

definition category_of :: "json \<Rightarrow> category option" where
  "category_of v =
     (if v = JStr ''transient'' then Some Transient else if v = JStr ''data_quality'' then Some Data_Quality
      else if v = JStr ''config'' then Some Config else if v = JStr ''app'' then Some App
      else if v = JStr ''user'' then Some User else None)"

definition severity_of :: "json \<Rightarrow> severity option" where
  "severity_of v =
     (if v = JStr ''low'' then Some Low else if v = JStr ''medium'' then Some Medium
      else if v = JStr ''high'' then Some High else None)"

text \<open>\<open>[str(r) for r in v]\<close>: a list, the characters of a text, the keys of an object.\<close>

fun texts_in :: "(json \<Rightarrow> string) \<Rightarrow> json \<Rightarrow> string list option" where
  "texts_in repr (JList vs) = Some (map (py_str repr) vs)"
| "texts_in repr (JStr s) = Some (map (\<lambda>c. [c]) s)"
| "texts_in repr (JObj kvs) = Some (map fst kvs)"
| "texts_in repr _ = None"

definition get_or :: "(string, json) dict \<Rightarrow> string \<Rightarrow> string \<Rightarrow> json" where
  "get_or d k dflt = (case map_of d k of None \<Rightarrow> JStr dflt | Some v \<Rightarrow> v)"

definition classification_from :: "(json \<Rightarrow> string) \<Rightarrow> (string, json) dict \<Rightarrow> classification option" where
  "classification_from repr reported =
     (if reported = [] then None
      else case (tier_of (get_or reported ''tier'' ''needs_human''),
                 category_of (get_or reported ''category'' ''app''),
                 severity_of (get_or reported ''severity'' ''medium''),
                 (if truthy (get_value reported ''reasoning'')
                  then texts_in repr (get_value reported ''reasoning'') else Some [])) of
             (Some t, Some c, Some v, Some rs) \<Rightarrow>
               Some \<lparr>tc_tier = t, tc_category = c, tc_severity = v,
                     tc_root_cause = text_of_arg repr reported ''root_cause'', tc_reasoning = rs,
                     tc_proposed_action = [],
                     tc_requires_human = get_value reported ''outcome'' \<in> {JStr ''needs_human'', JStr ''declared_failed''}\<rparr>
           | _ \<Rightarrow> None)"

text \<open>What ended the loop: nothing, a violation, or an exception that is recorded.\<close>

definition verdict_of :: "agent_world \<Rightarrow> stop option \<Rightarrow> (string, json) dict \<Rightarrow> tool_context \<Rightarrow> outcome \<times> string" where
  "verdict_of w ending reported c =
     (case ending of
        Some (Violated v) \<Rightarrow> (override_of (kind_of v), summary_for_override (override_of (kind_of v)) [])
      | Some (Crashed e) \<Rightarrow> (Agent_Crashed, summary_for_override Agent_Crashed e)
      | _ \<Rightarrow> validate_outcome (claimed_outcome (aw_repr w) reported)
               (text_or_empty (aw_repr w) reported ''summary'') c)"

definition build_result :: "agent_world \<Rightarrow> stop option \<Rightarrow> dispatcher \<Rightarrow> triage_result" where
  "build_result w ending s =
     (let c = ds_ctx s; l = cx_ledger c;
          reported = (case cx_resolution c of None \<Rightarrow> [] | Some d \<Rightarrow> d);
          (verdict, summary) = verdict_of w ending reported c;
          undelivered = (cx_attempted c \<and> \<not> cx_delivered c \<and> \<not> cx_suppressed c);
          crash = (case ending of Some (Crashed e) \<Rightarrow> e | _ \<Rightarrow> [])
      in \<lparr>tr_outcome = verdict,
          tr_summary = (if undelivered
                        then py_strip (summary @ '' WARNING: the resolution summary was not delivered.'')
                        else summary),
          tr_request_id = bi_request_id (cx_request c), tr_signature = cx_signature c,
          tr_signature_version = ''v1'', tr_root_cause = text_or_empty (aw_repr w) reported ''root_cause'',
          tr_action_taken = action_taken (ds_actions s),
          tr_classification = classification_from (aw_repr w) reported,
          tr_dq_finding = cx_dq_finding c, tr_actions = ds_actions s, tr_approvals = cx_approvals c,
          tr_llm_turns = llm_turns l, tr_tool_calls = tool_calls l, tr_write_actions = write_actions l,
          tr_attempted_actions = attempted_actions l, tr_tokens_used = tokens_used l,
          tr_wall_clock_ms = elapsed_ms (aw_finished w) l, tr_blocked_attempts = blocked_attempts l,
          tr_denied_actions = denied_actions l, tr_notification_failed = undelivered,
          tr_notification_delivered = cx_delivered c, tr_notification_suppressed = cx_suppressed c,
          tr_exception_class = crash,
          tr_exception_message = (case ending of
             Some (Crashed e) \<Rightarrow> take 1000 (aw_redact w (aw_crash_text w e)) | _ \<Rightarrow> [])\<rparr>)"

section \<open>One run\<close>

record triage_deps =
  dp_mock_client :: "bool option"
  dp_datasets :: "dataset_source list"
  dp_dq_agent :: bool
  dp_workspace_id :: string
  dp_dataset_id :: string
  dp_signature :: string
  dp_known :: "incident option"
  dp_gate :: "gate option"
  dp_approval_timeout :: int
  dp_retries :: bool
  dp_pipeline :: "pipeline_context option"
  dp_run_id :: string
  dp_monitored :: bool

text \<open>A pipeline failure gets the pipeline tools and at most one write; a report never gets them.\<close>

definition run_policy :: "triage_policy \<Rightarrow> triage_deps \<Rightarrow> triage_policy" where
  "run_policy p d =
     p\<lparr>allowed_actions :=
         (if dp_pipeline d \<noteq> None then allowed_actions p \<inter> PIPELINE_ACTIONS
          else allowed_actions p - {Get_Pipeline_Evidence, Get_Rerun_Status, Rerun_Pipeline}),
       max_write_actions :=
         (if dp_pipeline d \<noteq> None then min 1 (max_write_actions p) else max_write_actions p)\<rparr>"

definition id_or :: "string \<Rightarrow> string option \<Rightarrow> string" where
  "id_or a b = str_or a (case b of None \<Rightarrow> [] | Some x \<Rightarrow> x)"

definition initial_context :: "instant \<Rightarrow> triage_policy \<Rightarrow> bi_request \<Rightarrow> triage_deps \<Rightarrow> tool_context" where
  "initial_context now p rq d =
     \<lparr>cx_request = rq, cx_ledger = new_ledger (run_policy p d) now, cx_mock_client = dp_mock_client d,
      cx_datasets = dp_datasets d, cx_dq_agent = dp_dq_agent d, cx_known = dp_known d,
      cx_signature = dp_signature d, cx_dq_finding = None, cx_remediation = None, cx_resolution = None,
      cx_notifications = [], cx_flag_written = False, cx_attempted = False, cx_delivered = False,
      cx_suppressed = False, cx_workspace_id = id_or (dp_workspace_id d) (bi_workspace_id rq),
      cx_dataset_id = id_or (dp_dataset_id d) (bi_dataset_id rq), cx_schedule_enabled = None,
      cx_gate = dp_gate d, cx_has_retries = dp_retries d, cx_pipeline = dp_pipeline d,
      cx_run_id = dp_run_id d, cx_retry_deferred = False, cx_approval_timeout = dp_approval_timeout d,
      cx_approvals = [], cx_gateway_rebound_to = [], cx_deactivation_risk = None,
      cx_monitored = dp_monitored d, cx_pending = None\<rparr>"

definition start_state :: "agent_world \<Rightarrow> triage_policy \<Rightarrow> bi_request \<Rightarrow> triage_deps \<Rightarrow> rerun_rows \<Rightarrow>
    unit retry_store \<Rightarrow> dispatcher" where
  "start_state w p rq d reruns retries = new_dispatcher (initial_context (aw_started w) p rq d) reruns retries"

text \<open>\<open>None\<close> when a dispatch never came back; otherwise the result and what was left behind.\<close>

definition triage_run :: "agent_world \<Rightarrow> triage_policy \<Rightarrow> bi_request \<Rightarrow> triage_deps \<Rightarrow> rerun_rows \<Rightarrow>
    unit retry_store \<Rightarrow> (triage_result \<times> dispatcher) option" where
  "triage_run w p rq d reruns retries =
     (case agent_loop w 0 (start_state w p rq d reruns retries) of
        (Some Endless, _) \<Rightarrow> None
      | (ending, s) \<Rightarrow> Some (build_result w ending s, s))"

text \<open>
  The agent of a monitored run (\<^verbatim>\<open>agents/triage.py\<close>) also raises the persistence error that
  the execution met on the way, if there was one.
\<close>

definition monitored_run :: "agent_world \<Rightarrow> triage_policy \<Rightarrow> bi_request \<Rightarrow> triage_deps \<Rightarrow> rerun_rows \<Rightarrow>
    unit retry_store \<Rightarrow> string option \<Rightarrow> ((string + triage_result) \<times> dispatcher) option" where
  "monitored_run w p rq d reruns retries persistence_error =
     map_option
       (\<lambda>(r, s). (case (if dp_monitored d then persistence_error else None) of
                    Some e \<Rightarrow> (Inl e, s) | None \<Rightarrow> (Inr r, s)))
       (triage_run w p rq d reruns retries)"

section \<open>Claims backed by traces\<close>

text \<open>
  The flags in the context that the verdict reads are set only by tools that left the
  matching trace outside.
\<close>

definition honest :: "dispatcher \<Rightarrow> bool" where
  "honest s \<longleftrightarrow>
     (let c = ds_ctx s; E = set (ds_effects s)
      in (cx_flag_written c \<longrightarrow> (\<exists>f. Flag_Appended f \<in> E)) \<and>
         (cx_retry_deferred c \<and> \<not> cx_monitored c \<longrightarrow> (\<exists>row. Retry_Stored row \<in> E \<and> rt_status row = Pending)) \<and>
         (cx_delivered c \<longrightarrow> (\<exists>n. Card_Posted n \<in> E)) \<and>
         (\<forall>r. cx_remediation c = Some (Refresh_Result r) \<longrightarrow> (\<exists>a. Client_Called a \<in> E \<and> is_remediation a)))"

lemma honest_kept:
  assumes "honest s" "promises s' = promises s" "cx_monitored (ds_ctx s') = cx_monitored (ds_ctx s)"
    "set (ds_effects s) \<subseteq> set (ds_effects s')"
  shows "honest s'"
  using assms by (auto simp: honest_def promises_def Let_def)

lemma call_client_honest:
  assumes "call_client a q k s = (r, s')" "honest s"
    and "\<And>x t. honest t \<Longrightarrow> is_remediation a \<Longrightarrow> Client_Called a \<in> set (ds_effects t) \<Longrightarrow> honest (snd (k x t))"
    and "\<And>x t. honest t \<Longrightarrow> \<not> is_remediation a \<Longrightarrow> honest (snd (k x t))"
  shows "honest s'"
proof -
  have e: "honest (emit (Client_Called a) s)"
    using assms(2) by (rule honest_kept) (auto simp: promises_def)
  show ?thesis
    using assms(1,2) assms(3) [OF e] assms(4) e
    by (auto simp: call_client_def answered_def split: if_splits reply.splits) (metis snd_conv)+
qed

lemma answered_honest:
  assumes "answered q k s = (r, s')" "honest s" "\<And>x. honest (snd (k x s))"
  shows "honest s'"
  using assms by (auto simp: answered_def split: if_splits reply.splits) (metis snd_conv)

lemma notify_honest:
  assumes "exec_notify w args s = (r, s')" "honest s"
  shows "honest s'"
proof -
  obtain n where n: "n = build_notice (dw_repr w) args (ds_ctx s)" by blast
  obtain s1 where s1: "s1 = on_ctx (\<lambda>c. c\<lparr>cx_notifications := cx_notifications c @ [n], cx_attempted := True\<rparr>) s"
    by blast
  have h1: "honest s1" using assms(2) by (rule honest_kept) (auto simp: s1 promises_def on_ctx_def)
  then have h2: "honest (emit (Card_Posted n) s1)"
    by (rule honest_kept) (auto simp: promises_def)
  have post: "honest s'" if "answered (dw_post w)
      (\<lambda>ok s. (Inr (Notice_Reply ok), on_ctx (\<lambda>c. c\<lparr>cx_delivered := ok\<rparr>) s)) (emit (Card_Posted n) s1) = (r, s')"
    using that h2 by (rule answered_honest) (use h2 in \<open>auto simp: honest_def Let_def on_ctx_def\<close>)
  note unf = assms(1) [unfolded exec_notify_def Let_def n [symmetric] s1 [symmetric]]
  show ?thesis
  proof (cases "cx_known (ds_ctx s)")
    case None
    with unf post show ?thesis by simp
  next
    case (Some k)
    show ?thesis
    proof (cases "0 < in_notified_count k")
      case True
      with unf Some have "s' = on_ctx (\<lambda>c. c\<lparr>cx_suppressed := True, cx_delivered := False\<rparr>) s1" by simp
      with h1 show ?thesis by (auto simp: honest_def Let_def on_ctx_def)
    qed (use unf Some post in simp)
  qed
qed

lemma defer_honest:
  assumes "exec_defer w args s = (r, s')" "honest s"
  shows "honest s'"
proof -
  have same: "s' = s \<Longrightarrow> honest s'" using assms(2) by simp
  show ?thesis
  proof (cases "cx_has_retries (ds_ctx s) \<and>
      (\<exists>source. (if cx_monitored (ds_ctx s) then mo_defer (dw_monitor w) else Defer_Allowed None) = Defer_Allowed source)")
    case False
    with assms(1) same show ?thesis
      by (auto simp: exec_defer_def Let_def split: if_splits defer_view.splits)
  next
    case True
    then obtain source where has: "cx_has_retries (ds_ctx s)"
      and src: "(if cx_monitored (ds_ctx s) then mo_defer (dw_monitor w) else Defer_Allowed None) = Defer_Allowed source"
      by blast
    show ?thesis
    proof (cases "int_or args ''retry_after_seconds'' 0")
      case None
      with assms(1) same has src show ?thesis by (simp add: exec_defer_def Let_def)
    next
      case (Some n)
      note unf = assms(1) [unfolded exec_defer_def Let_def src defer_view.case Some option.case]
      obtain q st where "s' = s\<lparr>ds_retries := st\<rparr> \<or> s' = emit (Retry_Stored q) (s\<lparr>ds_retries := st\<rparr>) \<or>
          s' = on_ctx (\<lambda>c. c\<lparr>cx_retry_deferred := (rt_status q = Pending)\<rparr>)
                 (emit (Retry_Stored q) (s\<lparr>ds_retries := st\<rparr>))"
        using unf has by (simp split: prod.splits sum.splits option.splits) metis+
      then show ?thesis using assms(2) by (auto simp: honest_def Let_def state_defs)
    qed
  qed
qed

lemma after_rerun_honest:
  assumes "after_rerun q s = (r, s')" "honest s"
  shows "honest s'"
  using assms by (cases "rs_answer q") (auto simp: after_rerun_def honest_def Let_def state_defs)

lemma dq_honest:
  assumes "exec_dq w s = (r, s')" "honest s"
  shows "honest s'"
proof -
  obtain l f where "s' = s \<or> s' = on_ledger (\<lambda>_. l) s \<or> s' = on_ctx (\<lambda>c. c\<lparr>cx_dq_finding := f\<rparr>) (on_ledger (\<lambda>_. l) s)"
    using assms(1) by (simp add: exec_dq_def Let_def split: if_splits prod.splits sum.splits dq_stop.splits) metis+
  then show ?thesis using assms(2) by (auto simp: honest_def Let_def state_defs)
qed

lemma flag_honest:
  assumes "exec_flag w args s = (r, s')" "honest s"
  shows "honest s'"
proof -
  obtain f where "s' = s \<or> s' = emit (Flag_Appended f) (on_ctx (\<lambda>c. c\<lparr>cx_flag_written := True\<rparr>) s)"
    using assms(1) by (simp add: exec_flag_def Let_def answered_def split: if_splits option.splits reply.splits) metis
  then show ?thesis using assms(2) by (auto simp: honest_def Let_def state_defs)
qed

lemma execute_honest:
  assumes "execute w a args s = (r, s')" "honest s"
  shows "honest s'"
proof (cases a)
  case Refresh_Dataset
  with assms have "exec_refresh w s = (r, s')" by (simp add: execute_def)
  from this [unfolded exec_refresh_def] assms(2) show ?thesis
    by (rule call_client_honest) (auto simp: honest_def Let_def on_ctx_def)
next
  case Rebind_Gateway
  with assms have e: "exec_rebind w args s = (r, s')" by (simp add: execute_def)
  show ?thesis
  proof (cases "py_strip (text_or_empty (dw_repr w) args ''target_gateway'') = []")
    case True
    with e assms(2) show ?thesis by (simp add: exec_rebind_def)
  next
    case False
    with e have "call_client Rebind_Gateway (dw_rebind w)
        (\<lambda>r s. (Inr (Gateway_Reply (py_strip (text_or_empty (dw_repr w) args ''target_gateway'')) r),
           on_ctx (\<lambda>c. c\<lparr>cx_remediation := Some (Refresh_Result r),
             cx_gateway_rebound_to := py_strip (text_or_empty (dw_repr w) args ''target_gateway'')\<rparr>) s)) s = (r, s')"
      by (simp add: exec_rebind_def Let_def)
    from this assms(2) show ?thesis
      by (rule call_client_honest) (auto simp: honest_def Let_def on_ctx_def)
  qed
next
  case Reenable_Schedule
  with assms have "exec_reenable w s = (r, s')" by (simp add: execute_def)
  from this [unfolded exec_reenable_def] assms(2) show ?thesis
    by (rule call_client_honest) (auto simp: honest_def Let_def on_ctx_def)
next
  case Get_Refresh_Schedule
  with assms have "exec_schedule w s = (r, s')" by (simp add: execute_def)
  from this [unfolded exec_schedule_def] assms(2) show ?thesis
    by (rule call_client_honest) (auto simp: honest_def Let_def on_ctx_def)
next
  case Get_Refresh_History
  with assms have e: "exec_history w args s = (r, s')" by (simp add: execute_def)
  show ?thesis
  proof (cases "int_or args ''top'' 5")
    case None
    with e assms(2) show ?thesis by (simp add: exec_history_def)
  next
    case (Some n)
    from e [unfolded exec_history_def Some option.case] assms(2) show ?thesis
      by (rule call_client_honest) (auto simp: honest_def Let_def on_ctx_def)
  qed
next
  case Rerun_Pipeline
  with assms have e: "exec_rerun w s = (r, s')" by (simp add: execute_def)
  have "honest (emit (Client_Called Rerun_Pipeline) s)"
    using assms(2) by (rule honest_kept) (auto simp: promises_def)
  with e assms(2) show ?thesis
    by (cases "cx_pipeline (ds_ctx s)")
      (auto simp: exec_rerun_def Let_def split: if_splits intro: after_rerun_honest)
next
  case Get_Rerun_Status
  with assms show ?thesis
    by (cases "cx_pipeline (ds_ctx s)")
      (auto simp: execute_def exec_rerun_status_def intro: after_rerun_honest)
next
  case Consult_DQ
  with assms show ?thesis by (auto simp: execute_def intro: dq_honest)
next
  case Write_Flag
  with assms show ?thesis by (auto simp: execute_def intro: flag_honest)
next
  case Notify_Teams
  with assms show ?thesis by (auto simp: execute_def intro: notify_honest)
next
  case Defer_Retry
  with assms show ?thesis by (auto simp: execute_def intro: defer_honest)
next
  case Get_Pipeline_Evidence
  with assms show ?thesis
    by (auto simp: execute_def exec_evidence_def Let_def honest_def state_defs split: option.splits)
qed (use assms in \<open>auto simp: execute_def Let_def honest_def state_defs\<close>)

end
