(* ===== verification/Agent_Runs.thy ===== *)
theory Agent_Runs
  imports Agent
begin

text \<open>
  What a run of the agent leaves behind: the claims it records are backed by traces, the
  writes stay within the policy, the model is asked only while there are turns, and with a
  gate that answers by itself the run ends.
\<close>

section \<open>What a dispatch leaves in place\<close>

text \<open>
  A gate that answers at once: none, or one that approves, denies or times out by itself. The others
  wait for a person and may wait forever.
\<close>

fun prompt :: "gate option \<Rightarrow> bool" where
  "prompt None = True"
| "prompt (Some (Base_Gate k used)) = (k \<noteq> Asks_Teams)"
| "prompt (Some (Web_Gate known)) = False"

definition steady :: "dispatcher \<Rightarrow> dispatcher \<Rightarrow> bool" where
  "steady s s' \<longleftrightarrow> cx_known (ds_ctx s') = cx_known (ds_ctx s) \<and>
     cx_monitored (ds_ctx s') = cx_monitored (ds_ctx s) \<and>
     (prompt (cx_gate (ds_ctx s)) \<longrightarrow> prompt (cx_gate (ds_ctx s')))"

lemma steady_refl [simp]: "steady s s"
  by (simp add: steady_def)

lemma steady_trans: "steady s t \<Longrightarrow> steady t u \<Longrightarrow> steady s u"
  by (auto simp: steady_def)

lemma steady_updates [simp]:
  "steady s (on_ledger f s)" "steady s (emit e s)" "steady s (record_call w a args r b s)"
  "steady s (add_approval x s)" "steady s (s\<lparr>ds_reruns := y\<rparr>)" "steady s (s\<lparr>ds_retries := z\<rparr>)"
  by (simp_all add: steady_def state_defs record_call_def)

lemma steady_on_ctx:
  "cx_known (f (ds_ctx s)) = cx_known (ds_ctx s) \<Longrightarrow> cx_monitored (f (ds_ctx s)) = cx_monitored (ds_ctx s) \<Longrightarrow>
   cx_gate (f (ds_ctx s)) = cx_gate (ds_ctx s) \<Longrightarrow> steady s (on_ctx f s)"
  by (simp add: steady_def on_ctx_def)

lemma prompt_ask:
  assumes "prompt (Some g)"
  shows "\<exists>d g'. gate_ask gw now g rq = Some (d, g') \<and> prompt (Some g')"
  using assms by (cases g; cases "case g of Base_Gate k u \<Rightarrow> k") auto

lemma prompt_take: "prompt (Some g) \<Longrightarrow> prompt (Some (snd (gate_take dg now st d g)))"
  by (cases g) (auto simp: apsnd_def map_prod_def split: prod.splits)

lemma remediation_block_steady: "steady s (snd (remediation_block a cv s))"
  by (auto simp: remediation_block_def Let_def split: option.splits admission.splits)

lemma tool_block_steady: "steady s (snd (tool_block w a cv s))"
  by (auto simp: tool_block_def rerun_block_def reenable_block_def Let_def
     split: option.splits reply.splits list.splits)

lemma precondition_steady: "steady s (snd (precondition w a cv s))"
proof -
  obtain q s1 where r: "remediation_block a cv s = (q, s1)" by fastforce
  with remediation_block_steady [of s a cv] have "steady s s1" by simp
  with r tool_block_steady [of s w a cv] steady_trans [OF _ tool_block_steady [of s1 w a cv]] show ?thesis
    by (auto simp: precondition_def split: sum.splits option.splits)
qed

lemma reserve_shared_steady: "steady s (snd (reserve_shared w a s))"
  by (auto simp: reserve_shared_def Let_def steady_def state_defs split: option.splits sum.splits prod.splits)

lemma spend_consent_steady: "steady s (snd (spend_consent w a s))"
proof (cases "if cx_monitored (ds_ctx s) then None else cx_pending (ds_ctx s)")
  case None
  then show ?thesis by (simp add: spend_consent_def Let_def)
next
  case (Some p)
  obtain rq d where p: "p = (rq, d)" by fastforce
  obtain ok g' where t: "(case cx_gate (ds_ctx s) of None \<Rightarrow> (False, None)
      | Some g \<Rightarrow> apsnd Some (gate_take (gw_digest (dw_gate w)) (dw_consumed_at w) (dw_web_store w) d g)) = (ok, g')"
    by fastforce
  have "prompt g'" if "prompt (cx_gate (ds_ctx s))"
    using t that prompt_take [of _ "gw_digest (dw_gate w)" "dw_consumed_at w" "dw_web_store w" d]
    by (cases "cx_gate (ds_ctx s)") (auto simp: apsnd_def map_prod_def split: prod.splits, metis snd_conv)
  then show ?thesis
    by (simp add: spend_consent_def Let_def Some p t steady_def state_defs)
qed

lemma charge_action_steady: "steady s (snd (charge_action a s))"
  by (auto simp: charge_action_def Let_def split: prod.splits sum.splits)

lemma admit_steady: "steady s (snd (admit w a s))"
proof -
  obtain p s1 where p: "precondition w a (dw_second w) s = (p, s1)" by fastforce
  obtain q s2 where q: "reserve_shared w a s1 = (q, s2)" by fastforce
  obtain c s3 where c: "spend_consent w a s2 = (c, s3)" by fastforce
  obtain k s4 where k: "charge_action a s3 = (k, s4)" by fastforce
  have "steady s s1" "steady s1 s2" "steady s2 s3" "steady s3 s4"
    using precondition_steady [of s w a "dw_second w"] reserve_shared_steady [of s1 w a]
      spend_consent_steady [of s2 w a] charge_action_steady [of s3 a]
    by (simp_all add: p q c k)
  then have "steady s s1" "steady s s2" "steady s s3" "steady s s4"
    by (blast intro: steady_trans)+
  then show ?thesis
    by (auto simp: admit_def p q c k split: sum.splits option.splits)
qed

lemma settle_steady: "steady s (snd (settle_decision w a rq d s))"
  by (auto simp: settle_decision_def Let_def steady_def state_defs)

lemma seek_steady:
  assumes "seek_approval w a args s = (r, s')"
  shows "steady s s' \<and> (prompt (cx_gate (ds_ctx s)) \<longrightarrow> r \<noteq> Inl Endless)"
proof -
  obtain rq0 c1 where p: "approval_proposal w a args (ds_ctx s) = (rq0, c1)" by fastforce
  have c1: "cx_known c1 = cx_known (ds_ctx s)" "cx_monitored c1 = cx_monitored (ds_ctx s)" "cx_gate c1 = cx_gate (ds_ctx s)"
    using p by (auto simp: approval_proposal_def Let_def simp del: proposal_kept split: prod.splits option.splits if_splits)
  note unf = assms [unfolded seek_approval_def Let_def p prod.case]
  show ?thesis
  proof (cases "if cx_monitored c1 then mo_request (dw_monitor w) rq0 else Inr rq0")
    case (Inl e)
    with unf c1 show ?thesis by (auto simp: steady_def)
  next
    case (Inr rq)
    note unf2 = unf [unfolded Inr sum.case]
    show ?thesis
    proof (cases "cx_gate c1")
      case None
      with unf2 c1 show ?thesis by (auto simp: steady_def state_defs)
    next
      case (Some g)
      note unf3 = unf2 [unfolded Some option.case]
      show ?thesis
      proof (cases "if cx_monitored c1 then mo_open_raises (dw_monitor w) else None")
        case (Some e)
        with unf3 c1 show ?thesis by (auto simp: steady_def state_defs)
      next
        case None
        note unf4 = unf3 [unfolded None option.case]
        show ?thesis
        proof (cases "gate_ask (dw_gate w) (dw_asked_at w) g rq")
          case None
          with unf4 Some c1 prompt_ask [of g "dw_gate w" "dw_asked_at w" rq] show ?thesis
            by (auto simp: steady_def state_defs)
        next
          case (Some dg)
          obtain d g' where dg: "dg = (d, g')" by fastforce
          let ?scr = "cx_monitored c1 \<and> mo_fixture (dw_monitor w) \<and> scripted g"
          let ?d = "if ?scr then d\<lparr>dc_decided_at := mo_clock (dw_monitor w)\<rparr> else d"
          obtain s4 where s4: "s4 = on_ctx (\<lambda>c. c\<lparr>cx_gate := Some g'\<rparr>)
              (on_ledger (awaiting_human (dw_asked_at w) (dw_answered_at w))
                (on_ctx (\<lambda>c. c\<lparr>cx_pending := None\<rparr>) (s\<lparr>ds_ctx := c1\<rparr>)))" by blast
          have "prompt (Some g) \<Longrightarrow> prompt (Some g')"
            using prompt_ask [of g "dw_gate w" "dw_asked_at w" rq] Some dg by auto
          with c1 \<open>cx_gate c1 = Some g\<close> have S: "steady s s4"
            by (auto simp: s4 steady_def state_defs)
          note unf5 = unf4 [unfolded Some dg option.case prod.case s4 [symmetric]]
          show ?thesis
          proof (cases "if ?scr then mo_decide_raises (dw_monitor w) else None")
            case (Some e)
            with unf5 S show ?thesis by auto
          next
            case None
            obtain x t where st: "settle_decision w a rq ?d s4 = (x, t)" by fastforce
            have "(r, s') = (Inr x, t)"
              using unf5 [unfolded None option.case st] by simp
            with S settle_steady [of s4 w a rq ?d] st show ?thesis
              by (auto intro: steady_trans)
          qed
        qed
      qed
    qed
  qed
qed

lemma answered_steady:
  assumes "answered q k s = (r, s')" "\<And>x. steady s (snd (k x s)) \<and> fst (k x s) \<noteq> Inl Endless"
  shows "steady s s' \<and> r \<noteq> Inl Endless"
  using assms(1) assms(2) [of "case q of Answered x \<Rightarrow> x"]
  by (auto simp: answered_def split: if_splits reply.splits)

lemma call_client_steady:
  assumes "call_client a q k s = (r, s')"
    and "\<And>x t. steady t (snd (k x t)) \<and> fst (k x t) \<noteq> Inl Endless"
  shows "steady s s' \<and> r \<noteq> Inl Endless"
  using assms(1) answered_steady [of q k "if is_remediation a then emit (Client_Called a) s else s", OF _ assms(2)]
  by (auto simp: call_client_def split: if_splits intro: steady_trans [OF steady_updates(2)])

lemma after_rerun_steady:
  assumes "after_rerun q s = (r, s')"
  shows "steady s s' \<and> r \<noteq> Inl Endless"
  using assms by (cases "rs_answer q") (auto simp: after_rerun_def steady_def Let_def state_defs)

lemma execute_steady:
  assumes "execute w a args s = (r, s')"
  shows "steady s s' \<and> r \<noteq> Inl Endless"
proof (cases a)
  case Refresh_Dataset
  with assms have "exec_refresh w s = (r, s')" by (simp add: execute_def)
  from this [unfolded exec_refresh_def] show ?thesis
    by (rule call_client_steady) (simp add: steady_on_ctx)
next
  case Rebind_Gateway
  with assms show ?thesis
    by (cases "py_strip (text_or_empty (dw_repr w) args ''target_gateway'') = []")
      (auto simp: execute_def exec_rebind_def Let_def steady_on_ctx dest!: call_client_steady)
next
  case Reenable_Schedule
  with assms have "exec_reenable w s = (r, s')" by (simp add: execute_def)
  from this [unfolded exec_reenable_def] show ?thesis
    by (rule call_client_steady) (simp add: steady_on_ctx)
next
  case Get_Refresh_Schedule
  with assms have "exec_schedule w s = (r, s')" by (simp add: execute_def)
  from this [unfolded exec_schedule_def] show ?thesis
    by (rule call_client_steady) (simp add: steady_on_ctx)
next
  case Get_Refresh_History
  with assms show ?thesis
    by (cases "int_or args ''top'' 5")
      (auto simp: execute_def exec_history_def Let_def steady_on_ctx dest!: call_client_steady)
next
  case Rerun_Pipeline
  with assms have e: "exec_rerun w s = (r, s')" by (simp add: execute_def)
  show ?thesis
  proof (cases "cx_pipeline (ds_ctx s)")
    case (Some px)
    with e obtain q t where "steady s t" "after_rerun q t = (r, s')"
      by (auto simp: exec_rerun_def Let_def split: if_splits) (metis steady_updates(2) steady_refl)+
    then show ?thesis using after_rerun_steady by (blast intro: steady_trans)
  qed (use e in \<open>auto simp: exec_rerun_def\<close>)
next
  case Get_Rerun_Status
  with assms after_rerun_steady show ?thesis
    by (cases "cx_pipeline (ds_ctx s)") (fastforce simp: execute_def exec_rerun_status_def)+
next
  case Consult_DQ
  with assms have e: "exec_dq w s = (r, s')" by (simp add: execute_def)
  then obtain l f where "s' = s \<or> s' = on_ledger (\<lambda>_. l) s \<or> s' = on_ctx (\<lambda>c. c\<lparr>cx_dq_finding := f\<rparr>) (on_ledger (\<lambda>_. l) s)"
    by (simp add: exec_dq_def Let_def split: if_splits prod.splits sum.splits dq_stop.splits) metis+
  moreover have "r \<noteq> Inl Endless"
    using e by (auto simp: exec_dq_def Let_def split: if_splits prod.splits sum.splits dq_stop.splits)
  ultimately show ?thesis by (auto simp: steady_def state_defs)
next
  case Write_Flag
  with assms have e: "exec_flag w args s = (r, s')" by (simp add: execute_def)
  then show ?thesis
    by (auto simp: exec_flag_def Let_def answered_def steady_def state_defs
        split: if_splits option.splits reply.splits)
next
  case Notify_Teams
  with assms have e: "exec_notify w args s = (r, s')" by (simp add: execute_def)
  obtain n where n: "n = build_notice (dw_repr w) args (ds_ctx s)" by blast
  from e [unfolded exec_notify_def Let_def n [symmetric]] show ?thesis
    by (cases "cx_known (ds_ctx s)")
      (auto simp: answered_def steady_def state_defs split: if_splits reply.splits)
next
  case Defer_Retry
  with assms have e: "exec_defer w args s = (r, s')" by (simp add: execute_def)
  then show ?thesis
    by (auto simp: exec_defer_def Let_def steady_def state_defs
        split: option.splits if_splits defer_view.splits prod.splits sum.splits)
next
  case Get_Pipeline_Evidence
  with assms show ?thesis
    by (auto simp: execute_def exec_evidence_def steady_on_ctx split: option.splits)
qed (use assms in \<open>auto simp: execute_def Let_def steady_on_ctx\<close>)

lemma precondition_returns: "fst (precondition w a cv s) \<noteq> Inl Endless"
proof -
  have "fst (tool_block w a cv t) \<noteq> Inl Endless" for t
    by (auto simp: tool_block_def rerun_block_def reenable_block_def Let_def split: option.splits reply.splits list.splits)
  moreover have "fst (remediation_block a cv s) \<noteq> Inl Endless"
    by (auto simp: remediation_block_def Let_def split: option.splits admission.splits)
  ultimately show ?thesis
    by (auto simp: precondition_def split: prod.splits sum.splits option.splits)
qed

lemma admit_returns: "fst (admit w a s) \<noteq> Inl Endless"
proof -
  have "fst (reserve_shared w a t) \<noteq> Inl Endless" for t
    by (auto simp: reserve_shared_def Let_def split: option.splits sum.splits prod.splits)
  with precondition_returns [of w a "dw_second w" s] show ?thesis
    by (auto simp: admit_def split: prod.splits sum.splits option.splits) (metis fst_conv)+
qed

lemma dispatch_steady:
  assumes "dispatch w a args s = (r, s')"
  shows "steady s s' \<and> (prompt (cx_gate (ds_ctx s)) \<longrightarrow> r \<noteq> Inl Endless)"
proof -
  obtain q l where c: "charge_tool_call (dw_now w) a (is_remediation a) (ledger_of s) = (q, l)" by fastforce
  obtain s1 where s1: "s1 = on_ledger (\<lambda>_. l) s" by blast
  obtain p s2 where p: "first_block w a args s1 = (p, s2)" by fastforce
  have P: "steady s1 s2" "p \<noteq> Inl Endless"
    using p precondition_steady [of s1 w a "dw_first w"] precondition_returns [of w a "dw_first w" s1]
    by (auto simp: first_block_def split: option.splits)
  obtain k s3 where k: "consented w a args s2 = (k, s3)" by fastforce
  have K: "steady s2 s3" "prompt (cx_gate (ds_ctx s2)) \<Longrightarrow> k \<noteq> Inl Endless"
    using k seek_steady [of w a args s2 k s3] by (auto simp: consented_def split: if_splits)
  obtain m s4 where m: "admitted w a s3 = (m, s4)" by fastforce
  have M: "steady s3 s4" "m \<noteq> Inl Endless"
    using m admit_steady [of s3 w a] admit_returns [of w a s3] by (auto simp: admitted_def split: if_splits)
  obtain x s5 where x: "execute w a args s4 = (x, s5)" by fastforce
  have X: "steady s4 s5" "x \<noteq> Inl Endless" using execute_steady [OF x] by auto
  have S: "steady s s1" "steady s s2" "steady s s3" "steady s s4" "steady s s5"
    using P(1) K(1) M(1) X(1) steady_updates(1) [of s "\<lambda>_. l"] unfolding s1 by (blast intro: steady_trans)+
  have rec: "steady s (record_call w a args y b t)" if "steady s t" for t y b
    using that steady_updates(3) by (rule steady_trans)
  have pr: "prompt (cx_gate (ds_ctx s)) \<Longrightarrow> k \<noteq> Inl Endless"
    using K(2) S(2) by (auto simp: steady_def)
  note unf = assms [unfolded dispatch_def c prod.case Let_def s1 [symmetric] p k m perform_def x]
  show ?thesis
  proof (cases q)
    case (Inl v)
    with unf S(1) rec show ?thesis by (auto simp: refuse_def split: if_splits)
  next
    case (Inr u)
    note unf2 = unf [unfolded Inr sum.case]
    consider e where "p = Inl e" | y where "p = Inr (Some y)" | "p = Inr None" by (cases p; cases "projr p") auto
    then show ?thesis
    proof cases
      case 3
      note unf3 = unf2 [unfolded 3 sum.case option.case]
      consider e where "k = Inl e" | y where "k = Inr (Some y)" | "k = Inr None" by (cases k; cases "projr k") auto
      then show ?thesis
      proof cases
        case 3
        note unf4 = unf3 [unfolded 3 sum.case option.case]
        consider e where "m = Inl e" | y where "m = Inr (Some y)" | "m = Inr None" by (cases m; cases "projr m") auto
        then show ?thesis
          by cases (use unf4 M(2) X(2) S rec in \<open>auto simp: refuse_def split: sum.splits\<close>)
      qed (use unf3 pr S rec in \<open>auto simp: refuse_def\<close>)
    qed (use unf2 P(2) S rec in \<open>auto simp: refuse_def\<close>)
  qed
qed

lemma dispatch_honest:
  assumes "dispatch w a args s = (r, s')" "honest s"
  shows "honest s'"
  using assms(1)
proof (cases rule: dispatch_cases)
  case (stopped e)
  with assms(2) show ?thesis by (auto simp: costless_def dest: set_mono_prefix intro: honest_kept)
next
  case (refused y t)
  then have "honest t" using assms(2) by (auto simp: costless_def dest: set_mono_prefix intro: honest_kept)
  then show ?thesis unfolding refused(2) by (rule honest_kept) simp_all
next
  case (performed t u)
  have "honest t" using performed(1) assms(2) by (auto simp: costless_def dest: set_mono_prefix intro: honest_kept)
  then have u: "honest u"
    using admitted_cases [OF performed(3)] by (auto dest: set_mono_prefix intro: honest_kept)
  obtain x v where x: "execute w a args u = (x, v)" by fastforce
  have "honest v" using execute_honest [OF x u] .
  then show ?thesis
    using performed(4) x by (auto simp: perform_def split: sum.splits intro: honest_kept)
qed

section \<open>Along the loop\<close>

text \<open>Whatever every dispatch and the charges of turns and tokens keep, the loop keeps.\<close>

lemma calls_invariant:
  assumes "\<And>w a args s r s'. dispatch w a args s = (r, s') \<Longrightarrow> P s \<Longrightarrow> P s'"
  shows "dispatch_calls ws i cs s = (r, s') \<Longrightarrow> P s \<Longrightarrow> P s'"
proof (induction ws i cs s rule: dispatch_calls.induct)
  case (2 ws i a args cs s)
  obtain q s1 where d: "dispatch (ws i) a args s = (q, s1)" by fastforce
  from assms [OF d] 2 d show ?case by (fastforce split: sum.splits if_splits)
qed simp

lemma turn_invariant:
  assumes "\<And>w a args s r s'. dispatch w a args s = (r, s') \<Longrightarrow> P s \<Longrightarrow> P s'"
    and "\<And>l s. P s \<Longrightarrow> policy l = policy (ledger_of s) \<Longrightarrow> write_actions l = write_actions (ledger_of s) \<Longrightarrow>
          P (on_ledger (\<lambda>_. l) s)"
    and "agent_turn w i s = (r, s')" and "P s"
  shows "P s'"
proof -
  obtain q l where c: "charge_llm_turn (aw_now w i) (ledger_of s) = (q, l)" by fastforce
  then have l: "policy l = policy (ledger_of s)" "write_actions l = write_actions (ledger_of s)"
    by (auto simp: charge_llm_turn_def check_deadline_def split: if_splits)
  obtain s1 where s1: "s1 = on_ledger (\<lambda>_. l) s" by blast
  have P1: "P s1" unfolding s1 using assms(2,4) l by blast
  note unf = assms(3) [unfolded agent_turn_def c Let_def prod.case s1 [symmetric]]
  show ?thesis
  proof (cases q)
    case (Inl v)
    with unf P1 show ?thesis by simp
  next
    case (Inr u)
    note unf2 = unf [unfolded Inr sum.case]
    show ?thesis
    proof (cases "aw_model w i (offered_tools s1)")
      case (Model_Raised e)
      with unf2 P1 show ?thesis by simp
    next
      case (Model_Answered m)
      obtain q2 l2 where t: "charge_tokens (total_tokens m) (ledger_of s1) = (q2, l2)" by fastforce
      obtain s2 where s2: "s2 = on_ledger (\<lambda>_. l2) s1" by blast
      have P2: "P s2" unfolding s2 using assms(2) P1 charge_tokens_frame [OF t] by blast
      obtain q3 s3 where d: "dispatch_calls (aw_dispatch w i) 0 (mr_tool_calls m) s2 = (q3, s3)" by fastforce
      have "P s3" by (rule calls_invariant [where P = P, OF _ d P2]) (rule assms(1))
      moreover have "s' = s2 \<or> s' = s3"
        using unf2 [unfolded Model_Answered model_reply.case t prod.case s2 [symmetric] d]
        by (auto split: sum.splits if_splits bool.splits)
      ultimately show ?thesis using P2 by blast
    qed
  qed
qed

lemma loop_invariant:
  assumes "\<And>w a args s r s'. dispatch w a args s = (r, s') \<Longrightarrow> P s \<Longrightarrow> P s'"
    and "\<And>l s. P s \<Longrightarrow> policy l = policy (ledger_of s) \<Longrightarrow> write_actions l = write_actions (ledger_of s) \<Longrightarrow>
          P (on_ledger (\<lambda>_. l) s)"
  shows "P s \<Longrightarrow> P (snd (agent_loop w i s))"
proof (induction w i s rule: agent_loop.induct)
  case (1 w i s)
  obtain q s1 where t: "agent_turn w i s = (q, s1)" by fastforce
  have "P s1" by (rule turn_invariant [where P = P, OF _ _ t 1(2)]) (fact assms)+
  with 1(1) [OF t [symmetric]] t show ?case
    by (subst agent_loop.simps) (auto split: sum.splits)
qed

lemma loop_honest: "honest s \<Longrightarrow> honest (snd (agent_loop w i s))"
  by (rule loop_invariant) (auto intro: dispatch_honest honest_kept)

lemma loop_steady: "steady s (snd (agent_loop w i s))"
  by (rule loop_invariant [where P = "steady s"]) (auto dest: dispatch_steady intro: steady_trans steady_updates(1))

lemma loop_within:
  assumes "within_writes s"
  shows "within_writes (snd (agent_loop w i s)) \<and> rules (snd (agent_loop w i s)) = rules s"
  by (rule loop_invariant [where P = "\<lambda>t. within_writes t \<and> rules t = rules s"])
    (use assms in \<open>auto dest: dispatch_within simp: within_writes_def writes_def rules_def\<close>)

lemma calls_return:
  "dispatch_calls ws i cs s = (r, s') \<Longrightarrow> prompt (cx_gate (ds_ctx s)) \<Longrightarrow> r \<noteq> Inl Endless"
proof (induction ws i cs s rule: dispatch_calls.induct)
  case (2 ws i a args cs s)
  obtain q s1 where d: "dispatch (ws i) a args s = (q, s1)" by fastforce
  from dispatch_steady [OF d] 2 d show ?case
    by (fastforce simp: steady_def split: sum.splits if_splits)
qed auto

lemma turn_returns:
  assumes "agent_turn w i s = (r, s')" "prompt (cx_gate (ds_ctx s))"
  shows "r \<noteq> Inl (Some Endless)"
  using assms calls_return [of "aw_dispatch w i" 0]
  by (auto simp: agent_turn_def Let_def state_defs split: sum.splits model_reply.splits prod.splits if_splits bool.splits)
    fastforce

lemma loop_returns: "prompt (cx_gate (ds_ctx s)) \<Longrightarrow> fst (agent_loop w i s) \<noteq> Some Endless"
proof (induction w i s rule: agent_loop.induct)
  case (1 w i s)
  obtain q s1 where t: "agent_turn w i s = (q, s1)" by fastforce
  have "steady s s1"
    by (rule turn_invariant [where P = "steady s", OF _ _ t])
      (auto dest: dispatch_steady intro: steady_trans steady_updates(1))
  with 1(2) have "prompt (cx_gate (ds_ctx s1))" by (simp add: steady_def)
  with 1(1) [OF t [symmetric]] t turn_returns [OF t 1(2)] show ?case
    by (subst agent_loop.simps) (auto split: sum.splits)
qed

text \<open>The model is asked only while there are turns left.\<close>

lemma loop_model_irrelevant:
  assumes "\<And>i. int i < max_llm_turns (rules s) \<Longrightarrow> m i = aw_model w i" "int i \<le> turns s"
  shows "agent_loop (w\<lparr>aw_model := m\<rparr>) i s = agent_loop w i s"
  using assms
proof (induction w i s rule: agent_loop.induct)
  case (1 w i s)
  obtain q s1 where t: "agent_turn w i s = (q, s1)" by fastforce
  obtain q0 l where c: "charge_llm_turn (aw_now w i) (ledger_of s) = (q0, l)" by fastforce
  have "m i = aw_model w i \<or> isl q0"
    using charge_turn_turns(3) [OF c] 1(2) 1(3) by (cases "isl q0") (auto simp: turns_def rules_def)
  moreover have w': "aw_now (w\<lparr>aw_model := m\<rparr>) = aw_now w" "aw_dispatch (w\<lparr>aw_model := m\<rparr>) = aw_dispatch w"
    "aw_model (w\<lparr>aw_model := m\<rparr>) = m" by simp_all
  ultimately have same: "agent_turn (w\<lparr>aw_model := m\<rparr>) i s = agent_turn w i s"
    unfolding agent_turn_def w' c prod.case by (cases q0) auto
  show ?case
  proof (cases q)
    case (Inl e)
    with t same show ?thesis by (simp add: agent_loop.simps)
  next
    case (Inr u)
    then have "agent_turn w i s = (Inr u, s1)" using t by simp
    from agent_turn_continues [OF this] 1(2,3)
    have "agent_loop (w\<lparr>aw_model := m\<rparr>) (Suc i) s1 = agent_loop w (Suc i) s1"
      using 1(1) [OF t [symmetric] Inr] by simp
    with t same Inr show ?thesis by (simp add: agent_loop.simps)
  qed
qed

section \<open>A worked run\<close>

text \<open>The model refreshes, reads that it worked and reports; the report claims a resolution.\<close>

definition reports :: "string \<Rightarrow> (string, json) dict" where
  "reports what = [(''outcome'', JStr what), (''summary'', JStr ''ok'')]"

definition asks_for :: "(action \<times> (string, json) dict) list \<Rightarrow> model_reply" where
  "asks_for cs = Model_Answered \<lparr>mr_content = [], mr_tool_calls = cs, mr_prompt_tokens = 100, mr_completion_tokens = 10\<rparr>"

definition example_agent :: agent_world where
  "example_agent =
     \<lparr>aw_started = 0, aw_now = (\<lambda>_. 1000),
      aw_model = (\<lambda>i _. if i = 0 then asks_for [(Refresh_Dataset, [])]
                        else asks_for [(Report_Resolution, reports ''resolved''), (Refresh_Dataset, [])]),
      aw_dispatch = (\<lambda>_ _. offline_world), aw_finished = 5000, aw_repr = dumps, aw_redact = id,
      aw_crash_text = id\<rparr>"

definition example_deps :: triage_deps where
  "example_deps =
     \<lparr>dp_mock_client = Some True, dp_datasets = [], dp_dq_agent = False, dp_workspace_id = ''w'',
      dp_dataset_id = ''d'', dp_signature = ''sig'', dp_known = None,
      dp_gate = Some (Base_Gate (Approves ''ann'') {}), dp_approval_timeout = 300, dp_retries = True,
      dp_pipeline = None, dp_run_id = ''run'', dp_monitored = False\<rparr>"

definition no_retries :: "unit retry_store" where
  "no_retries = \<lparr>rs_items = [], rs_backing = ()\<rparr>"

lemma example_resolves:
  "map_option (\<lambda>(r, s). (tr_outcome r, tr_llm_turns r, calls s))
     (triage_run example_agent default_policy offline_request example_deps [] no_retries) = Some (Resolved, 2, 1)"
  by code_simp

text \<open>The same report without the refresh is not believed.\<close>

lemma example_downgraded:
  "map_option (\<lambda>(r, s). tr_outcome r)
     (triage_run (example_agent\<lparr>aw_model := \<lambda>_ _. asks_for [(Report_Resolution, reports ''resolved'')]\<rparr>)
        default_policy offline_request example_deps [] no_retries) = Some Needs_Human"
  by code_simp

section \<open>Properties\<close>

text \<open>What must have happened for an outcome to be recorded.\<close>

definition backed_outcome :: "triage_deps \<Rightarrow> triage_result \<Rightarrow> dispatcher \<Rightarrow> bool" where
  "backed_outcome d r s \<longleftrightarrow>
     (case tr_outcome r of
        Resolved \<Rightarrow>
          tr_blocked_attempts r = [] \<and>
          (list_all ap_granted (tr_approvals r) \<or> list_ex ap_granted (tr_approvals r)) \<and>
          (case cx_remediation (ds_ctx s) of
             None \<Rightarrow> False
           | Some m \<Rightarrow> remediation_succeeded m \<and>
               (case m of Refresh_Result _ \<Rightarrow> 0 < calls s | Rerun_Result o' \<Rightarrow> rerun_succeeded o'))
      | Flagged_Data_Quality \<Rightarrow>
          tr_blocked_attempts r = [] \<and> (\<exists>f. tr_dq_finding r = Some f \<and> dq_has_issue f) \<and>
          (\<exists>f. Flag_Appended f \<in> set (ds_effects s))
      | Deferred_Retry \<Rightarrow>
          dp_monitored d \<or> (\<exists>row. Retry_Stored row \<in> set (ds_effects s) \<and> rt_status row = Pending)
      | Duplicate_Suppressed \<Rightarrow> dp_known d \<noteq> None
      | Approval_Denied \<Rightarrow> list_ex (\<lambda>a. \<not> ap_granted a) (tr_approvals r)
      | _ \<Rightarrow> True) \<and>
     (tr_notification_delivered r \<longrightarrow> (\<exists>n. Card_Posted n \<in> set (ds_effects s)))"

lemma called_counts: "(\<exists>a. Client_Called a \<in> set (ds_effects s) \<and> is_remediation a) \<longleftrightarrow> 0 < calls s"
proof -
  have "(case e of Client_Called a \<Rightarrow> is_remediation a | _ \<Rightarrow> False) \<longleftrightarrow> (\<exists>a. e = Client_Called a \<and> is_remediation a)"
    for e by (cases e) auto
  then show ?thesis by (auto simp: calls_def filter_empty_conv)
qed

lemma no_objection:
  assumes "objection claim c = None"
  shows "claim = Resolved \<Longrightarrow> blocked_attempts (cx_ledger c) = [] \<and> verified_remediation c \<and>
      (list_all ap_granted (cx_approvals c) \<or> list_ex ap_granted (cx_approvals c))"
    and "claim = Flagged_Data_Quality \<Longrightarrow> blocked_attempts (cx_ledger c) = [] \<and> cx_flag_written c \<and>
      (\<exists>f. cx_dq_finding c = Some f \<and> dq_has_issue f)"
    and "claim = Deferred_Retry \<Longrightarrow> cx_retry_deferred c"
    and "claim = Duplicate_Suppressed \<Longrightarrow> cx_known c \<noteq> None"
    and "claim = Approval_Denied \<Longrightarrow> list_ex (\<lambda>a. \<not> ap_granted a) (cx_approvals c)"
  using assms
  by (auto simp: objection_def ungranted_def filter_empty_conv list_all_iff list_ex_iff split: if_splits option.splits)

lemma verdict_cases:
  assumes "verdict_of w ending reported c = (v, summary)"
    and "v \<in> {Resolved, Flagged_Data_Quality, Deferred_Retry, Duplicate_Suppressed, Approval_Denied}"
  shows "objection v c = None"
proof (cases ending)
  case None
  with assms show ?thesis
    by (auto simp: verdict_of_def validate_outcome_def downgrade_def split: option.splits)
next
  case (Some e)
  then show ?thesis
  proof (cases e)
    case (Violated x)
    with Some assms show ?thesis by (cases x) (auto simp: verdict_of_def)
  next
    case (Crashed x)
    with Some assms show ?thesis by (auto simp: verdict_of_def)
  next
    case Endless
    with Some assms show ?thesis
      by (auto simp: verdict_of_def validate_outcome_def downgrade_def split: option.splits)
  qed
qed

lemma result_backed:
  assumes "honest s" and "cx_known (ds_ctx s) = dp_known d" and "cx_monitored (ds_ctx s) = dp_monitored d"
  shows "backed_outcome d (build_result w ending s) s"
proof -
  let ?rep = "case cx_resolution (ds_ctx s) of None \<Rightarrow> [] | Some d \<Rightarrow> d"
  obtain v m where v: "verdict_of w ending ?rep (ds_ctx s) = (v, m)" by fastforce
  have r: "tr_outcome (build_result w ending s) = v"
    "tr_blocked_attempts (build_result w ending s) = blocked_attempts (cx_ledger (ds_ctx s))"
    "tr_approvals (build_result w ending s) = cx_approvals (ds_ctx s)"
    "tr_dq_finding (build_result w ending s) = cx_dq_finding (ds_ctx s)"
    "tr_notification_delivered (build_result w ending s) = cx_delivered (ds_ctx s)"
    by (simp_all add: build_result_def Let_def v)
  note clear = verdict_cases [OF v]
  note h = assms(1) [unfolded honest_def Let_def called_counts]
  show ?thesis
    unfolding backed_outcome_def r
    using clear no_objection [of v "ds_ctx s"] h assms(2,3)
    by (cases v) (auto simp: verified_remediation_def split: option.splits remediation.splits)
qed


text \<open>
  C9. One run calls the service to change something at most as often as it charged writes,
  and never more than the run's policy allows: once at most for a pipeline failure.
\<close>

theorem run_stays_within_policy:
  assumes "0 \<le> max_write_actions p"
  shows "case triage_run w p rq d reruns retries of
     None \<Rightarrow> True
   | Some (r, s) \<Rightarrow> int (calls s) \<le> tr_write_actions r \<and>
       tr_write_actions r \<le> (if dp_pipeline d = None then max_write_actions p else min 1 (max_write_actions p))"
proof -
  let ?s = "start_state w p rq d reruns retries"
  obtain e s where l: "agent_loop w 0 ?s = (e, s)" by fastforce
  have "within_writes ?s" "rules ?s = run_policy p d"
    using assms by (simp_all add: within_writes_def start_state_def new_dispatcher_def initial_context_def
        calls_def writes_def rules_def ledger_of_def new_ledger_def run_policy_def)
  with loop_within l have "within_writes s" "rules s = run_policy p d" by (metis snd_conv)+
  then have "int (calls s) \<le> write_actions (ledger_of s)"
    "write_actions (ledger_of s) \<le> max_write_actions (run_policy p d)"
    by (simp_all add: within_writes_def writes_def)
  moreover have "tr_write_actions (build_result w e s) = write_actions (ledger_of s)"
    by (simp add: build_result_def Let_def ledger_of_def split: prod.splits)
  ultimately show ?thesis
    using l by (auto simp: triage_run_def run_policy_def split: option.splits stop.splits)
qed

theorem run_stays_within_policy_witness:
  "case triage_run example_agent default_policy offline_request example_deps [] no_retries of
     None \<Rightarrow> True
   | Some (r, s) \<Rightarrow> int (calls s) \<le> tr_write_actions r \<and> tr_write_actions r \<le> 1"
proof -
  have "0 \<le> max_write_actions default_policy" by (simp add: default_policy_def)
  from run_stays_within_policy [OF this, where w = example_agent and rq = offline_request
      and d = example_deps and reruns = "[]" and retries = no_retries]
  moreover have "dp_pipeline example_deps = None" "max_write_actions default_policy = 1"
    by (simp_all add: example_deps_def default_policy_def)
  ultimately show ?thesis by (simp cong: option.case_cong prod.case_cong)
qed

text \<open>
  C11. The model is asked at most as often as the policy has turns: what it would answer
  after that makes no difference to the run.
\<close>

theorem model_asked_within_turns:
  assumes "\<And>i. int i < max_llm_turns p \<Longrightarrow> m i = aw_model w i"
  shows "triage_run (w\<lparr>aw_model := m\<rparr>) p rq d reruns retries = triage_run w p rq d reruns retries"
proof -
  let ?s = "start_state w p rq d reruns retries"
  have s: "start_state (w\<lparr>aw_model := m\<rparr>) p rq d reruns retries = ?s"
    by (simp add: start_state_def)
  have "max_llm_turns (rules ?s) = max_llm_turns p" "turns ?s = 0"
    by (simp_all add: start_state_def new_dispatcher_def initial_context_def rules_def turns_def
        ledger_of_def new_ledger_def run_policy_def)
  then have "agent_loop (w\<lparr>aw_model := m\<rparr>) 0 ?s = agent_loop w 0 ?s"
    using assms by (intro loop_model_irrelevant) simp_all
  moreover have "build_result (w\<lparr>aw_model := m\<rparr>) = build_result w"
  proof -
    have "aw_repr (w\<lparr>aw_model := m\<rparr>) = aw_repr w" "aw_redact (w\<lparr>aw_model := m\<rparr>) = aw_redact w"
      "aw_finished (w\<lparr>aw_model := m\<rparr>) = aw_finished w" "aw_crash_text (w\<lparr>aw_model := m\<rparr>) = aw_crash_text w"
      by simp_all
    then show ?thesis by (intro ext) (simp only: build_result_def verdict_of_def)
  qed
  ultimately show ?thesis by (simp only: triage_run_def s)
qed

theorem model_asked_within_turns_witness:
  "triage_run (example_agent\<lparr>aw_model := \<lambda>i. if i < 14 then aw_model example_agent i else (\<lambda>_. Model_Raised ''Late'')\<rparr>)
     default_policy offline_request example_deps [] no_retries
   = triage_run example_agent default_policy offline_request example_deps [] no_retries"
  by (rule model_asked_within_turns) (simp add: default_policy_def)

text \<open>
  C10. With a gate that answers by itself, or none, a run always ends and records a result,
  whatever the model does and whatever raises.
\<close>

theorem run_always_reports:
  assumes "prompt (dp_gate d)"
  shows "\<exists>r s. triage_run w p rq d reruns retries = Some (r, s)"
proof -
  let ?s = "start_state w p rq d reruns retries"
  have "prompt (cx_gate (ds_ctx ?s))"
    using assms by (simp add: start_state_def new_dispatcher_def initial_context_def)
  from loop_returns [OF this, of w 0] show ?thesis
    by (auto simp: triage_run_def split: option.splits stop.splits prod.splits)
qed

theorem run_always_reports_witness:
  "\<exists>r s. triage_run (example_agent\<lparr>aw_model := \<lambda>_ _. Model_Raised ''Timeout''\<rparr>) default_policy offline_request
     example_deps [] no_retries = Some (r, s)"
  by (rule run_always_reports) (simp add: example_deps_def)

end
