(* ===== verification/Rate_Limit.thy ===== *)
theory Rate_Limit
  imports Prelude
begin

text \<open>
  \<^verbatim>\<open>src/src/triage/monitoring/rate_limit.py\<close>: the shared budgets of REST requests. A
  budget is a fixed window of requests and a cooldown that a \<open>Retry-After\<close> answer sets; one
  physical request charges all its budgets or none. The counters are a dictionary (memory)
  or a table (SQL) from a tenant and the hash of a bucket name. The clock of a statement
  and the fate of a transaction are arguments.
\<close>

section \<open>Policies, keys, decisions\<close>

record rate_policy =
  rp_requests :: int
  rp_window :: int

text \<open>What \<open>__post_init__\<close> lets through; every policy that exists passed it.\<close>

definition policy_valid :: "rate_policy \<Rightarrow> bool" where
  "policy_valid p \<longleftrightarrow> 1 \<le> rp_requests p \<and> rp_requests p \<le> 1000000 \<and> 1 \<le> rp_window p \<and> rp_window p \<le> 86400"

record rate_decision =
  rd_allowed :: bool
  rd_checked_at :: instant
  rd_retry_at :: instant

datatype rate_error = Bad_Request | Budget_Unavailable

type_synonym bucket_key = "string \<times> string"

definition bucket_char :: "char \<Rightarrow> bool" where
  "bucket_char c \<longleftrightarrow>
     (let n = (of_char c :: nat)
      in (48 \<le> n \<and> n \<le> 57) \<or> (65 \<le> n \<and> n \<le> 90) \<or> (97 \<le> n \<and> n \<le> 122) \<or> c \<in> set ''._:-'')"

definition bucket_key :: "(string \<Rightarrow> string) \<Rightarrow> string \<Rightarrow> string \<Rightarrow> bucket_key option" where
  "bucket_key sha tenant bucket =
     (if bucket = [] \<or> 128 < List.length bucket \<or> \<not> list_all bucket_char bucket then None
      else Some (tenant, sha bucket))"

definition delay_valid :: "int \<Rightarrow> bool" where
  "delay_valid n \<longleftrightarrow> 0 \<le> n \<and> n \<le> 2147483647"

fun all_some :: "'a option list \<Rightarrow> 'a list option" where
  "all_some [] = Some []"
| "all_some (None # _) = None"
| "all_some (Some x # xs) = map_option ((#) x) (all_some xs)"

definition ordered_policies :: "(string \<Rightarrow> string) \<Rightarrow> string \<Rightarrow> (string \<times> rate_policy) list \<Rightarrow>
    (bucket_key \<times> rate_policy) list option" where
  "ordered_policies sha tenant ps =
     (if List.length ps < 1 \<or> 16 < List.length ps then None
      else case all_some (map (\<lambda>(b, _). bucket_key sha tenant b) ps) of
             None \<Rightarrow> None
           | Some ks \<Rightarrow> if distinct ks then Some (sort_key (\<lambda>(k, _). snd k) (zip ks (map snd ps))) else None)"

section \<open>Counters\<close>

record rate_counter =
  rc_policy :: rate_policy
  rc_window_ends :: instant
  rc_used :: int
  rc_blocked :: "instant option"

type_synonym rate_rows = "(bucket_key, rate_counter) dict"

definition fresh_counter :: "rate_policy \<Rightarrow> instant \<Rightarrow> rate_counter" where
  "fresh_counter p now =
     \<lparr>rc_policy = p, rc_window_ends = now + seconds (rp_window p), rc_used = 0, rc_blocked = None\<rparr>"

subsection \<open>The in-memory budget\<close>

text \<open>\<open>_counter\<close>: the counter, created and renewed where need be.\<close>

definition renewed :: "instant \<Rightarrow> rate_counter \<Rightarrow> rate_counter" where
  "renewed now c =
     (if rc_window_ends c \<le> now
      then c\<lparr>rc_window_ends := now + seconds (rp_window (rc_policy c)), rc_used := 0\<rparr> else c)"

definition mem_counter :: "instant \<Rightarrow> bucket_key \<Rightarrow> rate_policy \<Rightarrow> rate_rows \<Rightarrow>
    (rate_error + rate_counter) \<times> rate_rows" where
  "mem_counter now k p cs =
     (let (c, cs1) = (case map_of cs k of
                        Some c \<Rightarrow> (c, cs)
                      | None \<Rightarrow> let c = fresh_counter p now in (c, AList.update k c cs))
      in if rc_policy c \<noteq> p then (Inl Budget_Unavailable, cs1)
         else let c' = renewed now c in (Inr c', AList.update k c' cs1))"

definition next_free :: "instant \<Rightarrow> rate_counter \<Rightarrow> instant" where
  "next_free now c =
     max now (max (case rc_blocked c of None \<Rightarrow> now | Some t \<Rightarrow> t)
       (if rp_requests (rc_policy c) \<le> rc_used c then rc_window_ends c else now))"

fun mem_counters :: "instant \<Rightarrow> (bucket_key \<times> rate_policy) list \<Rightarrow> rate_rows \<Rightarrow>
    (rate_error + (bucket_key \<times> rate_counter) list) \<times> rate_rows" where
  "mem_counters now [] cs = (Inr [], cs)"
| "mem_counters now ((k, p) # ps) cs =
     (case mem_counter now k p cs of
        (Inl e, cs1) \<Rightarrow> (Inl e, cs1)
      | (Inr c, cs1) \<Rightarrow>
          (case mem_counters now ps cs1 of
             (Inl e, cs2) \<Rightarrow> (Inl e, cs2)
           | (Inr xs, cs2) \<Rightarrow> (Inr ((k, c) # xs), cs2)))"

definition mem_acquire_many :: "(string \<Rightarrow> string) \<Rightarrow> string \<Rightarrow> instant \<Rightarrow> (string \<times> rate_policy) list \<Rightarrow>
    rate_rows \<Rightarrow> (rate_error + rate_decision) \<times> rate_rows" where
  "mem_acquire_many sha tenant now ps cs =
     (case ordered_policies sha tenant ps of
        None \<Rightarrow> (Inl Bad_Request, cs)
      | Some kps \<Rightarrow>
          (case mem_counters now kps cs of
             (Inl e, cs1) \<Rightarrow> (Inl e, cs1)
           | (Inr xs, cs1) \<Rightarrow>
               let retry_at = fold max (map (\<lambda>(_, c). next_free now c) xs) now
               in if now < retry_at
                  then (Inr \<lparr>rd_allowed = False, rd_checked_at = now, rd_retry_at = retry_at\<rparr>, cs1)
                  else (Inr \<lparr>rd_allowed = True, rd_checked_at = now, rd_retry_at = now\<rparr>,
                        fold (\<lambda>(k, c) rows. AList.update k (c\<lparr>rc_used := rc_used c + 1\<rparr>) rows) xs cs1)))"

definition mem_defer :: "(string \<Rightarrow> string) \<Rightarrow> string \<Rightarrow> instant \<Rightarrow> string \<Rightarrow> rate_policy \<Rightarrow> int \<Rightarrow>
    rate_rows \<Rightarrow> (rate_error + rate_decision) \<times> rate_rows" where
  "mem_defer sha tenant now bucket p delay cs =
     (if \<not> delay_valid delay then (Inl Bad_Request, cs)
      else case bucket_key sha tenant bucket of
             None \<Rightarrow> (Inl Bad_Request, cs)
           | Some k \<Rightarrow>
               (case mem_counter now k p cs of
                  (Inl e, cs1) \<Rightarrow> (Inl e, cs1)
                | (Inr c, cs1) \<Rightarrow>
                    let until = max (case rc_blocked c of None \<Rightarrow> now | Some t \<Rightarrow> t) (now + seconds delay)
                    in (Inr \<lparr>rd_allowed = False, rd_checked_at = now,
                            rd_retry_at = max until (if rp_requests p \<le> rc_used c then rc_window_ends c else now)\<rparr>,
                        AList.update k (c\<lparr>rc_blocked := Some until\<rparr>) cs1)))"

subsection \<open>The SQL budget\<close>

definition still_blocked :: "instant \<Rightarrow> rate_counter \<Rightarrow> bool" where
  "still_blocked now c \<longleftrightarrow> (case rc_blocked c of None \<Rightarrow> False | Some t \<Rightarrow> now < t)"

text \<open>The decision that the last statement reads back.\<close>

definition read_decision :: "bool \<Rightarrow> instant \<Rightarrow> rate_counter \<Rightarrow> rate_decision" where
  "read_decision granted now c =
     \<lparr>rd_allowed = granted, rd_checked_at = now,
      rd_retry_at =
        (if granted then now
         else case rc_blocked c of
                Some t \<Rightarrow>
                  if now < t \<and> (rc_used c < rp_requests (rc_policy c) \<or> rc_window_ends c \<le> now \<or> rc_window_ends c < t)
                  then t
                  else if rp_requests (rc_policy c) \<le> rc_used c \<and> now < rc_window_ends c then rc_window_ends c
                  else now
              | None \<Rightarrow>
                  if rp_requests (rc_policy c) \<le> rc_used c \<and> now < rc_window_ends c then rc_window_ends c
                  else now)\<rparr>"

text \<open>
  \<open>_change_locked\<close> under the range lock: the row is inserted, its policy compared (\<open>None\<close>
  is the \<open>THROW\<close>), then the cooldown is set or a request charged where the row allows it.
\<close>

definition charge_row :: "instant \<Rightarrow> rate_counter \<Rightarrow> rate_counter option" where
  "charge_row now c =
     (if \<not> still_blocked now c \<and> (rc_window_ends c \<le> now \<or> rc_used c < rp_requests (rc_policy c))
      then Some (if rc_window_ends c \<le> now
                 then c\<lparr>rc_used := 1, rc_window_ends := now + seconds (rp_window (rc_policy c))\<rparr>
                 else c\<lparr>rc_used := rc_used c + 1\<rparr>)
      else None)"

definition block_row :: "instant \<Rightarrow> int \<Rightarrow> rate_counter \<Rightarrow> rate_counter" where
  "block_row now delay c =
     c\<lparr>rc_blocked :=
         (case rc_blocked c of
            Some t \<Rightarrow> if now + seconds delay < t then Some t else Some (now + seconds delay)
          | None \<Rightarrow> Some (now + seconds delay))\<rparr>"

definition change_locked :: "instant \<Rightarrow> bucket_key \<Rightarrow> rate_policy \<Rightarrow> int option \<Rightarrow> rate_rows \<Rightarrow>
    (rate_decision \<times> rate_rows) option" where
  "change_locked now k p delay rows =
     (let c = (case map_of rows k of Some c \<Rightarrow> c | None \<Rightarrow> fresh_counter p now)
      in if rc_policy c \<noteq> p then None
         else case delay of
                Some n \<Rightarrow>
                  (let c' = block_row now n c in Some (read_decision False now c', AList.update k c' rows))
              | None \<Rightarrow>
                  (case charge_row now c of
                     Some c' \<Rightarrow> Some (read_decision True now c', AList.update k c' rows)
                   | None \<Rightarrow> Some (read_decision False now c, AList.update k c rows)))"

fun change_all :: "(nat \<Rightarrow> instant) \<Rightarrow> nat \<Rightarrow> (bucket_key \<times> rate_policy) list \<Rightarrow> rate_rows \<Rightarrow>
    (rate_decision list \<times> rate_rows) option" where
  "change_all clock i [] rows = Some ([], rows)"
| "change_all clock i ((k, p) # ps) rows =
     (case change_locked (clock i) k p None rows of
        None \<Rightarrow> None
      | Some (d, rows1) \<Rightarrow>
          map_option (\<lambda>(ds, rows2). (d # ds, rows2)) (change_all clock (Suc i) ps rows1))"

text \<open>A transaction commits, fails, or commits and its answer is lost.\<close>

datatype fate = Committed | Rolled_Back | Reply_Lost

definition latest :: "(rate_decision \<Rightarrow> instant) \<Rightarrow> rate_decision list \<Rightarrow> instant" where
  "latest f ds = fold max (map f (tl ds)) (f (hd ds))"

definition sql_acquire_many :: "(string \<Rightarrow> string) \<Rightarrow> string \<Rightarrow> (nat \<Rightarrow> instant) \<Rightarrow> fate \<Rightarrow>
    (string \<times> rate_policy) list \<Rightarrow> rate_rows \<Rightarrow> (rate_error + rate_decision) \<times> rate_rows" where
  "sql_acquire_many sha tenant clock fate ps rows =
     (case ordered_policies sha tenant ps of
        None \<Rightarrow> (Inl Bad_Request, rows)
      | Some kps \<Rightarrow>
          if fate = Rolled_Back then (Inl Budget_Unavailable, rows)
          else case change_all clock 0 kps rows of
                 None \<Rightarrow> (Inl Budget_Unavailable, rows)
               | Some (ds, rows') \<Rightarrow>
                   let checked = latest rd_checked_at ds
                   in if list_ex (\<lambda>d. \<not> rd_allowed d) ds
                      then (Inr \<lparr>rd_allowed = False, rd_checked_at = checked,
                                 rd_retry_at = latest rd_retry_at ds\<rparr>, rows)
                      else if fate = Reply_Lost then (Inl Budget_Unavailable, rows')
                      else (Inr \<lparr>rd_allowed = True, rd_checked_at = checked, rd_retry_at = checked\<rparr>, rows'))"

definition rate_defer :: "(string \<Rightarrow> string) \<Rightarrow> string \<Rightarrow> instant \<Rightarrow> fate \<Rightarrow> string \<Rightarrow> rate_policy \<Rightarrow> int \<Rightarrow>
    rate_rows \<Rightarrow> (rate_error + rate_decision) \<times> rate_rows" where
  "rate_defer sha tenant now fate bucket p delay rows =
     (case (if fate = Rolled_Back \<or> \<not> delay_valid delay then None else bucket_key sha tenant bucket) of
        None \<Rightarrow> (Inl Budget_Unavailable, rows)
      | Some k \<Rightarrow>
          (case change_locked now k p (Some delay) rows of
             None \<Rightarrow> (Inl Budget_Unavailable, rows)
           | Some (d, rows') \<Rightarrow>
               if fate = Reply_Lost then (Inl Budget_Unavailable, rows') else (Inr d, rows')))"

section \<open>What a change does to the rows\<close>

definition row_of :: "instant \<Rightarrow> rate_rows \<Rightarrow> bucket_key \<Rightarrow> rate_policy \<Rightarrow> rate_counter" where
  "row_of now rows k p = (case map_of rows k of Some c \<Rightarrow> c | None \<Rightarrow> fresh_counter p now)"

definition decide_row :: "instant \<Rightarrow> rate_counter \<Rightarrow> rate_decision \<times> rate_counter" where
  "decide_row now c =
     (case charge_row now c of
        Some c' \<Rightarrow> (read_decision True now c', c') | None \<Rightarrow> (read_decision False now c, c))"

lemma change_locked_charge:
  "change_locked now k p None rows =
     (let c = row_of now rows k p
      in if rc_policy c \<noteq> p then None
         else Some (fst (decide_row now c), AList.update k (snd (decide_row now c)) rows))"
  by (simp add: change_locked_def row_of_def decide_row_def Let_def split: option.splits)

lemma change_locked_defer:
  "change_locked now k p (Some n) rows =
     (let c = row_of now rows k p
      in if rc_policy c \<noteq> p then None
         else Some (read_decision False now (block_row now n c), AList.update k (block_row now n c) rows))"
  by (simp add: change_locked_def row_of_def Let_def split: option.splits)

lemma charge_keeps_policy: "charge_row now c = Some c' \<Longrightarrow> rc_policy c' = rc_policy c"
  by (auto simp: charge_row_def split: if_splits)

lemma row_of_update [simp]:
  "row_of now (AList.update k c rows) k' p = (if k' = k then c else row_of now rows k' p)"
  by (simp add: row_of_def)

lemma change_all_length: "change_all clock i kps rows = Some (ds, rows') \<Longrightarrow> List.length ds = List.length kps"
  by (induction clock i kps rows arbitrary: ds rows' rule: change_all.induct)
    (auto split: option.splits prod.splits)

lemma change_all_other:
  "change_all clock i kps rows = Some (ds, rows') \<Longrightarrow> k \<notin> fst ` set kps \<Longrightarrow> map_of rows' k = map_of rows k"
proof (induction clock i kps rows arbitrary: ds rows' rule: change_all.induct)
  case (2 clock i k' p ps rows)
  then show ?case
    by (auto simp: change_locked_charge Let_def split: if_splits)
qed simp

text \<open>One statement per bucket, each at its own instant; distinct buckets do not meet.\<close>

lemma change_all_member:
  "change_all clock i kps rows = Some (ds, rows') \<Longrightarrow> distinct (map fst kps) \<Longrightarrow> j < List.length kps \<Longrightarrow>
   kps ! j = (k, p) \<Longrightarrow>
   rc_policy (row_of (clock (i + j)) rows k p) = p \<and>
   ds ! j = fst (decide_row (clock (i + j)) (row_of (clock (i + j)) rows k p)) \<and>
   map_of rows' k = Some (snd (decide_row (clock (i + j)) (row_of (clock (i + j)) rows k p)))"
proof (induction clock i kps rows arbitrary: ds rows' j rule: change_all.induct)
  case (2 clock i k' p' ps rows)
  let ?c = "row_of (clock i) rows k' p'"
  let ?d = "decide_row (clock i) ?c"
  from 2(2) obtain ds2 where ok: "rc_policy ?c = p'" and ds: "ds = fst ?d # ds2"
    and rest: "change_all clock (Suc i) ps (AList.update k' (snd ?d) rows) = Some (ds2, rows')"
    by (auto simp: change_locked_charge Let_def split: if_splits)
  show ?case
  proof (cases j)
    case 0
    with 2(5) have "k = k'" "p = p'" by auto
    moreover have "map_of rows' k' = Some (snd ?d)"
      using change_all_other [OF rest, of k'] 2(3) by simp
    ultimately show ?thesis using 0 ok ds by simp
  next
    case (Suc n)
    then have "ps ! n = (k, p)" "n < List.length ps" using 2(4,5) by auto
    moreover from this have "k \<noteq> k'" using 2(3) by (metis distinct.simps(2) fst_conv image_eqI list.set_map list.simps(9) nth_mem)
    moreover have "change_locked (clock i) k' p' None rows = Some (fst ?d, AList.update k' (snd ?d) rows)"
      using ok by (simp add: change_locked_charge Let_def)
    ultimately show ?thesis
      using 2(1) [OF _ refl rest, of "fst ?d" n] 2(3) Suc ds by simp
  qed
qed simp

text \<open>The in-memory counters, read in the same way.\<close>

lemma mem_counter_cases:
  "mem_counter now k p cs =
     (if rc_policy (row_of now cs k p) \<noteq> p
      then (Inl Budget_Unavailable, if map_of cs k = None then AList.update k (fresh_counter p now) cs else cs)
      else (Inr (renewed now (row_of now cs k p)),
            AList.update k (renewed now (row_of now cs k p))
              (if map_of cs k = None then AList.update k (fresh_counter p now) cs else cs)))"
  by (simp add: mem_counter_def row_of_def Let_def split: option.splits)

lemma mem_counters_answer:
  "distinct (map fst kps) \<Longrightarrow>
   fst (mem_counters now kps cs) =
     (if list_all (\<lambda>(k, p). rc_policy (row_of now cs k p) = p) kps
      then Inr (map (\<lambda>(k, p). (k, renewed now (row_of now cs k p))) kps) else Inl Budget_Unavailable)"
proof (induction kps arbitrary: cs)
  case (Cons kp kps)
  obtain k p where kp: "kp = (k, p)" by fastforce
  obtain q cs1 where q: "mem_counter now k p cs = (q, cs1)" by fastforce
  have same: "row_of now cs1 k' p' = row_of now cs k' p'" if "(k', p') \<in> set kps" for k' p'
  proof -
    have "k' \<noteq> k" using that Cons.prems kp by force
    then show ?thesis using q by (auto simp: mem_counter_cases split: if_splits)
  qed
  have "list_all (\<lambda>(k, p). rc_policy (row_of now cs1 k p) = p) kps = list_all (\<lambda>(k, p). rc_policy (row_of now cs k p) = p) kps"
    using same by (fastforce simp: list_all_iff)
  moreover have "map (\<lambda>(k, p). (k, renewed now (row_of now cs1 k p))) kps = map (\<lambda>(k, p). (k, renewed now (row_of now cs k p))) kps"
    using same by auto
  ultimately show ?case
    using Cons.IH [of cs1] Cons.prems q
    by (auto simp: kp mem_counter_cases split: if_splits prod.splits sum.splits)
qed simp

lemma change_all_answer:
  "distinct (map fst kps) \<Longrightarrow>
   map_option fst (change_all (\<lambda>_. now) i kps rows) =
     (if list_all (\<lambda>(k, p). rc_policy (row_of now rows k p) = p) kps
      then Some (map (\<lambda>(k, p). fst (decide_row now (row_of now rows k p))) kps) else None)"
proof (induction kps arbitrary: rows i)
  case (Cons kp kps)
  obtain k p where kp: "kp = (k, p)" by fastforce
  let ?rows1 = "AList.update k (snd (decide_row now (row_of now rows k p))) rows"
  have same: "row_of now ?rows1 k' p' = row_of now rows k' p'" if "(k', p') \<in> set kps" for k' p'
    using that Cons.prems kp by force
  have "list_all (\<lambda>(k, p). rc_policy (row_of now ?rows1 k p) = p) kps = list_all (\<lambda>(k, p). rc_policy (row_of now rows k p) = p) kps"
    using same by (fastforce simp: list_all_iff)
  moreover have "map (\<lambda>(k, p). fst (decide_row now (row_of now ?rows1 k p))) kps = map (\<lambda>(k, p). fst (decide_row now (row_of now rows k p))) kps"
    using same by auto
  ultimately show ?case
    using Cons.IH [of "Suc i" ?rows1] Cons.prems
    by (auto simp: kp change_locked_charge Let_def option.map_comp comp_def split: if_splits)
qed simp

text \<open>On one row both budgets say the same.\<close>

lemma row_decisions_agree:
  assumes "policy_valid (rc_policy c)"
  shows "rd_allowed (fst (decide_row now c)) \<longleftrightarrow> next_free now (renewed now c) = now"
    and "rd_retry_at (fst (decide_row now c)) = next_free now (renewed now c)"
    and "rd_checked_at (fst (decide_row now c)) = now" and "now \<le> next_free now (renewed now c)"
  using assms
  by (auto simp: decide_row_def charge_row_def read_decision_def still_blocked_def next_free_def renewed_def
      policy_valid_def seconds_def max_def split: option.splits if_splits)

lemma all_some_conv: "all_some xs = Some ys \<longleftrightarrow> xs = map Some ys"
proof (induction xs arbitrary: ys rule: all_some.induct)
  case (3 x xs)
  then show ?case by (cases ys) auto
qed auto

lemma ordered_policies_some:
  assumes "ordered_policies sha tenant ps = Some kps"
  shows "distinct (map fst kps)" "kps \<noteq> []" "snd ` set kps = snd ` set ps"
    and "List.length kps = List.length ps"
    and "\<And>k p. (k, p) \<in> set kps \<Longrightarrow> \<exists>b. (b, p) \<in> set ps \<and> bucket_key sha tenant b = Some k"
proof -
  obtain ks where len: "ps \<noteq> []" and ks: "map (\<lambda>(b, _). bucket_key sha tenant b) ps = map Some ks"
    and d: "distinct ks" and kps: "kps = sort_key (\<lambda>(k, _). snd k) (zip ks (map snd ps))"
    using assms by (auto simp: ordered_policies_def all_some_conv split: if_splits option.splits)
  have l: "List.length ks = List.length ps" using arg_cong [OF ks, of List.length] by simp
  have "mset (map f kps) = mset (map f (zip ks (map snd ps)))" for f :: "bucket_key \<times> rate_policy \<Rightarrow> 'b"
    by (simp add: kps)
  note m = this [of fst] this [of snd]
  have "mset (map fst kps) = mset ks" using m(1) l by (simp del: mset_map)
  then show "distinct (map fst kps)" using d by (metis mset_eq_imp_distinct_iff)
  show "List.length kps = List.length ps" using l by (simp add: kps)
  with len show "kps \<noteq> []" by auto
  have "mset (map snd kps) = mset (map snd ps)" using m(2) l by (simp del: mset_map)
  then show "snd ` set kps = snd ` set ps" by (metis list.set_map mset_eq_setD)
  fix k p assume "(k, p) \<in> set kps"
  then obtain i where i: "i < List.length ps" "ks ! i = k" "snd (ps ! i) = p"
    using l by (auto simp: kps set_zip)
  moreover have "bucket_key sha tenant (fst (ps ! i)) = Some k"
    using arg_cong [OF ks, of "\<lambda>xs. xs ! i"] i l by (auto simp: case_prod_beta)
  ultimately show "\<exists>b. (b, p) \<in> set ps \<and> bucket_key sha tenant b = Some k"
    by (metis nth_mem prod.collapse)
qed

lemma fold_max_le: "fold max xs (a::instant) \<le> a' \<longleftrightarrow> a \<le> a' \<and> (\<forall>x\<in>set xs. x \<le> a')"
  by (induction xs arbitrary: a) auto

lemma fold_max_base: "(a::instant) \<le> fold max xs a"
  using fold_max_le [of xs a "fold max xs a"] by simp

lemma fold_max_skip: "xs \<noteq> [] \<Longrightarrow> \<forall>x\<in>set xs. a \<le> x \<Longrightarrow> fold max (tl xs) (hd xs) = fold max xs (a::instant)"
  by (cases xs) (simp_all add: max.absorb1)

lemma latest_conv: "ds \<noteq> [] \<Longrightarrow> latest f ds = fold max (tl (map f ds)) (hd (map f ds))"
  by (cases ds) (simp_all add: latest_def)

section \<open>A history of the SQL budget\<close>

text \<open>
  The operations of all replicas in the order of their transactions. The statements of one
  acquisition are \<open>lags\<close> apart. The log keeps, per bucket, the instants of the requests
  that were let through.
\<close>

datatype rate_op =
    Acquire_Op string instant "nat list" fate "(string \<times> rate_policy) list"
  | Defer_Op string instant fate string rate_policy int

definition statement_time :: "instant \<Rightarrow> nat list \<Rightarrow> nat \<Rightarrow> instant" where
  "statement_time now lags i = now + int (sum_list (take i lags))"

fun op_start :: "rate_op \<Rightarrow> instant" where
  "op_start (Acquire_Op _ now _ _ _) = now"
| "op_start (Defer_Op _ now _ _ _ _) = now"

fun op_end :: "rate_op \<Rightarrow> instant" where
  "op_end (Acquire_Op _ now lags _ _) = now + int (sum_list lags)"
| "op_end (Defer_Op _ now _ _ _ _) = now"

text \<open>SQL time does not run backwards, and every policy passed its validation.\<close>

fun timely :: "instant \<Rightarrow> rate_op list \<Rightarrow> bool" where
  "timely t [] = True"
| "timely t (x # xs) = (t \<le> op_start x \<and> timely (op_end x) xs)"

fun op_valid :: "rate_op \<Rightarrow> bool" where
  "op_valid (Acquire_Op _ _ _ _ ps) = list_all (\<lambda>(_, p). policy_valid p) ps"
| "op_valid (Defer_Op _ _ _ _ p _) = policy_valid p"

fun rate_step :: "(string \<Rightarrow> string) \<Rightarrow> rate_op \<Rightarrow> (bucket_key \<times> instant) list \<times> rate_rows \<Rightarrow>
    (rate_error + rate_decision) \<times> (bucket_key \<times> instant) list \<times> rate_rows" where
  "rate_step sha (Acquire_Op tenant now lags fate ps) (log, rows) =
     (let (r, rows') = sql_acquire_many sha tenant (statement_time now lags) fate ps rows
      in (r, (case (r, ordered_policies sha tenant ps) of
                (Inr d, Some kps) \<Rightarrow>
                  if rd_allowed d
                  then log @ map (\<lambda>(i, kp). (fst kp, statement_time now lags i)) (enumerate 0 kps) else log
              | _ \<Rightarrow> log), rows'))"
| "rate_step sha (Defer_Op tenant now fate bucket p n) (log, rows) =
     (let (r, rows') = rate_defer sha tenant now fate bucket p n rows in (r, log, rows'))"

definition grants :: "bucket_key \<Rightarrow> (bucket_key \<times> instant) list \<Rightarrow> instant list" where
  "grants k log = map snd (filter (\<lambda>(k', _). k' = k) log)"

lemma grants_append [simp]: "grants k (log @ log') = grants k log @ grants k log'" "grants k [] = []"
  by (simp_all add: grants_def)

text \<open>What one operation does to one bucket: nothing, a charge that may be logged, a cooldown.\<close>

inductive bucket_step :: "bucket_key \<Rightarrow> instant \<Rightarrow> (bucket_key \<times> instant) list \<times> rate_rows \<Rightarrow>
    (bucket_key \<times> instant) list \<times> rate_rows \<Rightarrow> bool" for k where
  stays: "map_of rows' k = map_of rows k \<Longrightarrow> grants k log' = grants k log \<Longrightarrow>
     bucket_step k now (log, rows) (log', rows')"
| charged: "policy_valid p \<Longrightarrow> rc_policy (row_of now rows k p) = p \<Longrightarrow> charge_row now (row_of now rows k p) = Some c \<Longrightarrow>
     map_of rows' k = Some c \<Longrightarrow>
     grants k log' \<in>
       {grants k log, grants k log @ [now]} \<Longrightarrow>
     bucket_step k now (log, rows) (log', rows')"
| blocked: "policy_valid p \<Longrightarrow> rc_policy (row_of now rows k p) = p \<Longrightarrow> map_of rows' k = Some (block_row now n (row_of now rows k p)) \<Longrightarrow>
     log' = log \<Longrightarrow> bucket_step k now (log, rows) (log', rows')"

lemma grants_none:
  "k \<notin> fst ` set kps \<Longrightarrow> grants k (map (\<lambda>(i, kp). (fst kp, f i)) (enumerate n kps)) = []"
  by (induction kps arbitrary: n) (auto simp: grants_def)

lemma grants_one:
  "distinct (map fst kps) \<Longrightarrow> j < List.length kps \<Longrightarrow> fst (kps ! j) = k \<Longrightarrow>
   grants k (map (\<lambda>(i, kp). (fst kp, f i)) (enumerate n kps)) = [f (n + j)]"
proof (induction kps arbitrary: n j)
  case (Cons kp kps)
  show ?case
  proof (cases j)
    case 0
    with Cons.prems have "k \<notin> fst ` set kps" by auto
    then show ?thesis using 0 Cons.prems grants_none [of k kps f "Suc n"] by (simp add: grants_def)
  next
    case (Suc m)
    then have "fst kp \<noteq> k" using Cons.prems nth_mem [of m kps] by auto
    then show ?thesis using Suc Cons.IH [of m "Suc n"] Cons.prems by (simp add: grants_def)
  qed
qed simp

lemma statement_time_bounds:
  "now \<le> statement_time now lags i" "statement_time now lags i \<le> now + int (sum_list lags)"
proof -
  have "sum_list lags = sum_list (take i lags) + sum_list (drop i lags)"
    by (metis append_take_drop_id sum_list_append)
  then show "now \<le> statement_time now lags i" "statement_time now lags i \<le> now + int (sum_list lags)"
    by (simp_all add: statement_time_def)
qed

lemma acquire_cases:
  assumes "sql_acquire_many sha tenant clock fate ps rows = (r, rows')"
  obtains (nothing) "rows' = rows" "\<And>d. r = Inr d \<Longrightarrow> \<not> rd_allowed d"
    | (charged) kps ds where "ordered_policies sha tenant ps = Some kps" "change_all clock 0 kps rows = Some (ds, rows')"
        "\<forall>d\<in>set ds. rd_allowed d" "r = Inl Budget_Unavailable \<or> (\<exists>d. r = Inr d \<and> rd_allowed d)"
  using assms
  by (auto simp: sql_acquire_many_def Let_def list_ex_iff split: option.splits if_splits prod.splits)

lemma rate_step_bucket:
  assumes "rate_step sha x (log, rows) = (r, log', rows')" "op_valid x"
  shows "\<exists>now. op_start x \<le> now \<and> now \<le> op_end x \<and> bucket_step k now (log, rows) (log', rows')"
proof (cases x)
  case (Acquire_Op tenant now lags fate ps)
  let ?clock = "statement_time now lags"
  obtain r0 rows0 where a: "sql_acquire_many sha tenant ?clock fate ps rows = (r0, rows0)" by fastforce
  have r0: "rows' = rows0" "r = r0" using assms(1) a by (auto simp: Acquire_Op)
  from a show ?thesis
  proof (cases rule: acquire_cases)
    case nothing
    then have "log' = log" "rows' = rows"
      using assms(1) a by (auto simp: Acquire_Op split: sum.splits option.splits)
    then have "bucket_step k now (log, rows) (log', rows')" by (auto intro: stays)
    then show ?thesis using Acquire_Op by (intro exI [of _ now]) simp
  next
    case (charged kps ds)
    note o = ordered_policies_some [OF charged(1)]
    let ?new = "map (\<lambda>(i, kp). (fst kp, ?clock i)) (enumerate 0 kps)"
    have log': "log' = log \<or> log' = log @ ?new"
      using assms(1) a charged(1,4) by (auto simp: Acquire_Op)
    show ?thesis
    proof (cases "k \<in> fst ` set kps")
      case False
      then have "bucket_step k now (log, rows) (log', rows')"
        using log' grants_none [OF False, of ?clock 0] change_all_other [OF charged(2) False] r0(1)
        by (intro stays) auto
      then show ?thesis using Acquire_Op by (intro exI [of _ now]) simp
    next
      case True
      then obtain j p where j: "j < List.length kps" "kps ! j = (k, p)"
        by (metis (no_types, lifting) imageE in_set_conv_nth prod.collapse)
      note m = change_all_member [OF charged(2) o(1) j]
      have "ds ! j \<in> set ds" using j change_all_length [OF charged(2)] by simp
      with charged(3) m obtain c where c: "charge_row (?clock j) (row_of (?clock j) rows k p) = Some c"
        by (auto simp: decide_row_def read_decision_def split: option.splits)
      have "p \<in> snd ` set ps" using o(3) j by (metis image_eqI nth_mem snd_conv)
      then have "policy_valid p" using assms(2) by (auto simp: Acquire_Op list_all_iff)
      then have "bucket_step k (?clock j) (log, rows) (log', rows')"
        using m c r0(1) log' grants_one [OF o(1) j(1), of k ?clock 0] j(2)
        by (intro bucket_step.charged [of p]) (auto simp: decide_row_def)
      then show ?thesis using Acquire_Op statement_time_bounds [of now lags j] by (intro exI [of _ "?clock j"]) simp
    qed
  qed
next
  case (Defer_Op tenant now fate bucket p n)
  obtain r0 rows0 where a: "rate_defer sha tenant now fate bucket p n rows = (r0, rows0)" by fastforce
  have eq: "rows' = rows0" "log' = log" using assms(1) a by (auto simp: Defer_Op)
  have "rows0 = rows \<or> (\<exists>k'. rc_policy (row_of now rows k' p) = p \<and> rows0 = AList.update k' (block_row now n (row_of now rows k' p)) rows)"
    using a by (auto simp: rate_defer_def change_locked_defer Let_def simp del: split_paired_All split_paired_Ex
        split: option.splits if_splits)
  then have "bucket_step k now (log, rows) (log', rows')"
  proof (elim disjE exE conjE)
    fix k' assume h: "rc_policy (row_of now rows k' p) = p" "rows0 = AList.update k' (block_row now n (row_of now rows k' p)) rows"
    show ?thesis
    proof (cases "k' = k")
      case True
      with h eq assms(2) Defer_Op show ?thesis by (intro blocked [of p _ _ _ _ n]) auto
    next
      case False
      with h eq show ?thesis by (intro stays) auto
    qed
  qed (use eq in \<open>auto intro: stays\<close>)
  then show ?thesis using Defer_Op by (intro exI [of _ now]) simp
qed

text \<open>How many of the instants fall into a span.\<close>

definition within :: "instant \<Rightarrow> instant \<Rightarrow> instant list \<Rightarrow> int" where
  "within a b G = int (List.length (filter (\<lambda>g. a \<le> g \<and> g < b) G))"

lemma within_append [simp]: "within a b (G @ H) = within a b G + within a b H"
  by (simp add: within_def)

lemma within_single [simp]: "within a b [g] = (if a \<le> g \<and> g < b then 1 else 0)"
  by (simp add: within_def)

lemma within_Nil [simp]: "within a b [] = 0"
  by (simp add: within_def)

lemma within_mono: "a' \<le> a \<Longrightarrow> b \<le> b' \<Longrightarrow> within a b G \<le> within a' b' G"
  unfolding within_def by (induction G) auto

lemma within_split: "a \<le> b \<Longrightarrow> b \<le> c \<Longrightarrow> within a c G = within a b G + within b c G"
  unfolding within_def by (induction G) auto

text \<open>
  The state of one bucket: the current window holds at most the requests charged in it, the
  span of one window length before it holds at most one window's worth, and no span of
  that length ever holds more than two.
\<close>

definition bucket_ok :: "bucket_key \<Rightarrow> instant \<Rightarrow> (bucket_key \<times> instant) list \<times> rate_rows \<Rightarrow> bool" where
  "bucket_ok k t s \<longleftrightarrow>
     (case map_of (snd s) k of
        None \<Rightarrow> grants k (fst s) = []
      | Some c \<Rightarrow>
          let G = grants k (fst s); n = rp_requests (rc_policy c); w = seconds (rp_window (rc_policy c));
              from = rc_window_ends c - w
          in policy_valid (rc_policy c) \<and> from \<le> t \<and> within from (rc_window_ends c) G \<le> rc_used c \<and>
             rc_used c \<le> n \<and> (\<forall>g\<in>set G. g < rc_window_ends c) \<and>
             (\<forall>a. from - w < a \<longrightarrow> within a from G \<le> n) \<and> (\<forall>a. within a (a + w) G \<le> 2 * n))"

lemma within_cover: "\<forall>g\<in>set G. g < e \<Longrightarrow> within a b G \<le> within a f G + within f e G"
  unfolding within_def by (induction G) auto

lemma within_capped: "\<forall>g\<in>set G. g < e \<Longrightarrow> within a b G \<le> within a e G"
  unfolding within_def by (induction G) auto

lemma within_beyond: "\<forall>g\<in>set G. g < e \<Longrightarrow> e \<le> a \<Longrightarrow> within a b G = 0"
  unfolding within_def by (induction G) auto

text \<open>Two windows' worth at most, when a window is opened or charged.\<close>

lemma window_opened:
  assumes "\<forall>g\<in>set G. g < e" "e \<le> now" "within (e - w) e G \<le> n" "\<forall>a. within a (a + w) G \<le> 2 * n" "1 \<le> n" "0 < w"
    and "H \<in> {G, G @ [now]}"
  shows "within now (now + w) H \<le> 1" "\<forall>g\<in>set H. g < now + w"
    "\<forall>a. now - w < a \<longrightarrow> within a now H \<le> n" "\<forall>a. within a (a + w) H \<le> 2 * n"
proof -
  have last: "within a b G \<le> n" if "now - w < a" for a b
    using within_capped [OF assms(1), of a b] within_mono [of "e - w" a e e G] assms(2,3) that by simp
  show "within now (now + w) H \<le> 1" "\<forall>g\<in>set H. g < now + w"
    using assms(1,2,6,7) within_beyond [OF assms(1,2), of "now + w"] by fastforce+
  show "\<forall>a. now - w < a \<longrightarrow> within a now H \<le> n"
    using last assms(7) by auto
  show "\<forall>a. within a (a + w) H \<le> 2 * n"
  proof
    fix a
    show "within a (a + w) H \<le> 2 * n"
      using last [of a "a + w"] assms(4,5,7) by (cases "a \<le> now \<and> now < a + w") auto
  qed
qed

lemma window_charged:
  assumes "\<forall>g\<in>set G. g < e" "e - w \<le> now" "now < e" "within (e - w) e G \<le> u" "u < n"
    and "\<forall>a. e - w - w < a \<longrightarrow> within a (e - w) G \<le> n" "\<forall>a. within a (a + w) G \<le> 2 * n"
    and "H \<in> {G, G @ [now]}"
  shows "within (e - w) e H \<le> u + 1" "\<forall>g\<in>set H. g < e"
    "\<forall>a. e - w - w < a \<longrightarrow> within a (e - w) H \<le> n" "\<forall>a. within a (a + w) H \<le> 2 * n"
proof -
  show "within (e - w) e H \<le> u + 1" "\<forall>g\<in>set H. g < e" using assms by auto
  show "\<forall>a. e - w - w < a \<longrightarrow> within a (e - w) H \<le> n" using assms(2,6,8) by auto
  show "\<forall>a. within a (a + w) H \<le> 2 * n"
  proof
    fix a
    show "within a (a + w) H \<le> 2 * n"
    proof (cases "a \<le> now \<and> now < a + w")
      case True
      then have "within a (e - w) G \<le> n" using assms(2,6) by simp
      then show ?thesis
        using within_cover [OF assms(1), of a "a + w" "e - w"] assms(4,5,8) True by auto
    qed (use assms(7,8) in auto)
  qed
qed

lemma bucket_ok_later: "bucket_ok k t s \<Longrightarrow> t \<le> t' \<Longrightarrow> bucket_ok k t' s"
  by (auto simp: bucket_ok_def Let_def split: option.splits)

lemma bucket_okI:
  assumes "map_of rows k = Some c" "rc_policy c = p" "policy_valid p" "rc_window_ends c = e" "rc_used c = u"
    and "w = seconds (rp_window p)" "e - w \<le> t" "u \<le> rp_requests p"
    and "within (e - w) e (grants k log) \<le> u" "\<forall>g\<in>set (grants k log). g < e"
    "\<forall>a. e - w - w < a \<longrightarrow> within a (e - w) (grants k log) \<le> rp_requests p"
    "\<forall>a. within a (a + w) (grants k log) \<le> 2 * rp_requests p"
  shows "bucket_ok k t (log, rows)"
  unfolding bucket_ok_def Let_def fst_conv snd_conv assms(1) option.case assms(2,4,5) assms(6) [symmetric]
  using assms(3,7-) by blast

lemma bucket_ok_step:
  assumes "bucket_step k now (log, rows) (log', rows')" "bucket_ok k t (log, rows)" "t \<le> now"
  shows "bucket_ok k now (log', rows')"
proof -
  have fresh: "bucket_ok k now (log, AList.update k (fresh_counter p now) rows)"
    if "map_of rows k = None" "policy_valid p" for p
    using that assms(2) by (auto simp: bucket_ok_def fresh_counter_def policy_valid_def)
  have same: "rc_policy c = rc_policy d \<Longrightarrow> rc_window_ends c = rc_window_ends d \<Longrightarrow> rc_used c = rc_used d \<Longrightarrow>
      map_of rows1 k = Some c \<Longrightarrow> map_of rows2 k = Some d \<Longrightarrow> bucket_ok k t (l, rows1) = bucket_ok k t (l, rows2)"
    for c d rows1 rows2 t l
    by (simp add: bucket_ok_def)
  have row: "bucket_ok k now (log, AList.update k (row_of now rows k p) rows)" if "policy_valid p" for p
    using fresh that bucket_ok_later [OF assms(2,3)]
  proof (cases "map_of rows k")
    case None
    with fresh [OF None that] show ?thesis by (simp add: row_of_def)
  next
    case (Some c)
    with bucket_ok_later [OF assms(2,3)] show ?thesis by (simp add: row_of_def bucket_ok_def)
  qed
  from assms(1) show ?thesis
  proof cases
    case stays
    with bucket_ok_later [OF assms(2,3)] show ?thesis by (cases "map_of rows k") (simp_all add: bucket_ok_def)
  next
    case (blocked p n)
    then show ?thesis
      using row [of p] same [of "block_row now n (row_of now rows k p)" "row_of now rows k p" rows'
          "AList.update k (row_of now rows k p) rows" now log]
      by (simp add: block_row_def)
  next
    case (charged p c)
    let ?r = "row_of now rows k p"
    define w where "w = seconds (rp_window p)"
    define lo where "lo = rc_window_ends ?r - w"
    define G where "G = grants k log"
    have w: "0 < w" using charged(1) by (simp add: w_def policy_valid_def seconds_def)
    have n: "1 \<le> rp_requests p" using charged(1) by (simp add: policy_valid_def)
    have I: "lo \<le> now" "within lo (rc_window_ends ?r) G \<le> rc_used ?r" "rc_used ?r \<le> rp_requests p"
      "\<forall>g\<in>set G. g < rc_window_ends ?r" "\<forall>a. lo - w < a \<longrightarrow> within a lo G \<le> rp_requests p"
      "\<forall>a. within a (a + w) G \<le> 2 * rp_requests p"
      using row [OF charged(1)] charged(2) by (auto simp: bucket_ok_def Let_def lo_def w_def G_def)
    have ends: "rc_window_ends ?r - w = lo" by (simp add: lo_def)
    show ?thesis
    proof (cases "rc_window_ends ?r \<le> now")
      case True
      then have c: "c = ?r\<lparr>rc_used := 1, rc_window_ends := now + w\<rparr>"
        using charged(2,3) by (auto simp: charge_row_def w_def split: if_splits)
      have "within (rc_window_ends ?r - w) (rc_window_ends ?r) G \<le> rp_requests p" using I(2,3) ends by simp
      from window_opened [OF I(4) True this I(6) n w, of "grants k log'"] charged(5)
      show ?thesis
        using c charged(2) n by (intro bucket_okI [OF charged(4) _ charged(1) refl refl w_def]) (simp_all add: G_def)
    next
      case False
      then have c: "c = ?r\<lparr>rc_used := rc_used ?r + 1\<rparr>" and u: "rc_used ?r < rp_requests p"
        using charged(2,3) by (auto simp: charge_row_def split: if_splits)
      have e: "rc_window_ends c = rc_window_ends ?r" "rc_used c = rc_used ?r + 1" "rc_policy c = p"
        using c charged(2) by simp_all
      note W = window_charged [of G "rc_window_ends ?r" w now "rc_used ?r" "rp_requests p" "grants k log'",
          unfolded ends, OF I(4,1) _ I(2) u I(5,6) charged(5) [folded G_def]]
      show ?thesis
        by (rule bucket_okI [OF charged(4) e(3) charged(1) e(1,2) w_def, unfolded ends])
          (use W False I(1) u in simp_all)
    qed
  qed
qed

lemma run_bucket_ok:
  "timely t xs \<Longrightarrow> list_all op_valid xs \<Longrightarrow> bucket_ok k t s \<Longrightarrow> \<exists>t'. bucket_ok k t' (run (rate_step sha) xs s)"
proof (induction xs arbitrary: t s)
  case (Cons x xs)
  obtain log rows where s: "s = (log, rows)" by fastforce
  obtain r log' rows' where r: "rate_step sha x (log, rows) = (r, log', rows')" by (metis prod_cases3)
  from rate_step_bucket [OF r, of k] Cons.prems(2) obtain now where
    now: "op_start x \<le> now" "now \<le> op_end x" "bucket_step k now (log, rows) (log', rows')" by auto
  have "bucket_ok k now (log', rows')"
    using bucket_ok_step [OF now(3), of t] Cons.prems(1,3) now(1) by (simp add: s)
  then have "bucket_ok k (op_end x) (log', rows')" using now(2) by (rule bucket_ok_later)
  with Cons.IH [of "op_end x" "(log', rows')"] Cons.prems r s show ?case by simp
qed auto

text \<open>A cooldown only ever moves later.\<close>

lemma run_cooldown:
  assumes "map_of rows k = Some c" "\<And>g. \<not> still_blocked g c \<Longrightarrow> until \<le> g" "list_all op_valid xs"
    and "\<forall>g\<in>set (grants k log). until \<le> g"
  shows "\<forall>g\<in>set (grants k (fst (run (rate_step sha) xs (log, rows)))). until \<le> g"
  using assms
proof (induction xs arbitrary: log rows c)
  case (Cons x xs)
  obtain r log' rows' where r: "rate_step sha x (log, rows) = (r, log', rows')" by (metis prod_cases3)
  from rate_step_bucket [OF r, of k] Cons.prems(3) obtain now where
    "bucket_step k now (log, rows) (log', rows')" by auto
  then obtain c' where "map_of rows' k = Some c'" "\<And>g. \<not> still_blocked g c' \<Longrightarrow> until \<le> g"
    "\<forall>g\<in>set (grants k log'). until \<le> g"
  proof cases
    case stays
    with Cons.prems that [of c] show thesis by (metis list.set_map)
  next
    case (charged p c')
    then have c: "charge_row now c = Some c'" using Cons.prems(1) by (simp add: row_of_def)
    then have "until \<le> now" using Cons.prems(2) [of now] by (auto simp: charge_row_def split: if_splits)
    moreover have "rc_blocked c' = rc_blocked c" using c by (auto simp: charge_row_def split: if_splits)
    ultimately show thesis
      using charged(4,5) Cons.prems(2,4) that [of c'] by (auto simp: still_blocked_def)
  next
    case (blocked p n)
    have "\<not> still_blocked g (block_row now n c) \<Longrightarrow> \<not> still_blocked g c" for g
      by (auto simp: still_blocked_def block_row_def split: option.splits if_splits)
    with blocked Cons.prems show thesis by (intro that [of "block_row now n c"]) (auto simp: row_of_def)
  qed
  from Cons.IH [OF this(1,2) _ this(3)] Cons.prems(3) r show ?case by simp
qed simp

text \<open>The answers of one acquisition, row by row.\<close>

lemma decisions_agree:
  fixes row :: "'k \<Rightarrow> rate_counter" and now :: instant
  assumes "kps \<noteq> []" and "\<And>kp. kp \<in> set kps \<Longrightarrow> policy_valid (rc_policy (row kp))"
  defines "ds \<equiv> map (\<lambda>kp. fst (decide_row now (row kp))) kps"
    and "free \<equiv> fold max (map (\<lambda>kp. next_free now (renewed now (row kp))) kps) now"
  shows "latest rd_retry_at ds = free" "latest rd_checked_at ds = now"
    "list_ex (\<lambda>d. \<not> rd_allowed d) ds \<longleftrightarrow> now < free"
proof -
  note agree = row_decisions_agree [OF assms(2), where now = now]
  have retry: "map rd_retry_at ds = map (\<lambda>kp. next_free now (renewed now (row kp))) kps"
    unfolding ds_def using agree(2) by auto
  show "latest rd_retry_at ds = free"
    using assms(1) agree(4) unfolding free_def
    by (subst latest_conv) (simp add: ds_def, simp only: retry, rule fold_max_skip, auto)
  have "map rd_checked_at ds = replicate (List.length kps) now"
    unfolding ds_def using agree(3) by (subst map_replicate_const [symmetric]) (auto simp del: map_replicate_const)
  moreover have "fold max (replicate n a) a = a" for n and a :: instant by (induction n) auto
  ultimately show "latest rd_checked_at ds = now"
    using assms(1) by (cases kps) (auto simp: latest_def ds_def)
  have "free \<le> now \<longleftrightarrow> (\<forall>kp\<in>set kps. next_free now (renewed now (row kp)) \<le> now)"
    by (simp add: free_def fold_max_le)
  also have "\<dots> \<longleftrightarrow> (\<forall>kp\<in>set kps. rd_allowed (fst (decide_row now (row kp))))"
    by (rule ball_cong [OF refl]) (metis agree(1,4) order.antisym order.refl)
  finally show "list_ex (\<lambda>d. \<not> rd_allowed d) ds \<longleftrightarrow> now < free"
    by (auto simp: ds_def list_ex_iff not_le [symmetric])
qed

section \<open>Properties\<close>

text \<open>
  The offline budget and the SQL budget give the same answer to the same acquisition
  from the same counters at the same instant: the same permission, the same time to try
  again, the same refusal of a disagreeing policy or a bad bucket.
\<close>

lemma budgets_agree:
  assumes "list_all (\<lambda>(_, p). policy_valid p) ps"
  shows "fst (mem_acquire_many sha tenant now ps rows) =
    fst (sql_acquire_many sha tenant (\<lambda>_. now) Committed ps rows)"
proof (cases "ordered_policies sha tenant ps")
  case None
  then show ?thesis by (simp add: mem_acquire_many_def sql_acquire_many_def)
next
  case (Some kps)
  note o = ordered_policies_some [OF Some]
  let ?c = "\<lambda>(k, p). row_of now rows k p"
  let ?d = "\<lambda>kp. fst (decide_row now (?c kp))"
  let ?ok = "list_all (\<lambda>(k, p). rc_policy (row_of now rows k p) = p) kps"
  have mem: "fst (mem_counters now kps rows) =
      (if ?ok then Inr (map (\<lambda>kp. (fst kp, renewed now (?c kp))) kps) else Inl Budget_Unavailable)"
    using mem_counters_answer [OF o(1), of now rows] by (simp add: case_prod_beta)
  have sql: "map_option fst (change_all (\<lambda>_. now) 0 kps rows) = (if ?ok then Some (map ?d kps) else None)"
    using change_all_answer [OF o(1), of now 0 rows] by (simp add: case_prod_beta)
  show ?thesis
  proof (cases ?ok)
    case False
    with mem sql Some show ?thesis
      by (auto simp: mem_acquire_many_def sql_acquire_many_def split: prod.splits)
  next
    case True
    have valid: "policy_valid (rc_policy (?c kp))" if "kp \<in> set kps" for kp
    proof -
      have "snd kp \<in> snd ` set ps" using that o(3) by auto
      then have "policy_valid (snd kp)" using assms by (auto simp: list_all_iff)
      with True that show ?thesis by (auto simp: list_all_iff)
    qed
    from decisions_agree [of kps ?c now, OF o(2) valid]
    show ?thesis
      using mem sql True Some
      by (auto simp: mem_acquire_many_def sql_acquire_many_def Let_def comp_def case_prod_beta split: prod.splits)
  qed
qed

definition one_per_minute :: rate_policy where
  "one_per_minute = \<lparr>rp_requests = 1, rp_window = 60\<rparr>"

lemma budgets_agree_witness:
  "fst (mem_acquire_many id ''t'' 5 [(''fabric'', one_per_minute)] []) =
   fst (sql_acquire_many id ''t'' (\<lambda>_. 5) Committed [(''fabric'', one_per_minute)] [])"
  by (rule budgets_agree) (simp add: one_per_minute_def policy_valid_def)



text \<open>
  After a \<open>Retry-After\<close> of \<open>n\<close> seconds is recorded for a bucket, no replica is let
  through before they have passed, whatever happens in between.
\<close>

lemma cooldown_respected:
  assumes "rate_defer sha tenant now fate bucket p n rows = (Inr d, rows')"
    and "bucket_key sha tenant bucket = Some k" and "list_all op_valid xs"
  shows "\<forall>g \<in> set (grants k (fst (run (rate_step sha) xs ([], rows')))). now + seconds n \<le> g"
proof -
  obtain c where "map_of rows' k = Some c" "\<not> still_blocked g c \<Longrightarrow> now + seconds n \<le> g" for g
  proof -
    have "rows' = AList.update k (block_row now n (row_of now rows k p)) rows"
      using assms(1,2) by (auto simp: rate_defer_def change_locked_defer Let_def split: if_splits option.splits)
    then show thesis
      by (intro that [of "block_row now n (row_of now rows k p)"])
        (auto simp: block_row_def still_blocked_def split: option.splits if_splits)
  qed
  then show ?thesis using run_cooldown [OF _ _ assms(3), where k = k and rows = rows' and c = c and log = "[]"]
    by simp
qed

lemma cooldown_respected_witness:
  "list_all (\<lambda>g. 0 + seconds 5 \<le> g) (grants (''t'', ''fabric'')
      (fst (run (rate_step id) [Acquire_Op ''t'' 7 [] Committed [(''fabric'', one_per_minute)]]
        ([], snd (rate_defer id ''t'' 0 Committed ''fabric'' one_per_minute 5 [])))))"
  unfolding list_all_iff
proof (rule cooldown_respected)
  show "rate_defer id ''t'' 0 Committed ''fabric'' one_per_minute 5 [] =
      (Inr \<lparr>rd_allowed = False, rd_checked_at = 0, rd_retry_at = 5000000\<rparr>,
       snd (rate_defer id ''t'' 0 Committed ''fabric'' one_per_minute 5 []))"
    by code_simp
  show "bucket_key id ''t'' ''fabric'' = Some (''t'', ''fabric'')" by code_simp
qed (simp add: one_per_minute_def policy_valid_def)

end
