(* ===== verification/Monitor_Leases.thy ===== *)
theory Monitor_Leases
  imports Prelude
begin

text \<open>
  The leases of \<^verbatim>\<open>src/src/triage/monitoring/memory.py\<close>: ownership of a work item, of a
  target's controller or of a receiver partition, with a fence that only grows. The store
  is that of one tenant and epoch; the key of a resource is any type. The clock reading of a
  call is its argument.
\<close>

record lease =
  ls_owner :: string
  ls_fence :: int
  ls_acquired :: instant
  ls_expires :: instant

type_synonym 'k leases = "('k, lease) dict"

text \<open>The exceptions of the monitoring layer, without their messages.\<close>

datatype fault = Mon_Conflict | Lease_Lost | Mon_Unavailable | Component_Denied | Mon_Invalid

text \<open>A live lease is returned to its owner as it is and denied to anyone else.\<close>

definition acquire_lease :: "instant \<Rightarrow> 'k \<Rightarrow> string \<Rightarrow> int \<Rightarrow> 'k leases \<Rightarrow> lease option \<times> 'k leases" where
  "acquire_lease now k owner secs ls =
     (let prior = map_of ls k;
          new = \<lparr>ls_owner = owner, ls_fence = (case prior of None \<Rightarrow> 1 | Some p \<Rightarrow> ls_fence p + 1),
                 ls_acquired = now, ls_expires = now + seconds secs\<rparr>
      in case prior of
           Some p \<Rightarrow>
             if now < ls_expires p then (if ls_owner p = owner then Some p else None, ls)
             else (Some new, AList.update k new ls)
         | None \<Rightarrow> (Some new, AList.update k new ls))"

definition renew_lease :: "instant \<Rightarrow> 'k \<Rightarrow> string \<Rightarrow> int \<Rightarrow> int \<Rightarrow> 'k leases \<Rightarrow> fault + lease \<times> 'k leases" where
  "renew_lease now k owner fence secs ls =
     (case map_of ls k of
        None \<Rightarrow> Inl Lease_Lost
      | Some p \<Rightarrow>
          if ls_owner p \<noteq> owner \<or> ls_fence p \<noteq> fence \<or> ls_expires p \<le> now then Inl Lease_Lost
          else let p' = p\<lparr>ls_expires := now + seconds secs\<rparr> in Inr (p', AList.update k p' ls))"

text \<open>The row of a released lease stays, expired, and keeps its fence.\<close>

definition expired_at :: "instant \<Rightarrow> lease \<Rightarrow> lease" where
  "expired_at now p = p\<lparr>ls_expires := max now (ls_acquired p + 1)\<rparr>"

definition release_lease :: "instant \<Rightarrow> 'k \<Rightarrow> string \<Rightarrow> int \<Rightarrow> 'k leases \<Rightarrow> fault + 'k leases" where
  "release_lease now k owner fence ls =
     (case map_of ls k of
        None \<Rightarrow> Inl Lease_Lost
      | Some p \<Rightarrow>
          if ls_owner p \<noteq> owner \<or> ls_fence p \<noteq> fence then Inl Lease_Lost
          else Inr (AList.update k (expired_at now p) ls))"

text \<open>The partition lease changes only from the row its caller read; a release burns a fence.\<close>

definition exchange_lease :: "instant \<Rightarrow> 'k \<Rightarrow> lease option \<Rightarrow> string option \<Rightarrow> int \<Rightarrow> 'k leases \<Rightarrow>
    fault + lease option \<times> 'k leases" where
  "exchange_lease now k expected owner secs ls =
     (let prior = map_of ls k
      in if prior \<noteq> expected then Inl Lease_Lost
         else case owner of
                None \<Rightarrow>
                  (case prior of
                     None \<Rightarrow> Inl Lease_Lost
                   | Some p \<Rightarrow> Inr (None, AList.update k ((expired_at now p)\<lparr>ls_fence := ls_fence p + 1\<rparr>) ls))
              | Some who \<Rightarrow>
                  (let new = \<lparr>ls_owner = who, ls_fence = (case prior of None \<Rightarrow> 1 | Some p \<Rightarrow> ls_fence p + 1),
                              ls_acquired = now, ls_expires = now + seconds secs\<rparr>
                   in Inr (Some new, AList.update k new ls)))"

definition holds :: "instant \<Rightarrow> 'k \<Rightarrow> string \<Rightarrow> int \<Rightarrow> 'k leases \<Rightarrow> bool" where
  "holds now k owner fence ls \<longleftrightarrow>
     (case map_of ls k of
        None \<Rightarrow> False
      | Some p \<Rightarrow> now < ls_expires p \<and> ls_owner p = owner \<and> ls_fence p = fence)"

section \<open>Histories\<close>

text \<open>Every token that was ever handed out, with the leases as they are.\<close>

datatype 'k lease_op =
    Acquire_Lease 'k string int
  | Renew_Lease 'k string int int
  | Release_Lease 'k string int
  | Exchange_Lease 'k "lease option" "string option" int

type_synonym 'k token = "'k \<times> string \<times> int"

fun lease_step :: "instant \<times> 'k lease_op \<Rightarrow> 'k token list \<times> 'k leases \<Rightarrow>
    (fault + lease option) \<times> 'k token list \<times> 'k leases" where
  "lease_step (now, Acquire_Lease k owner secs) (log, ls) =
     (case acquire_lease now k owner secs ls of
        (None, ls') \<Rightarrow> (Inr None, log, ls')
      | (Some p, ls') \<Rightarrow> (Inr (Some p), log @ [(k, owner, ls_fence p)], ls'))"
| "lease_step (now, Renew_Lease k owner fence secs) (log, ls) =
     (case renew_lease now k owner fence secs ls of
        Inl e \<Rightarrow> (Inl e, log, ls) | Inr (p, ls') \<Rightarrow> (Inr (Some p), log, ls'))"
| "lease_step (now, Release_Lease k owner fence) (log, ls) =
     (case release_lease now k owner fence ls of
        Inl e \<Rightarrow> (Inl e, log, ls) | Inr ls' \<Rightarrow> (Inr None, log, ls'))"
| "lease_step (now, Exchange_Lease k expected owner secs) (log, ls) =
     (case exchange_lease now k expected owner secs ls of
        Inl e \<Rightarrow> (Inl e, log, ls)
      | Inr (None, ls') \<Rightarrow> (Inr None, log, ls')
      | Inr (Some p, ls') \<Rightarrow> (Inr (Some p), log @ [(k, ls_owner p, ls_fence p)], ls'))"

text \<open>
  The row of a key carries the greatest fence handed out for it, and the owner it was
  handed to.
\<close>

definition fenced :: "'k token list \<times> 'k leases \<Rightarrow> bool" where
  "fenced s \<longleftrightarrow>
     (\<forall>k o' f. (k, o', f) \<in> set (fst s) \<longrightarrow>
        (\<exists>p. map_of (snd s) k = Some p \<and> (f < ls_fence p \<or> f = ls_fence p \<and> o' = ls_owner p))) \<and>
     (\<forall>k o1 o2 f. (k, o1, f) \<in> set (fst s) \<longrightarrow> (k, o2, f) \<in> set (fst s) \<longrightarrow> o1 = o2)"

lemma fencedD:
  "fenced (log, ls) \<Longrightarrow> (k, who, f) \<in> set log \<Longrightarrow>
     \<exists>p. map_of ls k = Some p \<and> (f < ls_fence p \<or> f = ls_fence p \<and> who = ls_owner p)"
  unfolding fenced_def fst_conv snd_conv by blast

lemma fenced_keep:
  assumes "fenced (log, ls)" "\<And>k' p. map_of ls k' = Some p \<Longrightarrow> \<exists>p'. map_of ls' k' = Some p' \<and>
      (ls_fence p < ls_fence p' \<or> ls_fence p = ls_fence p' \<and> ls_owner p = ls_owner p')"
  shows "fenced (log, ls')"
  unfolding fenced_def fst_conv snd_conv
proof (intro conjI allI impI)
  fix k o' f assume "(k, o', f) \<in> set log"
  then obtain p where p: "map_of ls k = Some p" "f < ls_fence p \<or> f = ls_fence p \<and> o' = ls_owner p"
    using fencedD [OF assms(1)] by blast
  from assms(2) [OF p(1)] p(2) show "\<exists>p. map_of ls' k = Some p \<and> (f < ls_fence p \<or> f = ls_fence p \<and> o' = ls_owner p)"
    by fastforce
next
  fix k o1 o2 f assume "(k, o1, f) \<in> set log" "(k, o2, f) \<in> set log"
  then show "o1 = o2" using assms(1) by (auto simp: fenced_def)
qed

lemma fenced_grant:
  assumes "fenced (log, ls)" "map_of ls k = Some p" "ls_owner p = who"
  shows "fenced (log @ [(k, who, ls_fence p)], ls)"
  unfolding fenced_def fst_conv snd_conv
proof (intro conjI allI impI)
  fix k' o' f assume "(k', o', f) \<in> set (log @ [(k, who, ls_fence p)])"
  then show "\<exists>p. map_of ls k' = Some p \<and> (f < ls_fence p \<or> f = ls_fence p \<and> o' = ls_owner p)"
    using fencedD [OF assms(1), of k' o' f] assms(2,3) by auto
next
  fix k' o1 o2 f
  assume a: "(k', o1, f) \<in> set (log @ [(k, who, ls_fence p)])" "(k', o2, f) \<in> set (log @ [(k, who, ls_fence p)])"
  have old: "o' = who" if "(k, o', ls_fence p) \<in> set log" for o'
    using fencedD [OF assms(1) that] assms(2,3) by auto
  have "o1 = o2" if "(k', o1, f) \<in> set log" "(k', o2, f) \<in> set log"
    using assms(1) that unfolding fenced_def fst_conv by blast
  with a old show "o1 = o2" by auto
qed

lemma lease_step_fenced:
  assumes "fenced s"
  shows "fenced (snd (lease_step (now, x) s))"
proof -
  obtain log ls where s: "s = (log, ls)" by fastforce
  note F = assms [unfolded s]
  show ?thesis
  proof (cases x)
    case (Acquire_Lease k owner secs)
    obtain q ls' where q: "acquire_lease now k owner secs ls = (q, ls')" by fastforce
    have "fenced (log, ls')"
      by (rule fenced_keep [OF F]) (use q in \<open>auto simp: acquire_lease_def Let_def split: option.splits if_splits\<close>)
    moreover have "\<exists>r. map_of ls' k = Some r \<and> ls_owner r = owner \<and> ls_fence r = ls_fence p" if "q = Some p" for p
      using q that by (auto simp: acquire_lease_def Let_def split: option.splits if_splits)
    ultimately show ?thesis
      using fenced_grant [of log ls' k _ owner] q by (cases q) (simp add: s Acquire_Lease, fastforce simp: s Acquire_Lease)
  next
    case (Renew_Lease k owner fence secs)
    show ?thesis
    proof (cases "renew_lease now k owner fence secs ls")
      case (Inr r)
      obtain p ls' where r: "r = (p, ls')" by fastforce
      have "fenced (log, ls')"
        by (rule fenced_keep [OF F]) (use Inr r in \<open>auto simp: renew_lease_def Let_def split: option.splits if_splits\<close>)
      with Inr r show ?thesis by (simp add: s Renew_Lease)
    qed (use F in \<open>simp add: s Renew_Lease\<close>)
  next
    case (Release_Lease k owner fence)
    show ?thesis
    proof (cases "release_lease now k owner fence ls")
      case (Inr ls')
      have "fenced (log, ls')"
        by (rule fenced_keep [OF F])
          (use Inr in \<open>auto simp: release_lease_def expired_at_def split: option.splits if_splits\<close>)
      with Inr show ?thesis by (simp add: s Release_Lease)
    qed (use F in \<open>simp add: s Release_Lease\<close>)
  next
    case (Exchange_Lease k expected owner secs)
    show ?thesis
    proof (cases "exchange_lease now k expected owner secs ls")
      case (Inr r)
      obtain q ls' where r: "r = (q, ls')" by fastforce
      have "fenced (log, ls')"
        by (rule fenced_keep [OF F])
          (use Inr r in \<open>auto simp: exchange_lease_def expired_at_def Let_def split: option.splits if_splits\<close>)
      moreover have "map_of ls' k = Some p" if "q = Some p" for p
        using Inr r that by (auto simp: exchange_lease_def Let_def split: option.splits if_splits)
      ultimately show ?thesis
        using fenced_grant [of log ls' k] Inr r by (cases q) (auto simp: s Exchange_Lease)
    qed (use F in \<open>simp add: s Exchange_Lease\<close>)
  qed
qed

lemma run_fenced: "fenced s \<Longrightarrow> fenced (run lease_step xs s)"
proof (induction xs arbitrary: s)
  case (Cons x xs)
  then show ?case using lease_step_fenced [of s "fst x" "snd x"] by simp
qed simp

section \<open>Properties\<close>

text \<open>
  A fence is never shared: of all the tokens ever handed out for a resource, two with
  the same fence went to the same owner, and whoever still holds the resource has the
  greatest fence of all; a former owner can neither renew nor release it.
\<close>

lemma only_the_latest_owner_holds:
  assumes "run lease_step xs ([], []) = (log, ls)" and "(k, who, f) \<in> set log"
    and "holds now k owner fence ls \<or> (\<exists>r. renew_lease now k owner fence secs ls = Inr r)
      \<or> (\<exists>r. release_lease now k owner fence ls = Inr r)"
  shows "f < fence \<or> f = fence \<and> who = owner"
proof -
  have "fenced (log, ls)" using run_fenced [of "([], [])" xs] assms(1) by (simp add: fenced_def)
  then obtain p where p: "map_of ls k = Some p" "f < ls_fence p \<or> f = ls_fence p \<and> who = ls_owner p"
    using fencedD [of log ls k who f] assms(2) by blast
  have "ls_fence p = fence \<and> ls_owner p = owner"
    using assms(3)
  proof (elim disjE exE)
    fix r assume "renew_lease now k owner fence secs ls = Inr r"
    then show ?thesis using p(1) by (simp add: renew_lease_def split: if_splits)
  next
    fix r assume "release_lease now k owner fence ls = Inr r"
    then show ?thesis using p(1) by (simp add: release_lease_def split: if_splits)
  qed (use p(1) in \<open>simp add: holds_def\<close>)
  with p(2) show ?thesis by blast
qed

lemma only_the_latest_owner_holds_witness:
  "let s = run lease_step [(0, Acquire_Lease ''w'' ''a'' 1), (5000000, Acquire_Lease ''w'' ''b'' 60)] ([], [])
   in (''w'', ''a'', 1) \<in> set (fst s) \<and> holds 6000000 ''w'' ''b'' 2 (snd s)
      \<and> ((1::int) < 2 \<or> (1::int) = 2 \<and> ''a'' = ''b'')"
proof -
  let ?xs = "[(0, Acquire_Lease ''w'' ''a'' 1), (5000000, Acquire_Lease ''w'' ''b'' 60)]"
  obtain log ls where r: "run lease_step ?xs ([], []) = (log, ls)" by fastforce
  have m: "(''w'', ''a'', 1) \<in> set (fst (run lease_step ?xs ([], [])))" by code_simp
  have h: "holds 6000000 ''w'' ''b'' 2 (snd (run lease_step ?xs ([], [])))" by code_simp
  from only_the_latest_owner_holds [OF r, of "''w''" "''a''" 1 6000000 "''b''" 2 0] m h r show ?thesis
    by simp
qed

end
