(* ===== verification/Monitor_Models.thy ===== *)
theory Monitor_Models
  imports Monitor_Leases Models
begin

text \<open>
  The contracts of \<^verbatim>\<open>src/src/triage/monitoring/models.py\<close> that carry source work and its
  actions, with their validators as predicates. Everything belongs to one tenant and epoch.
  Work is that of the four kinds that own a source execution (\<open>triage\<close>, \<open>deferred_retry\<close>,
  \<open>verify_action\<close>, \<open>finalize\<close>), so its target and execution are always present. Identifiers
  are canonical texts; free detail texts are left out where nothing reads them.
\<close>

lemma pred_option_code [code]: "pred_option P None = True" "pred_option P (Some x) = P x"
  by simp_all

section \<open>Identities\<close>

datatype workload = Power_BI | Fabric_Pipeline

datatype run_id_kind = Fabric_Job | Powerbi_Request | Powerbi_Refresh

record target =
  tg_workload :: workload
  tg_workspace :: string
  tg_item :: string

record execution =
  ex_target :: target
  ex_kind :: run_id_kind
  ex_run_id :: string

definition valid_execution :: "execution \<Rightarrow> bool" where
  "valid_execution e \<longleftrightarrow> (tg_workload (ex_target e) = Fabric_Pipeline) = (ex_kind e = Fabric_Job)"

record incident_identity =
  ii_target :: target
  ii_signature :: string

datatype mon_action = Mon_Refresh | Mon_Rerun | Mon_Rebind | Mon_Reenable

fun action_tool :: "mon_action \<Rightarrow> action" where
  "action_tool Mon_Refresh = Refresh_Dataset"
| "action_tool Mon_Rerun = Rerun_Pipeline"
| "action_tool Mon_Rebind = Rebind_Gateway"
| "action_tool Mon_Reenable = Reenable_Schedule"

definition is_configuration :: "mon_action \<Rightarrow> bool" where
  "is_configuration a \<longleftrightarrow> a = Mon_Rebind \<or> a = Mon_Reenable"

definition action_workload :: "mon_action \<Rightarrow> workload \<Rightarrow> bool" where
  "action_workload a w \<longleftrightarrow> (a = Mon_Rerun) = (w = Fabric_Pipeline)"

section \<open>Work\<close>

datatype work_kind = Triage_Kind | Retry_Kind | Verify_Kind | Finalize_Kind

datatype work_state = Work_Queued | Work_Leased | Work_Waiting | Work_Finalizing | Work_Completed | Work_Dispositioned

record draft =
  wk_id :: string
  wk_kind :: work_kind
  wk_policy_revision :: int
  wk_due :: instant
  wk_created :: instant
  wk_target :: target
  wk_execution :: execution
  wk_reservation :: "string option"

record work = draft +
  wk_revision :: int
  wk_attempts :: int
  wk_retry_attempt :: int
  wk_retry_of :: "string option"
  wk_state :: work_state
  wk_lease :: "lease option"
  wk_disposition :: "string option"
  wk_completed :: "instant option"
  wk_finalization :: "string option"

text \<open>\<open>LeaseToken.validate_expiry\<close>.\<close>

definition valid_lease :: "lease \<Rightarrow> bool" where
  "valid_lease l \<longleftrightarrow> ls_acquired l < ls_expires l \<and> 1 \<le> ls_fence l"

definition valid_draft :: "'a draft_scheme \<Rightarrow> bool" where
  "valid_draft d \<longleftrightarrow>
     ex_target (wk_execution d) = wk_target d \<and> valid_execution (wk_execution d)
     \<and> (wk_kind d = Verify_Kind \<longrightarrow> wk_reservation d \<noteq> None) \<and> 0 \<le> wk_policy_revision d"

definition leased_state :: "work_state \<Rightarrow> bool" where
  "leased_state st \<longleftrightarrow> st = Work_Leased \<or> st = Work_Finalizing"

definition terminal_state :: "work_state \<Rightarrow> bool" where
  "terminal_state st \<longleftrightarrow> st = Work_Completed \<or> st = Work_Dispositioned"

definition valid_work :: "work \<Rightarrow> bool" where
  "valid_work w \<longleftrightarrow>
     valid_draft w
     \<and> 0 \<le> wk_revision w \<and> 0 \<le> wk_attempts w
     \<and> 0 \<le> wk_retry_attempt w \<and> wk_retry_attempt w \<le> MAX_ATTEMPTS
     \<and> (wk_kind w = Retry_Kind \<longrightarrow> 1 \<le> wk_retry_attempt w)
     \<and> (wk_retry_of w \<noteq> None \<longrightarrow> 1 \<le> wk_retry_attempt w \<and> wk_kind w \<noteq> Triage_Kind)
     \<and> pred_option valid_lease (wk_lease w)
     \<and> leased_state (wk_state w) = (wk_lease w \<noteq> None)
     \<and> terminal_state (wk_state w) = (wk_completed w \<noteq> None)
     \<and> (wk_state w = Work_Dispositioned \<longrightarrow> wk_disposition w \<noteq> None)
     \<and> (wk_state w = Work_Completed) = (wk_finalization w \<noteq> None)"

datatype noneffect = Cancelled_Source | Superseded_Source | Out_Of_Scope_Source | Historical_Source | Unsupported_Source

datatype work_disposition = Retry_At instant | Drop_As noneffect

record disposition_request =
  wd_id :: string
  wd_work :: string
  wd_revision :: int
  wd_lease :: lease
  wd_disposition :: work_disposition
  wd_detail :: string

record claim_request =
  wc_owner :: string
  wc_kinds :: "work_kind list"
  wc_limit :: int
  wc_per_workspace :: int
  wc_lease_seconds :: int

definition valid_claim_request :: "claim_request \<Rightarrow> bool" where
  "valid_claim_request r \<longleftrightarrow>
     wc_kinds r \<noteq> [] \<and> distinct (wc_kinds r)
     \<and> 1 \<le> wc_limit r \<and> wc_limit r \<le> 200 \<and> 1 \<le> wc_per_workspace r \<and> wc_per_workspace r \<le> wc_limit r
     \<and> 15 \<le> wc_lease_seconds r \<and> wc_lease_seconds r \<le> 900"

section \<open>Source evidence\<close>

datatype authority = Transport | Rest | Fixture_Evidence

datatype run_status = Not_Started | Running | Succeeded | Failed | Cancelled | Unknown_Status

datatype invocation = Scheduled | Manual | Unknown_Invocation

record observation =
  ob_execution :: execution
  ob_authority :: authority
  ob_observed_at :: instant
  ob_started :: "instant option"
  ob_ended :: "instant option"
  ob_status :: run_status
  ob_invocation :: invocation
  ob_job_type :: string
  ob_truncated :: bool

definition valid_observation :: "observation \<Rightarrow> bool" where
  "valid_observation ob \<longleftrightarrow>
     valid_execution (ob_execution ob)
     \<and> (case (ob_started ob, ob_ended ob) of (Some b, Some e) \<Rightarrow> b \<le> e | _ \<Rightarrow> True)"

text \<open>Evidence that came from the service itself (or from the fixture standing for it).\<close>

definition direct :: "observation \<Rightarrow> bool" where
  "direct ob \<longleftrightarrow> ob_authority ob \<noteq> Transport"

definition failed_scheduled_pipeline :: "observation \<Rightarrow> bool" where
  "failed_scheduled_pipeline ob \<longleftrightarrow>
     tg_workload (ex_target (ob_execution ob)) = Fabric_Pipeline \<and> direct ob
     \<and> ob_status ob = Failed \<and> ob_invocation ob = Scheduled
     \<and> ob_job_type ob \<in> {''Pipeline'', ''Execute''}
     \<and> ob_started ob \<noteq> None \<and> ob_ended ob \<noteq> None"

section \<open>Admission\<close>

record mon_target =
  mt_target :: target
  mt_enabled :: bool
  mt_action :: "mon_action option"
  mt_review :: "string option"
  mt_review_revision :: "int option"

datatype review_state = Review_Pending | Review_Verified | Review_Revoked | Review_Unverifiable

record review =
  sr_id :: string
  sr_target :: target
  sr_revision :: int
  sr_policy_revision :: int
  sr_action :: mon_action
  sr_state :: review_state
  sr_expires :: instant
  sr_definition_hash :: "string option"
  sr_configuration_hash :: "string option"
  sr_parameters :: "(string, json) dict option"
  sr_parameter_hash :: "string option"
  sr_redacted :: bool
  sr_published :: bool

record capability =
  cp_read :: bool
  cp_action :: bool
  cp_expires :: instant
  cp_exact :: bool
  cp_configuration :: bool
  cp_definition_hash :: "string option"

section \<open>Actions\<close>

record reservation_request =
  rr_id :: string
  rr_expected :: int
  rr_work :: string
  rr_lease :: lease
  rr_source :: execution
  rr_incident :: incident_identity
  rr_incident_revision :: int
  rr_action :: mon_action
  rr_review :: string
  rr_review_revision :: int
  rr_definition_hash :: "string option"
  rr_configuration_hash :: "string option"
  rr_parameter_hash :: string
  rr_arguments :: "(string, json) dict"
  rr_approval :: "(string \<times> string) option"

definition valid_reservation_request :: "reservation_request \<Rightarrow> bool" where
  "valid_reservation_request r \<longleftrightarrow>
     valid_lease (rr_lease r) \<and> valid_execution (rr_source r)
     \<and> ex_target (rr_source r) = ii_target (rr_incident r)
     \<and> action_workload (rr_action r) (tg_workload (ii_target (rr_incident r)))
     \<and> (rr_action r = Mon_Rerun \<longrightarrow> rr_definition_hash r \<noteq> None)
     \<and> (is_configuration (rr_action r) \<longrightarrow> rr_configuration_hash r = Some (rr_parameter_hash r))
     \<and> 0 \<le> rr_expected r \<and> 0 \<le> rr_incident_revision r \<and> 1 \<le> rr_review_revision r"

text \<open>What an approval is bound to, recorded before the approval is published.\<close>

record origin =
  og_reference :: "string \<times> string"
  og_expected :: int
  og_work :: string
  og_source :: execution
  og_incident :: incident_identity
  og_action :: mon_action
  og_review :: string
  og_review_revision :: int
  og_definition_hash :: "string option"
  og_configuration_hash :: "string option"
  og_parameter_hash :: string
  og_arguments_hash :: string

record binding =
  bd_origin :: origin
  bd_created :: instant
  bd_expires :: instant

definition valid_binding :: "binding \<Rightarrow> bool" where
  "valid_binding b \<longleftrightarrow>
     ii_target (og_incident (bd_origin b)) = ex_target (og_source (bd_origin b))
     \<and> bd_created b < bd_expires b
     \<and> action_workload (og_action (bd_origin b)) (tg_workload (ex_target (og_source (bd_origin b))))"

datatype action_state = Act_Reserved | Act_Rejected | Act_Submitted | Act_Uncertain | Act_Succeeded | Act_Failed

definition action_verified :: "action_state \<Rightarrow> bool" where
  "action_verified st \<longleftrightarrow> st = Act_Succeeded \<or> st = Act_Failed"

definition action_open :: "action_state \<Rightarrow> bool" where
  "action_open st \<longleftrightarrow> st = Act_Reserved \<or> st = Act_Submitted \<or> st = Act_Uncertain"

lemma action_open_iff: "action_open st \<longleftrightarrow> \<not> action_verified st \<and> st \<noteq> Act_Rejected"
  by (cases st) (auto simp: action_open_def action_verified_def)

datatype rejection_reason = Throttled | Client_Error

record rejection =
  rj_reason :: rejection_reason
  rj_attempted :: instant
  rj_rejected :: instant
  rj_retry_after :: int

definition valid_rejection :: "rejection \<Rightarrow> bool" where
  "valid_rejection e \<longleftrightarrow> rj_attempted e \<le> rj_rejected e \<and> 0 \<le> rj_retry_after e"

record configuration =
  cv_target :: target
  cv_action :: mon_action
  cv_expected_hash :: string
  cv_values :: "(string, json) dict"
  cv_observed_at :: instant
  cv_fixture :: bool

text \<open>\<open>_validate_configuration\<close>; that identifiers are canonical is left to their reading.\<close>

fun json_text :: "json \<Rightarrow> string option" where
  "json_text (JStr x) = Some x"
| "json_text _ = None"

definition text_set :: "json list \<Rightarrow> bool" where
  "text_set vs \<longleftrightarrow>
     vs \<noteq> [] \<and> list_all (\<lambda>v. json_text v \<noteq> None) vs
     \<and> (let ts = map (\<lambda>v. the (json_text v)) vs in ts = sort (remdups ts))"

fun valid_values :: "mon_action \<Rightarrow> (string, json) dict \<Rightarrow> bool" where
  "valid_values Mon_Rebind vs =
     (set (map fst vs) = {''gateway_id'', ''datasource_ids''}
      \<and> Option.bind (map_of vs ''gateway_id'') json_text \<noteq> None
      \<and> (case map_of vs ''datasource_ids'' of Some (JList ds) \<Rightarrow> text_set ds | _ \<Rightarrow> False))"
| "valid_values Mon_Reenable vs =
     (set (map fst vs) = {''enabled''} \<and> (case map_of vs ''enabled'' of Some (JBool _) \<Rightarrow> True | _ \<Rightarrow> False))"
| "valid_values _ vs = False"

record mon_act =
  ac_id :: string
  ac_request :: reservation_request
  ac_revision :: int
  ac_fence :: int
  ac_state :: action_state
  ac_reserved_at :: instant
  ac_updated_at :: instant
  ac_submitted :: "execution option"
  ac_submitted_at :: "instant option"
  ac_configuration :: "configuration option"
  ac_next_verification :: "instant option"
  ac_rejection :: "rejection option"
  ac_retry_attempt :: int
  ac_retry_of :: "string option"
  ac_retry_work :: "string option"
  ac_retry_reservation :: "string option"

definition ac_target :: "mon_act \<Rightarrow> target" where
  "ac_target a = ex_target (rr_source (ac_request a))"

text \<open>\<open>ActionReservation.validate_submission\<close>, in two halves.\<close>

definition valid_lineage :: "mon_act \<Rightarrow> bool" where
  "valid_lineage a \<longleftrightarrow>
     (ac_state a = Act_Rejected) = (ac_rejection a \<noteq> None)
     \<and> (ac_state a = Act_Rejected \<longrightarrow>
          ac_submitted a = None \<and> ac_submitted_at a = None \<and> ac_configuration a = None \<and> ac_next_verification a = None)
     \<and> pred_option (\<lambda>e. valid_rejection e \<and> ac_reserved_at a \<le> rj_attempted e) (ac_rejection a)
     \<and> 0 \<le> ac_retry_attempt a \<and> ac_retry_attempt a \<le> MAX_ATTEMPTS
     \<and> (ac_retry_of a \<noteq> None \<longrightarrow> 1 \<le> ac_retry_attempt a)
     \<and> (ac_retry_work a \<noteq> None \<longrightarrow>
          ac_state a = Act_Rejected \<and> rr_action (ac_request a) = Mon_Refresh
          \<and> map_option rj_reason (ac_rejection a) = Some Throttled \<and> ac_retry_attempt a < MAX_ATTEMPTS)
     \<and> (ac_retry_reservation a \<noteq> None \<longrightarrow> ac_retry_work a \<noteq> None)"

definition valid_effect :: "mon_act \<Rightarrow> bool" where
  "valid_effect a \<longleftrightarrow>
     ac_reserved_at a \<le> ac_updated_at a
     \<and> pred_option (\<lambda>e. ex_target e = ac_target a \<and> e \<noteq> rr_source (ac_request a)) (ac_submitted a)
     \<and> (ac_state a = Act_Submitted \<or> action_verified (ac_state a) \<longrightarrow>
          ac_submitted_at a \<noteq> None \<and> (\<not> is_configuration (rr_action (ac_request a)) \<longrightarrow> ac_submitted a \<noteq> None))
     \<and> (is_configuration (rr_action (ac_request a)) \<longrightarrow>
          ac_submitted a = None \<and> (action_verified (ac_state a) \<longrightarrow> ac_configuration a \<noteq> None))
     \<and> pred_option (\<lambda>c. cv_target c = ac_target a \<and> cv_action c = rr_action (ac_request a)
          \<and> cv_expected_hash c = rr_parameter_hash (ac_request a)) (ac_configuration a)
     \<and> (ac_state a = Act_Reserved \<longrightarrow> ac_submitted a = None \<and> ac_submitted_at a = None)
     \<and> pred_option (\<lambda>t. ac_reserved_at a \<le> t) (ac_submitted_at a)
     \<and> (ac_state a = Act_Submitted \<or> ac_state a = Act_Uncertain \<longrightarrow> ac_next_verification a \<noteq> None)"

definition valid_action :: "mon_act \<Rightarrow> bool" where
  "valid_action a \<longleftrightarrow>
     valid_reservation_request (ac_request a) \<and> 1 \<le> ac_revision a \<and> 1 \<le> ac_fence a
     \<and> valid_lineage a \<and> valid_effect a"

record owner =
  ow_reservation :: string
  ow_fence :: int
  ow_active :: bool

datatype denial =
    D_Maintenance | D_Stale_Policy | D_Out_Of_Scope | D_Observation_Only | D_Stale_Review | D_Expired_Review
  | D_Approval_Required | D_Approval_Denied | D_Approval_Expired | D_Approval_Used | D_Fingerprint_Mismatch
  | D_Lease_Lost | D_Target_Owned | D_Budget_Exhausted | D_Before_Cutoff | D_Source_Ineligible
  | D_Policy_Blocked | D_Pending_Validation

datatype decision = Reserved mon_act | Denied denial

datatype correlation = Response_Run_Id | Request_Id_Lookup

record submission =
  sb_id :: string
  sb_reservation :: string
  sb_revision :: int
  sb_fence :: int
  sb_certain :: bool
  sb_execution :: "execution option"
  sb_configuration :: "mon_action option"
  sb_correlation :: "correlation option"
  sb_submitted_at :: instant
  sb_next_verification :: instant

definition valid_submission :: "submission \<Rightarrow> bool" where
  "valid_submission r \<longleftrightarrow>
     pred_option valid_execution (sb_execution r) \<and> pred_option is_configuration (sb_configuration r)
     \<and> (sb_execution r = None) = (sb_correlation r = None)
     \<and> (sb_configuration r \<noteq> None \<longrightarrow> sb_execution r = None \<and> sb_correlation r = None)
     \<and> (sb_certain r \<longrightarrow> sb_execution r \<noteq> None \<or> sb_configuration r \<noteq> None)
     \<and> sb_submitted_at r \<le> sb_next_verification r"

record rejection_request =
  rx_id :: string
  rx_reservation :: string
  rx_revision :: int
  rx_fence :: int
  rx_work :: string
  rx_lease :: lease
  rx_evidence :: rejection

datatype finding_of_check = Check_Succeeded | Check_Failed | Check_Uncertain

record outcome_request =
  ou_id :: string
  ou_reservation :: string
  ou_revision :: int
  ou_fence :: int
  ou_disposition :: finding_of_check
  ou_execution :: "execution option"
  ou_observation :: "observation option"
  ou_configuration :: "configuration option"
  ou_activities :: "string list"
  ou_complete :: bool
  ou_observed_at :: instant

text \<open>
  \<open>ActionOutcomeRequest.validate_exact_outcome\<close>: a configuration snapshot can prove
  success, never failure; a verified run must be terminal, complete and authoritative, and
  a pipeline's activities must all be read. \<open>digest\<close> hashes the configuration.
\<close>

definition valid_snapshot :: "((string, json) dict \<Rightarrow> string) \<Rightarrow> outcome_request \<Rightarrow> configuration \<Rightarrow> bool" where
  "valid_snapshot digest r c \<longleftrightarrow>
     ou_execution r = None \<and> ou_observation r = None \<and> ou_activities r = []
     \<and> is_configuration (cv_action c) \<and> action_workload (cv_action c) (tg_workload (cv_target c))
     \<and> valid_values (cv_action c) (cv_values c)
     \<and> (ou_disposition r = Check_Succeeded \<longrightarrow>
          digest (cv_values c) = cv_expected_hash c
          \<and> (cv_action c = Mon_Reenable \<longrightarrow> map_of (cv_values c) ''enabled'' = Some (JBool True)))
     \<and> ou_disposition r \<noteq> Check_Failed"

definition status_agrees :: "outcome_request \<Rightarrow> observation \<Rightarrow> bool \<Rightarrow> bool" where
  "status_agrees r ob pipeline \<longleftrightarrow>
     (if ou_disposition r = Check_Succeeded then ob_status ob = Succeeded
      else ob_status ob = Failed \<or> pipeline \<and> ob_status ob = Cancelled
        \<or> pipeline \<and> ob_status ob = Succeeded \<and> ou_complete r \<and> ''Failed'' \<in> set (ou_activities r))"

definition valid_run_evidence :: "outcome_request \<Rightarrow> execution \<Rightarrow> observation \<Rightarrow> bool" where
  "valid_run_evidence r e ob \<longleftrightarrow>
     (let pipeline = tg_workload (ex_target e) = Fabric_Pipeline
      in status_agrees r ob pipeline \<and> ob_authority ob \<noteq> Transport
         \<and> ob_started ob \<noteq> None \<and> ob_ended ob \<noteq> None \<and> \<not> ob_truncated ob
         \<and> (pipeline \<longrightarrow> ou_complete r
              \<and> (ou_disposition r = Check_Succeeded \<longrightarrow>
                   ou_activities r \<noteq> [] \<and> set (ou_activities r) \<subseteq> {''Succeeded'', ''Skipped''})))"

definition valid_outcome_request :: "((string, json) dict \<Rightarrow> string) \<Rightarrow> outcome_request \<Rightarrow> bool" where
  "valid_outcome_request digest r \<longleftrightarrow>
     pred_option valid_execution (ou_execution r) \<and> pred_option valid_observation (ou_observation r)
     \<and> (case ou_configuration r of
          Some c \<Rightarrow> valid_snapshot digest r c
        | None \<Rightarrow>
            pred_option (\<lambda>ob. ou_execution r = Some (ob_execution ob)) (ou_observation r)
            \<and> (ou_disposition r \<noteq> Check_Uncertain \<longrightarrow>
                 (case (ou_execution r, ou_observation r) of
                    (Some e, Some ob) \<Rightarrow> valid_run_evidence r e ob | _ \<Rightarrow> False)))"

section \<open>Incidents\<close>

record incident_state =
  is_identity :: incident_identity
  is_incident :: string
  is_revision :: int
  is_count :: int
  is_latest :: "execution option"
  is_latest_started :: "instant option"
  is_updated :: instant

datatype source_disposition = Src_Triaged | Src_Duplicate | Src_Historical | Src_Refused | Src_Failed | Src_No_Effect noneffect

record processed_source =
  ps_execution :: execution
  ps_disposition :: source_disposition
  ps_recorded :: instant
  ps_work :: "string option"
  ps_finalization :: "string option"
  ps_incident :: "incident_identity option"

record finalization =
  fz_id :: string
  fz_work :: string
  fz_revision :: int
  fz_lease :: lease
  fz_source :: execution
  fz_identity :: incident_identity
  fz_incident :: incident
  fz_disposition :: source_disposition
  fz_reservation :: "string option"

definition valid_finalization :: "finalization \<Rightarrow> bool" where
  "valid_finalization r \<longleftrightarrow>
     valid_lease (fz_lease r) \<and> valid_execution (fz_source r)
     \<and> ii_target (fz_identity r) = ex_target (fz_source r)
     \<and> in_signature (fz_incident r) = ii_signature (fz_identity r)
     \<and> (case fz_disposition r of Src_No_Effect _ \<Rightarrow> False | _ \<Rightarrow> True)
     \<and> pred_option (\<lambda>f. let t = ex_target (fz_source r)
           in tg_workload t = Fabric_Pipeline \<and> pt_workspace_id (pf_target f) = tg_workspace t
              \<and> pt_pipeline_id (pf_target f) = tg_item t
              \<and> (fz_disposition r = Src_Triaged \<longrightarrow> pr_id (pf_run f) = ex_run_id (fz_source r)))
          (in_pipeline_failure (fz_incident r))"

record receipt =
  fr_id :: string
  fr_work :: string
  fr_source :: execution
  fr_identity :: incident_identity
  fr_disposition :: source_disposition
  fr_payload_hash :: string
  fr_persisted :: instant
  fr_incident :: string

end
