(* ===== verification/Monitor_Work.thy ===== *)
theory Monitor_Work
  imports Monitor_Models "HOL-Library.Product_Lexorder"
begin

text \<open>
  Ownership of source work, from \<^verbatim>\<open>src/src/triage/monitoring/engine.py\<close> over the records of
  \<^verbatim>\<open>monitoring/memory.py\<close>: admission to the queue, the fair selection of due work, claims
  under a work lease and a controller lease, renewal, dispositions and source evidence. An
  operation is a transaction: it returns its result with the new state, or a fault, and a
  fault leaves the state as it was. What the registry of targets, reviews and capabilities
  answers during a call is part of the call's \<open>view\<close>.
\<close>

section \<open>Transactions\<close>

named_theorems tx_simps \<open>successful runs of transactions\<close>

definition bnd :: "('s \<Rightarrow> 'e + 'a \<times> 's) \<Rightarrow> ('a \<Rightarrow> 's \<Rightarrow> 'e + 'b \<times> 's) \<Rightarrow> 's \<Rightarrow> 'e + 'b \<times> 's" where
  "bnd t f s = (case t s of Inl e \<Rightarrow> Inl e | Inr (x, s') \<Rightarrow> f x s')"

definition ret :: "'a \<Rightarrow> 's \<Rightarrow> 'e + 'a \<times> 's" where
  "ret x s = Inr (x, s)"

definition ask :: "('s \<Rightarrow> 'e + 'a) \<Rightarrow> 's \<Rightarrow> 'e + 'a \<times> 's" where
  "ask f s = (case f s of Inl e \<Rightarrow> Inl e | Inr x \<Rightarrow> Inr (x, s))"

definition demand :: "('s \<Rightarrow> bool) \<Rightarrow> 'e \<Rightarrow> 's \<Rightarrow> 'e + unit \<times> 's" where
  "demand P e s = (if P s then Inr ((), s) else Inl e)"

definition change :: "('s \<Rightarrow> 's) \<Rightarrow> 's \<Rightarrow> 'e + unit \<times> 's" where
  "change f s = Inr ((), f s)"

lemma bnd_ok [tx_simps]: "bnd t f s = Inr (y, s'') \<longleftrightarrow> (\<exists>x s'. t s = Inr (x, s') \<and> f x s' = Inr (y, s''))"
  by (auto simp: bnd_def split: sum.splits)

lemma ret_ok [tx_simps]: "ret x s = Inr (y, s') \<longleftrightarrow> y = x \<and> s' = s"
  by (auto simp: ret_def)

lemma ask_ok [tx_simps]: "ask f s = Inr (y, s') \<longleftrightarrow> f s = Inr y \<and> s' = s"
  by (auto simp: ask_def split: sum.splits)

lemma demand_ok [tx_simps]: "demand P e s = Inr (y, s') \<longleftrightarrow> P s \<and> s' = s"
  by (auto simp: demand_def)

lemma change_ok [tx_simps]: "change f s = Inr (y, s') \<longleftrightarrow> s' = f s"
  by (auto simp: change_def)

section \<open>State\<close>

datatype resource = Work_Lease string | Controller_Lease target

text \<open>\<open>_work_link_key\<close>: verification is linked to its reservation, other work to its kind and source.\<close>

datatype link = Verify_Link string | Source_Link work_kind execution

datatype operation = Op_Enqueue | Op_Disposition | Op_Bind | Op_Reserve | Op_Submit | Op_Reject | Op_Outcome | Op_Finalize

datatype mon_reply =
    Work_Reply work | Works_Reply "work list" | Lease_Reply lease | Source_Reply observation
  | Binding_Reply binding | Decision_Reply decision | Action_Reply mon_act | Receipt_Reply receipt | No_Reply

record mon_store =
  ms_works :: "(string, work) dict"
  ms_links :: "(link, string \<times> execution) dict"
  ms_actions :: "(string, mon_act) dict"
  ms_owners :: "(target, owner) dict"
  ms_submitted :: "(execution, owner) dict"
  ms_states :: "(incident_identity, incident_state) dict"
  ms_sources :: "(execution, observation) dict"
  ms_heads :: "(target, observation) dict"
  ms_processed :: "(execution, processed_source) dict"
  ms_marks :: "(execution, instant) dict"
  ms_incidents :: "(string, incident) dict"
  ms_approvals :: "(string, approval_row) dict"
  ms_bindings :: "(string, binding) dict"
  ms_rejections :: "(string, rejection_request) dict"
  ms_outcomes :: "(string, outcome_request) dict"
  ms_leases :: "resource leases"
  ms_cursors :: "(bool, string) dict"
  ms_receipts :: "(operation \<times> string, string \<times> mon_reply) dict"

definition empty_store :: mon_store where
  "empty_store =
     \<lparr>ms_works = [], ms_links = [], ms_actions = [], ms_owners = [], ms_submitted = [], ms_states = [],
      ms_sources = [], ms_heads = [], ms_processed = [], ms_marks = [], ms_incidents = [], ms_approvals = [],
      ms_bindings = [], ms_rejections = [], ms_outcomes = [], ms_leases = [], ms_cursors = [], ms_receipts = []\<rparr>"

type_synonym 'a txn = "mon_store \<Rightarrow> fault + 'a \<times> mon_store"

record commit =
  cm_work :: string
  cm_lease :: lease
  cm_revision :: int

text \<open>The content that an idempotency identifier stands for; its digest is stored.\<close>

datatype content =
    Of_Draft draft | Of_Disposition disposition_request | Of_Origin origin | Of_Reservation reservation_request
  | Of_Submission submission "commit option" | Of_Rejection rejection_request
  | Of_Outcome outcome_request "commit option" | Of_Finalization finalization

datatype component = Worker_Part | Web_Part | Controller_Part | Fixture_Part

text \<open>
  The engine: its component, its policy and the functions it computes names and digests
  with (\<open>stable_id\<close>, the key text of an incident, \<open>key_digest\<close>, the digest of a request, of
  JSON values and of an incident payload). \<open>mo_persisted\<close> is the redaction of an incident.
\<close>

record monitor =
  mo_component :: component
  mo_fixture :: bool
  mo_policy :: triage_policy
  mo_id :: "string \<Rightarrow> string"
  mo_incident_key :: "incident_identity \<Rightarrow> string"
  mo_key_digest :: "string \<Rightarrow> string"
  mo_fingerprint :: "content \<Rightarrow> string"
  mo_digest :: "(string, json) dict \<Rightarrow> string"
  mo_payload_hash :: "incident \<Rightarrow> string"
  mo_persisted :: "incident \<Rightarrow> incident"

text \<open>
  The clock and the registry during one call. \<open>vw_admitted\<close> is the answer of \<open>_target\<close>,
  \<open>vw_configured\<close> the stored target, \<open>vw_windows\<close> the Power BI windows of a target that are
  collecting (\<open>True\<close>) or quarantined, \<open>vw_alias\<close> whether a window knows a request.
\<close>

record view =
  vw_now :: instant
  vw_revision :: int
  vw_maintenance :: bool
  vw_cutoff :: instant
  vw_admitted :: "target \<Rightarrow> mon_target option"
  vw_configured :: "target \<Rightarrow> mon_target option"
  vw_review :: "string \<Rightarrow> review option"
  vw_capability :: "target \<Rightarrow> capability option"
  vw_pending :: "target \<Rightarrow> bool"
  vw_windows :: "target \<Rightarrow> (string \<times> bool) list"
  vw_alias :: "string \<Rightarrow> string \<Rightarrow> bool"

definition idempotent :: "monitor \<Rightarrow> operation \<Rightarrow> string \<Rightarrow> content \<Rightarrow> mon_reply txn \<Rightarrow> mon_reply txn" where
  "idempotent mo op i c body s =
     (case map_of (ms_receipts s) (op, i) of
        Some (fp, r) \<Rightarrow> if fp \<noteq> mo_fingerprint mo c then Inl Mon_Conflict else Inr (r, s)
      | None \<Rightarrow>
          bnd body (\<lambda>r. bnd (change (\<lambda>s. s\<lparr>ms_receipts := AList.update (op, i) (mo_fingerprint mo c, r) (ms_receipts s)\<rparr>))
            (\<lambda>_. ret r)) s)"

section \<open>Ownership of work\<close>

definition authorize_work :: "monitor \<Rightarrow> work_kind \<Rightarrow> bool" where
  "authorize_work mo k \<longleftrightarrow> mo_component mo = Controller_Part \<or> mo_component mo = Fixture_Part"

definition owned_work :: "monitor \<Rightarrow> view \<Rightarrow> string \<Rightarrow> lease \<Rightarrow> int option \<Rightarrow> mon_store \<Rightarrow> fault + work" where
  "owned_work mo vw i l expected s =
     (case (map_of (ms_works s) i, map_of (ms_leases s) (Work_Lease i)) of
        (Some w, Some cur) \<Rightarrow>
          if \<not> leased_state (wk_state w) \<or> ls_expires cur \<le> vw_now vw
             \<or> (ls_owner cur, ls_fence cur) \<noteq> (ls_owner l, ls_fence l)
             \<or> map_option ls_fence (wk_lease w) \<noteq> Some (ls_fence cur) then Inl Lease_Lost
          else if \<not> authorize_work mo (wk_kind w) then Inl Component_Denied
          else if \<not> pred_option (\<lambda>n. wk_revision w = n) expected then Inl Mon_Conflict
          else (case map_of (ms_leases s) (Controller_Lease (wk_target w)) of
                  None \<Rightarrow> Inl Lease_Lost
                | Some c \<Rightarrow> if ls_owner c \<noteq> i \<or> ls_expires c \<le> vw_now vw then Inl Lease_Lost else Inr w)
      | _ \<Rightarrow> Inl Lease_Lost)"

text \<open>The open action of the work, found by its request.\<close>

definition open_actions :: "string \<Rightarrow> mon_store \<Rightarrow> mon_act list" where
  "open_actions i s = filter (\<lambda>a. rr_work (ac_request a) = i \<and> action_open (ac_state a)) (map snd (ms_actions s))"

definition work_reservation :: "work \<Rightarrow> mon_store \<Rightarrow> fault + mon_act option" where
  "work_reservation w s =
     (case open_actions (wk_id w) s of [] \<Rightarrow> Inr None | [a] \<Rightarrow> Inr (Some a) | _ \<Rightarrow> Inl Mon_Unavailable)"

definition put_work :: "work \<Rightarrow> mon_store \<Rightarrow> mon_store" where
  "put_work w s = s\<lparr>ms_works := AList.update (wk_id w) w (ms_works s)\<rparr>"

text \<open>A record that its validators refuse is not stored.\<close>

definition save_work :: "work \<Rightarrow> work txn" where
  "save_work w = bnd (demand (\<lambda>_. valid_work w) Mon_Invalid) (\<lambda>_. bnd (change (put_work w)) (\<lambda>_. ret w))"

definition release_token :: "view \<Rightarrow> resource \<Rightarrow> lease \<Rightarrow> unit txn" where
  "release_token vw k l s =
     (case release_lease (vw_now vw) k (ls_owner l) (ls_fence l) (ms_leases s) of
        Inl e \<Rightarrow> Inl e
      | Inr ls \<Rightarrow> Inr ((), s\<lparr>ms_leases := ls\<rparr>))"

definition release_work :: "view \<Rightarrow> work \<Rightarrow> unit txn" where
  "release_work vw w = (case wk_lease w of None \<Rightarrow> ret () | Some l \<Rightarrow> release_token vw (Work_Lease (wk_id w)) l)"

definition release_controller :: "view \<Rightarrow> work \<Rightarrow> unit txn" where
  "release_controller vw w s =
     (case map_of (ms_leases s) (Controller_Lease (wk_target w)) of
        Some c \<Rightarrow> if ls_owner c = wk_id w then release_token vw (Controller_Lease (wk_target w)) c s else Inr ((), s)
      | None \<Rightarrow> Inr ((), s))"

section \<open>Source evidence\<close>

definition put_processed :: "view \<Rightarrow> processed_source \<Rightarrow> mon_store \<Rightarrow> mon_store" where
  "put_processed vw p s =
     (case map_of (ms_processed s) (ps_execution p) of
        Some _ \<Rightarrow> s
      | None \<Rightarrow> s\<lparr>ms_processed := AList.update (ps_execution p) p (ms_processed s),
                  ms_marks := AList.update (ps_execution p) (vw_now vw) (ms_marks s)\<rparr>)"

text \<open>
  An observation replaces an earlier one unless that one was read later by an equal
  authority, or is direct where the new one is only transported.
\<close>

definition outranks :: "observation \<Rightarrow> observation \<Rightarrow> bool" where
  "outranks old new \<longleftrightarrow>
     ((ob_authority old = ob_authority new \<or> direct old \<and> direct new) \<and> ob_observed_at new < ob_observed_at old)
     \<or> direct old \<and> ob_authority new = Transport"

definition advance_head :: "observation \<Rightarrow> mon_store \<Rightarrow> mon_store" where
  "advance_head ob s =
     (let t = ex_target (ob_execution ob);
          newer = (case map_of (ms_heads s) t of
                     None \<Rightarrow> True
                   | Some h \<Rightarrow> (case (ob_started h, ob_started ob) of
                                  (Some b, Some b') \<Rightarrow> b \<le> b' | _ \<Rightarrow> True) \<or> ob_execution h = ob_execution ob)
      in if direct ob \<and> ob_started ob \<noteq> None \<and> newer then s\<lparr>ms_heads := AList.update t ob (ms_heads s)\<rparr> else s)"

definition save_source :: "monitor \<Rightarrow> view \<Rightarrow> observation \<Rightarrow> observation txn" where
  "save_source mo vw ob s =
     (if \<not> mo_fixture mo \<and> ob_authority ob = Fixture_Evidence \<or> vw_now vw < ob_observed_at ob then Inl Mon_Conflict
      else case map_of (ms_sources s) (ob_execution ob) of
             Some old \<Rightarrow>
               if outranks old ob then Inr (old, s)
               else Inr (ob, advance_head ob (s\<lparr>ms_sources := AList.update (ob_execution ob) ob (ms_sources s)\<rparr>))
           | None \<Rightarrow> Inr (ob, advance_head ob (s\<lparr>ms_sources := AList.update (ob_execution ob) ob (ms_sources s)\<rparr>)))"

definition observe_source :: "monitor \<Rightarrow> view \<Rightarrow> observation \<Rightarrow> string \<Rightarrow> lease \<Rightarrow> observation txn" where
  "observe_source mo vw ob i l =
     bnd (ask (owned_work mo vw i l None)) (\<lambda>w.
     bnd (demand (\<lambda>_. wk_execution w = ob_execution ob \<or> wk_target w = ex_target (ob_execution ob)) Mon_Conflict) (\<lambda>_.
     bnd (demand (\<lambda>_. ob_authority ob \<noteq> Transport) Mon_Conflict) (\<lambda>_.
     save_source mo vw ob)))"

section \<open>Admission to the queue\<close>

fun link_of :: "work_kind \<Rightarrow> string option \<Rightarrow> execution \<Rightarrow> link" where
  "link_of Verify_Kind (Some a) e = Verify_Link a"
| "link_of k _ e = Source_Link k e"

definition draft_link :: "'a draft_scheme \<Rightarrow> link" where
  "draft_link d = link_of (wk_kind d) (wk_reservation d) (wk_execution d)"

definition followup_kind :: "work_kind \<Rightarrow> bool" where
  "followup_kind k \<longleftrightarrow> k = Verify_Kind \<or> k = Finalize_Kind"

text \<open>The same identity may come back for the same operation, or as the source of a verification.\<close>

definition same_work :: "draft \<Rightarrow> work \<Rightarrow> bool" where
  "same_work d p \<longleftrightarrow>
     wk_target p = wk_target d \<and> wk_execution p = wk_execution d
     \<and> (wk_kind p = Verify_Kind \<and> (wk_kind d = Triage_Kind \<or> wk_kind d = Retry_Kind) \<and> wk_reservation p \<noteq> None
        \<or> wk_kind p = wk_kind d \<and> wk_reservation p = wk_reservation d)"

definition unresolved_alias :: "execution \<Rightarrow> bool" where
  "unresolved_alias e \<longleftrightarrow> tg_workload (ex_target e) = Power_BI \<and> ex_kind e \<noteq> Powerbi_Request"

definition admissible :: "view \<Rightarrow> draft \<Rightarrow> mon_store \<Rightarrow> bool" where
  "admissible vw d s \<longleftrightarrow>
     (followup_kind (wk_kind d) \<or> \<not> vw_maintenance vw \<and> wk_policy_revision d = vw_revision vw)
     \<and> (case wk_kind d of
          Verify_Kind \<Rightarrow>
            (case Option.bind (wk_reservation d) (map_of (ms_actions s)) of
               None \<Rightarrow> False | Some a \<Rightarrow> rr_source (ac_request a) = wk_execution d)
        | Finalize_Kind \<Rightarrow> True
        | _ \<Rightarrow> vw_admitted vw (wk_target d) \<noteq> None)
     \<and> \<not> unresolved_alias (wk_execution d)"

definition fresh_work :: "draft \<Rightarrow> work" where
  "fresh_work d =
     \<lparr>wk_id = wk_id d, wk_kind = wk_kind d, wk_policy_revision = wk_policy_revision d, wk_due = wk_due d,
      wk_created = wk_created d, wk_target = wk_target d, wk_execution = wk_execution d,
      wk_reservation = wk_reservation d, wk_revision = 1, wk_attempts = 0,
      wk_retry_attempt = (if wk_kind d = Retry_Kind then 1 else 0), wk_retry_of = None, wk_state = Work_Queued,
      wk_lease = None, wk_disposition = None, wk_completed = None, wk_finalization = None\<rparr>"

definition put_link :: "link \<Rightarrow> string \<Rightarrow> execution \<Rightarrow> mon_store \<Rightarrow> mon_store" where
  "put_link k i e s = s\<lparr>ms_links := AList.update k (i, e) (ms_links s)\<rparr>"

definition enter_queue :: "draft \<Rightarrow> work txn" where
  "enter_queue d =
     bnd (demand (\<lambda>s. wk_kind d = Triage_Kind \<longrightarrow> map_of (ms_processed s) (wk_execution d) = None) Mon_Conflict) (\<lambda>_.
     bnd (save_work (fresh_work d)) (\<lambda>w.
     bnd (change (put_link (draft_link d) (wk_id d) (wk_execution d))) (\<lambda>_. ret w)))"

definition enqueue :: "view \<Rightarrow> draft \<Rightarrow> work txn" where
  "enqueue vw d s =
     (case map_of (ms_works s) (wk_id d) of
        Some p \<Rightarrow> if same_work d p then Inr (p, s) else Inl Mon_Conflict
      | None \<Rightarrow>
          if \<not> admissible vw d s then Inl Mon_Conflict
          else (case map_of (ms_links s) (draft_link d) of
                  None \<Rightarrow> enter_queue d s
                | Some (i, _) \<Rightarrow>
                    (case map_of (ms_works s) i of
                       None \<Rightarrow> Inl Mon_Unavailable
                     | Some w \<Rightarrow> if wk_kind d \<noteq> Verify_Kind \<or> \<not> terminal_state (wk_state w) then Inr (w, s)
                                 else enter_queue d s)))"

text \<open>The verification of an action: one open work item, moved to the time the action asks for.\<close>

definition verify_draft :: "monitor \<Rightarrow> view \<Rightarrow> mon_act \<Rightarrow> draft" where
  "verify_draft mo vw a =
     \<lparr>wk_id = mo_id mo (''verify:'' @ ac_id a @ '':'' @ show_int (ac_revision a)), wk_kind = Verify_Kind,
      wk_policy_revision = vw_revision vw,
      wk_due = (case ac_next_verification a of None \<Rightarrow> vw_now vw | Some t \<Rightarrow> t),
      wk_created = vw_now vw, wk_target = ac_target a, wk_execution = rr_source (ac_request a),
      wk_reservation = Some (ac_id a)\<rparr>"

definition pending_state :: "work_state \<Rightarrow> bool" where
  "pending_state st \<longleftrightarrow> st = Work_Queued \<or> st = Work_Waiting"

definition schedule_verification :: "monitor \<Rightarrow> view \<Rightarrow> mon_act \<Rightarrow> work txn" where
  "schedule_verification mo vw a =
     (let d = verify_draft mo vw a
      in bnd (demand (\<lambda>_. valid_draft d) Mon_Invalid) (\<lambda>_.
         bnd (enqueue vw d) (\<lambda>w.
         if pending_state (wk_state w) \<and> wk_due w \<noteq> wk_due d
         then save_work (w\<lparr>wk_due := wk_due d, wk_revision := wk_revision w + 1\<rparr>) else ret w)))"

section \<open>Claims\<close>

text \<open>\<open>StoredRecord.due_at\<close>: the end of the lease while there is one.\<close>

definition due_at :: "work \<Rightarrow> instant" where
  "due_at w = (case wk_lease w of Some l \<Rightarrow> ls_expires l | None \<Rightarrow> wk_due w)"

definition workspace_of :: "work \<Rightarrow> string" where
  "workspace_of w = tg_workspace (wk_target w)"

definition active_in :: "view \<Rightarrow> string \<Rightarrow> work list \<Rightarrow> int" where
  "active_in vw ws rows =
     int (length (filter (\<lambda>w. workspace_of w = ws \<and> leased_state (wk_state w) \<and> vw_now vw < due_at w) rows))"

definition claimable :: "view \<Rightarrow> claim_request \<Rightarrow> work \<Rightarrow> bool" where
  "claimable vw r w \<longleftrightarrow> wk_kind w \<in> set (wc_kinds r) \<and> \<not> terminal_state (wk_state w) \<and> due_at w \<le> vw_now vw"

text \<open>The oldest due work of a workspace, as many as its share has left.\<close>

definition share_of :: "monitor \<Rightarrow> view \<Rightarrow> claim_request \<Rightarrow> work list \<Rightarrow> string \<Rightarrow> work list" where
  "share_of mo vw r rows ws =
     take (nat (wc_per_workspace r - active_in vw ws rows))
       (sort_key (\<lambda>w. (due_at w, mo_key_digest mo (wk_id w)))
          (filter (\<lambda>w. workspace_of w = ws \<and> claimable vw r w) rows))"

definition due :: "monitor \<Rightarrow> view \<Rightarrow> claim_request \<Rightarrow> string \<Rightarrow> mon_store \<Rightarrow> work list" where
  "due mo vw r after s =
     (let rows = (if mo_component mo = Worker_Part then [] else map snd (ms_works s));
          ranked = concat (map (\<lambda>ws. map (\<lambda>(n, w). (n, ws \<le> after, ws, w)) (List.enumerate 0 (share_of mo vw r rows ws)))
                     (remdups (map workspace_of rows)))
      in take (nat (wc_limit r))
           (map (\<lambda>(_, _, _, w). w) (sort_key (\<lambda>(n, again, ws, _). (n, again, ws)) ranked)))"

text \<open>A queued successor waits until the work whose action was rejected is completed.\<close>

definition successor_ready :: "work \<Rightarrow> mon_store \<Rightarrow> fault + bool" where
  "successor_ready w s =
     (case wk_retry_of w of
        None \<Rightarrow> Inr True
      | Some p \<Rightarrow>
          (case map_of (ms_actions s) p of
             None \<Rightarrow> Inl Mon_Unavailable
           | Some a \<Rightarrow>
               if ac_state a \<noteq> Act_Rejected \<or> ac_retry_work a \<noteq> Some (wk_id w)
                  \<or> ac_retry_attempt a + 1 \<noteq> wk_retry_attempt w then Inl Mon_Unavailable
               else case map_of (ms_works s) (rr_work (ac_request a)) of
                      None \<Rightarrow> Inl Mon_Unavailable
                    | Some pw \<Rightarrow> Inr (wk_state pw = Work_Completed)))"

text \<open>Work that reserved an action comes back to verify it, or to finalize what was rejected.\<close>

definition recover :: "work \<Rightarrow> mon_store \<Rightarrow> fault + work \<times> bool" where
  "recover w s =
     (case work_reservation w s of
        Inl e \<Rightarrow> Inl e
      | Inr (Some a) \<Rightarrow> Inr (w\<lparr>wk_kind := Verify_Kind, wk_reservation := Some (ac_id a)\<rparr>, True)
      | Inr None \<Rightarrow>
          (case wk_reservation w of
             Some i \<Rightarrow>
               (if map_option ac_state (map_of (ms_actions s) i) = Some Act_Rejected
                then Inr (w\<lparr>wk_kind := Finalize_Kind\<rparr>, True) else Inr (w, followup_kind (wk_kind w)))
           | None \<Rightarrow>
               (if wk_state w = Work_Finalizing then Inr (w\<lparr>wk_kind := Finalize_Kind\<rparr>, True)
                else Inr (w, followup_kind (wk_kind w)))))"

definition dispose_unclaimed :: "view \<Rightarrow> work \<Rightarrow> noneffect \<Rightarrow> string \<Rightarrow> work txn" where
  "dispose_unclaimed vw w nd detail =
     bnd (change (put_processed vw \<lparr>ps_execution = wk_execution w, ps_disposition = Src_No_Effect nd,
            ps_recorded = vw_now vw, ps_work = Some (wk_id w), ps_finalization = None, ps_incident = None\<rparr>)) (\<lambda>_.
     bnd (release_work vw w) (\<lambda>_.
     bnd (release_controller vw w) (\<lambda>_.
     save_work (w\<lparr>wk_state := Work_Dispositioned, wk_lease := None, wk_completed := Some (vw_now vw),
                  wk_disposition := Some detail, wk_revision := wk_revision w + 1\<rparr>))))"

definition take_lease :: "view \<Rightarrow> resource \<Rightarrow> string \<Rightarrow> int \<Rightarrow> lease option txn" where
  "take_lease vw k who secs s =
     (case acquire_lease (vw_now vw) k who secs (ms_leases s) of (l, ls) \<Rightarrow> Inr (l, s\<lparr>ms_leases := ls\<rparr>))"

definition take_work :: "view \<Rightarrow> claim_request \<Rightarrow> work \<Rightarrow> work option txn" where
  "take_work vw r w =
     bnd (take_lease vw (Work_Lease (wk_id w)) (wc_owner r) (wc_lease_seconds r)) (\<lambda>got.
     case got of
       None \<Rightarrow> ret None
     | Some l \<Rightarrow>
         bnd (take_lease vw (Controller_Lease (wk_target w)) (wk_id w) (wc_lease_seconds r)) (\<lambda>ctl.
         case ctl of
           None \<Rightarrow> bnd (release_token vw (Work_Lease (wk_id w)) l) (\<lambda>_. ret None)
         | Some _ \<Rightarrow>
             bnd (save_work (w\<lparr>wk_state := Work_Leased, wk_lease := Some l, wk_attempts := wk_attempts w + 1,
                               wk_revision := wk_revision w + 1\<rparr>)) (\<lambda>w'. ret (Some w'))))"

definition claim_one :: "view \<Rightarrow> claim_request \<Rightarrow> work \<Rightarrow> work option txn" where
  "claim_one vw r w =
     bnd (ask (successor_ready w)) (\<lambda>ready.
     if \<not> ready then ret None
     else bnd (ask (recover w)) (\<lambda>(w', followup).
       if vw_maintenance vw \<and> \<not> followup then ret None
       else if \<not> followup \<and> (wk_policy_revision w' \<noteq> vw_revision vw \<or> vw_admitted vw (wk_target w') = None)
       then bnd (dispose_unclaimed vw w' Out_Of_Scope_Source ''out_of_scope'') (\<lambda>_. ret None)
       else take_work vw r w'))"

fun claim_all :: "view \<Rightarrow> claim_request \<Rightarrow> work list \<Rightarrow> work list txn" where
  "claim_all vw r [] = ret []"
| "claim_all vw r (w # ws) =
     bnd (claim_one vw r w) (\<lambda>got. bnd (claim_all vw r ws) (\<lambda>rest. ret ((case got of None \<Rightarrow> [] | Some g \<Rightarrow> [g]) @ rest)))"

text \<open>The cursor of the component (of the fixture, or of the controller) moves on to the last workspace seen.\<close>

definition claim_work :: "monitor \<Rightarrow> view \<Rightarrow> claim_request \<Rightarrow> work list txn" where
  "claim_work mo vw r s =
     (if \<not> list_all (authorize_work mo) (wc_kinds r) then Inl Component_Denied
      else let key = (mo_component mo = Fixture_Part);
               after = (case map_of (ms_cursors s) key of None \<Rightarrow> [] | Some c \<Rightarrow> c);
               ws = due mo vw r after s
           in bnd (claim_all vw r ws) (\<lambda>got.
              bnd (change (\<lambda>s. if ws = [] then s
                               else s\<lparr>ms_cursors := AList.update key (workspace_of (last ws)) (ms_cursors s)\<rparr>))
                (\<lambda>_. ret got)) s)"

section \<open>Renewal and dispositions\<close>

definition renew_token :: "view \<Rightarrow> resource \<Rightarrow> string \<Rightarrow> int \<Rightarrow> int \<Rightarrow> lease txn" where
  "renew_token vw k who fence secs s =
     (case renew_lease (vw_now vw) k who fence secs (ms_leases s) of
        Inl e \<Rightarrow> Inl e | Inr (l, ls) \<Rightarrow> Inr (l, s\<lparr>ms_leases := ls\<rparr>))"

definition renew_work :: "monitor \<Rightarrow> view \<Rightarrow> string \<Rightarrow> lease \<Rightarrow> int \<Rightarrow> lease txn" where
  "renew_work mo vw i l secs =
     bnd (ask (owned_work mo vw i l None)) (\<lambda>w.
     bnd (renew_token vw (Work_Lease i) (ls_owner l) (ls_fence l) secs) (\<lambda>l'.
     bnd (ask (\<lambda>s. case map_of (ms_leases s) (Controller_Lease (wk_target w)) of
                 None \<Rightarrow> Inl Lease_Lost
               | Some c \<Rightarrow> if ls_owner c \<noteq> i then Inl Lease_Lost else Inr c)) (\<lambda>c.
     bnd (renew_token vw (Controller_Lease (wk_target w)) (ls_owner c) (ls_fence c) secs) (\<lambda>_.
     bnd (save_work (w\<lparr>wk_lease := Some l'\<rparr>)) (\<lambda>_. ret l')))))"

text \<open>\<open>_noneffect_source\<close>: a source is dropped without an effect only where the evidence says so.\<close>

definition noneffect_allowed :: "view \<Rightarrow> work \<Rightarrow> noneffect \<Rightarrow> observation \<Rightarrow> mon_store \<Rightarrow> bool" where
  "noneffect_allowed vw w nd src s \<longleftrightarrow>
     (case nd of
        Historical_Source \<Rightarrow> pred_option (\<lambda>b. b < vw_cutoff vw) (ob_started src) \<and> ob_started src \<noteq> None
      | Out_Of_Scope_Source \<Rightarrow> vw_admitted vw (wk_target w) = None
      | Cancelled_Source \<Rightarrow> ob_status src = Cancelled
      | Superseded_Source \<Rightarrow>
          (case (Option.bind (map_of (ms_heads s) (wk_target w)) ob_started, ob_started src) of
             (Some h, Some b) \<Rightarrow> b < h | _ \<Rightarrow> False)
      | Unsupported_Source \<Rightarrow>
          tg_workload (wk_target w) = Fabric_Pipeline
          \<and> (ob_invocation src \<noteq> Scheduled \<or> ob_job_type src \<noteq> ''Pipeline''
             \<or> (ob_status src \<noteq> Failed \<and> ob_status src \<noteq> Unknown_Status)))"

definition noneffect_refused :: "view \<Rightarrow> work \<Rightarrow> noneffect \<Rightarrow> mon_store \<Rightarrow> bool" where
  "noneffect_refused vw w nd s \<longleftrightarrow>
     (case map_of (ms_sources s) (wk_execution w) of
        None \<Rightarrow> True
      | Some src \<Rightarrow>
          map_of (ms_submitted s) (wk_execution w) \<noteq> None \<or> vw_maintenance vw
          \<or> (nd \<noteq> Historical_Source \<and> nd \<noteq> Out_Of_Scope_Source \<and> \<not> direct src)
          \<or> \<not> noneffect_allowed vw w nd src s)"

definition disposition_work :: "monitor \<Rightarrow> view \<Rightarrow> disposition_request \<Rightarrow> work txn" where
  "disposition_work mo vw r =
     bnd (ask (owned_work mo vw (wd_work r) (wd_lease r) (Some (wd_revision r)))) (\<lambda>w.
     bnd (ask (work_reservation w)) (\<lambda>held.
     bnd (demand (\<lambda>_. held = None) Mon_Conflict) (\<lambda>_.
     case wd_disposition r of
       Retry_At t \<Rightarrow>
         bnd (release_work vw w) (\<lambda>_.
         bnd (release_controller vw w) (\<lambda>_.
         save_work (w\<lparr>wk_state := Work_Waiting, wk_lease := None, wk_due := max t (vw_now vw),
                      wk_disposition := Some (wd_detail r), wk_revision := wk_revision w + 1\<rparr>)))
     | Drop_As nd \<Rightarrow>
         bnd (demand (\<lambda>s. \<not> noneffect_refused vw w nd s) Mon_Conflict) (\<lambda>_.
         dispose_unclaimed vw w nd (wd_detail r)))))"

end
