(* ===== verification/Monitor_Actions.thy ===== *)
theory Monitor_Actions
  imports Monitor_Work
begin

text \<open>
  External effects, from \<^verbatim>\<open>src/src/triage/monitoring/engine.py\<close>: an approval is bound to the
  intent it is asked for, a reservation is denied for the first reason that applies or fences
  the target before anything is posted, and the submission, the confirmed rejection and the
  verified outcome move the reservation on; finalization makes the incident durable. The last
  section is the step of one call with its authorization and its idempotency.
\<close>

section \<open>Reviews and approvals\<close>

definition review_current :: "view \<Rightarrow> review option \<Rightarrow> capability option \<Rightarrow> bool" where
  "review_current vw rv cp \<longleftrightarrow>
     (case (rv, cp) of
        (Some r, Some c) \<Rightarrow>
          sr_state r = Review_Verified \<and> sr_published r \<and> \<not> sr_redacted r
          \<and> sr_policy_revision r = vw_revision vw \<and> vw_now vw < sr_expires r
          \<and> vw_now vw < cp_expires c \<and> cp_read c \<and> cp_action c
          \<and> (if is_configuration (sr_action r) then cp_configuration c else cp_exact c)
          \<and> (sr_definition_hash r = None \<or> sr_definition_hash r = cp_definition_hash c)
      | _ \<Rightarrow> False)"

definition request_target :: "reservation_request \<Rightarrow> target" where
  "request_target r = ex_target (rr_source r)"

definition reviewed_hashes :: "reservation_request \<Rightarrow> review \<Rightarrow> bool" where
  "reviewed_hashes r rv \<longleftrightarrow>
     sr_parameter_hash rv = Some (rr_parameter_hash r) \<and> sr_definition_hash rv = rr_definition_hash r
     \<and> sr_configuration_hash rv = rr_configuration_hash r"

definition enables :: "reservation_request \<Rightarrow> mon_target \<Rightarrow> bool" where
  "enables r t \<longleftrightarrow> mt_enabled t \<and> mt_action t = Some (rr_action r)"

definition admits_review :: "reservation_request \<Rightarrow> mon_target \<Rightarrow> bool" where
  "admits_review r t \<longleftrightarrow> mt_review t = Some (rr_review r) \<and> mt_review_revision t = Some (rr_review_revision r)"

definition origin_of :: "monitor \<Rightarrow> reservation_request \<Rightarrow> string \<times> string \<Rightarrow> origin" where
  "origin_of mo r ref =
     \<lparr>og_reference = ref, og_expected = rr_expected r, og_work = rr_work r, og_source = rr_source r,
      og_incident = rr_incident r, og_action = rr_action r, og_review = rr_review r,
      og_review_revision = rr_review_revision r, og_definition_hash = rr_definition_hash r,
      og_configuration_hash = rr_configuration_hash r, og_parameter_hash = rr_parameter_hash r,
      og_arguments_hash = mo_digest mo (rr_arguments r)\<rparr>"

definition source_kind :: "work_kind \<Rightarrow> bool" where
  "source_kind k \<longleftrightarrow> k = Triage_Kind \<or> k = Retry_Kind"

text \<open>An unanswered approval for exactly this content (the digest is not looked at again).\<close>

definition bindable :: "view \<Rightarrow> reservation_request \<Rightarrow> string \<Rightarrow> approval_row \<Rightarrow> bool" where
  "bindable vw r fp row \<longleftrightarrow>
     ar_decision row = [] \<and> ar_consumed_at row = No_Stamp \<and> ar_fingerprint row = fp
     \<and> ar_action row = action_tool (rr_action r) \<and> ar_arguments row = rr_arguments r
     \<and> ar_signature row = ii_signature (rr_incident r)"

definition binding_record :: "monitor \<Rightarrow> view \<Rightarrow> reservation_request \<Rightarrow> string \<times> string \<Rightarrow> work \<Rightarrow> mon_store \<Rightarrow> fault + binding" where
  "binding_record mo vw r ref w s =
     (if wk_execution w \<noteq> rr_source r \<or> \<not> source_kind (wk_kind w) then Inl Mon_Conflict
      else case vw_admitted vw (request_target r) of
        None \<Rightarrow> Inl Mon_Conflict
      | Some t \<Rightarrow>
          (let rv = vw_review vw (rr_review r)
           in if \<not> enables r t \<or> \<not> admits_review r t \<or> \<not> review_current vw rv (vw_capability vw (request_target r))
                 \<or> \<not> pred_option (reviewed_hashes r) rv then Inl Mon_Conflict
              else case map_of (ms_approvals s) (fst ref) of
                None \<Rightarrow> Inl Mon_Conflict
              | Some row \<Rightarrow>
                  if \<not> bindable vw r (snd ref) row then Inl Mon_Conflict
                  else (case ar_expires_at row of
                          Aware_Stamp e \<Rightarrow>
                            if e \<le> vw_now vw then Inl Mon_Conflict
                            else Inr \<lparr>bd_origin = origin_of mo r ref, bd_created = vw_now vw, bd_expires = e\<rparr>
                        | _ \<Rightarrow> Inl Mon_Invalid)))"

definition bind_approval :: "monitor \<Rightarrow> view \<Rightarrow> reservation_request \<Rightarrow> string \<times> string \<Rightarrow> binding txn" where
  "bind_approval mo vw r ref =
     bnd (demand (\<lambda>_. vw_revision vw = rr_expected r \<and> \<not> vw_maintenance vw) Mon_Conflict) (\<lambda>_.
     bnd (ask (owned_work mo vw (rr_work r) (rr_lease r) None)) (\<lambda>w.
     bnd (ask (binding_record mo vw r ref w)) (\<lambda>b.
     bnd (demand (\<lambda>_. valid_binding b) Mon_Invalid) (\<lambda>_.
     bnd (change (\<lambda>s. s\<lparr>ms_bindings := AList.update (fst ref) b (ms_bindings s)\<rparr>)) (\<lambda>_. ret b)))))"

text \<open>Why the recorded answer does not authorise the request; \<open>None\<close> if it does.\<close>

definition answer_denial :: "view \<Rightarrow> binding \<Rightarrow> approval_row \<Rightarrow> denial option" where
  "answer_denial vw b row =
     (if ar_consumed_at row \<noteq> No_Stamp then Some D_Approval_Used
      else case (ar_expires_at row, ar_decided_at row) of
             (Aware_Stamp e, Aware_Stamp d) \<Rightarrow>
               if e \<le> vw_now vw \<or> e \<noteq> bd_expires b then Some D_Approval_Expired
               else if ar_decision row \<noteq> ''approve'' \<or> ar_responder row = [] \<or> vw_now vw < d \<or> d < bd_created b
               then Some D_Approval_Denied else None
           | _ \<Rightarrow> Some D_Approval_Denied)"

definition approval_denial :: "monitor \<Rightarrow> view \<Rightarrow> reservation_request \<Rightarrow> mon_store \<Rightarrow> denial option" where
  "approval_denial mo vw r s =
     (case rr_approval r of
        None \<Rightarrow> if requires_approval (action_tool (rr_action r)) then Some D_Approval_Required else None
      | Some ref \<Rightarrow>
          (case map_of (ms_approvals s) (fst ref) of
             None \<Rightarrow> Some D_Approval_Required
           | Some row \<Rightarrow>
               (case map_of (ms_bindings s) (fst ref) of
                  None \<Rightarrow> Some D_Approval_Required
                | Some b \<Rightarrow>
                    if bd_origin b \<noteq> origin_of mo r ref then Some D_Fingerprint_Mismatch
                    else if ar_request_id row \<noteq> fst ref \<or> ar_fingerprint row \<noteq> snd ref
                       \<or> ar_action row \<noteq> action_tool (rr_action r) \<or> ar_arguments row \<noteq> rr_arguments r
                       \<or> ar_signature row \<noteq> ii_signature (rr_incident r) then Some D_Fingerprint_Mismatch
                    else answer_denial vw b row)))"

definition consume_approval :: "view \<Rightarrow> string \<times> string \<Rightarrow> mon_store \<Rightarrow> mon_store option" where
  "consume_approval vw ref s =
     (case map_of (ms_approvals s) (fst ref) of
        None \<Rightarrow> None
      | Some row \<Rightarrow>
          if ar_fingerprint row \<noteq> snd ref \<or> ar_decision row \<noteq> ''approve'' \<or> ar_consumed_at row \<noteq> No_Stamp
             \<or> ar_responder row = [] \<or> ar_decided_at row = No_Stamp then None
          else (case ar_expires_at row of
                  Aware_Stamp e \<Rightarrow>
                    if e \<le> vw_now vw then None
                    else Some (s\<lparr>ms_approvals := AList.update (fst ref) (row\<lparr>ar_consumed_at := Aware_Stamp (vw_now vw)\<rparr>) (ms_approvals s)\<rparr>)
                | _ \<Rightarrow> None))"

section \<open>Reservations\<close>

definition gate_denial :: "monitor \<Rightarrow> view \<Rightarrow> reservation_request \<Rightarrow> denial option" where
  "gate_denial mo vw r =
     (if vw_maintenance vw then Some D_Maintenance
      else if vw_revision vw \<noteq> rr_expected r then Some D_Stale_Policy
      else if vw_pending vw (request_target r) then Some D_Pending_Validation
      else if action_tool (rr_action r) \<notin> allowed_actions (mo_policy mo) then Some D_Policy_Blocked
      else None)"

definition work_denial :: "view \<Rightarrow> reservation_request \<Rightarrow> work \<Rightarrow> denial option" where
  "work_denial vw r w =
     (if wk_execution w \<noteq> rr_source r \<or> \<not> source_kind (wk_kind w) then Some D_Source_Ineligible
      else if wk_policy_revision w \<noteq> vw_revision vw then Some D_Stale_Policy
      else if wk_reservation w \<noteq> None then Some D_Source_Ineligible
      else None)"

definition lapsed_review :: "view \<Rightarrow> target \<Rightarrow> bool" where
  "lapsed_review vw t \<longleftrightarrow>
     (case Option.bind (Option.bind (vw_configured vw t) mt_review) (vw_review vw) of
        None \<Rightarrow> False | Some rv \<Rightarrow> sr_expires rv \<le> vw_now vw)"

definition review_denial :: "view \<Rightarrow> reservation_request \<Rightarrow> denial option" where
  "review_denial vw r =
     (case vw_admitted vw (request_target r) of
        None \<Rightarrow> Some D_Out_Of_Scope
      | Some t \<Rightarrow>
          if \<not> enables r t
          then Some (if lapsed_review vw (request_target r) then D_Expired_Review else D_Observation_Only)
          else if \<not> admits_review r t then Some D_Stale_Review
          else (case vw_review vw (rr_review r) of
                  None \<Rightarrow> Some D_Stale_Review
                | Some rv \<Rightarrow>
                    if sr_revision rv \<noteq> rr_review_revision r \<or> sr_state rv \<noteq> Review_Verified then Some D_Stale_Review
                    else if sr_expires rv \<le> vw_now vw then Some D_Expired_Review
                    else if \<not> review_current vw (Some rv) (vw_capability vw (request_target r))
                       \<or> sr_target rv \<noteq> mt_target t \<or> sr_action rv \<noteq> rr_action r \<or> \<not> reviewed_hashes r rv
                    then Some D_Fingerprint_Mismatch
                    else None))"

definition SOURCE_FRESHNESS_SECONDS :: int where
  "SOURCE_FRESHNESS_SECONDS = 300"

definition window_blocks :: "view \<Rightarrow> execution \<Rightarrow> bool" where
  "window_blocks vw e \<longleftrightarrow>
     tg_workload (ex_target e) = Power_BI
     \<and> list_ex (\<lambda>(i, collecting). collecting \<or> vw_alias vw i (ex_run_id e)) (vw_windows vw (ex_target e))"

text \<open>A newer run of the target stops the action; restoring a schedule needs one that succeeded.\<close>

definition head_blocks :: "reservation_request \<Rightarrow> instant \<Rightarrow> mon_store \<Rightarrow> bool" where
  "head_blocks r started s \<longleftrightarrow>
     (let head = map_of (ms_heads s) (request_target r);
          restored = (rr_action r = Mon_Reenable \<and> map_option ob_status head = Some Succeeded)
      in (case Option.bind head ob_started of None \<Rightarrow> False | Some h \<Rightarrow> started < h \<and> \<not> restored)
         \<or> rr_action r = Mon_Reenable \<and> \<not> restored)"

definition source_denial :: "view \<Rightarrow> reservation_request \<Rightarrow> mon_store \<Rightarrow> denial option" where
  "source_denial vw r s =
     (case map_of (ms_sources s) (rr_source r) of
        None \<Rightarrow> Some D_Source_Ineligible
      | Some src \<Rightarrow>
          if \<not> direct src \<or> ob_status src \<noteq> Failed then Some D_Source_Ineligible
          else (case (ob_started src, ob_ended src) of
                  (Some b, Some _) \<Rightarrow>
                    if vw_now vw < ob_observed_at src then Some D_Source_Ineligible
                    else if b < vw_cutoff vw then Some D_Before_Cutoff
                    else if seconds SOURCE_FRESHNESS_SECONDS < vw_now vw - ob_observed_at src then Some D_Source_Ineligible
                    else if unresolved_alias (ob_execution src) \<or> window_blocks vw (ob_execution src) then Some D_Source_Ineligible
                    else if rr_action r = Mon_Rerun \<and> (\<not> failed_scheduled_pipeline src \<or> ob_job_type src \<noteq> ''Pipeline'')
                    then Some D_Source_Ineligible
                    else if head_blocks r b s then Some D_Source_Ineligible
                    else None
                | _ \<Rightarrow> Some D_Source_Ineligible))"

definition state_revision :: "reservation_request \<Rightarrow> mon_store \<Rightarrow> int" where
  "state_revision r s = (case map_of (ms_states s) (rr_incident r) of None \<Rightarrow> 0 | Some st \<Rightarrow> is_revision st)"

definition slots_used :: "incident_identity \<Rightarrow> mon_store \<Rightarrow> int" where
  "slots_used i s = (case map_of (ms_states s) i of None \<Rightarrow> 0 | Some st \<Rightarrow> is_count st)"

definition owner_denial :: "reservation_request \<Rightarrow> mon_store \<Rightarrow> denial option" where
  "owner_denial r s =
     (if (case map_of (ms_owners s) (request_target r) of None \<Rightarrow> False | Some o' \<Rightarrow> ow_active o') then Some D_Target_Owned
      else if state_revision r s \<noteq> rr_incident_revision r then Some D_Stale_Policy
      else None)"

text \<open>The unused successor of an action that was rejected for throttling.\<close>

definition succeeds :: "reservation_request \<Rightarrow> work \<Rightarrow> mon_act \<Rightarrow> mon_store \<Rightarrow> bool" where
  "succeeds r w p s \<longleftrightarrow>
     ac_state p = Act_Rejected \<and> map_option rj_reason (ac_rejection p) = Some Throttled
     \<and> ac_retry_work p = Some (wk_id w) \<and> ac_retry_reservation p = None
     \<and> ac_retry_attempt p + 1 = wk_retry_attempt w \<and> 1 \<le> wk_retry_attempt w \<and> wk_retry_attempt w \<le> MAX_ATTEMPTS
     \<and> map_option wk_state (map_of (ms_works s) (rr_work (ac_request p))) = Some Work_Completed
     \<and> rr_action r = Mon_Refresh \<and> rr_action (ac_request p) = rr_action r
     \<and> rr_source (ac_request p) = rr_source r \<and> rr_incident (ac_request p) = rr_incident r
     \<and> rr_parameter_hash (ac_request p) = rr_parameter_hash r
     \<and> rr_definition_hash (ac_request p) = rr_definition_hash r
     \<and> rr_configuration_hash (ac_request p) = rr_configuration_hash r"

text \<open>The action this work retries, where it retries one; a denial or a fault otherwise.\<close>

definition predecessor :: "reservation_request \<Rightarrow> work \<Rightarrow> mon_store \<Rightarrow> fault + denial + mon_act option" where
  "predecessor r w s =
     (case wk_retry_of w of
        None \<Rightarrow> Inr (Inr None)
      | Some i \<Rightarrow>
          (case map_of (ms_actions s) i of
             None \<Rightarrow> Inr (Inl D_Source_Ineligible)
           | Some p \<Rightarrow>
               if \<not> succeeds r w p s then Inr (Inl D_Source_Ineligible)
               else if slots_used (rr_incident r) s < 1 then Inl Mon_Unavailable
               else Inr (Inr (Some p))))"

definition budget_spent :: "monitor \<Rightarrow> reservation_request \<Rightarrow> mon_act option \<Rightarrow> mon_store \<Rightarrow> bool" where
  "budget_spent mo r p s \<longleftrightarrow>
     (let cap = max_write_actions (mo_policy mo); used = slots_used (rr_incident r) s
      in cap < 1 \<or> (if p \<noteq> None then cap < used else cap \<le> used))"

definition put_action :: "mon_act \<Rightarrow> mon_store \<Rightarrow> mon_store" where
  "put_action a s = s\<lparr>ms_actions := AList.update (ac_id a) a (ms_actions s)\<rparr>"

definition save_action :: "mon_act \<Rightarrow> mon_act txn" where
  "save_action a = bnd (demand (\<lambda>_. valid_action a) Mon_Invalid) (\<lambda>_. bnd (change (put_action a)) (\<lambda>_. ret a))"

definition put_owner :: "target \<Rightarrow> owner \<Rightarrow> mon_store \<Rightarrow> mon_store" where
  "put_owner t ow s = s\<lparr>ms_owners := AList.update t ow (ms_owners s)\<rparr>"

definition put_state :: "incident_state \<Rightarrow> mon_store \<Rightarrow> mon_store" where
  "put_state st s = s\<lparr>ms_states := AList.update (is_identity st) st (ms_states s)\<rparr>"

definition canonical_incident_id :: "monitor \<Rightarrow> incident_identity \<Rightarrow> string" where
  "canonical_incident_id mo i = mo_id mo (''incident:'' @ mo_incident_key mo i)"

definition incident_of :: "monitor \<Rightarrow> incident_identity \<Rightarrow> mon_store \<Rightarrow> string" where
  "incident_of mo i s =
     (case map_of (ms_states s) i of None \<Rightarrow> canonical_incident_id mo i | Some st \<Rightarrow> is_incident st)"

definition new_action :: "monitor \<Rightarrow> view \<Rightarrow> reservation_request \<Rightarrow> work \<Rightarrow> mon_store \<Rightarrow> mon_act" where
  "new_action mo vw r w s =
     \<lparr>ac_id = mo_id mo (''action:'' @ rr_id r), ac_request = r, ac_revision = 1,
      ac_fence = (case map_of (ms_owners s) (request_target r) of None \<Rightarrow> 1 | Some ow \<Rightarrow> ow_fence ow + 1),
      ac_state = Act_Reserved, ac_reserved_at = vw_now vw, ac_updated_at = vw_now vw, ac_submitted = None,
      ac_submitted_at = None, ac_configuration = None,
      ac_next_verification = Some (vw_now vw + seconds 120), ac_rejection = None,
      ac_retry_attempt = wk_retry_attempt w, ac_retry_of = wk_retry_of w, ac_retry_work = None,
      ac_retry_reservation = None\<rparr>"

text \<open>One more slot for a first attempt; a successor keeps the slot of what it retries.\<close>

definition charged_state :: "monitor \<Rightarrow> view \<Rightarrow> reservation_request \<Rightarrow> mon_act option \<Rightarrow> mon_store \<Rightarrow> incident_state" where
  "charged_state mo vw r p s =
     (let old = map_of (ms_states s) (rr_incident r)
      in \<lparr>is_identity = rr_incident r, is_incident = incident_of mo (rr_incident r) s,
          is_revision = state_revision r s + 1,
          is_count = slots_used (rr_incident r) s + (if p = None then 1 else 0),
          is_latest = Option.bind old is_latest, is_latest_started = Option.bind old is_latest_started,
          is_updated = vw_now vw\<rparr>)"

definition commit_reservation ::
    "monitor \<Rightarrow> view \<Rightarrow> reservation_request \<Rightarrow> work \<Rightarrow> mon_act option \<Rightarrow> decision txn" where
  "commit_reservation mo vw r w p s =
     (let a = new_action mo vw r w s
      in bnd (change (put_owner (request_target r) \<lparr>ow_reservation = ac_id a, ow_fence = ac_fence a, ow_active = True\<rparr>)) (\<lambda>_.
         bnd (change (put_state (charged_state mo vw r p s))) (\<lambda>_.
         bnd (save_action a) (\<lambda>_.
         bnd (case p of None \<Rightarrow> ret ()
              | Some q \<Rightarrow> bnd (save_action (q\<lparr>ac_retry_reservation := Some (ac_id a), ac_revision := ac_revision q + 1,
                                             ac_updated_at := vw_now vw\<rparr>)) (\<lambda>_. ret ())) (\<lambda>_.
         bnd (save_work (w\<lparr>wk_reservation := Some (ac_id a), wk_revision := wk_revision w + 1\<rparr>)) (\<lambda>_.
         bnd (schedule_verification mo vw a) (\<lambda>_. ret (Reserved a))))))) s)"

definition first_some :: "'a option list \<Rightarrow> 'a option" where
  "first_some xs = (case filter (\<lambda>x. x \<noteq> None) xs of [] \<Rightarrow> None | x # _ \<Rightarrow> x)"

definition spend_approval :: "view \<Rightarrow> reservation_request \<Rightarrow> mon_store \<Rightarrow> mon_store option" where
  "spend_approval vw r s = (case rr_approval r of None \<Rightarrow> Some s | Some ref \<Rightarrow> consume_approval vw ref s)"

definition reserve_owned :: "monitor \<Rightarrow> view \<Rightarrow> reservation_request \<Rightarrow> work \<Rightarrow> decision txn" where
  "reserve_owned mo vw r w s =
     (case first_some [work_denial vw r w, review_denial vw r, source_denial vw r s, owner_denial r s] of
        Some d \<Rightarrow> Inr (Denied d, s)
      | None \<Rightarrow>
          (case predecessor r w s of
             Inl e \<Rightarrow> Inl e
           | Inr (Inl d) \<Rightarrow> Inr (Denied d, s)
           | Inr (Inr p) \<Rightarrow>
               if budget_spent mo r p s then Inr (Denied D_Budget_Exhausted, s)
               else (case approval_denial mo vw r s of
                       Some d \<Rightarrow> Inr (Denied d, s)
                     | None \<Rightarrow>
                         (case spend_approval vw r s of
                            None \<Rightarrow> Inr (Denied D_Approval_Used, s)
                          | Some s' \<Rightarrow> commit_reservation mo vw r w p s'))))"

definition reserve_action :: "monitor \<Rightarrow> view \<Rightarrow> reservation_request \<Rightarrow> decision txn" where
  "reserve_action mo vw r s =
     (case gate_denial mo vw r of
        Some d \<Rightarrow> Inr (Denied d, s)
      | None \<Rightarrow>
          (case owned_work mo vw (rr_work r) (rr_lease r) None s of
             Inl e \<Rightarrow> if e = Lease_Lost then Inr (Denied D_Lease_Lost, s) else Inl e
           | Inr w \<Rightarrow> reserve_owned mo vw r w s))"

end
