(* ===== verification/Monitor_Effects.thy ===== *)
theory Monitor_Effects
  imports Monitor_Actions
begin

text \<open>
  What follows a reservation, from \<^verbatim>\<open>src/src/triage/monitoring/engine.py\<close>: the recorded
  submission, the confirmed rejection with its bounded successor, the verified outcome and
  the finalization of the incident; and the step of one call with its authorization and its
  idempotency.
\<close>

section \<open>Submission\<close>

definition fenced_action :: "string \<Rightarrow> int \<Rightarrow> int \<Rightarrow> mon_store \<Rightarrow> fault + mon_act" where
  "fenced_action i n fence s =
     (case map_of (ms_actions s) i of
        None \<Rightarrow> Inl Mon_Conflict
      | Some a \<Rightarrow> if ac_revision a \<noteq> n \<or> ac_fence a \<noteq> fence then Inl Mon_Conflict else Inr a)"

text \<open>Outside the fixture every transition names the current work that owns the action.\<close>

definition transition_commit :: "monitor \<Rightarrow> view \<Rightarrow> mon_act \<Rightarrow> commit option \<Rightarrow> mon_store \<Rightarrow> fault + unit" where
  "transition_commit mo vw a c s =
     (case c of
        None \<Rightarrow> if mo_component mo = Fixture_Part then Inr () else Inl Mon_Conflict
      | Some m \<Rightarrow>
          (case owned_work mo vw (cm_work m) (cm_lease m) (Some (cm_revision m)) s of
             Inl e \<Rightarrow> Inl e
           | Inr w \<Rightarrow>
               if wk_reservation w \<noteq> Some (ac_id a) \<or> wk_execution w \<noteq> rr_source (ac_request a)
               then Inl Mon_Conflict else Inr ()))"

definition action_final :: "mon_act \<Rightarrow> bool" where
  "action_final a \<longleftrightarrow> ac_state a = Act_Rejected \<or> action_verified (ac_state a)"

definition submitted_by :: "mon_act \<Rightarrow> submission \<Rightarrow> execution option" where
  "submitted_by a r = (case sb_execution r of None \<Rightarrow> ac_submitted a | Some e \<Rightarrow> Some e)"

text \<open>A configuration change names itself and has no run; a run is never the source's own and never changes.\<close>

definition submission_refused :: "view \<Rightarrow> mon_act \<Rightarrow> submission \<Rightarrow> bool" where
  "submission_refused vw a r \<longleftrightarrow>
     action_final a \<or> sb_submitted_at r < ac_reserved_at a \<or> vw_now vw < sb_submitted_at r
     \<or> (if is_configuration (rr_action (ac_request a))
        then sb_execution r \<noteq> None \<or> sb_certain r \<and> sb_configuration r \<noteq> Some (rr_action (ac_request a))
        else sb_configuration r \<noteq> None)
     \<or> ac_submitted a \<noteq> None \<and> sb_execution r \<noteq> None \<and> sb_execution r \<noteq> ac_submitted a
     \<or> (case submitted_by a r of
          None \<Rightarrow> False | Some e \<Rightarrow> ex_target e \<noteq> ac_target a \<or> e = rr_source (ac_request a))"

definition submitted_action :: "view \<Rightarrow> mon_act \<Rightarrow> submission \<Rightarrow> mon_act" where
  "submitted_action vw a r =
     a\<lparr>ac_state := (if sb_certain r then Act_Submitted else Act_Uncertain), ac_submitted := submitted_by a r,
       ac_submitted_at := Some (sb_submitted_at r), ac_next_verification := Some (sb_next_verification r),
       ac_updated_at := vw_now vw, ac_revision := ac_revision a + 1\<rparr>"

text \<open>A submitted execution belongs to one reservation.\<close>

definition claim_execution :: "mon_act \<Rightarrow> execution option \<Rightarrow> unit txn" where
  "claim_execution a e =
     (case e of
        None \<Rightarrow> ret ()
      | Some x \<Rightarrow>
          bnd (demand (\<lambda>s. pred_option (\<lambda>p. ow_reservation p = ac_id a) (map_of (ms_submitted s) x)) Mon_Conflict) (\<lambda>_.
          change (\<lambda>s. s\<lparr>ms_submitted :=
            AList.update x \<lparr>ow_reservation = ac_id a, ow_fence = ac_fence a, ow_active = True\<rparr> (ms_submitted s)\<rparr>)))"

definition record_action_submission :: "monitor \<Rightarrow> view \<Rightarrow> submission \<Rightarrow> commit option \<Rightarrow> mon_act txn" where
  "record_action_submission mo vw r c =
     bnd (ask (fenced_action (sb_reservation r) (sb_revision r) (sb_fence r))) (\<lambda>a.
     bnd (ask (transition_commit mo vw a c)) (\<lambda>_.
     bnd (demand (\<lambda>_. \<not> submission_refused vw a r) Mon_Conflict) (\<lambda>_.
     bnd (claim_execution a (submitted_by a r)) (\<lambda>_.
     bnd (save_action (submitted_action vw a r)) (\<lambda>saved.
     bnd (schedule_verification mo vw saved) (\<lambda>_. ret saved))))))"

section \<open>Rejection\<close>

text \<open>A throttled refresh is tried again by new work, as long as the intent is still admitted.\<close>

definition retry_allowed_now :: "view \<Rightarrow> mon_act \<Rightarrow> bool" where
  "retry_allowed_now vw a \<longleftrightarrow>
     (let r = ac_request a
      in rr_action r = Mon_Refresh \<and> map_option rj_reason (ac_rejection a) = Some Throttled
         \<and> ac_retry_attempt a < MAX_ATTEMPTS \<and> \<not> vw_maintenance vw \<and> vw_revision vw = rr_expected r
         \<and> (case vw_admitted vw (ac_target a) of
              None \<Rightarrow> False
            | Some t \<Rightarrow>
                enables r t \<and> admits_review r t
                \<and> review_current vw (vw_review vw (rr_review r)) (vw_capability vw (ac_target a))))"

definition retry_wait :: "mon_act \<Rightarrow> int" where
  "retry_wait a =
     (case ac_rejection a of
        Some e \<Rightarrow> if rj_retry_after e \<noteq> 0 then rj_retry_after e
                  else backoff_seconds (ac_retry_attempt a + 1) DEFAULT_BACKOFF_SECONDS
      | None \<Rightarrow> 0)"

definition retry_work :: "monitor \<Rightarrow> view \<Rightarrow> mon_act \<Rightarrow> work" where
  "retry_work mo vw a =
     \<lparr>wk_id = mo_id mo (''rejected-retry:'' @ ac_id a), wk_kind = Retry_Kind, wk_policy_revision = vw_revision vw,
      wk_due = vw_now vw + seconds (retry_wait a), wk_created = vw_now vw, wk_target = ac_target a,
      wk_execution = rr_source (ac_request a), wk_reservation = None, wk_revision = 1, wk_attempts = 0,
      wk_retry_attempt = ac_retry_attempt a + 1, wk_retry_of = Some (ac_id a), wk_state = Work_Queued,
      wk_lease = None, wk_disposition = None, wk_completed = None, wk_finalization = None\<rparr>"

definition rejection_successor :: "monitor \<Rightarrow> view \<Rightarrow> mon_act \<Rightarrow> string option txn" where
  "rejection_successor mo vw a =
     (if retry_allowed_now vw a then
        bnd (save_work (retry_work mo vw a)) (\<lambda>w.
        bnd (change (put_link (draft_link w) (wk_id w) (wk_execution w))) (\<lambda>_. ret (Some (wk_id w))))
      else ret None)"

definition rejection_refused :: "view \<Rightarrow> mon_act \<Rightarrow> work \<Rightarrow> rejection_request \<Rightarrow> mon_store \<Rightarrow> bool" where
  "rejection_refused vw a w r s \<longleftrightarrow>
     ac_state a \<noteq> Act_Reserved \<or> ac_submitted a \<noteq> None \<or> ac_submitted_at a \<noteq> None \<or> ac_configuration a \<noteq> None
     \<or> rr_work (ac_request a) \<noteq> wk_id w \<or> wk_reservation w \<noteq> Some (ac_id a) \<or> \<not> source_kind (wk_kind w)
     \<or> (ls_owner (rr_lease (ac_request a)), ls_fence (rr_lease (ac_request a)))
         \<noteq> (ls_owner (rx_lease r), ls_fence (rx_lease r))
     \<or> rj_attempted (rx_evidence r) < ac_reserved_at a \<or> vw_now vw < rj_rejected (rx_evidence r)
     \<or> \<not> (case map_of (ms_owners s) (ac_target a) of
            None \<Rightarrow> False
          | Some ow \<Rightarrow> ow_reservation ow = ac_id a \<and> ow_fence ow = ac_fence a \<and> ow_active ow)"

definition rejected_action :: "view \<Rightarrow> mon_act \<Rightarrow> rejection_request \<Rightarrow> mon_act" where
  "rejected_action vw a r =
     a\<lparr>ac_state := Act_Rejected, ac_rejection := Some (rx_evidence r), ac_next_verification := None,
       ac_updated_at := vw_now vw, ac_revision := ac_revision a + 1\<rparr>"

definition retire_owner :: "target \<Rightarrow> mon_store \<Rightarrow> mon_store" where
  "retire_owner t s =
     (case map_of (ms_owners s) t of None \<Rightarrow> s | Some ow \<Rightarrow> put_owner t (ow\<lparr>ow_active := False\<rparr>) s)"

text \<open>The pending verification of an action is closed, where there is one and it is not the work itself.\<close>

definition close_verification :: "view \<Rightarrow> string \<Rightarrow> string option \<Rightarrow> unit txn" where
  "close_verification vw i but s =
     (case Option.bind (map_of (ms_links s) (Verify_Link i)) (\<lambda>(j, _). map_of (ms_works s) j) of
        None \<Rightarrow> Inr ((), s)
      | Some w \<Rightarrow>
          if pending_state (wk_state w) \<and> Some (wk_id w) \<noteq> but
          then bnd (save_work (w\<lparr>wk_state := Work_Dispositioned, wk_lease := None, wk_completed := Some (vw_now vw),
                                wk_disposition := Some ''closed'', wk_revision := wk_revision w + 1\<rparr>)) (\<lambda>_. ret ()) s
          else Inr ((), s))"

definition record_action_rejection :: "monitor \<Rightarrow> view \<Rightarrow> rejection_request \<Rightarrow> mon_act txn" where
  "record_action_rejection mo vw r =
     bnd (ask (fenced_action (rx_reservation r) (rx_revision r) (rx_fence r))) (\<lambda>a.
     bnd (ask (owned_work mo vw (rx_work r) (rx_lease r) None)) (\<lambda>w.
     bnd (demand (\<lambda>s. \<not> rejection_refused vw a w r s) Mon_Conflict) (\<lambda>_.
     let b = rejected_action vw a r in
     bnd (demand (\<lambda>_. valid_action b) Mon_Invalid) (\<lambda>_.
     bnd (rejection_successor mo vw b) (\<lambda>next_work.
     bnd (save_action (b\<lparr>ac_retry_work := (case next_work of None \<Rightarrow> ac_retry_work b | Some i \<Rightarrow> Some i)\<rparr>)) (\<lambda>saved.
     bnd (change (\<lambda>s. s\<lparr>ms_rejections := AList.update (ac_id a) r (ms_rejections s)\<rparr>)) (\<lambda>_.
     bnd (change (retire_owner (ac_target a))) (\<lambda>_.
     bnd (close_verification vw (ac_id a) None) (\<lambda>_. ret saved)))))))))"

section \<open>Outcome\<close>

fun state_of_check :: "finding_of_check \<Rightarrow> action_state" where
  "state_of_check Check_Succeeded = Act_Succeeded"
| "state_of_check Check_Failed = Act_Failed"
| "state_of_check Check_Uncertain = Act_Uncertain"

definition snapshot_refused :: "monitor \<Rightarrow> view \<Rightarrow> mon_act \<Rightarrow> configuration \<Rightarrow> bool" where
  "snapshot_refused mo vw a c \<longleftrightarrow>
     cv_target c \<noteq> ac_target a \<or> cv_action c \<noteq> rr_action (ac_request a)
     \<or> cv_expected_hash c \<noteq> rr_parameter_hash (ac_request a)
     \<or> \<not> (case ac_submitted_at a of None \<Rightarrow> False | Some t \<Rightarrow> t \<le> cv_observed_at c)
     \<or> vw_now vw < cv_observed_at c \<or> \<not> mo_fixture mo \<and> cv_fixture c"

definition run_refused :: "monitor \<Rightarrow> mon_act \<Rightarrow> outcome_request \<Rightarrow> bool" where
  "run_refused mo a r \<longleftrightarrow>
     ac_submitted a = None \<or> ou_execution r \<noteq> ac_submitted a
     \<or> \<not> (case (ou_observation r, ac_submitted_at a) of
            (Some ob, Some t) \<Rightarrow>
              (case ob_ended ob of None \<Rightarrow> False | Some e \<Rightarrow> t \<le> e)
              \<and> (mo_fixture mo \<or> ob_authority ob \<noteq> Fixture_Evidence)
          | _ \<Rightarrow> False)"

definition outcome_refused :: "monitor \<Rightarrow> view \<Rightarrow> mon_act \<Rightarrow> outcome_request \<Rightarrow> bool" where
  "outcome_refused mo vw a r \<longleftrightarrow>
     action_final a \<or> vw_now vw < ou_observed_at r
     \<or> (case ac_submitted_at a of None \<Rightarrow> False | Some t \<Rightarrow> ou_observed_at r < t)
     \<or> (case ou_configuration r of
          Some c \<Rightarrow> snapshot_refused mo vw a c
        | None \<Rightarrow>
            if ou_disposition r \<noteq> Check_Uncertain then run_refused mo a r
            else ou_execution r \<noteq> None \<and> ou_execution r \<noteq> ac_submitted a)"

definition outcome_action :: "view \<Rightarrow> mon_act \<Rightarrow> outcome_request \<Rightarrow> mon_act" where
  "outcome_action vw a r =
     a\<lparr>ac_state := state_of_check (ou_disposition r), ac_configuration := ou_configuration r,
       ac_revision := ac_revision a + 1, ac_updated_at := vw_now vw,
       ac_next_verification := (if ou_disposition r = Check_Uncertain then Some (vw_now vw + seconds 120) else None)\<rparr>"

definition settle_owner :: "monitor \<Rightarrow> view \<Rightarrow> mon_act \<Rightarrow> unit txn" where
  "settle_owner mo vw a =
     (if action_verified (ac_state a) then
        bnd (demand (\<lambda>s. case map_of (ms_owners s) (ac_target a) of
                     None \<Rightarrow> False
                   | Some ow \<Rightarrow> ow_reservation ow = ac_id a \<and> ow_fence ow = ac_fence a) Mon_Conflict) (\<lambda>_.
        change (retire_owner (ac_target a)))
      else bnd (schedule_verification mo vw a) (\<lambda>_. ret ()))"

definition record_action_outcome :: "monitor \<Rightarrow> view \<Rightarrow> outcome_request \<Rightarrow> commit option \<Rightarrow> mon_act txn" where
  "record_action_outcome mo vw r c =
     bnd (ask (fenced_action (ou_reservation r) (ou_revision r) (ou_fence r))) (\<lambda>a.
     bnd (ask (transition_commit mo vw a c)) (\<lambda>_.
     bnd (demand (\<lambda>_. \<not> outcome_refused mo vw a r) Mon_Conflict) (\<lambda>_.
     bnd (save_action (outcome_action vw a r)) (\<lambda>saved.
     bnd (change (\<lambda>s. s\<lparr>ms_outcomes := AList.update (ac_id a) r (ms_outcomes s)\<rparr>)) (\<lambda>_.
     bnd (case ou_observation r of None \<Rightarrow> ret () | Some ob \<Rightarrow> bnd (save_source mo vw ob) (\<lambda>_. ret ())) (\<lambda>_.
     bnd (settle_owner mo vw saved) (\<lambda>_. ret saved)))))))"

section \<open>Finalization\<close>

text \<open>
  The action a finalization speaks of: the one it names, else the one the work reserved. An
  open reservation of the work cannot be left out.
\<close>

definition attached_action :: "finalization \<Rightarrow> work \<Rightarrow> mon_store \<Rightarrow> fault + mon_act option" where
  "attached_action r w s =
     (case (case fz_reservation r of Some i \<Rightarrow> Some i | None \<Rightarrow> wk_reservation w) of
        Some i \<Rightarrow>
          (case map_of (ms_actions s) i of
             None \<Rightarrow> Inl Mon_Conflict
           | Some a \<Rightarrow>
               if rr_source (ac_request a) \<noteq> fz_source r then Inl Mon_Conflict
               else if in_outcome (fz_incident r) = Resolved \<and> ac_state a \<noteq> Act_Succeeded then Inl Mon_Conflict
               else Inr (Some a))
      | None \<Rightarrow>
          (case work_reservation w s of
             Inl e \<Rightarrow> Inl e
           | Inr (Some _) \<Rightarrow> Inl Mon_Conflict
           | Inr None \<Rightarrow> Inr None))"

definition is_historical :: "finalization \<Rightarrow> incident option \<Rightarrow> incident_state option \<Rightarrow> observation \<Rightarrow> bool" where
  "is_historical r prior st src \<longleftrightarrow>
     \<not> (fz_disposition r = Src_Historical \<and> prior = None)
     \<and> (case (Option.bind st is_latest_started, ob_started src) of (Some l, Some b) \<Rightarrow> b < l | _ \<Rightarrow> False)"

text \<open>The incident as it is written: an older failure only counts, a newer one replaces the story.\<close>

definition merged_incident :: "finalization \<Rightarrow> work \<Rightarrow> string \<Rightarrow> incident option \<Rightarrow> bool \<Rightarrow> bool \<Rightarrow> incident" where
  "merged_incident r w i prior historical processed =
     (case prior of
        None \<Rightarrow> (fz_incident r)\<lparr>in_id := i, in_occurrence_count := max 1 (in_occurrence_count (fz_incident r))\<rparr>
      | Some p \<Rightarrow>
          (let base = (if historical then p else (fz_incident r)\<lparr>in_id := i\<rparr>)
           in base\<lparr>in_occurrence_count := in_occurrence_count p + (if \<not> processed \<and> wk_kind w \<noteq> Verify_Kind then 1 else 0),
                   in_notified_count := max (in_notified_count p) (in_notified_count base),
                   in_first_seen_at := in_first_seen_at p,
                   in_last_seen_at := (if historical then in_last_seen_at p
                                       else max (in_last_seen_at p) (in_last_seen_at base))\<rparr>))"

definition write_incident :: "incident \<Rightarrow> incident option \<Rightarrow> unit txn" where
  "write_incident i prior =
     bnd (demand (\<lambda>s. map_of (ms_incidents s) (in_id i) = prior) Mon_Conflict) (\<lambda>_.
     change (\<lambda>s. s\<lparr>ms_incidents := AList.update (in_id i) i (ms_incidents s)\<rparr>))"

definition final_state :: "view \<Rightarrow> finalization \<Rightarrow> string \<Rightarrow> incident_state option \<Rightarrow> bool \<Rightarrow> observation \<Rightarrow> incident_state" where
  "final_state vw r i st historical src =
     \<lparr>is_identity = fz_identity r, is_incident = i,
      is_revision = (case st of None \<Rightarrow> 0 | Some p \<Rightarrow> is_revision p) + 1,
      is_count = (case st of None \<Rightarrow> 0 | Some p \<Rightarrow> is_count p),
      is_latest = (if historical then Option.bind st is_latest else Some (ob_execution src)),
      is_latest_started = (if historical then Option.bind st is_latest_started else ob_started src),
      is_updated = vw_now vw\<rparr>"

definition complete_work :: "view \<Rightarrow> finalization \<Rightarrow> work \<Rightarrow> unit txn" where
  "complete_work vw r w =
     bnd (release_work vw w) (\<lambda>_.
     bnd (release_controller vw w) (\<lambda>_.
     bnd (save_work (w\<lparr>wk_state := Work_Completed, wk_lease := None, wk_completed := Some (vw_now vw),
                      wk_revision := wk_revision w + 1, wk_finalization := Some (fz_id r),
                      wk_disposition := Some ''finalized''\<rparr>)) (\<lambda>_. ret ())))"

definition follow_up :: "monitor \<Rightarrow> view \<Rightarrow> work \<Rightarrow> mon_act option \<Rightarrow> unit txn" where
  "follow_up mo vw w a =
     (case a of
        None \<Rightarrow> ret ()
      | Some b \<Rightarrow>
          if action_verified (ac_state b) then close_verification vw (ac_id b) (Some (wk_id w))
          else bnd (schedule_verification mo vw b) (\<lambda>_. ret ()))"

definition finalize_source :: "monitor \<Rightarrow> view \<Rightarrow> finalization \<Rightarrow> work \<Rightarrow> observation \<Rightarrow> mon_act option \<Rightarrow> receipt txn" where
  "finalize_source mo vw r w src a s =
     (let i = incident_of mo (fz_identity r) s;
          st = map_of (ms_states s) (fz_identity r);
          prior = map_of (ms_incidents s) i;
          historical = is_historical r prior st src;
          inc = mo_persisted mo (merged_incident r w i prior historical (map_of (ms_processed s) (fz_source r) \<noteq> None));
          disp = (if historical then Src_Historical else fz_disposition r)
      in bnd (write_incident inc prior) (\<lambda>_.
         bnd (change (put_processed vw \<lparr>ps_execution = ob_execution src, ps_disposition = disp, ps_recorded = vw_now vw,
                ps_work = Some (wk_id w), ps_finalization = Some (fz_id r), ps_incident = Some (fz_identity r)\<rparr>)) (\<lambda>_.
         bnd (change (put_state (final_state vw r i st historical src))) (\<lambda>_.
         bnd (complete_work vw r w) (\<lambda>_.
         bnd (follow_up mo vw w a) (\<lambda>_.
         ret \<lparr>fr_id = fz_id r, fr_work = wk_id w, fr_source = ob_execution src, fr_identity = fz_identity r,
              fr_disposition = disp, fr_payload_hash = mo_payload_hash mo inc, fr_persisted = vw_now vw,
              fr_incident = i\<rparr>))))) s)"

definition incident_fits :: "monitor \<Rightarrow> finalization \<Rightarrow> mon_store \<Rightarrow> bool" where
  "incident_fits mo r s \<longleftrightarrow>
     (let i = incident_of mo (fz_identity r) s
      in i \<noteq> [] \<and> length i \<le> 200
         \<and> pred_option (\<lambda>p. in_signature p = ii_signature (fz_identity r)) (map_of (ms_incidents s) i))"

definition finalize_work :: "monitor \<Rightarrow> view \<Rightarrow> finalization \<Rightarrow> receipt txn" where
  "finalize_work mo vw r =
     bnd (ask (owned_work mo vw (fz_work r) (fz_lease r) (Some (fz_revision r)))) (\<lambda>w.
     bnd (demand (\<lambda>_. wk_execution w = fz_source r) Mon_Conflict) (\<lambda>_.
     bnd (ask (\<lambda>s. case map_of (ms_sources s) (fz_source r) of None \<Rightarrow> Inl Mon_Conflict | Some src \<Rightarrow> Inr src)) (\<lambda>src.
     bnd (demand (incident_fits mo r) Mon_Conflict) (\<lambda>_.
     bnd (ask (attached_action r w)) (\<lambda>a.
     finalize_source mo vw r w src a)))))"

section \<open>Calls\<close>

text \<open>
  The calls of the engine, and two events from outside: the approval channel changes a row,
  intake saves an observation.
\<close>

datatype mon_call =
    Call_Enqueue draft | Call_Claim claim_request | Call_Renew string lease int
  | Call_Dispose disposition_request | Call_Observe observation string lease
  | Call_Bind reservation_request | Call_Reserve reservation_request
  | Call_Submit submission "commit option" | Call_Reject rejection_request
  | Call_Outcome outcome_request "commit option" | Call_Finalize finalization
  | Event_Approval string approval_row | Event_Source observation

text \<open>\<open>_authorize_operation\<close>: claims, renewals and dispositions are shared with the worker.\<close>

fun authorized :: "component \<Rightarrow> mon_call \<Rightarrow> bool" where
  "authorized Fixture_Part c = True"
| "authorized Controller_Part c = True"
| "authorized p (Event_Approval i row) = True"
| "authorized p (Event_Source ob) = True"
| "authorized Worker_Part (Call_Claim r) = True"
| "authorized Worker_Part (Call_Renew i l n) = True"
| "authorized Worker_Part (Call_Dispose r) = True"
| "authorized p c = False"

fun valid_call :: "monitor \<Rightarrow> mon_call \<Rightarrow> bool" where
  "valid_call mo (Call_Enqueue d) = valid_draft d"
| "valid_call mo (Call_Claim r) = valid_claim_request r"
| "valid_call mo (Call_Renew i l n) = (valid_lease l \<and> 15 \<le> n \<and> n \<le> 900)"
| "valid_call mo (Call_Dispose r) = (valid_lease (wd_lease r) \<and> 0 \<le> wd_revision r)"
| "valid_call mo (Call_Observe ob i l) = (valid_observation ob \<and> valid_lease l)"
| "valid_call mo (Call_Bind r) = valid_reservation_request r"
| "valid_call mo (Call_Reserve r) = valid_reservation_request r"
| "valid_call mo (Call_Submit r c) = (valid_submission r \<and> 1 \<le> sb_revision r \<and> 1 \<le> sb_fence r)"
| "valid_call mo (Call_Reject r) = (valid_rejection (rx_evidence r) \<and> valid_lease (rx_lease r))"
| "valid_call mo (Call_Outcome r c) = (valid_outcome_request (mo_digest mo) r \<and> 1 \<le> ou_revision r \<and> 1 \<le> ou_fence r)"
| "valid_call mo (Call_Finalize r) = valid_finalization r"
| "valid_call mo (Event_Approval i row) = True"
| "valid_call mo (Event_Source ob) = valid_observation ob"

definition answer_with :: "('a \<Rightarrow> mon_reply) \<Rightarrow> 'a txn \<Rightarrow> mon_reply txn" where
  "answer_with f t = bnd t (\<lambda>x. ret (f x))"

text \<open>The body of a call: what runs when the identifier is new.\<close>

fun body :: "monitor \<Rightarrow> view \<Rightarrow> mon_call \<Rightarrow> mon_reply txn" where
  "body mo vw (Call_Enqueue d) = answer_with Work_Reply (enqueue vw d)"
| "body mo vw (Call_Claim r) = answer_with Works_Reply (claim_work mo vw r)"
| "body mo vw (Call_Renew i l n) = answer_with Lease_Reply (renew_work mo vw i l n)"
| "body mo vw (Call_Dispose r) = answer_with Work_Reply (disposition_work mo vw r)"
| "body mo vw (Call_Observe ob i l) = answer_with Source_Reply (observe_source mo vw ob i l)"
| "body mo vw (Call_Bind r) =
     (case rr_approval r of
        None \<Rightarrow> (\<lambda>s. Inl Mon_Conflict)
      | Some ref \<Rightarrow> answer_with Binding_Reply (bind_approval mo vw r ref))"
| "body mo vw (Call_Reserve r) = answer_with Decision_Reply (reserve_action mo vw r)"
| "body mo vw (Call_Submit r c) = answer_with Action_Reply (record_action_submission mo vw r c)"
| "body mo vw (Call_Reject r) = answer_with Action_Reply (record_action_rejection mo vw r)"
| "body mo vw (Call_Outcome r c) = answer_with Action_Reply (record_action_outcome mo vw r c)"
| "body mo vw (Call_Finalize r) = answer_with Receipt_Reply (finalize_work mo vw r)"
| "body mo vw (Event_Approval i row) =
     bnd (change (\<lambda>s. s\<lparr>ms_approvals := AList.update i row (ms_approvals s)\<rparr>)) (\<lambda>_. ret No_Reply)"
| "body mo vw (Event_Source ob) = answer_with Source_Reply (save_source mo vw ob)"

text \<open>The identifier and content of a call that is kept as a receipt.\<close>

fun receipt_key :: "monitor \<Rightarrow> mon_call \<Rightarrow> ((operation \<times> string) \<times> content) option" where
  "receipt_key mo (Call_Enqueue d) = Some ((Op_Enqueue, wk_id d), Of_Draft d)"
| "receipt_key mo (Call_Dispose r) = Some ((Op_Disposition, wd_id r), Of_Disposition r)"
| "receipt_key mo (Call_Bind r) =
     map_option (\<lambda>ref. ((Op_Bind, fst ref), Of_Origin (origin_of mo r ref))) (rr_approval r)"
| "receipt_key mo (Call_Reserve r) = Some ((Op_Reserve, rr_id r), Of_Reservation r)"
| "receipt_key mo (Call_Submit r c) = Some ((Op_Submit, sb_id r), Of_Submission r c)"
| "receipt_key mo (Call_Reject r) = Some ((Op_Reject, rx_id r), Of_Rejection r)"
| "receipt_key mo (Call_Outcome r c) = Some ((Op_Outcome, ou_id r), Of_Outcome r c)"
| "receipt_key mo (Call_Finalize r) = Some ((Op_Finalize, fz_id r), Of_Finalization r)"
| "receipt_key mo c = None"

definition perform_call :: "monitor \<Rightarrow> view \<Rightarrow> mon_call \<Rightarrow> mon_reply txn" where
  "perform_call mo vw c =
     (case receipt_key mo c of
        None \<Rightarrow> body mo vw c
      | Some ((op, i), x) \<Rightarrow> idempotent mo op i x (body mo vw c))"

text \<open>One transaction: a fault leaves the state as it was.\<close>

definition mon_step :: "monitor \<Rightarrow> view \<times> mon_call \<Rightarrow> mon_store \<Rightarrow> (fault + mon_reply) \<times> mon_store" where
  "mon_step mo x s =
     (case x of (vw, c) \<Rightarrow>
       if \<not> authorized (mo_component mo) c then (Inl Component_Denied, s)
       else if \<not> valid_call mo c then (Inl Mon_Invalid, s)
       else case perform_call mo vw c s of
              Inl e \<Rightarrow> (Inl e, s)
            | Inr (r, s') \<Rightarrow> (Inr r, s'))"

end
