(* ===== verification/Monitor_Frames.thy ===== *)
theory Monitor_Frames
  imports Monitor_Effects
begin

text \<open>
  What transactions leave alone. A frame is a reflexive and transitive relation between the
  state before and after; a transaction obeys it when each of its parts does. Two frames
  carry the safety proofs: \<open>orderly\<close> (work rows stay valid, fences never go back) holds of
  every operation, \<open>hushed\<close> adds that actions, owners, incident slots, approvals, outcomes and
  receipts are untouched.
\<close>

section \<open>Frames\<close>

locale frame =
  fixes R :: "mon_store \<Rightarrow> mon_store \<Rightarrow> bool"
  assumes same: "R s s"
    and chain: "R s s' \<Longrightarrow> R s' s'' \<Longrightarrow> R s s''"
begin

definition obeys :: "'a txn \<Rightarrow> bool" where
  "obeys t \<longleftrightarrow> (\<forall>s x s'. t s = Inr (x, s') \<longrightarrow> R s s')"

lemma obeysI: "(\<And>s x s'. t s = Inr (x, s') \<Longrightarrow> R s s') \<Longrightarrow> obeys t"
  by (simp add: obeys_def)

lemma obeysD: "obeys t \<Longrightarrow> t s = Inr (x, s') \<Longrightarrow> R s s'"
  by (simp add: obeys_def)

lemma obeys_bnd: "obeys t \<Longrightarrow> (\<And>x. obeys (f x)) \<Longrightarrow> obeys (bnd t f)"
proof (rule obeysI)
  fix s x s' assume t: "obeys t" and f: "\<And>x. obeys (f x)" and r: "bnd t f s = Inr (x, s')"
  from r obtain y s1 where "t s = Inr (y, s1)" "f y s1 = Inr (x, s')" by (auto simp: tx_simps)
  with t f show "R s s'" by (blast intro: chain dest: obeysD)
qed

lemma obeys_ret: "obeys (ret x)"
  by (simp add: obeys_def ret_def same)

lemma obeys_ask: "obeys (ask f)"
  by (auto simp: obeys_def tx_simps same)

lemma obeys_demand: "obeys (demand P e)"
  by (auto simp: obeys_def tx_simps same)

lemma obeys_change: "(\<And>s. R s (f s)) \<Longrightarrow> obeys (change f)"
  by (auto simp: obeys_def tx_simps)

lemma obeys_if: "(b \<Longrightarrow> obeys t) \<Longrightarrow> (\<not> b \<Longrightarrow> obeys u) \<Longrightarrow> obeys (if b then t else u)"
  by simp

lemma obeys_option: "(z = None \<Longrightarrow> obeys t) \<Longrightarrow> (\<And>y. z = Some y \<Longrightarrow> obeys (f y)) \<Longrightarrow> obeys (case z of None \<Rightarrow> t | Some y \<Rightarrow> f y)"
  by (cases z) auto

lemma obeys_pair: "(\<And>a b. z = (a, b) \<Longrightarrow> obeys (f a b)) \<Longrightarrow> obeys (case z of (a, b) \<Rightarrow> f a b)"
  by (cases z) auto

lemma obeys_let: "obeys (f x) \<Longrightarrow> obeys (let y = x in f y)"
  by simp

lemma obeys_at: "(\<And>s. obeys (f s)) \<Longrightarrow> obeys (\<lambda>s. f s s)"
  by (auto simp: obeys_def)

lemmas obeys_intros =
  obeys_bnd obeys_ret obeys_ask obeys_demand obeys_if obeys_option obeys_pair obeys_let

end

section \<open>The two frames\<close>

definition works_typed :: "mon_store \<Rightarrow> mon_store \<Rightarrow> bool" where
  "works_typed s s' \<longleftrightarrow>
     (\<forall>i w. map_of (ms_works s') i = Some w \<longrightarrow> map_of (ms_works s) i = Some w \<or> wk_id w = i \<and> valid_work w)"

definition fences_grow :: "mon_store \<Rightarrow> mon_store \<Rightarrow> bool" where
  "fences_grow s s' \<longleftrightarrow>
     (\<forall>k p. map_of (ms_leases s) k = Some p \<longrightarrow>
        (\<exists>q. map_of (ms_leases s') k = Some q
           \<and> (ls_fence p < ls_fence q \<or> ls_fence p = ls_fence q \<and> ls_owner p = ls_owner q)))"

definition orderly :: "mon_store \<Rightarrow> mon_store \<Rightarrow> bool" where
  "orderly s s' \<longleftrightarrow> works_typed s s' \<and> fences_grow s s'"

definition hushed :: "mon_store \<Rightarrow> mon_store \<Rightarrow> bool" where
  "hushed s s' \<longleftrightarrow>
     orderly s s' \<and> ms_actions s' = ms_actions s \<and> ms_owners s' = ms_owners s \<and> ms_states s' = ms_states s
     \<and> ms_approvals s' = ms_approvals s \<and> ms_outcomes s' = ms_outcomes s \<and> ms_receipts s' = ms_receipts s"

lemma fences_grow_trans:
  assumes "fences_grow s s'" "fences_grow s' s''"
  shows "fences_grow s s''"
  unfolding fences_grow_def
proof (intro allI impI)
  fix k p assume "map_of (ms_leases s) k = Some p"
  then obtain q where q: "map_of (ms_leases s') k = Some q"
      "ls_fence p < ls_fence q \<or> ls_fence p = ls_fence q \<and> ls_owner p = ls_owner q"
    using assms(1) unfolding fences_grow_def by blast
  then obtain r where "map_of (ms_leases s'') k = Some r"
      "ls_fence q < ls_fence r \<or> ls_fence q = ls_fence r \<and> ls_owner q = ls_owner r"
    using assms(2) unfolding fences_grow_def by blast
  with q(2) show "\<exists>r. map_of (ms_leases s'') k = Some r
      \<and> (ls_fence p < ls_fence r \<or> ls_fence p = ls_fence r \<and> ls_owner p = ls_owner r)" by fastforce
qed

lemma works_typed_trans: "works_typed s s' \<Longrightarrow> works_typed s' s'' \<Longrightarrow> works_typed s s''"
  unfolding works_typed_def by blast

lemma orderly_refl: "orderly s s"
  by (auto simp: orderly_def works_typed_def fences_grow_def)

lemma orderly_trans: "orderly s s' \<Longrightarrow> orderly s' s'' \<Longrightarrow> orderly s s''"
  unfolding orderly_def by (blast intro: works_typed_trans fences_grow_trans)

interpretation od: frame orderly
  by unfold_locales (fact orderly_refl, fact orderly_trans)

interpretation qt: frame hushed
  by unfold_locales (auto simp: hushed_def intro: orderly_refl orderly_trans)

lemma quiet_orderly: "hushed s s' \<Longrightarrow> orderly s s'"
  by (simp add: hushed_def)

lemma qt_od: "qt.obeys t \<Longrightarrow> od.obeys t"
  by (auto simp: qt.obeys_def od.obeys_def hushed_def)

text \<open>An update that reaches neither works nor leases is orderly.\<close>

lemma orderly_elsewhere: "ms_works s' = ms_works s \<Longrightarrow> ms_leases s' = ms_leases s \<Longrightarrow> orderly s s'"
  by (auto simp: orderly_def works_typed_def fences_grow_def)

lemma quiet_elsewhere:
  assumes "ms_works s' = ms_works s" "ms_leases s' = ms_leases s" "ms_actions s' = ms_actions s"
    "ms_owners s' = ms_owners s" "ms_states s' = ms_states s" "ms_approvals s' = ms_approvals s"
    "ms_outcomes s' = ms_outcomes s" "ms_receipts s' = ms_receipts s"
  shows "hushed s s'"
  using assms by (simp add: hushed_def orderly_elsewhere)

lemma quiet_works:
  assumes "valid_work w"
  shows "hushed s (put_work w s)"
  using assms by (auto simp: hushed_def put_work_def orderly_def works_typed_def fences_grow_def)

lemma quiet_leases:
  assumes "fences_grow s (s\<lparr>ms_leases := ls\<rparr>)"
  shows "hushed s (s\<lparr>ms_leases := ls\<rparr>)"
  using assms by (simp add: hushed_def orderly_def works_typed_def)

section \<open>Operations on work\<close>

lemma save_work_quiet: "qt.obeys (save_work w)"
  by (rule qt.obeysI) (auto simp: save_work_def tx_simps intro: quiet_works)

lemma save_work_saved: "save_work w s = Inr (x, s') \<Longrightarrow> x = w \<and> s' = put_work w s \<and> valid_work w"
  by (auto simp: save_work_def tx_simps)

lemma grow_update:
  assumes "\<And>p. map_of (ms_leases s) k = Some p \<Longrightarrow>
      ls_fence p < ls_fence q \<or> ls_fence p = ls_fence q \<and> ls_owner p = ls_owner q"
  shows "fences_grow s (s\<lparr>ms_leases := AList.update k q (ms_leases s)\<rparr>)"
  using assms by (auto simp: fences_grow_def)

lemma release_token_quiet: "qt.obeys (release_token vw k l)"
proof (rule qt.obeysI)
  fix s x s' assume "release_token vw k l s = Inr (x, s')"
  then obtain p where p: "map_of (ms_leases s) k = Some p"
      "s' = s\<lparr>ms_leases := AList.update k (expired_at (vw_now vw) p) (ms_leases s)\<rparr>"
    by (auto simp: release_token_def release_lease_def split: sum.splits option.splits if_splits)
  show "hushed s s'" unfolding p(2)
    by (rule quiet_leases, rule grow_update) (use p(1) in \<open>simp add: expired_at_def\<close>)
qed

lemma take_lease_quiet: "qt.obeys (take_lease vw k who secs)"
proof (rule qt.obeysI)
  fix s x s' assume a: "take_lease vw k who secs s = Inr (x, s')"
  have "s' = s \<or> (\<exists>q. s' = s\<lparr>ms_leases := AList.update k q (ms_leases s)\<rparr>
      \<and> (\<forall>p. map_of (ms_leases s) k = Some p \<longrightarrow> ls_fence p < ls_fence q))"
  proof (cases "map_of (ms_leases s) k")
    case None
    with a show ?thesis by (auto simp: take_lease_def acquire_lease_def Let_def)
  next
    case (Some p)
    show ?thesis
    proof (cases "vw_now vw < ls_expires p")
      case True
      with a Some show ?thesis by (simp add: take_lease_def acquire_lease_def Let_def)
    next
      case False
      with a Some show ?thesis by (auto simp: take_lease_def acquire_lease_def Let_def)
    qed
  qed
  then show "hushed s s'" by (auto intro!: quiet_leases grow_update qt.same)
qed

lemma renew_token_quiet: "qt.obeys (renew_token vw k who fence secs)"
proof (rule qt.obeysI)
  fix s x s' assume "renew_token vw k who fence secs s = Inr (x, s')"
  then obtain p where p: "map_of (ms_leases s) k = Some p"
      "s' = s\<lparr>ms_leases := AList.update k (p\<lparr>ls_expires := vw_now vw + seconds secs\<rparr>) (ms_leases s)\<rparr>"
    by (auto simp: renew_token_def renew_lease_def Let_def split: sum.splits option.splits if_splits)
  show "hushed s s'" unfolding p(2)
    by (rule quiet_leases, rule grow_update) (use p(1) in simp)
qed

lemma put_processed_quiet: "hushed s (put_processed vw p s)"
  by (auto simp: put_processed_def intro!: quiet_elsewhere qt.same split: option.split)

lemma put_link_quiet: "hushed s (put_link k i e s)"
  by (auto simp: put_link_def intro: quiet_elsewhere)

lemma release_controller_quiet: "qt.obeys (release_controller vw w)"
  by (rule qt.obeysI)
    (auto simp: release_controller_def qt.same split: option.splits if_splits
      dest: qt.obeysD [OF release_token_quiet])

lemma release_work_quiet: "qt.obeys (release_work vw w)"
  unfolding release_work_def by (intro qt.obeys_intros release_token_quiet)

lemma enter_queue_quiet: "qt.obeys (enter_queue d)"
  unfolding enter_queue_def
  by (intro qt.obeys_intros save_work_quiet qt.obeys_change put_link_quiet)

lemma enqueue_quiet: "qt.obeys (enqueue vw d)"
  by (rule qt.obeysI)
    (auto simp: enqueue_def qt.same split: option.splits if_splits dest: qt.obeysD [OF enter_queue_quiet])

lemma schedule_quiet: "qt.obeys (schedule_verification mo vw a)"
  unfolding schedule_verification_def by (intro qt.obeys_intros enqueue_quiet save_work_quiet)

lemma dispose_quiet: "qt.obeys (dispose_unclaimed vw w nd detail)"
  unfolding dispose_unclaimed_def
  by (intro qt.obeys_intros qt.obeys_change put_processed_quiet release_work_quiet release_controller_quiet save_work_quiet)

lemma take_work_quiet: "qt.obeys (take_work vw r w)"
  unfolding take_work_def by (intro qt.obeys_intros take_lease_quiet release_token_quiet save_work_quiet)

lemma claim_one_quiet: "qt.obeys (claim_one vw r w)"
  unfolding claim_one_def by (intro qt.obeys_intros dispose_quiet take_work_quiet)

lemma claim_all_quiet: "qt.obeys (claim_all vw r ws)"
proof (induction ws)
  case (Cons w ws)
  then show ?case unfolding claim_all.simps by (intro qt.obeys_intros claim_one_quiet)
qed (simp add: qt.obeys_ret)

lemma claim_work_quiet: "qt.obeys (claim_work mo vw r)"
proof -
  have "qt.obeys (bnd (claim_all vw r ws) (\<lambda>got. bnd (change (\<lambda>s. if ws = [] then s
      else s\<lparr>ms_cursors := AList.update key (workspace_of (last ws)) (ms_cursors s)\<rparr>)) (\<lambda>_. ret got)))" for ws key
    by (intro qt.obeys_intros claim_all_quiet qt.obeys_change) (auto intro: qt.same quiet_elsewhere)
  then show ?thesis
    unfolding qt.obeys_def claim_work_def Let_def by (auto split: if_splits)
qed

lemma renew_work_quiet: "qt.obeys (renew_work mo vw i l n)"
  unfolding renew_work_def by (intro qt.obeys_intros renew_token_quiet save_work_quiet)

lemma disposition_quiet: "qt.obeys (disposition_work mo vw r)"
  unfolding disposition_work_def
  by (cases "wd_disposition r")
    (auto intro!: qt.obeys_intros release_work_quiet release_controller_quiet save_work_quiet dispose_quiet)

lemma save_source_quiet: "qt.obeys (save_source mo vw ob)"
  by (rule qt.obeysI)
    (auto simp: save_source_def advance_head_def Let_def qt.same intro!: quiet_elsewhere split: if_splits option.splits)

lemma observe_quiet: "qt.obeys (observe_source mo vw ob i l)"
  unfolding observe_source_def by (intro qt.obeys_intros save_source_quiet)

lemma bind_quiet: "qt.obeys (bind_approval mo vw r ref)"
  unfolding bind_approval_def by (intro qt.obeys_intros qt.obeys_change quiet_elsewhere) simp_all

lemma close_quiet: "qt.obeys (close_verification vw i but)"
proof (rule qt.obeysI)
  fix s x s' assume a: "close_verification vw i but s = Inr (x, s')"
  show "hushed s s'"
  proof (cases "Option.bind (map_of (ms_links s) (Verify_Link i)) (\<lambda>(j, _). map_of (ms_works s) j)")
    case None
    with a show ?thesis by (simp add: close_verification_def qt.same)
  next
    case (Some w)
    with a show ?thesis
      by (auto simp: close_verification_def tx_simps qt.same split: if_splits dest: qt.obeysD [OF save_work_quiet])
  qed
qed

lemma claim_execution_quiet: "qt.obeys (claim_execution a e)"
  unfolding claim_execution_def by (intro qt.obeys_intros qt.obeys_change quiet_elsewhere) simp_all

lemma successor_quiet: "qt.obeys (rejection_successor mo vw a)"
  unfolding rejection_successor_def by (intro qt.obeys_intros save_work_quiet qt.obeys_change put_link_quiet)

lemma write_incident_quiet: "qt.obeys (write_incident i prior)"
  unfolding write_incident_def by (intro qt.obeys_intros qt.obeys_change quiet_elsewhere) simp_all

lemma complete_quiet: "qt.obeys (complete_work vw r w)"
  unfolding complete_work_def by (intro qt.obeys_intros release_work_quiet release_controller_quiet save_work_quiet)

lemma follow_up_quiet: "qt.obeys (follow_up mo vw w a)"
  unfolding follow_up_def by (intro qt.obeys_intros close_quiet schedule_quiet)

end
