(* ===== verification/Monitor_Board.thy ===== *)
theory Monitor_Board
  imports Monitor_Frames
begin

text \<open>
  The board is what the engine promises about external effects, without its guards: the
  actions, the owner of each target and the incident slots, and the five ways they may
  change. Every call of the engine is one of them, so what holds of the board holds of the
  engine.
\<close>

section \<open>The board\<close>

record board =
  bo_actions :: "string \<Rightarrow> mon_act option"
  bo_owners :: "target \<Rightarrow> owner option"
  bo_slots :: "incident_identity \<Rightarrow> int"

definition board_of :: "mon_store \<Rightarrow> board" where
  "board_of s =
     \<lparr>bo_actions = map_of (ms_actions s), bo_owners = map_of (ms_owners s), bo_slots = (\<lambda>i. slots_used i s)\<rparr>"

definition same_attempt :: "mon_act \<Rightarrow> mon_act \<Rightarrow> bool" where
  "same_attempt a b \<longleftrightarrow>
     ac_id b = ac_id a \<and> ac_request b = ac_request a \<and> ac_fence b = ac_fence a
     \<and> ac_retry_attempt b = ac_retry_attempt a \<and> ac_retry_of b = ac_retry_of a
     \<and> ac_retry_reservation b = ac_retry_reservation a"

definition same_effect :: "mon_act \<Rightarrow> mon_act \<Rightarrow> bool" where
  "same_effect a b \<longleftrightarrow>
     ac_state b = ac_state a \<and> ac_submitted b = ac_submitted a \<and> ac_submitted_at b = ac_submitted_at a
     \<and> ac_configuration b = ac_configuration a \<and> ac_rejection b = ac_rejection a"

definition opened :: "mon_act \<Rightarrow> board \<Rightarrow> bool" where
  "opened a b \<longleftrightarrow>
     bo_actions b (ac_id a) = None \<and> ac_state a = Act_Reserved \<and> ac_retry_reservation a = None
     \<and> pred_option (\<lambda>ow. \<not> ow_active ow \<and> ow_fence ow < ac_fence a) (bo_owners b (ac_target a))"

definition owned_by :: "mon_act \<Rightarrow> owner" where
  "owned_by a = \<lparr>ow_reservation = ac_id a, ow_fence = ac_fence a, ow_active = True\<rparr>"

inductive board_step :: "int \<Rightarrow> board \<Rightarrow> board \<Rightarrow> bool" for cap where
  Rest: "board_step cap b b"
| First: "opened a b \<Longrightarrow> ac_retry_of a = None \<Longrightarrow> bo_slots b (rr_incident (ac_request a)) < cap \<Longrightarrow>
    board_step cap b
      (b\<lparr>bo_actions := (bo_actions b)(ac_id a \<mapsto> a), bo_owners := (bo_owners b)(ac_target a \<mapsto> owned_by a),
         bo_slots := (bo_slots b)(rr_incident (ac_request a) := bo_slots b (rr_incident (ac_request a)) + 1)\<rparr>)"
| Again: "opened a b \<Longrightarrow> bo_actions b (ac_id p) = Some p \<Longrightarrow> ac_state p = Act_Rejected \<Longrightarrow>
    ac_retry_reservation p = None \<Longrightarrow> ac_retry_of a = Some (ac_id p) \<Longrightarrow>
    ac_retry_attempt a = ac_retry_attempt p + 1 \<Longrightarrow> rr_incident (ac_request a) = rr_incident (ac_request p) \<Longrightarrow>
    q = p\<lparr>ac_retry_reservation := Some (ac_id a), ac_revision := n, ac_updated_at := t\<rparr> \<Longrightarrow>
    board_step cap b
      (b\<lparr>bo_actions := (bo_actions b)(ac_id a \<mapsto> a, ac_id p \<mapsto> q), bo_owners := (bo_owners b)(ac_target a \<mapsto> owned_by a)\<rparr>)"
| Move: "bo_actions b (ac_id a) = Some a \<Longrightarrow> action_open (ac_state a) \<Longrightarrow> action_open (ac_state a') \<Longrightarrow>
    same_attempt a a' \<Longrightarrow> board_step cap b (b\<lparr>bo_actions := (bo_actions b)(ac_id a \<mapsto> a')\<rparr>)"
| Settle: "bo_actions b (ac_id a) = Some a \<Longrightarrow> action_open (ac_state a) \<Longrightarrow> \<not> action_open (ac_state a') \<Longrightarrow>
    same_attempt a a' \<Longrightarrow> bo_owners b (ac_target a) = Some ow \<Longrightarrow> ow_reservation ow = ac_id a \<Longrightarrow>
    ow_fence ow = ac_fence a \<Longrightarrow>
    board_step cap b
      (b\<lparr>bo_actions := (bo_actions b)(ac_id a \<mapsto> a'), bo_owners := (bo_owners b)(ac_target a \<mapsto> ow\<lparr>ow_active := False\<rparr>)\<rparr>)"

inductive_cases board_stepE: "board_step cap b b'"

section \<open>What the engine does to the board\<close>

lemma quiet_board: "hushed s s' \<Longrightarrow> board_of s' = board_of s"
  by (simp add: hushed_def board_of_def slots_used_def)

lemma quiet_trans_board: "hushed s s' \<Longrightarrow> board_of s'' = board_of s \<Longrightarrow> board_of s'' = board_of s'"
  by (simp add: quiet_board)

lemma save_action_saved:
  "save_action a s = Inr (x, s') \<Longrightarrow> x = a \<and> s' = put_action a s \<and> valid_action a"
  by (auto simp: save_action_def tx_simps)

text \<open>What an operation on actions leaves: the tables it changes, in an orderly way.\<close>

definition retabled :: "mon_store \<Rightarrow> (string, mon_act) dict \<Rightarrow> (target, owner) dict \<Rightarrow>
    (incident_identity, incident_state) dict \<Rightarrow> (string, outcome_request) dict \<Rightarrow> mon_store \<Rightarrow> bool" where
  "retabled s acts ows sts outs s' \<longleftrightarrow>
     ms_actions s' = acts \<and> ms_owners s' = ows \<and> ms_states s' = sts \<and> ms_outcomes s' = outs
     \<and> ms_receipts s' = ms_receipts s \<and> orderly s s'"

lemma retabled_quiet: "retabled s acts ows sts outs s' \<Longrightarrow> hushed s' s'' \<Longrightarrow> retabled s acts ows sts outs s''"
  by (auto simp: retabled_def hushed_def intro: orderly_trans)

lemma quiet_retabled: "hushed s s' \<Longrightarrow> retabled s (ms_actions s) (ms_owners s) (ms_states s) (ms_outcomes s) s'"
  by (simp add: retabled_def hushed_def)

lemma retabled_action:
  "retabled s acts ows sts outs s' \<Longrightarrow> retabled s (AList.update (ac_id a) a acts) ows sts outs (put_action a s')"
  by (simp add: retabled_def put_action_def) (auto intro: orderly_trans [OF _ orderly_elsewhere])

lemma retabled_owner:
  "retabled s acts ows sts outs s' \<Longrightarrow> retabled s acts (AList.update t ow ows) sts outs (put_owner t ow s')"
  by (simp add: retabled_def put_owner_def) (auto intro: orderly_trans [OF _ orderly_elsewhere])

lemma retabled_state:
  "retabled s acts ows sts outs s' \<Longrightarrow> retabled s acts ows (AList.update (is_identity st) st sts) outs (put_state st s')"
  by (simp add: retabled_def put_state_def) (auto intro: orderly_trans [OF _ orderly_elsewhere])

lemma retabled_same: "retabled s (ms_actions s) (ms_owners s) (ms_states s) (ms_outcomes s) s"
  by (simp add: retabled_def orderly_refl)

lemma spend_retabled:
  assumes "spend_approval vw r s = Some s'"
  shows "retabled s (ms_actions s) (ms_owners s) (ms_states s) (ms_outcomes s) s'"
  using assms
  by (auto simp: spend_approval_def consume_approval_def retabled_def
      intro!: orderly_refl orderly_elsewhere split: option.splits if_splits stamp.splits)

lemma commit_reserves:
  assumes "commit_reservation mo vw r w p s = Inr (x, s')"
  defines "a \<equiv> new_action mo vw r w s"
  shows "x = Reserved a \<and> valid_action a \<and>
    retabled s
      (case p of None \<Rightarrow> AList.update (ac_id a) a (ms_actions s)
       | Some q \<Rightarrow> AList.update (ac_id q) (q\<lparr>ac_retry_reservation := Some (ac_id a), ac_revision := ac_revision q + 1,
                                            ac_updated_at := vw_now vw\<rparr>) (AList.update (ac_id a) a (ms_actions s)))
      (AList.update (request_target r) (owned_by a) (ms_owners s))
      (AList.update (rr_incident r) (charged_state mo vw r p s) (ms_states s)) (ms_outcomes s) s'
    \<and> (\<forall>q. p = Some q \<longrightarrow> valid_action (q\<lparr>ac_retry_reservation := Some (ac_id a),
              ac_revision := ac_revision q + 1, ac_updated_at := vw_now vw\<rparr>))"
proof -
  let ?q = "\<lambda>q. q\<lparr>ac_retry_reservation := Some (ac_id a), ac_revision := ac_revision q + 1, ac_updated_at := vw_now vw\<rparr>"
  let ?s2 = "put_state (charged_state mo vw r p s) (put_owner (request_target r) (owned_by a) s)"
  from assms(1) obtain s3 s4 s5 y z where
    s3: "save_action a ?s2 = Inr (y, s3)" and
    s4: "(case p of None \<Rightarrow> ret () | Some q \<Rightarrow> bnd (save_action (?q q)) (\<lambda>_. ret ())) s3 = Inr ((), s4)" and
    s5: "save_work (w\<lparr>wk_reservation := Some (ac_id a), wk_revision := wk_revision w + 1\<rparr>) s4 = Inr (z, s5)" and
    s6: "\<exists>v. schedule_verification mo vw a s5 = Inr (v, s')" and x: "x = Reserved a"
    unfolding commit_reservation_def Let_def a_def [symmetric] owned_by_def [symmetric] by (auto simp: tx_simps)
  have b: "s3 = put_action a ?s2" "valid_action a" using save_action_saved [OF s3] by auto
  have "is_identity (charged_state mo vw r p s) = rr_incident r" by (simp add: charged_state_def Let_def)
  then have r3: "retabled s (AList.update (ac_id a) a (ms_actions s))
      (AList.update (request_target r) (owned_by a) (ms_owners s))
      (AList.update (rr_incident r) (charged_state mo vw r p s) (ms_states s)) (ms_outcomes s) s3"
    unfolding b(1) using retabled_action [OF retabled_state [OF retabled_owner [OF retabled_same]]] by metis
  have q6: "hushed s4 s'"
    using qt.obeysD [OF save_work_quiet s5] s6 qt.obeysD [OF schedule_quiet] qt.chain by blast
  show ?thesis
  proof (cases p)
    case None
    with s4 have "s4 = s3" by (simp add: tx_simps)
    with None r3 q6 b(2) x show ?thesis by (simp add: retabled_quiet)
  next
    case (Some q)
    with s4 have s4': "s4 = put_action (?q q) s3" and vq: "valid_action (?q q)"
      by (auto simp: tx_simps dest: save_action_saved)
    have "retabled s (AList.update (ac_id q) (?q q) (AList.update (ac_id a) a (ms_actions s)))
        (AList.update (request_target r) (owned_by a) (ms_owners s))
        (AList.update (rr_incident r) (charged_state mo vw r p s) (ms_states s)) (ms_outcomes s) s4"
      unfolding s4' using retabled_action [OF r3, of "?q q"] by simp
    then have "retabled s (AList.update (ac_id q) (?q q) (AList.update (ac_id a) a (ms_actions s)))
        (AList.update (request_target r) (owned_by a) (ms_owners s))
        (AList.update (rr_incident r) (charged_state mo vw r p s) (ms_states s)) (ms_outcomes s) s'"
      by (rule retabled_quiet [OF _ q6])
    with Some b(2) x vq show ?thesis by simp
  qed
qed

lemma first_some_none: "first_some xs = None \<longleftrightarrow> (\<forall>x\<in>set xs. x = None)"
  by (auto simp: first_some_def filter_empty_conv split: list.splits dest!: arg_cong [where f = set])

text \<open>A reservation that was granted, with everything that was checked before it was committed.\<close>

lemma reserve_granted:
  assumes "reserve_action mo vw r s = Inr (x, s')"
  obtains d where "x = Denied d" "s' = s"
  | w p s1 where "gate_denial mo vw r = None" "owned_work mo vw (rr_work r) (rr_lease r) None s = Inr w"
      "work_denial vw r w = None" "review_denial vw r = None" "source_denial vw r s = None" "owner_denial r s = None"
      "predecessor r w s = Inr (Inr p)" "\<not> budget_spent mo r p s" "approval_denial mo vw r s = None"
      "spend_approval vw r s = Some s1" "commit_reservation mo vw r w p s1 = Inr (x, s')"
proof (cases "gate_denial mo vw r")
  case (Some d)
  with assms that(1) show thesis by (auto simp: reserve_action_def)
next
  case gate: None
  show thesis
  proof (cases "owned_work mo vw (rr_work r) (rr_lease r) None s")
    case (Inl e)
    with assms gate that(1) show thesis by (auto simp: reserve_action_def split: if_splits)
  next
    case (Inr w)
    with assms gate have o': "reserve_owned mo vw r w s = Inr (x, s')" by (simp add: reserve_action_def)
    show thesis
    proof (cases "first_some [work_denial vw r w, review_denial vw r, source_denial vw r s, owner_denial r s]")
      case (Some d)
      with o' that(1) show thesis by (auto simp: reserve_owned_def)
    next
      case none: None
      with o' show thesis
        using gate Inr that by (auto simp: reserve_owned_def first_some_none split: sum.splits option.splits if_splits)
    qed
  qed
qed

lemma predecessor_some:
  assumes "predecessor r w s = Inr (Inr (Some p))"
  shows "\<exists>i. wk_retry_of w = Some i \<and> map_of (ms_actions s) i = Some p \<and> succeeds r w p s"
  using assms by (auto simp: predecessor_def split: option.splits if_splits)

lemma predecessor_none:
  assumes "predecessor r w s = Inr (Inr None)"
  shows "wk_retry_of w = None"
  using assms by (auto simp: predecessor_def split: option.splits if_splits)

lemma submission_saved:
  assumes "record_action_submission mo vw r c s = Inr (x, s')"
  obtains a where "map_of (ms_actions s) (sb_reservation r) = Some a" "\<not> action_final a"
      "x = submitted_action vw a r" "valid_action x"
      "retabled s (AList.update (ac_id a) x (ms_actions s)) (ms_owners s) (ms_states s) (ms_outcomes s) s'"
proof -
  from assms obtain a s1 s2 v y where
    a: "fenced_action (sb_reservation r) (sb_revision r) (sb_fence r) s = Inr a" and
    n: "\<not> submission_refused vw a r" and
    s1: "claim_execution a (submitted_by a r) s = Inr (y, s1)" and
    s2: "save_action (submitted_action vw a r) s1 = Inr (x, s2)" and
    s3: "schedule_verification mo vw x s2 = Inr (v, s')"
    by (auto simp: record_action_submission_def tx_simps)
  have x: "x = submitted_action vw a r" "s2 = put_action x s1" "valid_action x" using save_action_saved [OF s2] by auto
  have "retabled s (ms_actions s) (ms_owners s) (ms_states s) (ms_outcomes s) s1"
    by (rule quiet_retabled [OF qt.obeysD [OF claim_execution_quiet s1]])
  from retabled_action [OF this, of x]
  have "retabled s (AList.update (ac_id a) x (ms_actions s)) (ms_owners s) (ms_states s) (ms_outcomes s) s2"
    by (simp add: x submitted_action_def)
  from retabled_quiet [OF this qt.obeysD [OF schedule_quiet s3]] x a n that show thesis
    by (auto simp: fenced_action_def submission_refused_def split: option.splits if_splits)
qed

lemma retire_owner_put:
  "map_of (ms_owners s) t = Some ow \<Longrightarrow> retire_owner t s = put_owner t (ow\<lparr>ow_active := False\<rparr>) s"
  by (simp add: retire_owner_def)

lemma rejection_saved:
  assumes "record_action_rejection mo vw r s = Inr (x, s')"
  obtains a ow n where "map_of (ms_actions s) (rx_reservation r) = Some a" "ac_state a = Act_Reserved"
      "x = (rejected_action vw a r)\<lparr>ac_retry_work := n\<rparr>" "valid_action x"
      "map_of (ms_owners s) (ac_target a) = Some ow" "ow_reservation ow = ac_id a" "ow_fence ow = ac_fence a"
      "retabled s (AList.update (ac_id a) x (ms_actions s))
         (AList.update (ac_target a) (ow\<lparr>ow_active := False\<rparr>) (ms_owners s)) (ms_states s) (ms_outcomes s) s'"
proof -
  from assms obtain a w nw s1 s2 y where
    a: "fenced_action (rx_reservation r) (rx_revision r) (rx_fence r) s = Inr a" and
    n: "\<not> rejection_refused vw a w r s" and
    s1: "rejection_successor mo vw (rejected_action vw a r) s = Inr (nw, s1)" and
    s2: "save_action ((rejected_action vw a r)\<lparr>ac_retry_work :=
           (case nw of None \<Rightarrow> ac_retry_work (rejected_action vw a r) | Some i \<Rightarrow> Some i)\<rparr>) s1 = Inr (x, s2)" and
    s3: "close_verification vw (ac_id a) None
           (retire_owner (ac_target a) (s2\<lparr>ms_rejections := AList.update (ac_id a) r (ms_rejections s2)\<rparr>)) = Inr (y, s')"
    by (auto simp: record_action_rejection_def Let_def tx_simps)
  have x: "x = (rejected_action vw a r)\<lparr>ac_retry_work :=
       (case nw of None \<Rightarrow> ac_retry_work (rejected_action vw a r) | Some i \<Rightarrow> Some i)\<rparr>" "s2 = put_action x s1" "valid_action x"
    using save_action_saved [OF s2] by auto
  obtain ow where ow: "map_of (ms_owners s) (ac_target a) = Some ow" "ow_reservation ow = ac_id a" "ow_fence ow = ac_fence a"
    using n by (auto simp: rejection_refused_def split: option.splits)
  have r1: "retabled s (ms_actions s) (ms_owners s) (ms_states s) (ms_outcomes s) s1"
    by (rule quiet_retabled [OF qt.obeysD [OF successor_quiet s1]])
  let ?s3 = "s2\<lparr>ms_rejections := AList.update (ac_id a) r (ms_rejections s2)\<rparr>"
  have r2: "retabled s (AList.update (ac_id a) x (ms_actions s)) (ms_owners s) (ms_states s) (ms_outcomes s) ?s3"
  proof (rule retabled_quiet)
    show "retabled s (AList.update (ac_id a) x (ms_actions s)) (ms_owners s) (ms_states s) (ms_outcomes s) s2"
      using retabled_action [OF r1, of x] x(1,2) by (simp add: rejected_action_def)
  qed (rule quiet_elsewhere, simp_all)
  then have "map_of (ms_owners ?s3) (ac_target a) = Some ow" using ow(1) by (simp add: retabled_def)
  from retire_owner_put [OF this] retabled_owner [OF r2]
  have "retabled s (AList.update (ac_id a) x (ms_actions s))
      (AList.update (ac_target a) (ow\<lparr>ow_active := False\<rparr>) (ms_owners s)) (ms_states s) (ms_outcomes s) (retire_owner (ac_target a) ?s3)"
    by simp
  from retabled_quiet [OF this qt.obeysD [OF close_quiet s3]]
  have r4: "retabled s (AList.update (ac_id a) x (ms_actions s))
      (AList.update (ac_target a) (ow\<lparr>ow_active := False\<rparr>) (ms_owners s)) (ms_states s) (ms_outcomes s) s'" .
  show thesis
  proof (rule that [OF _ _ x(1) x(3) ow r4])
    show "map_of (ms_actions s) (rx_reservation r) = Some a"
      using a by (auto simp: fenced_action_def split: option.splits if_splits)
    show "ac_state a = Act_Reserved" using n by (simp add: rejection_refused_def)
  qed
qed

lemma outcome_saved:
  assumes "record_action_outcome mo vw r c s = Inr (x, s')"
  obtains a where "map_of (ms_actions s) (ou_reservation r) = Some a" "\<not> outcome_refused mo vw a r"
      "x = outcome_action vw a r" "valid_action x"
      "\<not> action_verified (ac_state x) \<longrightarrow>
         retabled s (AList.update (ac_id a) x (ms_actions s)) (ms_owners s) (ms_states s) (AList.update (ac_id a) r (ms_outcomes s)) s'"
      "action_verified (ac_state x) \<longrightarrow> (\<exists>ow. map_of (ms_owners s) (ac_target a) = Some ow \<and> ow_reservation ow = ac_id a
         \<and> ow_fence ow = ac_fence a \<and> retabled s (AList.update (ac_id a) x (ms_actions s))
             (AList.update (ac_target a) (ow\<lparr>ow_active := False\<rparr>) (ms_owners s)) (ms_states s) (AList.update (ac_id a) r (ms_outcomes s)) s')"
proof -
  from assms obtain a s1 s2 y where
    a: "fenced_action (ou_reservation r) (ou_revision r) (ou_fence r) s = Inr a" and
    n: "\<not> outcome_refused mo vw a r" and
    s1: "save_action (outcome_action vw a r) s = Inr (x, s1)" and
    s2: "(case ou_observation r of None \<Rightarrow> ret () | Some ob \<Rightarrow> bnd (save_source mo vw ob) (\<lambda>_. ret ()))
           (s1\<lparr>ms_outcomes := AList.update (ac_id a) r (ms_outcomes s1)\<rparr>) = Inr ((), s2)" and
    s3: "settle_owner mo vw x s2 = Inr (y, s')"
    by (auto simp: record_action_outcome_def tx_simps)
  have x: "x = outcome_action vw a r" "s1 = put_action x s" "valid_action x" using save_action_saved [OF s1] by auto
  have ids: "ac_id x = ac_id a" "ac_target x = ac_target a" "ac_fence x = ac_fence a"
    by (simp_all add: x outcome_action_def ac_target_def)
  let ?s1 = "s1\<lparr>ms_outcomes := AList.update (ac_id a) r (ms_outcomes s1)\<rparr>"
  have "qt.obeys (case ou_observation r of None \<Rightarrow> ret () | Some ob \<Rightarrow> bnd (save_source mo vw ob) (\<lambda>_. ret ()))"
    by (intro qt.obeys_intros save_source_quiet)
  from qt.obeysD [OF this s2] have q: "hushed ?s1 s2" .
  have r1: "retabled s (AList.update (ac_id a) x (ms_actions s)) (ms_owners s) (ms_states s)
      (AList.update (ac_id a) r (ms_outcomes s)) ?s1"
    by (simp add: retabled_def x(2) put_action_def ids(1) orderly_elsewhere)
  have r2: "retabled s (AList.update (ac_id a) x (ms_actions s)) (ms_owners s) (ms_states s) (AList.update (ac_id a) r (ms_outcomes s)) s2"
    by (rule retabled_quiet [OF r1 q])
  show thesis
  proof (rule that)
    show "map_of (ms_actions s) (ou_reservation r) = Some a"
      using a by (auto simp: fenced_action_def split: option.splits if_splits)
    show "\<not> action_verified (ac_state x) \<longrightarrow>
        retabled s (AList.update (ac_id a) x (ms_actions s)) (ms_owners s) (ms_states s) (AList.update (ac_id a) r (ms_outcomes s)) s'"
      using s3 retabled_quiet [OF r2 qt.obeysD [OF schedule_quiet]] by (auto simp: settle_owner_def tx_simps)
    show "action_verified (ac_state x) \<longrightarrow> (\<exists>ow. map_of (ms_owners s) (ac_target a) = Some ow \<and> ow_reservation ow = ac_id a
         \<and> ow_fence ow = ac_fence a \<and> retabled s (AList.update (ac_id a) x (ms_actions s))
             (AList.update (ac_target a) (ow\<lparr>ow_active := False\<rparr>) (ms_owners s)) (ms_states s) (AList.update (ac_id a) r (ms_outcomes s)) s')"
    proof
      assume v: "action_verified (ac_state x)"
      with s3 obtain ow where ow: "map_of (ms_owners s2) (ac_target a) = Some ow" "ow_reservation ow = ac_id a"
          "ow_fence ow = ac_fence a" and s': "s' = retire_owner (ac_target a) s2"
        by (auto simp: settle_owner_def tx_simps ids split: option.splits)
      have "map_of (ms_owners s) (ac_target a) = Some ow" using ow(1) r2 by (simp add: retabled_def)
      with ow retabled_owner [OF r2] retire_owner_put [OF ow(1)] s'
      show "\<exists>ow. map_of (ms_owners s) (ac_target a) = Some ow \<and> ow_reservation ow = ac_id a
         \<and> ow_fence ow = ac_fence a \<and> retabled s (AList.update (ac_id a) x (ms_actions s))
             (AList.update (ac_target a) (ow\<lparr>ow_active := False\<rparr>) (ms_owners s)) (ms_states s) (AList.update (ac_id a) r (ms_outcomes s)) s'" by auto
    qed
  qed (use n x in \<open>simp_all\<close>)
qed

end
