(* ===== verification/Monitor_Safety.thy ===== *)
theory Monitor_Safety
  imports Monitor_Board
begin

text \<open>
  The engine plays by the board: each call is a board step, provided distinct reservation
  requests get distinct names. The invariants of the board then bound the external effects
  of the engine: one open action per target, a bounded number of attempts per incident, and
  outcomes that never change.
\<close>

section \<open>Records on file\<close>

text \<open>Rows are stored under their own identifier, and an action under the name of its request.\<close>

definition works_ok :: "mon_store \<Rightarrow> bool" where
  "works_ok s \<longleftrightarrow> (\<forall>i w. map_of (ms_works s) i = Some w \<longrightarrow> wk_id w = i \<and> valid_work w)"

definition named :: "monitor \<Rightarrow> mon_act \<Rightarrow> string \<Rightarrow> bool" where
  "named mo a j \<longleftrightarrow> ac_id a = j \<and> valid_action a \<and> j = mo_id mo (''action:'' @ rr_id (ac_request a))"

definition filed :: "monitor \<Rightarrow> mon_store \<Rightarrow> bool" where
  "filed mo s \<longleftrightarrow>
     (\<forall>j a. map_of (ms_actions s) j = Some a \<longrightarrow>
        named mo a j \<and> map_of (ms_receipts s) (Op_Reserve, rr_id (ac_request a)) \<noteq> None)"

lemma filedD: "filed mo s \<Longrightarrow> map_of (ms_actions s) j = Some a \<Longrightarrow> named mo a j"
  by (simp add: filed_def)

text \<open>
  The outcome on file that a verified action rests on: a configuration that has the reviewed
  digest, or the run that was recorded as submitted.
\<close>

definition backs :: "monitor \<Rightarrow> outcome_request \<Rightarrow> mon_act \<Rightarrow> bool" where
  "backs mo r a \<longleftrightarrow>
     valid_outcome_request (mo_digest mo) r \<and> ac_state a = state_of_check (ou_disposition r)
     \<and> ac_configuration a = ou_configuration r
     \<and> (ou_configuration r = None \<longrightarrow> ac_submitted a \<noteq> None \<and> ou_execution r = ac_submitted a)"

definition proven :: "monitor \<Rightarrow> mon_store \<Rightarrow> bool" where
  "proven mo s \<longleftrightarrow>
     (\<forall>j a. map_of (ms_actions s) j = Some a \<longrightarrow> action_verified (ac_state a) \<longrightarrow>
        (\<exists>r. map_of (ms_outcomes s) j = Some r \<and> backs mo r a))"

lemma provenD:
  "proven mo s \<Longrightarrow> map_of (ms_actions s) j = Some a \<Longrightarrow> action_verified (ac_state a) \<Longrightarrow>
     \<exists>r. map_of (ms_outcomes s) j = Some r \<and> backs mo r a"
  unfolding proven_def by blast

lemma provenI:
  assumes "proven mo s" "ms_outcomes s' = ms_outcomes s"
    "\<And>j a. map_of (ms_actions s') j = Some a \<Longrightarrow> action_verified (ac_state a) \<Longrightarrow> map_of (ms_actions s) j = Some a"
  shows "proven mo s'"
  unfolding proven_def using assms(2) provenD [OF assms(1)] assms(3) by metis

lemma works_ok_orderly: "works_ok s \<Longrightarrow> orderly s s' \<Longrightarrow> works_ok s'"
  unfolding works_ok_def orderly_def works_typed_def by blast

lemma finalize_retabled:
  assumes "finalize_work mo vw r s = Inr (x, s')"
  obtains w src a h i where "owned_work mo vw (fz_work r) (fz_lease r) (Some (fz_revision r)) s = Inr w"
    "attached_action r w s = Inr a"
    "retabled s (ms_actions s) (ms_owners s)
       (AList.update (fz_identity r) (final_state vw r i (map_of (ms_states s) (fz_identity r)) h src) (ms_states s)) (ms_outcomes s) s'"
proof -
  from assms obtain w src a where w: "owned_work mo vw (fz_work r) (fz_lease r) (Some (fz_revision r)) s = Inr w"
      and a: "attached_action r w s = Inr a" and f: "finalize_source mo vw r w src a s = Inr (x, s')"
    by (auto simp: finalize_work_def tx_simps split: option.splits)
  from f obtain i h inc p s1 s2 s3 y z where
    s1: "write_incident inc (map_of (ms_incidents s) i) s = Inr (y, s1)" and
    s2: "complete_work vw r w (put_state (final_state vw r i (map_of (ms_states s) (fz_identity r)) h src)
           (put_processed vw p s1)) = Inr (z, s2)" and
    s3: "\<exists>v. follow_up mo vw w a s2 = Inr (v, s')"
    by (auto simp: finalize_source_def Let_def tx_simps)
  have q: "hushed s (put_processed vw p s1)"
    using qt.obeysD [OF write_incident_quiet s1] put_processed_quiet qt.chain by blast
  have "hushed (put_state (final_state vw r i (map_of (ms_states s) (fz_identity r)) h src) (put_processed vw p s1)) s'"
    using qt.obeysD [OF complete_quiet s2] s3 qt.obeysD [OF follow_up_quiet] qt.chain by blast
  from retabled_quiet [OF retabled_state [OF quiet_retabled [OF q]] this] w a that show thesis
    by (simp add: final_state_def)
qed

section \<open>The body of a call\<close>

text \<open>What a call may do to the actions on file, in the terms of the board.\<close>

definition fresh_name :: "monitor \<Rightarrow> mon_call \<Rightarrow> mon_store \<Rightarrow> bool" where
  "fresh_name mo c s \<longleftrightarrow>
     (case c of Call_Reserve r \<Rightarrow> map_of (ms_actions s) (mo_id mo (''action:'' @ rr_id r)) = None | _ \<Rightarrow> True)"

definition asks_for :: "mon_call \<Rightarrow> string \<Rightarrow> bool" where
  "asks_for c i \<longleftrightarrow> (case c of Call_Reserve r \<Rightarrow> rr_id r = i | _ \<Rightarrow> False)"

definition plays :: "monitor \<Rightarrow> mon_call \<Rightarrow> mon_store \<Rightarrow> mon_store \<Rightarrow> bool" where
  "plays mo c s s' \<longleftrightarrow>
     orderly s s' \<and> ms_receipts s' = ms_receipts s
     \<and> (\<forall>j a. map_of (ms_actions s') j = Some a \<longrightarrow> named mo a j
          \<and> (asks_for c (rr_id (ac_request a))
             \<or> (\<exists>b. map_of (ms_actions s) j = Some b \<and> ac_request b = ac_request a)))
     \<and> (valid_call mo c \<longrightarrow> proven mo s \<longrightarrow> proven mo s')
     \<and> (fresh_name mo c s \<longrightarrow> board_step (max_write_actions (mo_policy mo)) (board_of s) (board_of s'))"

lemma plays_quiet: "filed mo s \<Longrightarrow> hushed s s' \<Longrightarrow> plays mo c s s'"
  using quiet_board [of s s'] by (auto simp: plays_def hushed_def filed_def intro: board_step.Rest provenI)

lemma retabled_board:
  assumes "retabled s acts ows sts outs s'"
  shows "board_of s' = \<lparr>bo_actions = map_of acts, bo_owners = map_of ows,
           bo_slots = (\<lambda>i. case map_of sts i of None \<Rightarrow> 0 | Some st \<Rightarrow> is_count st)\<rparr>"
  using assms by (simp add: retabled_def board_of_def slots_used_def)

lemma plays_states:
  assumes "filed mo s" "retabled s (ms_actions s) (ms_owners s) sts (ms_outcomes s) s'"
    "\<And>i. (case map_of sts i of None \<Rightarrow> 0 | Some st \<Rightarrow> is_count st) = slots_used i s"
  shows "plays mo c s s'"
proof -
  have "board_of s' = board_of s" using assms(3) by (simp add: retabled_board [OF assms(2)]) (simp add: board_of_def)
  then show ?thesis
    using assms(1,2) by (auto simp: plays_def retabled_def filed_def intro: board_step.Rest provenI)
qed

lemma finalize_plays:
  assumes "filed mo s" "finalize_work mo vw r s = Inr (x, s')"
  shows "plays mo c s s'"
proof -
  from finalize_retabled [OF assms(2)] obtain i h src where
    r: "retabled s (ms_actions s) (ms_owners s)
       (AList.update (fz_identity r) (final_state vw r i (map_of (ms_states s) (fz_identity r)) h src) (ms_states s)) (ms_outcomes s) s'"
    by metis
  show ?thesis
    by (rule plays_states [OF assms(1) r]) (simp add: final_state_def slots_used_def)
qed

lemma approval_plays:
  assumes "filed mo s"
  shows "plays mo c s (s\<lparr>ms_approvals := ap\<rparr>)"
proof (rule plays_states [OF assms])
  show "retabled s (ms_actions s) (ms_owners s) (ms_states s) (ms_outcomes s) (s\<lparr>ms_approvals := ap\<rparr>)"
    by (simp add: retabled_def orderly_elsewhere)
qed (simp add: slots_used_def)

text \<open>One action of the file is replaced by a later version of itself.\<close>

lemma move_plays:
  assumes "filed mo s" "map_of (ms_actions s) j = Some a" "valid_action x" "same_attempt a x"
    "retabled s (AList.update (ac_id a) x (ms_actions s)) ows (ms_states s) outs s'"
    "action_open (ac_state a)"
    "action_open (ac_state x) \<and> ows = ms_owners s \<or>
     \<not> action_open (ac_state x) \<and> (\<exists>ow. map_of (ms_owners s) (ac_target a) = Some ow \<and> ow_reservation ow = ac_id a
        \<and> ow_fence ow = ac_fence a \<and> ows = AList.update (ac_target a) (ow\<lparr>ow_active := False\<rparr>) (ms_owners s))"
    "\<not> action_verified (ac_state x) \<and> outs = ms_outcomes s \<or>
     (\<exists>r. outs = AList.update (ac_id a) r (ms_outcomes s)
        \<and> (valid_call mo c \<longrightarrow> action_verified (ac_state x) \<longrightarrow> backs mo r x))"
  shows "plays mo c s s'"
proof -
  have j: "named mo a j" "ac_id a = j" using filedD [OF assms(1,2)] by (auto simp: named_def)
  have x: "named mo x j" using j(1) assms(3,4) by (simp add: named_def same_attempt_def)
  have s': "ms_actions s' = AList.update j x (ms_actions s)" "ms_receipts s' = ms_receipts s" "orderly s s'"
    using assms(5) j(2) by (simp_all add: retabled_def)
  have b: "bo_actions (board_of s) (ac_id a) = Some a" using assms(2) j(2) by (simp add: board_of_def)
  have "board_step cap (board_of s) (board_of s')" for cap
    using assms(7)
  proof
    assume o': "action_open (ac_state x) \<and> ows = ms_owners s"
    then have "board_of s' = (board_of s)\<lparr>bo_actions := (bo_actions (board_of s))(ac_id a \<mapsto> x)\<rparr>"
      using retabled_board [OF assms(5)] by (simp add: board_of_def slots_used_def update_conv')
    with board_step.Move [OF b assms(6) _ assms(4)] o' show ?thesis by simp
  next
    assume "\<not> action_open (ac_state x) \<and> (\<exists>ow. map_of (ms_owners s) (ac_target a) = Some ow \<and> ow_reservation ow = ac_id a
        \<and> ow_fence ow = ac_fence a \<and> ows = AList.update (ac_target a) (ow\<lparr>ow_active := False\<rparr>) (ms_owners s))"
    then obtain ow where c: "\<not> action_open (ac_state x)" "map_of (ms_owners s) (ac_target a) = Some ow"
        "ow_reservation ow = ac_id a" "ow_fence ow = ac_fence a"
        "ows = AList.update (ac_target a) (ow\<lparr>ow_active := False\<rparr>) (ms_owners s)" by blast
    have "board_of s' = (board_of s)\<lparr>bo_actions := (bo_actions (board_of s))(ac_id a \<mapsto> x),
        bo_owners := (bo_owners (board_of s))(ac_target a \<mapsto> ow\<lparr>ow_active := False\<rparr>)\<rparr>"
      using retabled_board [OF assms(5)] c(5) by (simp add: board_of_def slots_used_def update_conv')
    with board_step.Settle [OF b assms(6) c(1) assms(4) _ c(3,4)] c(2) show ?thesis by (simp add: board_of_def)
  qed
  moreover have "proven mo s'" if v: "valid_call mo c" and p: "proven mo s"
    unfolding proven_def
  proof (intro allI impI)
    fix i y assume y: "map_of (ms_actions s') i = Some y" "action_verified (ac_state y)"
    have outs: "ms_outcomes s' = outs" using assms(5) by (simp add: retabled_def)
    show "\<exists>r. map_of (ms_outcomes s') i = Some r \<and> backs mo r y"
    proof (cases "i = j")
      case True
      with y(1) s'(1) have "y = x" by simp
      with assms(8) y(2) v True outs j(2) show ?thesis by auto
    next
      case False
      with y(1) s'(1) have "map_of (ms_actions s) i = Some y" by simp
      from provenD [OF p this y(2)] assms(8) False outs j(2) show ?thesis by auto
    qed
  qed
  moreover have "named mo y i \<and> (asks_for c (rr_id (ac_request y)) \<or>
      (\<exists>b. map_of (ms_actions s) i = Some b \<and> ac_request b = ac_request y))" if "map_of (ms_actions s') i = Some y" for i y
    using that x assms(2,4) filedD [OF assms(1)] by (auto simp: s' same_attempt_def split: if_splits)
  ultimately show ?thesis using s' by (simp add: plays_def)
qed

lemma submission_plays:
  assumes "filed mo s" "record_action_submission mo vw r cm s = Inr (x, s')"
  shows "plays mo c s s'"
  using assms(2)
proof (rule submission_saved)
  fix a assume a: "map_of (ms_actions s) (sb_reservation r) = Some a" "\<not> action_final a" "x = submitted_action vw a r"
      "valid_action x" "retabled s (AList.update (ac_id a) x (ms_actions s)) (ms_owners s) (ms_states s) (ms_outcomes s) s'"
  show ?thesis
    by (rule move_plays [OF assms(1) a(1,4) _ a(5)])
      (use a(2,3) in \<open>auto simp: same_attempt_def submitted_action_def action_final_def action_open_iff action_verified_def\<close>)
qed

lemma rejection_plays:
  assumes "filed mo s" "record_action_rejection mo vw r s = Inr (x, s')"
  shows "plays mo c s s'"
  using assms(2)
proof (rule rejection_saved)
  fix a ow n assume a: "map_of (ms_actions s) (rx_reservation r) = Some a" "ac_state a = Act_Reserved"
      "x = (rejected_action vw a r)\<lparr>ac_retry_work := n\<rparr>" "valid_action x"
      "map_of (ms_owners s) (ac_target a) = Some ow" "ow_reservation ow = ac_id a" "ow_fence ow = ac_fence a"
      "retabled s (AList.update (ac_id a) x (ms_actions s))
         (AList.update (ac_target a) (ow\<lparr>ow_active := False\<rparr>) (ms_owners s)) (ms_states s) (ms_outcomes s) s'"
  show ?thesis
    by (rule move_plays [OF assms(1) a(1,4) _ a(8)])
      (use a(2,3,5,6,7) in \<open>auto simp: same_attempt_def rejected_action_def action_open_def action_verified_def\<close>)
qed

lemma outcome_plays:
  assumes "filed mo s" "record_action_outcome mo vw r cm s = Inr (x, s')"
  shows "plays mo (Call_Outcome r cm) s s'"
  using assms(2)
proof (rule outcome_saved)
  fix a assume a: "map_of (ms_actions s) (ou_reservation r) = Some a" "\<not> outcome_refused mo vw a r"
      "x = outcome_action vw a r" "valid_action x"
      "\<not> action_verified (ac_state x) \<longrightarrow>
         retabled s (AList.update (ac_id a) x (ms_actions s)) (ms_owners s) (ms_states s) (AList.update (ac_id a) r (ms_outcomes s)) s'"
      "action_verified (ac_state x) \<longrightarrow> (\<exists>ow. map_of (ms_owners s) (ac_target a) = Some ow \<and> ow_reservation ow = ac_id a
         \<and> ow_fence ow = ac_fence a \<and> retabled s (AList.update (ac_id a) x (ms_actions s))
             (AList.update (ac_target a) (ow\<lparr>ow_active := False\<rparr>) (ms_owners s)) (ms_states s) (AList.update (ac_id a) r (ms_outcomes s)) s')"
  have same: "same_attempt a x" by (simp add: a(3) same_attempt_def outcome_action_def)
  have op: "action_open (ac_state a)"
    using a(2) by (auto simp: outcome_refused_def action_final_def action_open_iff)
  have backed: "valid_call mo (Call_Outcome r cm) \<longrightarrow> action_verified (ac_state x) \<longrightarrow> backs mo r x"
    using a(2,3) by (cases "ou_disposition r")
      (auto simp: backs_def outcome_action_def outcome_refused_def run_refused_def action_verified_def split: option.splits)
  have nr: "ac_state x \<noteq> Act_Rejected" by (cases "ou_disposition r") (simp_all add: a(3) outcome_action_def)
  show ?thesis
  proof (cases "action_verified (ac_state x)")
    case True
    with a(6) obtain ow where ow: "map_of (ms_owners s) (ac_target a) = Some ow" "ow_reservation ow = ac_id a"
        "ow_fence ow = ac_fence a" "retabled s (AList.update (ac_id a) x (ms_actions s))
             (AList.update (ac_target a) (ow\<lparr>ow_active := False\<rparr>) (ms_owners s)) (ms_states s) (AList.update (ac_id a) r (ms_outcomes s)) s'" by blast
    show ?thesis
      by (rule move_plays [OF assms(1) a(1,4) same ow(4) op]) (use True ow(1-3) backed in \<open>auto simp: action_open_iff\<close>)
  next
    case False
    with a(5) have r: "retabled s (AList.update (ac_id a) x (ms_actions s)) (ms_owners s) (ms_states s) (AList.update (ac_id a) r (ms_outcomes s)) s'" by blast
    show ?thesis
      by (rule move_plays [OF assms(1) a(1,4) same r op]) (use False nr backed in \<open>auto simp: action_open_iff\<close>)
  qed
qed

lemma opened_new:
  assumes "owner_denial r s = None" "spend_approval vw r s = Some s1"
    "map_of (ms_actions s) (mo_id mo (''action:'' @ rr_id r)) = None"
  shows "opened (new_action mo vw r w s1) (board_of s)"
proof -
  have o': "ms_owners s1 = ms_owners s" using spend_retabled [OF assms(2)] by (simp add: retabled_def)
  have "ac_target (new_action mo vw r w s1) = request_target r"
    by (simp add: ac_target_def new_action_def request_target_def)
  then show ?thesis
    using assms(1,3) o'
    by (auto simp: opened_def new_action_def board_of_def owner_denial_def split: option.splits if_splits)
qed

lemma granted_board:
  assumes "filed mo s" "reserve_action mo vw r s = Inr (Reserved a, s')"
    "map_of (ms_actions s) (mo_id mo (''action:'' @ rr_id r)) = None"
  shows "board_step (max_write_actions (mo_policy mo)) (board_of s) (board_of s')"
  using assms(2)
proof (rule reserve_granted)
  fix w p s1 assume g: "owner_denial r s = None" "predecessor r w s = Inr (Inr p)" "\<not> budget_spent mo r p s"
    "spend_approval vw r s = Some s1" "commit_reservation mo vw r w p s1 = Inr (Reserved a, s')"
  have s1: "ms_actions s1 = ms_actions s" "ms_owners s1 = ms_owners s" "ms_states s1 = ms_states s"
    using spend_retabled [OF g(4)] by (simp_all add: retabled_def)
  note c = commit_reserves [OF g(5)]
  have a: "a = new_action mo vw r w s1" using c by simp
  have o': "opened a (board_of s)" unfolding a by (rule opened_new [OF g(1,4) assms(3)])
  have at: "ac_target a = request_target r" "ac_request a = r" "ac_retry_of a = wk_retry_of w"
      "ac_retry_attempt a = wk_retry_attempt w"
    by (simp_all add: a ac_target_def new_action_def request_target_def)
  have slots: "slots_used i s1 = slots_used i s" for i by (simp add: slots_used_def s1)
  have count: "(\<lambda>i. case map_of (AList.update (rr_incident r) (charged_state mo vw r p s1) (ms_states s)) i of
        None \<Rightarrow> 0 | Some st \<Rightarrow> is_count st)
      = (\<lambda>i. slots_used i s)(rr_incident r := slots_used (rr_incident r) s + (if p = None then 1 else 0))"
    by (auto simp: charged_state_def Let_def slots slots_used_def s1 fun_eq_iff)
  show ?thesis
  proof (cases p)
    case None
    have "board_of s' = (board_of s)\<lparr>bo_actions := (bo_actions (board_of s))(ac_id a \<mapsto> a),
        bo_owners := (bo_owners (board_of s))(ac_target a \<mapsto> owned_by a),
        bo_slots := (bo_slots (board_of s))(rr_incident (ac_request a) := bo_slots (board_of s) (rr_incident (ac_request a)) + 1)\<rparr>"
      using c None count by (auto simp: s1 a [symmetric] at board_of_def slots_used_def update_conv' dest!: retabled_board)
    moreover have "bo_slots (board_of s) (rr_incident (ac_request a)) < max_write_actions (mo_policy mo)"
      using g(3) None by (simp add: budget_spent_def Let_def board_of_def at not_le)
    ultimately show ?thesis
      using board_step.First [OF o'] predecessor_none [of r w s] g(2) None at(3) by simp
  next
    case (Some q)
    obtain i where i: "wk_retry_of w = Some i" "map_of (ms_actions s) i = Some q" "succeeds r w q s"
      using predecessor_some [of r w s q] g(2) Some by blast
    have q: "ac_id q = i" using filedD [OF assms(1) i(2)] by (simp add: named_def)
    have "board_of s' = (board_of s)\<lparr>bo_actions := (bo_actions (board_of s))(ac_id a \<mapsto> a, ac_id q \<mapsto>
          q\<lparr>ac_retry_reservation := Some (ac_id a), ac_revision := ac_revision q + 1, ac_updated_at := vw_now vw\<rparr>),
        bo_owners := (bo_owners (board_of s))(ac_target a \<mapsto> owned_by a)\<rparr>"
      using c Some count
      by (auto simp: s1 a [symmetric] at board_of_def slots_used_def update_conv' dest!: retabled_board)
    with board_step.Again [OF o', of q] i q at show ?thesis
      by (simp add: board_of_def succeeds_def)
  qed
qed simp

lemma reserve_plays:
  assumes "filed mo s" "reserve_action mo vw r s = Inr (x, s')"
  shows "plays mo (Call_Reserve r) s s'"
  using assms(2)
proof (rule reserve_granted)
  fix d assume "s' = s"
  then show ?thesis using plays_quiet [OF assms(1)] qt.same by simp
next
  fix w p s1 assume g: "predecessor r w s = Inr (Inr p)" "spend_approval vw r s = Some s1"
    "commit_reservation mo vw r w p s1 = Inr (x, s')"
  note s1 = spend_retabled [OF g(2)]
  note c = commit_reserves [OF g(3)]
  let ?a = "new_action mo vw r w s1"
  have new: "named mo ?a (ac_id ?a)" "rr_id (ac_request ?a) = rr_id r"
    using c by (simp_all add: named_def) (simp_all add: new_action_def)
  have idle: "\<not> action_verified (ac_state ?a)" by (simp add: new_action_def action_verified_def)
  have old: "named mo y i \<and> (asks_for (Call_Reserve r) (rr_id (ac_request y)) \<or>
      (\<exists>b. map_of (ms_actions s) i = Some b \<and> ac_request b = ac_request y))
      \<and> (action_verified (ac_state y) \<longrightarrow> map_of (ms_actions s) i = Some y)" if "map_of (ms_actions s') i = Some y" for i y
  proof (cases p)
    case None
    with that c s1 new filedD [OF assms(1)] idle show ?thesis
      by (auto simp: retabled_def asks_for_def split: if_splits)
  next
    case (Some q)
    obtain j where j: "map_of (ms_actions s) j = Some q" "\<not> action_verified (ac_state q)"
      using predecessor_some [of r w s q] g(1) Some by (auto simp: succeeds_def action_verified_def)
    have "named mo q j" by (rule filedD [OF assms(1) j(1)])
    with that c s1 new filedD [OF assms(1)] Some j idle show ?thesis
      by (auto simp: retabled_def asks_for_def named_def split: if_splits)
  qed
  have "board_step (max_write_actions (mo_policy mo)) (board_of s) (board_of s')" if "fresh_name mo (Call_Reserve r) s"
    using granted_board [OF assms(1), of vw r ?a s'] assms(2) c that by (simp add: fresh_name_def)
  moreover have "ms_outcomes s' = ms_outcomes s" "orderly s s'" "ms_receipts s' = ms_receipts s"
    using c s1 by (auto simp: retabled_def intro: orderly_trans)
  moreover from this(1) have "proven mo s \<longrightarrow> proven mo s'" using old by (blast intro: provenI)
  moreover have "\<forall>i y. map_of (ms_actions s') i = Some y \<longrightarrow> named mo y i \<and> (asks_for (Call_Reserve r) (rr_id (ac_request y)) \<or>
      (\<exists>b. map_of (ms_actions s) i = Some b \<and> ac_request b = ac_request y))" using old by blast
  ultimately show ?thesis unfolding plays_def by blast
qed

lemma body_plays:
  assumes "filed mo s" "body mo vw c s = Inr (x, s')"
  shows "plays mo c s s'"
proof (cases c)
  case (Call_Bind r)
  with assms(2) have "hushed s s'"
    by (auto simp: answer_with_def tx_simps split: option.splits dest: qt.obeysD [OF bind_quiet])
  then show ?thesis by (rule plays_quiet [OF assms(1)])
next
  case (Event_Approval i row)
  with assms show ?thesis by (auto simp: tx_simps intro: approval_plays)
qed (use assms in \<open>auto simp: answer_with_def tx_simps
    intro: plays_quiet submission_plays rejection_plays outcome_plays finalize_plays reserve_plays
      qt.obeysD [OF enqueue_quiet] qt.obeysD [OF claim_work_quiet] qt.obeysD [OF renew_work_quiet]
      qt.obeysD [OF disposition_quiet] qt.obeysD [OF observe_quiet] qt.obeysD [OF save_source_quiet]\<close>)

section \<open>One call\<close>

lemma mon_step_cases:
  obtains "snd (mon_step mo x s) = s"
  | vw c r s1 where "x = (vw, c)" "valid_call mo c" "fst (mon_step mo x s) = Inr r" "body mo vw c s = Inr (r, s1)"
      "receipt_key mo c = None" "snd (mon_step mo x s) = s1"
  | vw c r s1 k y where "x = (vw, c)" "valid_call mo c" "fst (mon_step mo x s) = Inr r" "body mo vw c s = Inr (r, s1)"
      "receipt_key mo c = Some (k, y)" "map_of (ms_receipts s) k = None"
      "snd (mon_step mo x s) = s1\<lparr>ms_receipts := AList.update k (mo_fingerprint mo y, r) (ms_receipts s1)\<rparr>"
proof -
  obtain vw c where x: "x = (vw, c)" by fastforce
  show thesis
  proof (cases "authorized (mo_component mo) c \<and> valid_call mo c")
    case False
    with x that(1) show thesis by (auto simp: mon_step_def)
  next
    case ok: True
    show thesis
    proof (cases "perform_call mo vw c s")
      case (Inl e)
      with x ok that(1) show thesis by (simp add: mon_step_def)
    next
      case (Inr z)
      then obtain r s' where p: "perform_call mo vw c s = Inr (r, s')" by (cases z) auto
      then have st: "mon_step mo x s = (Inr r, s')" using x ok by (simp add: mon_step_def)
      show thesis
      proof (cases "receipt_key mo c")
        case None
        with p have "body mo vw c s = Inr (r, s')" by (simp add: perform_call_def)
        with that(2) [OF x] ok None st show thesis by simp
      next
        case (Some ky)
        obtain op i y where ky: "ky = ((op, i), y)" by (metis prod.exhaust)
        with p Some have idem: "idempotent mo op i y (body mo vw c) s = Inr (r, s')" by (simp add: perform_call_def)
        show thesis
        proof (cases "map_of (ms_receipts s) (op, i)")
          case None
          with idem obtain s1 where "body mo vw c s = Inr (r, s1)"
              "s' = s1\<lparr>ms_receipts := AList.update (op, i) (mo_fingerprint mo y, r) (ms_receipts s1)\<rparr>"
            by (auto simp: idempotent_def tx_simps)
          with that(3) [OF x] ok Some ky None st show thesis by simp
        next
          case (Some fr)
          with idem have "s' = s" by (auto simp: idempotent_def split: prod.splits if_splits)
          with st that(1) show thesis by simp
        qed
      qed
    qed
  qed
qed

end
