(* ===== verification/Monitor_Guarantees.thy ===== *)
theory Monitor_Guarantees
  imports Monitor_Safety
begin

text \<open>
  The guarantees of the engine over whole histories: invariants of the board, carried over
  to every run of the engine from the empty store, and the properties that follow.
\<close>

section \<open>Invariants of the board\<close>

lemma same_attempt_simps:
  assumes "same_attempt a b"
  shows "ac_id b = ac_id a" "ac_request b = ac_request a" "ac_target b = ac_target a" "owned_by b = owned_by a"
    "ac_retry_of b = ac_retry_of a" "ac_retry_attempt b = ac_retry_attempt a"
    "ac_retry_reservation b = ac_retry_reservation a"
  using assms by (simp_all add: same_attempt_def ac_target_def owned_by_def)

lemma opened_none: "opened a b \<Longrightarrow> bo_actions b (ac_id a) = None"
  by (simp add: opened_def)

definition owners_ok :: "board \<Rightarrow> bool" where
  "owners_ok b \<longleftrightarrow>
     (\<forall>j a. bo_actions b j = Some a \<longrightarrow>
        ac_id a = j \<and> (action_open (ac_state a) \<longrightarrow> bo_owners b (ac_target a) = Some (owned_by a)))"

lemma owners_okD:
  assumes "owners_ok b" "bo_actions b j = Some a"
  shows "ac_id a = j" "action_open (ac_state a) \<Longrightarrow> bo_owners b (ac_target a) = Some (owned_by a)"
  using assms by (auto simp: owners_ok_def)

lemma owners_ok_opened:
  assumes ok: "owners_ok b" and o': "opened a b"
  shows "owners_ok (b\<lparr>bo_actions := (bo_actions b)(ac_id a \<mapsto> a), bo_owners := (bo_owners b)(ac_target a \<mapsto> owned_by a)\<rparr>)"
  unfolding owners_ok_def
proof (intro allI impI)
  fix j c assume "bo_actions (b\<lparr>bo_actions := (bo_actions b)(ac_id a \<mapsto> a), bo_owners := (bo_owners b)(ac_target a \<mapsto> owned_by a)\<rparr>) j = Some c"
  then have c: "j = ac_id a \<and> c = a \<or> j \<noteq> ac_id a \<and> bo_actions b j = Some c" by (auto split: if_splits)
  have "ac_target c \<noteq> ac_target a" if "action_open (ac_state c)" "bo_actions b j = Some c"
    using owners_okD(2) [OF ok that(2,1)] o' by (auto simp: opened_def owned_by_def)
  then show "ac_id c = j \<and> (action_open (ac_state c) \<longrightarrow>
      bo_owners (b\<lparr>bo_actions := (bo_actions b)(ac_id a \<mapsto> a), bo_owners := (bo_owners b)(ac_target a \<mapsto> owned_by a)\<rparr>) (ac_target c)
        = Some (owned_by c))"
    using c owners_okD [OF ok] by auto
qed

lemma owners_ok_slots [simp]: "owners_ok (b\<lparr>bo_slots := f\<rparr>) = owners_ok b"
  by (simp add: owners_ok_def)

lemma owners_ok_cong: "owners_ok b \<Longrightarrow> bo_actions c = bo_actions b \<Longrightarrow> bo_owners c = bo_owners b \<Longrightarrow> owners_ok c"
  by (simp add: owners_ok_def)

lemma owners_ok_replace:
  assumes ok: "owners_ok b" and q: "ac_id q = ac_id p"
    "action_open (ac_state q) \<Longrightarrow> bo_owners c (ac_target q) = Some (owned_by q)"
    and c: "bo_actions c = (bo_actions b)(ac_id p \<mapsto> q)"
    and ow: "\<And>j d. j \<noteq> ac_id p \<Longrightarrow> bo_actions b j = Some d \<Longrightarrow> action_open (ac_state d) \<Longrightarrow>
      bo_owners c (ac_target d) = bo_owners b (ac_target d)"
  shows "owners_ok c"
  unfolding owners_ok_def
proof (intro allI impI)
  fix j d assume d: "bo_actions c j = Some d"
  show "ac_id d = j \<and> (action_open (ac_state d) \<longrightarrow> bo_owners c (ac_target d) = Some (owned_by d))"
  proof (cases "j = ac_id p")
    case True
    with d c have "d = q" by simp
    with q True show ?thesis by blast
  next
    case False
    with d c have e: "bo_actions b j = Some d" by simp
    from owners_okD [OF ok e] ow [OF False e] show ?thesis by metis
  qed
qed

lemma board_step_owners:
  assumes "board_step cap b b'" "owners_ok b"
  shows "owners_ok b'"
  using assms(1)
proof cases
  case Rest
  with assms(2) show ?thesis by simp
next
  case (First a)
  show ?thesis unfolding First(1) owners_ok_slots by (rule owners_ok_opened [OF assms(2) First(2)])
next
  case (Again a p q n t)
  let ?c = "b\<lparr>bo_actions := (bo_actions b)(ac_id a \<mapsto> a), bo_owners := (bo_owners b)(ac_target a \<mapsto> owned_by a)\<rparr>"
  have "owners_ok ?c" by (rule owners_ok_opened [OF assms(2) Again(2)])
  then show ?thesis
    by (rule owners_ok_replace [of _ q p]) (use Again in \<open>simp_all add: action_open_def\<close>)
next
  case (Move a a')
  note same = same_attempt_simps [OF Move(5)]
  show ?thesis
    by (rule owners_ok_replace [OF assms(2), of a' a]) (use Move owners_okD(2) [OF assms(2) Move(2,3)] same in simp_all)
next
  case (Settle a a' ow)
  note same = same_attempt_simps [OF Settle(5)]
  have other: "ac_target c \<noteq> ac_target a" if "j \<noteq> ac_id a" "bo_actions b j = Some c" "action_open (ac_state c)" for j c
  proof
    assume "ac_target c = ac_target a"
    then have "owned_by c = ow" using owners_okD(2) [OF assms(2) that(2,3)] Settle(6) by simp
    then have "ac_id c = ac_id a" using Settle(7) by (auto simp: owned_by_def)
    with that(1) owners_okD(1) [OF assms(2) that(2)] show False by simp
  qed
  show ?thesis
    by (rule owners_ok_replace [OF assms(2), of a' a]) (use Settle(1,4) same other in simp_all)
qed

definition lineage_ok :: "board \<Rightarrow> bool" where
  "lineage_ok b \<longleftrightarrow>
     (\<forall>j a p. bo_actions b j = Some a \<longrightarrow> ac_retry_of a = Some p \<longrightarrow>
        (\<exists>q. bo_actions b p = Some q \<and> ac_retry_reservation q = Some j \<and> ac_retry_attempt a = ac_retry_attempt q + 1
           \<and> rr_incident (ac_request a) = rr_incident (ac_request q)))"

lemma lineage_okD:
  "lineage_ok b \<Longrightarrow> bo_actions b j = Some a \<Longrightarrow> ac_retry_of a = Some p \<Longrightarrow>
     \<exists>q. bo_actions b p = Some q \<and> ac_retry_reservation q = Some j \<and> ac_retry_attempt a = ac_retry_attempt q + 1
       \<and> rr_incident (ac_request a) = rr_incident (ac_request q)"
  by (simp add: lineage_ok_def)

lemma lineage_ok_same:
  assumes ok: "lineage_ok b" and a: "bo_actions b i = Some a" and s: "same_attempt a a'" and b': "bo_actions b' = (bo_actions b)(i \<mapsto> a')"
  shows "lineage_ok b'"
  unfolding lineage_ok_def b'
proof (intro allI impI)
  fix j c p assume c: "((bo_actions b)(i \<mapsto> a')) j = Some c" "ac_retry_of c = Some p"
  then obtain d where d: "bo_actions b j = Some d" "ac_retry_of d = Some p" "ac_retry_attempt d = ac_retry_attempt c"
      "rr_incident (ac_request d) = rr_incident (ac_request c)"
    using a s by (auto simp: same_attempt_simps split: if_splits)
  from lineage_okD [OF ok d(1,2)] d(3,4) a s
  show "\<exists>q. ((bo_actions b)(i \<mapsto> a')) p = Some q \<and> ac_retry_reservation q = Some j \<and> ac_retry_attempt c = ac_retry_attempt q + 1
       \<and> rr_incident (ac_request c) = rr_incident (ac_request q)"
    by (auto simp: same_attempt_simps)
qed

lemma board_step_lineage:
  assumes "board_step cap b b'" "lineage_ok b" "owners_ok b"
  shows "lineage_ok b'"
  using assms(1)
proof cases
  case Rest
  with assms(2) show ?thesis by simp
next
  case (First a)
  have "p \<noteq> ac_id a" if "bo_actions b j = Some c" "ac_retry_of c = Some p" for j c p
    using lineage_okD [OF assms(2) that] opened_none [OF First(2)] by auto
  with First assms(2) show ?thesis by (auto simp: lineage_ok_def)
next
  case (Again a p q n t)
  have neq: "ac_id p \<noteq> ac_id a" using Again(3) opened_none [OF Again(2)] by auto
  have "i \<noteq> ac_id a \<and> i \<noteq> ac_id p" if "bo_actions b j = Some c" "ac_retry_of c = Some i" for j c i
    using lineage_okD [OF assms(2) that] opened_none [OF Again(2)] Again(3,5) by auto
  with Again assms(2) neq show ?thesis by (auto simp: lineage_ok_def)
next
  case (Move a a')
  then show ?thesis using lineage_ok_same [OF assms(2) Move(2) Move(5)] by simp
next
  case (Settle a a' ow)
  then show ?thesis using lineage_ok_same [OF assms(2) Settle(2) Settle(5)] by simp
qed

text \<open>The first attempts for an incident, each of which took a slot.\<close>

definition firsts :: "board \<Rightarrow> incident_identity \<Rightarrow> string set" where
  "firsts b i = {j. \<exists>a. bo_actions b j = Some a \<and> ac_retry_of a = None \<and> rr_incident (ac_request a) = i}"

definition slots_ok :: "int \<Rightarrow> board \<Rightarrow> bool" where
  "slots_ok cap b \<longleftrightarrow>
     finite (dom (bo_actions b)) \<and> (\<forall>i. int (card (firsts b i)) \<le> bo_slots b i \<and> bo_slots b i \<le> max 0 cap)"

lemma firsts_finite: "finite (dom (bo_actions b)) \<Longrightarrow> finite (firsts b i)"
  by (rule finite_subset [of _ "dom (bo_actions b)"]) (auto simp: firsts_def)

lemma firsts_same:
  assumes "bo_actions b k = Some a" "ac_retry_of a' = ac_retry_of a" "ac_request a' = ac_request a"
    "bo_actions b' = (bo_actions b)(k \<mapsto> a')"
  shows "firsts b' i = firsts b i"
  using assms by (auto simp: firsts_def)

lemma slots_ok_same:
  assumes "slots_ok cap b" "bo_actions b k = Some a" "ac_retry_of a' = ac_retry_of a" "ac_request a' = ac_request a"
    "bo_actions b' = (bo_actions b)(k \<mapsto> a')" "bo_slots b' = bo_slots b"
  shows "slots_ok cap b'"
  using assms firsts_same [OF assms(2-5)] by (simp add: slots_ok_def)

lemma board_step_slots:
  assumes "board_step cap b b'" "slots_ok cap b"
  shows "slots_ok cap b'"
  using assms(1)
proof cases
  case Rest
  with assms(2) show ?thesis by simp
next
  case (First a)
  let ?k = "rr_incident (ac_request a)"
  have f: "firsts b' i = (if i = ?k then insert (ac_id a) (firsts b i) else firsts b i)" for i
    using First opened_none [OF First(2)] by (auto simp: firsts_def)
  have fin: "finite (firsts b i)" for i using assms(2) firsts_finite by (simp add: slots_ok_def)
  have "int (card (firsts b' i)) \<le> bo_slots b' i \<and> bo_slots b' i \<le> max 0 cap" for i
  proof -
    have "int (card (firsts b i)) \<le> bo_slots b i" "bo_slots b i \<le> max 0 cap" using assms(2) by (auto simp: slots_ok_def)
    moreover have "card (firsts b' i) \<le> (if i = ?k then Suc (card (firsts b i)) else card (firsts b i))"
      by (simp add: f card_insert_if fin)
    ultimately show ?thesis using First(1,4) by (cases "i = ?k") auto
  qed
  with First assms(2) show ?thesis by (simp add: slots_ok_def)
next
  case (Again a p q n t)
  have neq: "ac_id p \<noteq> ac_id a" using Again(3) opened_none [OF Again(2)] by auto
  have "firsts b' i = firsts b i" for i
    using Again neq opened_none [OF Again(2)] by (auto simp: firsts_def)
  with Again(1) assms(2) show ?thesis by (simp add: slots_ok_def)
next
  case (Move a a')
  then show ?thesis using slots_ok_same [OF assms(2) Move(2), of a' b'] by (simp add: same_attempt_simps)
next
  case (Settle a a' ow)
  then show ?thesis using slots_ok_same [OF assms(2) Settle(2), of a' b'] by (simp add: same_attempt_simps)
qed

text \<open>A final action keeps its effect; at most its successor is noted.\<close>

lemma board_step_final:
  assumes "board_step cap b b'" "owners_ok b" "bo_actions b j = Some a" "\<not> action_open (ac_state a)"
  shows "\<exists>c. bo_actions b' j = Some c \<and> same_effect a c \<and> ac_request c = ac_request a"
  using assms(1)
proof cases
  case Rest
  with assms(3) show ?thesis by (simp add: same_effect_def)
next
  case (First x)
  with assms(3) opened_none [OF First(2)] show ?thesis by (auto simp: same_effect_def)
next
  case (Again x p q n t)
  have neq: "j \<noteq> ac_id x" using assms(3) opened_none [OF Again(2)] by auto
  show ?thesis
  proof (cases "j = ac_id p")
    case True
    with Again assms(3) neq show ?thesis by (auto simp: same_effect_def)
  next
    case False
    with Again assms(3) neq show ?thesis by (auto simp: same_effect_def)
  qed
next
  case (Move x x')
  with assms(3,4) show ?thesis by (auto simp: same_effect_def)
next
  case (Settle x x' ow)
  with assms(3,4) show ?thesis by (auto simp: same_effect_def)
qed

definition board_ok :: "int \<Rightarrow> board \<Rightarrow> bool" where
  "board_ok cap b \<longleftrightarrow> owners_ok b \<and> lineage_ok b \<and> slots_ok cap b"

lemma board_step_ok: "board_step cap b b' \<Longrightarrow> board_ok cap b \<Longrightarrow> board_ok cap b'"
  using board_step_owners board_step_lineage board_step_slots unfolding board_ok_def by blast

section \<open>Attempts per incident\<close>

definition at_level :: "board \<Rightarrow> incident_identity \<Rightarrow> int \<Rightarrow> string set" where
  "at_level b i k = {j. \<exists>a. bo_actions b j = Some a \<and> rr_incident (ac_request a) = i \<and> ac_retry_attempt a = k}"

lemma at_level_finite: "finite (dom (bo_actions b)) \<Longrightarrow> finite (at_level b i k)"
  by (rule finite_subset [of _ "dom (bo_actions b)"]) (auto simp: at_level_def)

text \<open>Each retry names its predecessor on the level below, and no two name the same.\<close>

lemma retries_at_level:
  assumes "lineage_ok b" "finite (dom (bo_actions b))"
  shows "card (at_level b i (k + 1) - firsts b i) \<le> card (at_level b i k)"
proof (rule card_inj_on_le)
  let ?f = "\<lambda>j. the (ac_retry_of (the (bo_actions b j)))"
  have pred: "\<exists>q. bo_actions b (?f j) = Some q \<and> ac_retry_reservation q = Some j \<and> ac_retry_attempt q = k
      \<and> rr_incident (ac_request q) = i" if "j \<in> at_level b i (k + 1) - firsts b i" for j
  proof -
    from that obtain a p where "bo_actions b j = Some a" "ac_retry_attempt a = k + 1" "rr_incident (ac_request a) = i"
        "ac_retry_of a = Some p"
      by (auto simp: at_level_def firsts_def)
    with lineage_okD [OF assms(1), of j a p] show ?thesis by auto
  qed
  show "inj_on ?f (at_level b i (k + 1) - firsts b i)"
    by (rule inj_onI) (metis pred option.inject)
  show "?f ` (at_level b i (k + 1) - firsts b i) \<subseteq> at_level b i k"
    using pred by (fastforce simp: at_level_def)
  show "finite (at_level b i k)" by (rule at_level_finite [OF assms(2)])
qed

lemma level_bound:
  assumes "lineage_ok b" "finite (dom (bo_actions b))" "\<And>j a. bo_actions b j = Some a \<Longrightarrow> 0 \<le> ac_retry_attempt a
      \<and> (ac_retry_of a \<noteq> None \<longrightarrow> 1 \<le> ac_retry_attempt a)"
  shows "card (at_level b i (int n)) \<le> card (firsts b i \<inter> (\<Union>k\<le>n. at_level b i (int k)))"
proof (induction n)
  case 0
  have "at_level b i (int 0) \<subseteq> firsts b i \<inter> (\<Union>k\<le>0. at_level b i (int k))"
    using assms(3) by (fastforce simp: at_level_def firsts_def)
  then show ?case using firsts_finite [OF assms(2)] by (intro card_mono) auto
next
  case (Suc n)
  let ?L = "at_level b i (int (Suc n))" and ?F = "firsts b i \<inter> (\<Union>k\<le>n. at_level b i (int k))"
  have "card ?L \<le> card (?L - firsts b i) + card (?L \<inter> firsts b i)"
    using card_Un_le [of "?L - firsts b i" "?L \<inter> firsts b i"] by (simp add: Un_Diff_Int)
  also have "card (?L - firsts b i) \<le> card ?F"
    using retries_at_level [OF assms(1,2), of i "int n"] Suc.IH by (simp add: add.commute)
  also have "card ?F + card (?L \<inter> firsts b i) = card (?F \<union> (?L \<inter> firsts b i))"
    by (rule card_Un_disjoint [symmetric]) (use firsts_finite [OF assms(2)] in \<open>auto simp: at_level_def\<close>)
  also have "\<dots> \<le> card (firsts b i \<inter> (\<Union>k\<le>Suc n. at_level b i (int k)))"
    using firsts_finite [OF assms(2), of i] by (intro card_mono) (auto simp: le_Suc_eq)
  finally show ?case by simp
qed

definition attempts_for :: "board \<Rightarrow> incident_identity \<Rightarrow> string set" where
  "attempts_for b i = {j. \<exists>a. bo_actions b j = Some a \<and> rr_incident (ac_request a) = i}"

lemma reservations_bound:
  assumes "board_ok cap b" "\<And>j a. bo_actions b j = Some a \<Longrightarrow> valid_action a"
  shows "int (card (attempts_for b i)) \<le> (MAX_ATTEMPTS + 1) * max 0 cap"
proof -
  have ok: "lineage_ok b" "finite (dom (bo_actions b))" "int (card (firsts b i)) \<le> max 0 cap"
    using assms(1) order_trans unfolding board_ok_def slots_ok_def by blast+
  have range: "0 \<le> ac_retry_attempt a \<and> ac_retry_attempt a \<le> 3 \<and> (ac_retry_of a \<noteq> None \<longrightarrow> 1 \<le> ac_retry_attempt a)"
    if "bo_actions b j = Some a" for j a
    using assms(2) [OF that] by (auto simp: valid_action_def valid_lineage_def MAX_ATTEMPTS_def)
  have level: "card (at_level b i (int n)) \<le> card (firsts b i)" for n
  proof (rule order_trans [OF level_bound [OF ok(1,2)]])
    show "card (firsts b i \<inter> (\<Union>k\<le>n. at_level b i (int k))) \<le> card (firsts b i)"
      by (rule card_mono [OF firsts_finite [OF ok(2)]]) auto
  qed (use range in blast)
  have "attempts_for b i \<subseteq> (\<Union>n\<in>{0, 1, 2, 3}. at_level b i (int n))"
  proof
    fix j assume "j \<in> attempts_for b i"
    then obtain a where a: "bo_actions b j = Some a" "rr_incident (ac_request a) = i" by (auto simp: attempts_for_def)
    then have "ac_retry_attempt a \<in> {0, 1, 2, 3}" using range [OF a(1)] by auto
    with a show "j \<in> (\<Union>n\<in>{0, 1, 2, 3}. at_level b i (int n))" by (auto simp: at_level_def)
  qed
  then have "card (attempts_for b i) \<le> card (\<Union>n\<in>{0::nat, 1, 2, 3}. at_level b i (int n))"
    by (rule card_mono [rotated]) (simp add: at_level_finite [OF ok(2)])
  also have "\<dots> \<le> (\<Sum>n\<in>{0::nat, 1, 2, 3}. card (at_level b i (int n)))" by (rule card_UN_le) simp
  also have "\<dots> \<le> 4 * card (firsts b i)" using level [of 0] level [of 1] level [of 2] level [of 3] by simp
  finally show ?thesis using ok(3) by (simp add: MAX_ATTEMPTS_def)
qed

section \<open>Histories of the engine\<close>

text \<open>The identifiers of the reservation requests of a history; \<open>stable_id\<close> must tell them apart.\<close>

definition asked :: "(view \<times> mon_call) list \<Rightarrow> string list" where
  "asked xs = concat (map (\<lambda>(_, c). case c of Call_Reserve r \<Rightarrow> [rr_id r] | _ \<Rightarrow> []) xs)"

definition distinct_names :: "monitor \<Rightarrow> (view \<times> mon_call) list \<Rightarrow> bool" where
  "distinct_names mo xs \<longleftrightarrow> inj_on (\<lambda>i. mo_id mo (''action:'' @ i)) (set (asked xs))"

definition sound :: "monitor \<Rightarrow> string set \<Rightarrow> mon_store \<Rightarrow> bool" where
  "sound mo I s \<longleftrightarrow>
     filed mo s \<and> works_ok s \<and> (\<forall>i. map_of (ms_receipts s) (Op_Reserve, i) \<noteq> None \<longrightarrow> i \<in> I)"

lemma filed_receipt:
  "filed mo s \<Longrightarrow> map_of (ms_actions s) j = Some a \<Longrightarrow>
     map_of (ms_receipts s) (Op_Reserve, rr_id (ac_request a)) \<noteq> None"
  unfolding filed_def by blast

lemma reserve_key: "receipt_key mo c = Some ((Op_Reserve, i), y) \<Longrightarrow> \<exists>r. c = Call_Reserve r \<and> rr_id r = i"
  by (cases c) (auto split: option.splits)

lemma step_sound:
  assumes "sound mo I s" "set (asked [x]) \<subseteq> I"
  shows "sound mo I (snd (mon_step mo x s))"
proof -
  have f: "filed mo s" "works_ok s" using assms(1) by (simp_all add: sound_def)
  show ?thesis
  proof (cases rule: mon_step_cases [of mo x s])
    case 1
    with assms(1) show ?thesis by simp
  next
    case (2 vw c r s1)
    have p: "plays mo c s s1" by (rule body_plays [OF f(1) 2(4)])
    have "\<not> asks_for c i" for i using 2(5) by (cases c) (auto simp: asks_for_def)
    then have "filed mo s1" using p f(1) unfolding plays_def filed_def by (metis option.inject)
    with p f(2) assms(1) 2(6) show ?thesis by (auto simp: sound_def plays_def intro: works_ok_orderly)
  next
    case (3 vw c r s1 k y)
    have p: "plays mo c s s1" by (rule body_plays [OF f(1) 3(4)])
    let ?s = "snd (mon_step mo x s)"
    have rc: "map_of (ms_receipts ?s) j = (if j = k then Some (mo_fingerprint mo y, r) else map_of (ms_receipts s) j)" for j
      using p 3(7) by (simp add: plays_def)
    have "named mo a j \<and> map_of (ms_receipts ?s) (Op_Reserve, rr_id (ac_request a)) \<noteq> None"
      if "map_of (ms_actions ?s) j = Some a" for j a
    proof -
      have a: "map_of (ms_actions s1) j = Some a" using that 3(7) by simp
      have n: "named mo a j" "asks_for c (rr_id (ac_request a)) \<or>
          (\<exists>b. map_of (ms_actions s) j = Some b \<and> ac_request b = ac_request a)"
        using p a by (auto simp: plays_def)
      from n(2) have "map_of (ms_receipts ?s) (Op_Reserve, rr_id (ac_request a)) \<noteq> None"
      proof
        assume "asks_for c (rr_id (ac_request a))"
        then have "k = (Op_Reserve, rr_id (ac_request a))" using 3(5) by (cases c) (auto simp: asks_for_def)
        then show ?thesis by (simp add: rc)
      next
        assume "\<exists>b. map_of (ms_actions s) j = Some b \<and> ac_request b = ac_request a"
        then have "map_of (ms_receipts s) (Op_Reserve, rr_id (ac_request a)) \<noteq> None"
          using filed_receipt [OF f(1)] by metis
        then show ?thesis by (simp add: rc)
      qed
      with n(1) show ?thesis by simp
    qed
    then have "filed mo ?s" by (simp add: filed_def)
    moreover have "works_ok s1" using p f(2) by (auto simp: plays_def intro: works_ok_orderly)
    then have "works_ok ?s" by (simp add: 3(7) works_ok_def)
    moreover have "i \<in> I" if "map_of (ms_receipts ?s) (Op_Reserve, i) \<noteq> None" for i
    proof (cases "k = (Op_Reserve, i)")
      case True
      with 3(5) reserve_key [of mo c i y] obtain rq where "c = Call_Reserve rq" "rr_id rq = i" by auto
      with assms(2) 3(1) show ?thesis by (simp add: asked_def)
    next
      case False
      with that have "map_of (ms_receipts s) (Op_Reserve, i) \<noteq> None" by (simp add: rc)
      with assms(1) show ?thesis unfolding sound_def by blast
    qed
    ultimately show ?thesis by (simp add: sound_def)
  qed
qed

lemma step_board:
  assumes "sound mo I s" "set (asked [x]) \<subseteq> I" "inj_on (\<lambda>i. mo_id mo (''action:'' @ i)) I"
  shows "board_step (max_write_actions (mo_policy mo)) (board_of s) (board_of (snd (mon_step mo x s)))"
proof -
  have f: "filed mo s" using assms(1) by (simp add: sound_def)
  show ?thesis
  proof (cases rule: mon_step_cases [of mo x s])
    case 1
    then show ?thesis by (simp add: board_step.Rest)
  next
    case (2 vw c r s1)
    have "fresh_name mo c s" using 2(5) by (cases c) (auto simp: fresh_name_def)
    with body_plays [OF f 2(4)] 2(6) show ?thesis by (simp add: plays_def)
  next
    case (3 vw c r s1 k y)
    have "fresh_name mo c s"
    proof (cases c)
      case (Call_Reserve rq)
      have "map_of (ms_actions s) (mo_id mo (''action:'' @ rr_id rq)) = None"
      proof (rule ccontr)
        assume "map_of (ms_actions s) (mo_id mo (''action:'' @ rr_id rq)) \<noteq> None"
        then obtain a where a: "map_of (ms_actions s) (mo_id mo (''action:'' @ rr_id rq)) = Some a" by auto
        then have n: "mo_id mo (''action:'' @ rr_id rq) = mo_id mo (''action:'' @ rr_id (ac_request a))"
            "map_of (ms_receipts s) (Op_Reserve, rr_id (ac_request a)) \<noteq> None"
          using f by (auto simp: filed_def named_def)
        have "rr_id (ac_request a) \<in> I" using n(2) assms(1) by (auto simp: sound_def)
        moreover have "rr_id rq \<in> I" using assms(2) 3(1) Call_Reserve by (simp add: asked_def)
        ultimately have "rr_id rq = rr_id (ac_request a)"
          using inj_onD [OF assms(3), of "rr_id rq" "rr_id (ac_request a)"] n(1) by blast
        with n(2) 3(5,6) Call_Reserve show False by simp
      qed
      with Call_Reserve show ?thesis by (simp add: fresh_name_def)
    qed (simp_all add: fresh_name_def)
    with body_plays [OF f 3(4)] 3(7) show ?thesis by (simp add: plays_def board_of_def slots_used_def)
  qed
qed

lemma asked_append [simp]: "asked (xs @ ys) = asked xs @ asked ys"
  by (simp add: asked_def)

lemma asked_Cons: "asked (x # xs) = asked [x] @ asked xs"
  by (simp add: asked_def)

lemma run_sound:
  "sound mo I s \<Longrightarrow> set (asked xs) \<subseteq> I \<Longrightarrow> sound mo I (run (mon_step mo) xs s)"
proof (induction xs arbitrary: s)
  case (Cons x xs)
  then show ?case using step_sound [of mo I s x] by (simp add: asked_Cons [of x xs])
qed simp

lemma run_board_ok:
  assumes "inj_on (\<lambda>i. mo_id mo (''action:'' @ i)) I"
  shows "sound mo I s \<Longrightarrow> board_ok (max_write_actions (mo_policy mo)) (board_of s) \<Longrightarrow> set (asked xs) \<subseteq> I \<Longrightarrow>
    board_ok (max_write_actions (mo_policy mo)) (board_of (run (mon_step mo) xs s))"
proof (induction xs arbitrary: s)
  case (Cons x xs)
  have x: "set (asked [x]) \<subseteq> I" "set (asked xs) \<subseteq> I" using Cons.prems(3) by (simp_all add: asked_Cons [of x xs])
  show ?case
    using Cons.IH [OF step_sound [OF Cons.prems(1) x(1)] board_step_ok [OF step_board [OF Cons.prems(1) x(1) assms] Cons.prems(2)] x(2)]
    by simp
qed simp

lemma empty_sound: "sound mo I empty_store"
  by (simp add: sound_def filed_def works_ok_def empty_store_def)

lemma empty_board_ok: "board_ok cap (board_of empty_store)"
  by (simp add: board_ok_def owners_ok_def lineage_ok_def slots_ok_def firsts_def board_of_def empty_store_def slots_used_def)

lemma history_sound: "sound mo (set (asked xs)) (run (mon_step mo) xs empty_store)"
  by (rule run_sound [OF empty_sound]) simp

lemma history_board_ok:
  "distinct_names mo xs \<Longrightarrow> board_ok (max_write_actions (mo_policy mo)) (board_of (run (mon_step mo) xs empty_store))"
  unfolding distinct_names_def by (rule run_board_ok [OF _ empty_sound empty_board_ok]) auto

lemma history_filed: "map_of (ms_actions (run (mon_step mo) xs empty_store)) j = Some a \<Longrightarrow> named mo a j"
  using history_sound [of mo xs] by (auto simp: sound_def filed_def)

end
