(* ===== verification/Monitor_Executions.thy ===== *)
theory Monitor_Executions
  imports Pipeline_Actions Monitor_Guarantees
begin

text \<open>
  \<^verbatim>\<open>src/src/triage/monitoring/controller.py\<close>: a controller's execution of one work item
  over the engine. Each operation is a program over the execution's own fields and the
  store; each call of the store is one transaction, before which other processes may have
  made any calls of theirs. An exception keeps what was changed before it. The Power BI and
  Fabric clients are records of replies, \<open>None\<close> where a call raises. Free texts
  (details and prose) are left out.
\<close>

section \<open>Programs\<close>

datatype trouble = Store_Trouble fault | Other_Trouble

record desk =
  dk_work :: work
  dk_incident :: incident_identity
  dk_observation :: "observation option"
  dk_reservation :: "mon_act option"
  dk_broken :: "trouble option"
  dk_tick :: nat
  dk_store :: mon_store
  dk_posts :: "string list"

text \<open>
  The surroundings of an execution: the registry and the clock of the store at each
  transaction, the clock of the process, the calls that other processes make before it, and
  the functions that name, canonicalise and digest (\<open>stable_id\<close>, \<open>canonical_id\<close>, \<open>fixture_id\<close>,
  the fingerprint of a proposal, the name of a check, Python's \<open>str\<close> of a JSON value).
\<close>

record proposal =
  pq_action :: mon_action
  pq_arguments :: "(string, json) dict"
  pq_id :: string
  pq_work :: string
  pq_target :: target
  pq_source :: execution

record surroundings =
  sx_view :: "nat \<Rightarrow> view"
  sx_clock :: "nat \<Rightarrow> instant"
  sx_others :: "nat \<Rightarrow> (view \<times> mon_call) list"
  sx_fixture :: bool
  sx_id :: "string \<Rightarrow> string"
  sx_canonical :: "string \<Rightarrow> string option"
  sx_label :: "string \<Rightarrow> string \<Rightarrow> string"
  sx_seal :: "proposal \<Rightarrow> string"
  sx_check :: "string \<Rightarrow> int \<Rightarrow> instant \<Rightarrow> string"
  sx_text :: "json \<Rightarrow> string"
  sx_key :: "execution \<Rightarrow> string"

type_synonym 'a shift = "desk \<Rightarrow> (trouble + 'a) \<times> desk"

definition seq :: "'a shift \<Rightarrow> ('a \<Rightarrow> 'b shift) \<Rightarrow> 'b shift" where
  "seq t f d = (case t d of (Inl e, d') \<Rightarrow> (Inl e, d') | (Inr x, d') \<Rightarrow> f x d')"

definition give :: "'a \<Rightarrow> 'a shift" where
  "give x d = (Inr x, d)"

definition fail :: "trouble \<Rightarrow> 'a shift" where
  "fail e d = (Inl e, d)"

definition look :: "(desk \<Rightarrow> 'a) \<Rightarrow> 'a shift" where
  "look f d = (Inr (f d), d)"

definition tell :: "(desk \<Rightarrow> desk) \<Rightarrow> unit shift" where
  "tell f d = (Inr (), f d)"

definition conflict :: "'a shift" where
  "conflict = fail (Store_Trouble Mon_Conflict)"

text \<open>Other processes go first, then the transaction.\<close>

definition pass :: "monitor \<Rightarrow> surroundings \<Rightarrow> desk \<Rightarrow> desk" where
  "pass mo sx d = d\<lparr>dk_store := run (mon_step mo) (sx_others sx (dk_tick d)) (dk_store d), dk_tick := dk_tick d + 1\<rparr>"

definition fetch :: "monitor \<Rightarrow> surroundings \<Rightarrow> (view \<Rightarrow> mon_store \<Rightarrow> 'a) \<Rightarrow> 'a shift" where
  "fetch mo sx f d = (let d1 = pass mo sx d in (Inr (f (sx_view sx (dk_tick d)) (dk_store d1)), d1))"

definition invoke :: "monitor \<Rightarrow> surroundings \<Rightarrow> mon_call \<Rightarrow> mon_reply shift" where
  "invoke mo sx c d =
     (let d1 = pass mo sx d
      in case mon_step mo (sx_view sx (dk_tick d), c) (dk_store d1) of
           (Inl e, s) \<Rightarrow> (Inl (Store_Trouble e), d1\<lparr>dk_store := s\<rparr>)
         | (Inr r, s) \<Rightarrow> (Inr r, d1\<lparr>dk_store := s\<rparr>))"

text \<open>What the store refuses is kept as the \<open>persistence_error\<close> of the execution.\<close>

definition journal :: "'a shift \<Rightarrow> 'a shift" where
  "journal t d = (case t d of (Inl e, d') \<Rightarrow> (Inl e, d'\<lparr>dk_broken := Some e\<rparr>) | r \<Rightarrow> r)"

text \<open>A request is validated when it is built, outside the handler.\<close>

definition drafted :: "monitor \<Rightarrow> mon_call \<Rightarrow> unit shift" where
  "drafted mo c = (if valid_call mo c then give () else fail Other_Trouble)"

definition clock :: "surroundings \<Rightarrow> instant shift" where
  "clock sx = look (\<lambda>d. sx_clock sx (dk_tick d))"

section \<open>Ownership and admission\<close>

definition lease_token :: "lease \<Rightarrow> string \<times> int" where
  "lease_token l = (ls_owner l, ls_fence l)"

definition current_work :: "monitor \<Rightarrow> surroundings \<Rightarrow> work shift" where
  "current_work mo sx =
     seq (look dk_work) (\<lambda>w.
     seq (fetch mo sx (\<lambda>_ s. map_of (ms_works s) (wk_id w))) (\<lambda>c.
     case (c, Option.bind c wk_lease, wk_lease w) of
       (Some cur, Some l, Some mine) \<Rightarrow>
         if lease_token l \<noteq> lease_token mine then fail (Store_Trouble Lease_Lost)
         else seq (tell (\<lambda>d. d\<lparr>dk_work := cur\<rparr>)) (\<lambda>_. give cur)
     | _ \<Rightarrow> fail (Store_Trouble Lease_Lost)))"

definition current_target :: "monitor \<Rightarrow> surroundings \<Rightarrow> mon_target shift" where
  "current_target mo sx =
     seq (look dk_incident) (\<lambda>i.
     seq (fetch mo sx (\<lambda>vw _. vw_admitted vw (ii_target i))) (\<lambda>t.
     case t of None \<Rightarrow> conflict | Some t \<Rightarrow> give t))"

definition held_lease :: "work \<Rightarrow> lease shift" where
  "held_lease w = (case wk_lease w of None \<Rightarrow> fail (Store_Trouble Lease_Lost) | Some l \<Rightarrow> give l)"

definition saved_observation :: "mon_reply \<Rightarrow> observation shift" where
  "saved_observation r = (case r of Source_Reply ob \<Rightarrow> give ob | _ \<Rightarrow> fail Other_Trouble)"

text \<open>
  The fresh read of the source: \<open>reader\<close> is what the exact reader answers (\<open>None\<close> where none
  is attached, \<open>Some None\<close> where it raises), \<open>matches\<close> whether the evidence still has the
  signature of the incident.
\<close>

definition recheck_source :: "monitor \<Rightarrow> surroundings \<Rightarrow> observation option option \<Rightarrow> (observation \<Rightarrow> bool) \<Rightarrow> unit shift" where
  "recheck_source mo sx reader matches =
     (case reader of
        None \<Rightarrow> if sx_fixture sx then give () else conflict
      | Some None \<Rightarrow> fail Other_Trouble
      | Some (Some ob) \<Rightarrow>
          seq (look dk_incident) (\<lambda>i.
          if tg_workload (ii_target i) = Power_BI \<and> \<not> matches ob then conflict
          else seq (current_work mo sx) (\<lambda>w. seq (held_lease w) (\<lambda>l.
               seq (journal (invoke mo sx (Call_Observe ob (wk_id w) l))) (\<lambda>r. seq (saved_observation r) (\<lambda>ob'.
               tell (\<lambda>d. d\<lparr>dk_observation := Some ob'\<rparr>)))))))"

text \<open>The healthy refresh that justifies restoring a schedule; \<open>span\<close> are the times of its row, where it has them.\<close>

definition observe_successful_refresh ::
    "monitor \<Rightarrow> surroundings \<Rightarrow> string \<Rightarrow> string option \<Rightarrow> (instant \<times> instant) option \<Rightarrow> bool \<Rightarrow> unit shift" where
  "observe_successful_refresh mo sx status run_id span scheduled =
     (if status \<noteq> ''Completed'' then conflict
      else case (Option.bind run_id (sx_canonical sx), span) of
        (Some i, Some (b, e)) \<Rightarrow>
          seq (look dk_incident) (\<lambda>inc. seq (clock sx) (\<lambda>now.
          let ob = \<lparr>ob_execution = \<lparr>ex_target = ii_target inc, ex_kind = Powerbi_Request, ex_run_id = i\<rparr>, ob_authority = Rest,
                    ob_observed_at = now, ob_started = Some b, ob_ended = Some e, ob_status = Succeeded,
                    ob_invocation = (if scheduled then Scheduled else Manual), ob_job_type = [], ob_truncated = False\<rparr>
          in if \<not> valid_observation ob then conflict
             else seq (current_work mo sx) (\<lambda>w. seq (held_lease w) (\<lambda>l.
                  seq (journal (invoke mo sx (Call_Observe ob (wk_id w) l))) (\<lambda>_. give ())))))
      | _ \<Rightarrow> conflict)"

section \<open>Approvals\<close>

definition text_of :: "surroundings \<Rightarrow> (string, json) dict \<Rightarrow> string \<Rightarrow> string" where
  "text_of sx args k = (case map_of args k of None \<Rightarrow> [] | Some v \<Rightarrow> sx_text sx v)"

definition reviewed_configuration :: "monitor \<Rightarrow> surroundings \<Rightarrow> (string, json) dict shift" where
  "reviewed_configuration mo sx =
     seq (current_target mo sx) (\<lambda>t.
     seq (case mt_review t of None \<Rightarrow> give None | Some i \<Rightarrow> fetch mo sx (\<lambda>vw _. vw_review vw i)) (\<lambda>rv.
     case Option.bind rv sr_parameters of None \<Rightarrow> conflict | Some ps \<Rightarrow> give ps))"

definition proposed_arguments :: "monitor \<Rightarrow> surroundings \<Rightarrow> mon_action \<Rightarrow> (string, json) dict \<Rightarrow> (string, json) dict shift" where
  "proposed_arguments mo sx a args =
     (if \<not> is_configuration a then give args
      else seq (reviewed_configuration mo sx) (\<lambda>ps.
        let raw = text_of sx args ''target_gateway'';
            gateway = (if sx_fixture sx then sx_label sx ''gateway'' raw else raw)
        in if a = Mon_Rebind \<and> map_of ps ''gateway_id'' \<noteq> Some (JStr gateway) then conflict
           else give [(''justification'', JStr (text_of sx args ''justification'')), (''configuration'', JObj ps)]))"

definition work_proposal :: "monitor \<Rightarrow> surroundings \<Rightarrow> mon_action \<Rightarrow> (string, json) dict \<Rightarrow> proposal shift" where
  "work_proposal mo sx a args =
     seq (proposed_arguments mo sx a args) (\<lambda>args'.
     seq (look dk_work) (\<lambda>w. seq (look dk_incident) (\<lambda>i.
     give \<lparr>pq_action = a, pq_arguments = args',
           pq_id = sx_id sx (wk_id w @ '':approval:'' @ action_name (action_tool a)),
           pq_work = wk_id w, pq_target = ii_target i, pq_source = wk_execution w\<rparr>)))"

text \<open>\<open>valid_now\<close> is \<open>ApprovalDecision.is_valid_for\<close> at the clock of the process.\<close>

definition approval_reference :: "monitor \<Rightarrow> surroundings \<Rightarrow> proposal \<Rightarrow> (instant \<Rightarrow> bool) \<Rightarrow> (string \<times> string) shift" where
  "approval_reference mo sx p valid_now =
     seq (fetch mo sx (\<lambda>_ s. map_of (ms_approvals s) (pq_id p))) (\<lambda>row.
     case row of
       None \<Rightarrow> conflict
     | Some r \<Rightarrow>
         seq (clock sx) (\<lambda>now.
         if ar_fingerprint r \<noteq> sx_seal sx p \<or> ar_decision r \<noteq> ''approve'' \<or> ar_consumed_at r \<noteq> No_Stamp
            \<or> \<not> valid_now now \<or> ar_responder r = [] then conflict
         else give (pq_id p, sx_seal sx p)))"

section \<open>Reservation\<close>

fun action_kind :: "action \<Rightarrow> mon_action option" where
  "action_kind Refresh_Dataset = Some Mon_Refresh"
| "action_kind Rerun_Pipeline = Some Mon_Rerun"
| "action_kind Rebind_Gateway = Some Mon_Rebind"
| "action_kind Reenable_Schedule = Some Mon_Reenable"
| "action_kind _ = None"

datatype reserve_refusal =
    Unsupported_Action | Other_Action_Reviewed | No_Review_Authorizes | Review_Unverifiable
  | Parameters_Differ | Configuration_Differs | Schedule_Not_Reviewed

definition arguments_differ :: "mon_action \<Rightarrow> (string, json) dict \<Rightarrow> review \<Rightarrow> string \<Rightarrow> reserve_refusal option" where
  "arguments_differ a args rv h =
     (if a = Mon_Rerun \<and> map_of args ''parameter_hash'' \<noteq> Some (JStr h) then Some Parameters_Differ
      else if is_configuration a \<and> map_of args ''configuration'' \<noteq> map_option JObj (sr_parameters rv) then Some Configuration_Differs
      else if a = Mon_Reenable \<and> Option.bind (sr_parameters rv) (\<lambda>ps. map_of ps ''enabled'') \<noteq> Some (JBool True)
      then Some Schedule_Not_Reviewed
      else None)"

definition reservation_name :: "surroundings \<Rightarrow> work \<Rightarrow> action \<Rightarrow> string" where
  "reservation_name sx w tool = sx_id sx (wk_id w @ '':action:'' @ action_name tool)"

definition intended :: "surroundings \<Rightarrow> work \<Rightarrow> lease \<Rightarrow> action \<Rightarrow> mon_action \<Rightarrow> int \<Rightarrow> review \<Rightarrow> string \<Rightarrow> int \<Rightarrow> incident_identity
    \<Rightarrow> int \<Rightarrow> (string \<times> string) option \<Rightarrow> (string, json) dict \<Rightarrow> reservation_request" where
  "intended sx w l tool a pol rv h n i m approval args =
     \<lparr>rr_id = reservation_name sx w tool, rr_expected = pol, rr_work = wk_id w, rr_lease = l,
      rr_source = wk_execution w, rr_incident = i, rr_incident_revision = m, rr_action = a,
      rr_review = sr_id rv, rr_review_revision = n, rr_definition_hash = sr_definition_hash rv,
      rr_configuration_hash = sr_configuration_hash rv, rr_parameter_hash = h, rr_arguments = args,
      rr_approval = approval\<rparr>"

definition reservation_for :: "monitor \<Rightarrow> surroundings \<Rightarrow> action \<Rightarrow> (string \<times> string) option \<Rightarrow> (string, json) dict
    \<Rightarrow> (reserve_refusal + reservation_request) shift" where
  "reservation_for mo sx tool approval args =
     (case action_kind tool of
        None \<Rightarrow> give (Inl Unsupported_Action)
      | Some a \<Rightarrow>
          seq (current_work mo sx) (\<lambda>w.
          seq (current_target mo sx) (\<lambda>t.
          seq (fetch mo sx (\<lambda>vw _. vw_revision vw)) (\<lambda>pol.
          seq (held_lease w) (\<lambda>l.
          if \<not> mt_enabled t \<or> mt_action t \<noteq> Some a then give (Inl Other_Action_Reviewed)
          else case (mt_review t, mt_review_revision t) of
            (Some i, Some n) \<Rightarrow>
              seq (fetch mo sx (\<lambda>vw _. vw_review vw i)) (\<lambda>rv.
              case (rv, Option.bind rv sr_parameter_hash) of
                (Some v, Some h) \<Rightarrow>
                  (case arguments_differ a args v h of
                     Some e \<Rightarrow> give (Inl e)
                   | None \<Rightarrow>
                       seq (look dk_incident) (\<lambda>inc.
                       seq (fetch mo sx (\<lambda>_ s. case map_of (ms_states s) inc of None \<Rightarrow> 0 | Some st \<Rightarrow> is_revision st)) (\<lambda>m.
                       let r = intended sx w l tool a pol v h n inc m approval args
                       in seq (drafted mo (Call_Reserve r)) (\<lambda>_. give (Inr r)))))
              | _ \<Rightarrow> give (Inl Review_Unverifiable))
          | _ \<Rightarrow> give (Inl No_Review_Authorizes))))))"

definition bind_proposal :: "monitor \<Rightarrow> surroundings \<Rightarrow> action \<Rightarrow> proposal \<Rightarrow> unit shift" where
  "bind_proposal mo sx tool p =
     seq (reservation_for mo sx tool (Some (pq_id p, sx_seal sx p)) (pq_arguments p)) (\<lambda>q.
     case q of
       Inl _ \<Rightarrow> conflict
     | Inr r \<Rightarrow> seq (journal (invoke mo sx (Call_Bind r))) (\<lambda>_. give ()))"

datatype grant =
    Granted | Prior_Reservation | Prior_Denial denial | Refused_Here reserve_refusal | Denied_There denial

definition reserve_fresh :: "monitor \<Rightarrow> surroundings \<Rightarrow> action \<Rightarrow> (string \<times> string) option \<Rightarrow> (string, json) dict \<Rightarrow> grant shift" where
  "reserve_fresh mo sx tool approval args =
     seq (reservation_for mo sx tool approval args) (\<lambda>q.
     case q of
       Inl e \<Rightarrow> give (Refused_Here e)
     | Inr r \<Rightarrow>
         seq (journal (invoke mo sx (Call_Reserve r))) (\<lambda>rep.
         case rep of
           Decision_Reply (decision.Reserved a) \<Rightarrow> seq (tell (\<lambda>d. d\<lparr>dk_reservation := Some a\<rparr>)) (\<lambda>_. give Granted)
         | Decision_Reply (Denied e) \<Rightarrow> give (Denied_There e)
         | _ \<Rightarrow> fail Other_Trouble))"

definition reserve :: "monitor \<Rightarrow> surroundings \<Rightarrow> action \<Rightarrow> (string \<times> string) option \<Rightarrow> (string, json) dict \<Rightarrow> grant shift" where
  "reserve mo sx tool approval args =
     seq (look dk_work) (\<lambda>w.
     seq (fetch mo sx (\<lambda>_ s. map_option snd (map_of (ms_receipts s) (Op_Reserve, reservation_name sx w tool)))) (\<lambda>prior.
     case prior of
       None \<Rightarrow> reserve_fresh mo sx tool approval args
     | Some (Decision_Reply (decision.Reserved a)) \<Rightarrow>
         seq (fetch mo sx (\<lambda>_ s. map_of (ms_actions s) (ac_id a))) (\<lambda>b.
         seq (tell (\<lambda>d. d\<lparr>dk_reservation := b\<rparr>)) (\<lambda>_. give Prior_Reservation))
     | Some (Decision_Reply (Denied e)) \<Rightarrow> give (Prior_Denial e)
     | Some _ \<Rightarrow> fail Other_Trouble))"

text \<open>A deferred retry of the same source, enqueued under a name of its own.\<close>

definition schedule_retry :: "monitor \<Rightarrow> surroundings \<Rightarrow> int \<Rightarrow> instant \<Rightarrow> work shift" where
  "schedule_retry mo sx pol due_time =
     seq (current_work mo sx) (\<lambda>w. seq (clock sx) (\<lambda>now.
     let c = Call_Enqueue \<lparr>wk_id = sx_id sx (sx_key sx (wk_execution w) @ '':deferred-retry''), wk_kind = Retry_Kind, wk_policy_revision = pol,
               wk_due = due_time, wk_created = now, wk_target = ex_target (wk_execution w),
               wk_execution = wk_execution w, wk_reservation = None\<rparr>
     in seq (journal (seq (drafted mo c) (\<lambda>_. invoke mo sx c))) (\<lambda>r.
        case r of Work_Reply q \<Rightarrow> give q | _ \<Rightarrow> fail Other_Trouble)))"

section \<open>Submission and verification\<close>

datatype submission_state = Not_Submitted | Accepted | Unclear | Turned_Down

record service_outcome =
  so_status :: string
  so_request_id :: string
  so_retry_after :: int
  so_state :: submission_state
  so_configuration :: "(string, json) dict"

definition lost_outcome :: service_outcome where
  "lost_outcome = \<lparr>so_status = ''Unknown'', so_request_id = [], so_retry_after = 0, so_state = Unclear, so_configuration = []\<rparr>"

definition unclear :: "service_outcome \<Rightarrow> service_outcome" where
  "unclear o' = o'\<lparr>so_status := ''Unknown'', so_state := Unclear\<rparr>"

text \<open>A row of the refresh history: its request, its status and its times, where they can be read.\<close>

record history_row =
  hr_request :: string
  hr_status :: string
  hr_times :: "(instant \<times> instant) option"

text \<open>
  The Power BI client during one operation. \<open>pb_known\<close> are the requests of the fixture's
  own history.
\<close>

record service =
  pb_submit :: "service_outcome option"
  pb_verify :: "service_outcome option"
  pb_history :: "history_row list option"
  pb_known :: "string list"
  pb_configure :: "service_outcome option"
  pb_readback :: "service_outcome option"

record pipeline_service =
  fb_rerun :: "pipeline_submission option"
  fb_run :: "pipeline_run option"
  fb_activities :: "pipeline_activity list option"

definition the_reservation :: "mon_act shift" where
  "the_reservation = seq (look dk_reservation) (\<lambda>a. case a of None \<Rightarrow> conflict | Some a \<Rightarrow> give a)"

definition keep_action :: "mon_reply \<Rightarrow> mon_act shift" where
  "keep_action r =
     (case r of
        Action_Reply a \<Rightarrow> seq (tell (\<lambda>d. d\<lparr>dk_reservation := Some a\<rparr>)) (\<lambda>_. give a)
      | _ \<Rightarrow> fail Other_Trouble)"

definition action_commit :: "monitor \<Rightarrow> surroundings \<Rightarrow> commit shift" where
  "action_commit mo sx =
     seq (current_work mo sx) (\<lambda>w. seq (held_lease w) (\<lambda>l.
     give \<lparr>cm_work = wk_id w, cm_lease = l, cm_revision = wk_revision w\<rparr>))"

definition record_submission :: "monitor \<Rightarrow> surroundings \<Rightarrow> execution option \<Rightarrow> mon_action option \<Rightarrow> instant option \<Rightarrow> int \<Rightarrow> mon_act shift" where
  "record_submission mo sx e conf at wait =
     seq the_reservation (\<lambda>a. seq (clock sx) (\<lambda>t.
     let now = max t (ac_reserved_at a);
         r = \<lparr>sb_id = sx_id sx (ac_id a @ '':submission''), sb_reservation = ac_id a, sb_revision = ac_revision a,
              sb_fence = ac_fence a, sb_certain = (e \<noteq> None \<or> conf \<noteq> None), sb_execution = e,
              sb_configuration = conf, sb_correlation = map_option (\<lambda>_. Response_Run_Id) e,
              sb_submitted_at = (case at of None \<Rightarrow> now | Some b \<Rightarrow> b),
              sb_next_verification = now + seconds (max 0 wait)\<rparr>
     in seq (drafted mo (Call_Submit r None)) (\<lambda>_.
        seq (journal (seq (action_commit mo sx) (\<lambda>c. invoke mo sx (Call_Submit r (Some c))))) keep_action)))"

definition record_rejection :: "monitor \<Rightarrow> surroundings \<Rightarrow> service_outcome \<Rightarrow> instant \<Rightarrow> mon_act shift" where
  "record_rejection mo sx o' began =
     seq the_reservation (\<lambda>a. seq (current_work mo sx) (\<lambda>w. seq (held_lease w) (\<lambda>l. seq (clock sx) (\<lambda>now.
     let r = \<lparr>rx_id = sx_id sx (ac_id a @ '':rejection''), rx_reservation = ac_id a, rx_revision = ac_revision a,
              rx_fence = ac_fence a, rx_work = wk_id w, rx_lease = l,
              rx_evidence = \<lparr>rj_reason = (if so_status o' = ''Throttled'' then Throttled else Client_Error),
                rj_attempted = began, rj_rejected = now, rj_retry_after = so_retry_after o'\<rparr>\<rparr>
     in seq (drafted mo (Call_Reject r)) (\<lambda>_. seq (journal (invoke mo sx (Call_Reject r))) keep_action)))))"

text \<open>\<open>rejected_outcome\<close>\<close>

definition rejected_answer :: "service_outcome shift" where
  "rejected_answer =
     seq the_reservation (\<lambda>a.
     case ac_rejection a of
       None \<Rightarrow> conflict
     | Some e \<Rightarrow>
         if ac_state a \<noteq> Act_Rejected then conflict
         else give (lost_outcome\<lparr>so_status := (if rj_reason e = Throttled then ''Throttled'' else ''Failed''),
                                 so_state := Turned_Down, so_retry_after := rj_retry_after e\<rparr>))"

definition found :: "bool option \<Rightarrow> finding_of_check" where
  "found b = (case b of None \<Rightarrow> Check_Uncertain | Some True \<Rightarrow> Check_Succeeded | Some False \<Rightarrow> Check_Failed)"

definition record_check :: "monitor \<Rightarrow> surroundings \<Rightarrow> observation option \<Rightarrow> bool option \<Rightarrow> string list \<Rightarrow> bool \<Rightarrow> configuration option \<Rightarrow> mon_act shift" where
  "record_check mo sx ob verdict acts complete conf =
     seq the_reservation (\<lambda>a. seq (clock sx) (\<lambda>now.
     let r = \<lparr>ou_id = sx_check sx (ac_id a) (ac_revision a) now, ou_reservation = ac_id a, ou_revision = ac_revision a,
              ou_fence = ac_fence a, ou_disposition = found verdict, ou_execution = ac_submitted a,
              ou_observation = ob, ou_configuration = conf, ou_activities = acts, ou_complete = complete,
              ou_observed_at = now\<rparr>
     in seq (drafted mo (Call_Outcome r None)) (\<lambda>_.
        seq (journal (seq (action_commit mo sx) (\<lambda>c. invoke mo sx (Call_Outcome r (Some c))))) keep_action)))"

definition waiting :: "mon_act \<Rightarrow> instant \<Rightarrow> bool" where
  "waiting a now \<longleftrightarrow> (case ac_next_verification a of None \<Rightarrow> False | Some t \<Rightarrow> now < t)"

text \<open>The request of the service that an execution stands for: itself, or the one fixture label of it.\<close>

definition service_request :: "surroundings \<Rightarrow> service \<Rightarrow> execution \<Rightarrow> string option" where
  "service_request sx pb e =
     (if \<not> sx_fixture sx then Some (ex_run_id e)
      else case filter (\<lambda>k. k \<noteq> [] \<and> sx_label sx ''refresh'' k = ex_run_id e) (pb_known pb) of [k] \<Rightarrow> Some k | _ \<Rightarrow> None)"

definition refresh_times :: "surroundings \<Rightarrow> service \<Rightarrow> mon_act \<Rightarrow> string \<Rightarrow> string \<Rightarrow> instant \<Rightarrow> (trouble + (instant \<times> instant) option)" where
  "refresh_times sx pb a i status now =
     (if sx_fixture sx then Inr (map_option (\<lambda>b. (b, now)) (ac_submitted_at a))
      else case pb_history pb of
        None \<Rightarrow> Inl Other_Trouble
      | Some rows \<Rightarrow>
          (case filter (\<lambda>h. hr_request h = i \<and> hr_status h = status) rows of
             [h] \<Rightarrow> Inr (hr_times h) | _ \<Rightarrow> Inr None))"

definition run_seen :: "surroundings \<Rightarrow> execution \<Rightarrow> instant \<Rightarrow> instant \<Rightarrow> instant \<Rightarrow> run_status \<Rightarrow> string \<Rightarrow> observation" where
  "run_seen sx e now b t st job =
     \<lparr>ob_execution = e, ob_authority = (if sx_fixture sx then Fixture_Evidence else Rest), ob_observed_at = now,
      ob_started = Some b, ob_ended = Some t, ob_status = st, ob_invocation = Manual, ob_job_type = job, ob_truncated = False\<rparr>"

definition check_refresh :: "monitor \<Rightarrow> surroundings \<Rightarrow> service \<Rightarrow> mon_act \<Rightarrow> execution \<Rightarrow> service_outcome \<Rightarrow> service_outcome shift" where
  "check_refresh mo sx pb a e res =
     (if (if sx_fixture sx then sx_label sx ''refresh'' (so_request_id res) else so_request_id res) \<noteq> ex_run_id e
      then seq (record_check mo sx None None [] False None) (\<lambda>_. give (unclear res))
      else seq (clock sx) (\<lambda>now.
        case (if so_status res = ''Completed'' \<or> so_status res = ''Failed''
              then refresh_times sx pb a (ex_run_id e) (so_status res) now else Inr None) of
          Inl x \<Rightarrow> fail x
        | Inr None \<Rightarrow> seq (record_check mo sx None None [] False None) (\<lambda>_. give (unclear res))
        | Inr (Some (b, t)) \<Rightarrow>
            let ok = (so_status res = ''Completed'');
                ob = run_seen sx e now b t (if ok then Succeeded else run_status.Failed) []
            in if \<not> valid_observation ob then fail Other_Trouble
               else seq (record_check mo sx (Some ob) (Some ok) [] False None) (\<lambda>_. give res)))"

definition verify_refresh :: "monitor \<Rightarrow> surroundings \<Rightarrow> service \<Rightarrow> service_outcome shift" where
  "verify_refresh mo sx pb =
     seq (look dk_reservation) (\<lambda>r.
     case r of
       None \<Rightarrow> give lost_outcome
     | Some a \<Rightarrow>
         if ac_state a = Act_Rejected then rejected_answer
         else case ac_submitted a of
           None \<Rightarrow> give lost_outcome
         | Some e \<Rightarrow>
             seq (clock sx) (\<lambda>now.
             if waiting a now then give (lost_outcome\<lparr>so_status := ''Submitted'', so_request_id := ex_run_id e, so_state := Accepted\<rparr>)
             else case service_request sx pb e of
               None \<Rightarrow> seq (record_check mo sx None None [] False None) (\<lambda>_. give (lost_outcome\<lparr>so_request_id := ex_run_id e\<rparr>))
             | Some i \<Rightarrow> (case pb_verify pb of None \<Rightarrow> fail Other_Trouble | Some res \<Rightarrow> check_refresh mo sx pb a e res)))"

text \<open>A new durable reservation, and the moment from which the effect may have begun.\<close>

definition fresh_reservation :: "mon_act shift" where
  "fresh_reservation = seq the_reservation (\<lambda>a. if ac_state a \<noteq> Act_Reserved then conflict else give a)"

definition starting :: "surroundings \<Rightarrow> mon_act \<Rightarrow> instant shift" where
  "starting sx a = seq (clock sx) (\<lambda>t. give (max t (ac_reserved_at a)))"

text \<open>The request to the service, after whatever others did; it is counted whatever comes of it.\<close>

definition post :: "monitor \<Rightarrow> surroundings \<Rightarrow> mon_act \<Rightarrow> unit shift" where
  "post mo sx a = tell (\<lambda>d. (pass mo sx d)\<lparr>dk_posts := dk_posts d @ [ac_id a]\<rparr>)"

definition turned_down :: "surroundings \<Rightarrow> service_outcome \<Rightarrow> bool" where
  "turned_down sx o' \<longleftrightarrow> so_state o' = Turned_Down \<and> (so_request_id o' = [] \<or> sx_fixture sx)"

definition acknowledged :: "surroundings \<Rightarrow> target \<Rightarrow> service_outcome \<Rightarrow> execution option" where
  "acknowledged sx t o' =
     (if so_state o' \<noteq> Accepted \<or> so_request_id o' = [] \<or> tg_workload t \<noteq> Power_BI then None
      else map_option (\<lambda>i. \<lparr>ex_target = t, ex_kind = Powerbi_Request, ex_run_id = i\<rparr>)
             (if sx_fixture sx then Some (sx_label sx ''refresh'' (so_request_id o')) else sx_canonical sx (so_request_id o')))"

definition refresh :: "monitor \<Rightarrow> surroundings \<Rightarrow> service \<Rightarrow> service_outcome shift" where
  "refresh mo sx pb =
     seq fresh_reservation (\<lambda>a. seq (look dk_incident) (\<lambda>i. seq (starting sx a) (\<lambda>began.
     seq (post mo sx a) (\<lambda>_.
     let o' = (case pb_submit pb of None \<Rightarrow> lost_outcome | Some x \<Rightarrow> x)
     in if turned_down sx o' then seq (record_rejection mo sx o' began) (\<lambda>_. give (o'\<lparr>so_request_id := []\<rparr>))
        else let e = acknowledged sx (ii_target i) o'
             in seq (record_submission mo sx e None (Some began) (so_retry_after o')) (\<lambda>_.
                if e = None then give (unclear o') else verify_refresh mo sx pb)))))"

definition verify_configuration :: "monitor \<Rightarrow> surroundings \<Rightarrow> service \<Rightarrow> service_outcome shift" where
  "verify_configuration mo sx pb =
     seq the_reservation (\<lambda>a.
     if ac_state a = Act_Rejected then rejected_answer
     else case (map_of (rr_arguments (ac_request a)) ''configuration'', pb_readback pb) of
       (Some (JObj _), Some o') \<Rightarrow>
         seq (clock sx) (\<lambda>now.
         let c = \<lparr>cv_target = ac_target a, cv_action = rr_action (ac_request a),
                  cv_expected_hash = reservation_request.rr_parameter_hash (ac_request a),
                  cv_values = so_configuration o', cv_observed_at = now, cv_fixture = sx_fixture sx\<rparr>;
             evidence = (if so_configuration o' = [] then None else Some c);
             verified = (so_status o' = ''Completed'' \<and> evidence \<noteq> None
                         \<and> mo_digest mo (so_configuration o') = reservation_request.rr_parameter_hash (ac_request a))
         in if evidence \<noteq> None \<and> \<not> valid_values (rr_action (ac_request a)) (so_configuration o') then fail Other_Trouble
            else seq (record_check mo sx None (if verified then Some True else None) [] False evidence) (\<lambda>_.
                 give (if verified then o' else unclear o')))
     | (Some (JObj _), None) \<Rightarrow> fail Other_Trouble
     | _ \<Rightarrow> conflict)"

definition configure :: "monitor \<Rightarrow> surroundings \<Rightarrow> service \<Rightarrow> service_outcome shift" where
  "configure mo sx pb =
     seq fresh_reservation (\<lambda>a.
     case map_of (rr_arguments (ac_request a)) ''configuration'' of
       Some (JObj desired) \<Rightarrow>
         seq (starting sx a) (\<lambda>began.
         let act = rr_action (ac_request a)
         in if \<not> is_configuration act
               \<or> act = Mon_Rebind \<and> (map_of desired ''gateway_id'' = None \<or> map_of desired ''datasource_ids'' = None)
               \<or> act = Mon_Reenable \<and> map_of desired ''enabled'' \<noteq> Some (JBool True)
            then seq (record_submission mo sx None None (Some began) 0) (\<lambda>_. give lost_outcome)
            else seq (post mo sx a) (\<lambda>_.
              case pb_configure pb of
                None \<Rightarrow> seq (record_submission mo sx None None (Some began) 0) (\<lambda>_. give lost_outcome)
              | Some o' \<Rightarrow>
                  if turned_down sx o'
                  then seq (record_rejection mo sx o' began) (\<lambda>_. give (o'\<lparr>so_request_id := [], so_configuration := []\<rparr>))
                  else seq (record_submission mo sx None (if so_state o' = Accepted then Some act else None) (Some began) 0) (\<lambda>_.
                       verify_configuration mo sx pb)))
     | _ \<Rightarrow> conflict)"

definition lost_rerun :: rerun_outcome where
  "lost_rerun = \<lparr>ro_status = ''Unknown'', ro_run_id = [], ro_detail = []\<rparr>"

definition submit_pipeline :: "monitor \<Rightarrow> surroundings \<Rightarrow> pipeline_service \<Rightarrow> rerun_outcome shift" where
  "submit_pipeline mo sx fp =
     seq fresh_reservation (\<lambda>a. seq (look dk_incident) (\<lambda>i. seq (starting sx a) (\<lambda>began.
     seq (post mo sx a) (\<lambda>_.
     case fb_rerun fp of
       None \<Rightarrow> seq (record_submission mo sx None None (Some began) 0) (\<lambda>_. give lost_rerun)
     | Some x \<Rightarrow>
         (case sx_canonical sx (ps_run_id x) of
            None \<Rightarrow> fail Other_Trouble
          | Some j \<Rightarrow>
              let e = \<lparr>ex_target = ii_target i, ex_kind = Fabric_Job, ex_run_id = j\<rparr>
              in if \<not> valid_execution e then fail Other_Trouble
                 else seq (record_submission mo sx (Some e) None (Some began) (ps_retry_after_seconds x)) (\<lambda>_.
                      give \<lparr>ro_status = ''Submitted'', ro_run_id = j, ro_detail = []\<rparr>))))))"

definition job_status :: "string \<Rightarrow> run_status" where
  "job_status st = (if st = ''Completed'' then Succeeded else if st = ''Cancelled'' then Cancelled else run_status.Failed)"

definition job_times :: "surroundings \<Rightarrow> mon_act \<Rightarrow> pipeline_run \<Rightarrow> instant \<Rightarrow> (instant \<times> instant) option" where
  "job_times sx a job now =
     (case (pr_start_time job, pr_end_time job) of
        (Some b, Some t) \<Rightarrow> if sx_fixture sx then map_option (\<lambda>b. (b, now)) (ac_submitted_at a) else Some (b, t)
      | _ \<Rightarrow> None)"

definition check_pipeline :: "monitor \<Rightarrow> surroundings \<Rightarrow> mon_act \<Rightarrow> execution \<Rightarrow> pipeline_run \<Rightarrow> pipeline_activity list \<Rightarrow> rerun_outcome shift" where
  "check_pipeline mo sx a e job acts =
     (case verify_rerun None (Some acts) job of
        Inl _ \<Rightarrow> fail Other_Trouble
      | Inr res \<Rightarrow>
          seq (clock sx) (\<lambda>now.
          let settled = ro_status res \<in> {''Completed'', ''Failed'', ''ActivityFailed'', ''Cancelled''};
              seen = (if settled then map_option (\<lambda>(b, t). run_seen sx e now b t (job_status (pr_status job)) (pr_job_type job))
                                        (job_times sx a job now) else None);
              verdict = map_option (\<lambda>_. rerun_succeeded res) seen
          in if \<not> pred_option valid_observation seen then fail Other_Trouble
             else seq (record_check mo sx seen verdict (map pa_status acts) True None) (\<lambda>_.
                  give (if seen \<noteq> None then res else lost_rerun\<lparr>ro_run_id := pr_id job\<rparr>))))"

definition verify_pipeline :: "monitor \<Rightarrow> surroundings \<Rightarrow> pipeline_service \<Rightarrow> rerun_outcome shift" where
  "verify_pipeline mo sx fp =
     seq (look dk_reservation) (\<lambda>r.
     case Option.bind r (\<lambda>a. map_option (Pair a) (ac_submitted a)) of
       None \<Rightarrow> give lost_rerun
     | Some (a, e) \<Rightarrow>
         seq (clock sx) (\<lambda>now.
         if waiting a now then give \<lparr>ro_status = ''Submitted'', ro_run_id = ex_run_id e, ro_detail = []\<rparr>
         else case fb_run fp of
           None \<Rightarrow> fail Other_Trouble
         | Some job \<Rightarrow>
             if pr_id job \<noteq> ex_run_id e \<or> pr_item_id job \<noteq> tg_item (ex_target e) then conflict
             else if pr_status job \<notin> set PIPELINE_TERMINAL_STATUSES
             then seq (record_check mo sx None None [] False None) (\<lambda>_.
                  give \<lparr>ro_status = ''Submitted'', ro_run_id = pr_id job, ro_detail = []\<rparr>)
             else case fb_activities fp of None \<Rightarrow> fail Other_Trouble | Some acts \<Rightarrow> check_pipeline mo sx a e job acts))"

section \<open>One attempt of the dispatcher\<close>

text \<open>
  What \<open>ToolDispatcher.dispatch\<close> and \<open>_execute\<close> make of a remediation of a monitored run:
  the reservation, the write charge (\<open>charged\<close>), the effect.
\<close>

datatype attempt_result = Not_Reserved grant | Not_Charged | Service_Result service_outcome | Job_Result rerun_outcome

definition attempt :: "monitor \<Rightarrow> surroundings \<Rightarrow> action \<Rightarrow> (string \<times> string) option \<Rightarrow> (string, json) dict \<Rightarrow> bool
    \<Rightarrow> service \<Rightarrow> pipeline_service \<Rightarrow> attempt_result shift" where
  "attempt mo sx tool approval args charged pb fp =
     seq (reserve mo sx tool approval args) (\<lambda>g.
     if g \<noteq> Granted then give (Not_Reserved g)
     else if \<not> charged then give Not_Charged
     else if tool = Rerun_Pipeline then seq (submit_pipeline mo sx fp) (\<lambda>r. give (Job_Result r))
     else if tool = Refresh_Dataset then seq (refresh mo sx pb) (\<lambda>r. give (Service_Result r))
     else seq (configure mo sx pb) (\<lambda>r. give (Service_Result r)))"

end
