(* ===== verification/Monitor_Courses.thy ===== *)
theory Monitor_Courses
  imports Monitor_Executions
begin

text \<open>
  What executions do to the store and to the service, whatever others do between their
  transactions. A course is a relation between the desk before and after that every
  transaction and every change of the execution's own fields respects; the programs of the
  controller respect it too. Three courses are used: the store moves by engine calls only,
  everything but the three submissions leaves the posts alone, and the engine's invariants
  are kept.
\<close>

section \<open>Courses\<close>

locale course =
  fixes mo :: monitor and R :: "desk \<Rightarrow> desk \<Rightarrow> bool"
  assumes same: "R d d"
    and chain: "R d d' \<Longrightarrow> R d' d'' \<Longrightarrow> R d d''"
    and passing: "R d (pass mo sx d)"
    and stepping: "R d (d\<lparr>dk_store := snd (mon_step mo x (dk_store d))\<rparr>)"
    and working: "R d (d\<lparr>dk_work := w\<rparr>)"
    and observing: "R d (d\<lparr>dk_observation := ob\<rparr>)"
    and reserving: "R d (d\<lparr>dk_reservation := a\<rparr>)"
    and breaking: "R d (d\<lparr>dk_broken := e\<rparr>)"
begin

definition keeps :: "'a shift \<Rightarrow> bool" where
  "keeps t \<longleftrightarrow> (\<forall>d. R d (snd (t d)))"

lemma keepsD: "keeps t \<Longrightarrow> t d = (x, d') \<Longrightarrow> R d d'"
  unfolding keeps_def by (metis snd_conv)

lemma keeps_seq: "keeps t \<Longrightarrow> (\<And>x. keeps (f x)) \<Longrightarrow> keeps (seq t f)"
  unfolding keeps_def seq_def by (auto split: prod.splits sum.splits intro: chain) (metis chain snd_conv)+

lemma keeps_give: "keeps (give x)" and keeps_fail: "keeps (fail e)" and keeps_look: "keeps (look f)"
  by (simp_all add: keeps_def give_def fail_def look_def same)

lemma keeps_conflict: "keeps conflict"
  by (simp add: conflict_def keeps_fail)

lemma keeps_tell: "(\<And>d. R d (f d)) \<Longrightarrow> keeps (tell f)"
  by (simp add: keeps_def tell_def)

lemma keeps_fetch: "keeps (fetch mo sx f)"
  by (simp add: keeps_def fetch_def Let_def passing)

lemma keeps_invoke: "keeps (invoke mo sx c)"
proof -
  have "R d (snd (invoke mo sx c d))" for d
  proof -
    obtain r s where m: "mon_step mo (sx_view sx (dk_tick d), c) (dk_store (pass mo sx d)) = (r, s)" by fastforce
    then have "R (pass mo sx d) ((pass mo sx d)\<lparr>dk_store := s\<rparr>)"
      using stepping [of "pass mo sx d" "(sx_view sx (dk_tick d), c)"] by simp
    with m chain [OF passing] show ?thesis by (cases r) (simp_all add: invoke_def Let_def)
  qed
  then show ?thesis by (simp add: keeps_def)
qed

lemma keeps_journal: "keeps t \<Longrightarrow> keeps (journal t)"
  unfolding keeps_def journal_def by (auto split: prod.splits sum.splits intro: chain [OF _ breaking]) (metis chain breaking snd_conv)+

lemma keeps_drafted: "keeps (drafted mo c)"
  by (simp add: drafted_def keeps_give keeps_fail)

lemma keeps_clock: "keeps (clock sx)"
  by (simp add: clock_def keeps_look)

lemma keeps_if: "keeps t \<Longrightarrow> keeps u \<Longrightarrow> keeps (if b then t else u)"
  by simp

lemma keeps_let: "keeps (f x) \<Longrightarrow> keeps (let y = x in f y)"
  by simp

lemma keeps_option: "keeps t \<Longrightarrow> (\<And>y. keeps (f y)) \<Longrightarrow> keeps (case z of None \<Rightarrow> t | Some y \<Rightarrow> f y)"
  by (cases z) auto

lemma keeps_pair: "(\<And>a b. keeps (f a b)) \<Longrightarrow> keeps (case z of (a, b) \<Rightarrow> f a b)"
  by (cases z) auto

lemma keeps_sum: "(\<And>a. keeps (f a)) \<Longrightarrow> (\<And>b. keeps (g b)) \<Longrightarrow> keeps (case z of Inl a \<Rightarrow> f a | Inr b \<Rightarrow> g b)"
  by (cases z) auto

lemmas keeps_intros =
  keeps_seq keeps_give keeps_fail keeps_look keeps_conflict keeps_fetch keeps_invoke keeps_journal keeps_drafted
  keeps_clock keeps_if keeps_let keeps_option keeps_pair keeps_sum

lemma keeps_current_work: "keeps (current_work mo sx)"
  unfolding current_work_def by (intro keeps_intros keeps_tell working)

lemma keeps_current_target: "keeps (current_target mo sx)"
  unfolding current_target_def by (intro keeps_intros)

lemma keeps_held: "keeps (held_lease w)"
  unfolding held_lease_def by (intro keeps_intros)

lemma keeps_reservation: "keeps the_reservation"
  unfolding the_reservation_def by (intro keeps_intros)

lemma keeps_action: "keeps (keep_action r)"
  by (cases r) (simp_all add: keep_action_def keeps_fail keeps_seq keeps_give keeps_tell reserving)

lemma keeps_commit: "keeps (action_commit mo sx)"
  unfolding action_commit_def by (intro keeps_intros keeps_current_work keeps_held)

lemma keeps_saved: "keeps (saved_observation r)"
  by (cases r) (simp_all add: saved_observation_def keeps_fail keeps_give)

lemmas keeps_parts =
  keeps_intros keeps_current_work keeps_current_target keeps_held keeps_reservation keeps_action keeps_commit keeps_saved

lemma keeps_recheck: "keeps (recheck_source mo sx reader matches)"
  unfolding recheck_source_def by (intro keeps_parts keeps_tell observing)

lemma keeps_observe: "keeps (observe_successful_refresh mo sx status i span b)"
  unfolding observe_successful_refresh_def by (intro keeps_parts)

lemma keeps_for: "keeps (reservation_for mo sx tool ap args)"
  unfolding reservation_for_def by (intro keeps_parts)

lemma keeps_bind: "keeps (bind_proposal mo sx tool p)"
  unfolding bind_proposal_def by (intro keeps_parts keeps_for)

lemma keeps_fresh: "keeps (reserve_fresh mo sx tool ap args)"
proof -
  have "keeps (case rep of
           Decision_Reply (decision.Reserved a) \<Rightarrow> seq (tell (\<lambda>d. d\<lparr>dk_reservation := Some a\<rparr>)) (\<lambda>_. give Granted)
         | Decision_Reply (Denied e) \<Rightarrow> give (Denied_There e)
         | _ \<Rightarrow> fail Other_Trouble)" for rep
    by (auto intro!: keeps_intros keeps_tell reserving split: mon_reply.split decision.split)
  then show ?thesis unfolding reserve_fresh_def by (intro keeps_parts keeps_for)
qed

lemma keeps_reserve: "keeps (reserve mo sx tool ap args)"
proof -
  have "keeps (case prior of
       None \<Rightarrow> reserve_fresh mo sx tool ap args
     | Some (Decision_Reply (decision.Reserved a)) \<Rightarrow>
         seq (fetch mo sx (\<lambda>_ s. map_of (ms_actions s) (ac_id a))) (\<lambda>b.
         seq (tell (\<lambda>d. d\<lparr>dk_reservation := b\<rparr>)) (\<lambda>_. give Prior_Reservation))
     | Some (Decision_Reply (Denied e)) \<Rightarrow> give (Prior_Denial e)
     | Some _ \<Rightarrow> fail Other_Trouble)" for prior
    by (auto intro!: keeps_intros keeps_fresh keeps_tell reserving split: mon_reply.split decision.split option.split)
  from keeps_seq [OF keeps_look keeps_seq [OF keeps_fetch this]] show ?thesis unfolding reserve_def .
qed

lemma keeps_submission: "keeps (record_submission mo sx e conf at wait)"
  unfolding record_submission_def by (intro keeps_parts)

lemma keeps_rejection: "keeps (record_rejection mo sx o' began)"
  unfolding record_rejection_def by (intro keeps_parts)

lemma keeps_check: "keeps (record_check mo sx ob v acts complete conf)"
  unfolding record_check_def by (intro keeps_parts)

lemma keeps_rejected: "keeps rejected_answer"
  unfolding rejected_answer_def by (intro keeps_parts)

lemma keeps_verify_refresh: "keeps (verify_refresh mo sx pb)"
  unfolding verify_refresh_def check_refresh_def by (intro keeps_parts keeps_check keeps_rejected)

lemma keeps_verify_configuration: "keeps (verify_configuration mo sx pb)"
proof -
  have j: "keeps (case z of (Some (JObj x), Some y) \<Rightarrow> f x y | (Some (JObj x), None) \<Rightarrow> fail e | _ \<Rightarrow> conflict)"
    if "\<And>x y. keeps (f x y)" for z f e
    using that by (auto intro: keeps_intros split: prod.split option.split json.split)
  show ?thesis unfolding verify_configuration_def by (intro keeps_parts keeps_check keeps_rejected j)
qed

lemma keeps_verify_pipeline: "keeps (verify_pipeline mo sx fp)"
  unfolding verify_pipeline_def check_pipeline_def by (intro keeps_parts keeps_check)

end

text \<open>Where posting is also respected, so are the submissions and whole attempts.\<close>

locale posting_course = course +
  assumes posting: "R d (d\<lparr>dk_posts := ps\<rparr>)"
begin

lemma keeps_post: "keeps (post mo sx a)"
proof -
  have "R d ((pass mo sx d)\<lparr>dk_posts := ps\<rparr>)" for d ps
    by (rule chain [OF passing posting])
  then show ?thesis by (simp add: post_def keeps_def tell_def)
qed

lemma keeps_new: "keeps fresh_reservation" and keeps_starting: "keeps (starting sx a)"
  unfolding fresh_reservation_def starting_def by (intro keeps_parts)+

lemma keeps_refresh: "keeps (refresh mo sx pb)"
  unfolding refresh_def
  by (intro keeps_parts keeps_post keeps_new keeps_starting keeps_rejection keeps_submission keeps_verify_refresh)

lemma keeps_configure: "keeps (configure mo sx pb)"
proof -
  have j: "keeps (case z of Some (JObj x) \<Rightarrow> f x | _ \<Rightarrow> conflict)" if "\<And>x. keeps (f x)" for z and f :: "(string \<times> json) list \<Rightarrow> service_outcome shift"
    using that by (auto intro: keeps_intros split: option.split json.split)
  show ?thesis unfolding configure_def
    by (intro keeps_parts keeps_post keeps_new keeps_starting keeps_rejection keeps_submission keeps_verify_configuration j)
qed

lemma keeps_submit: "keeps (submit_pipeline mo sx fp)"
  unfolding submit_pipeline_def
  by (intro keeps_parts keeps_post keeps_new keeps_starting keeps_submission)

lemma keeps_attempt: "keeps (attempt mo sx tool ap args charged pb fp)"
  unfolding attempt_def
  by (intro keeps_parts keeps_reserve keeps_refresh keeps_configure keeps_submit)

end

lemma pass_posts [simp]: "dk_posts (pass mo sx d) = dk_posts d"
  by (simp add: pass_def)

interpretation still: course mo "\<lambda>d d'. dk_posts d' = dk_posts d" for mo
  by unfold_locales auto

lemma run_run: "run step ys (run step xs s) = run step (xs @ ys) s"
  by (simp add: run_append)

interpretation onward: posting_course mo "\<lambda>d d'. \<exists>xs. dk_store d' = run (mon_step mo) xs (dk_store d)" for mo
proof unfold_locales
  fix sx d x and d' d'' :: desk
  show "\<exists>xs. dk_store d = run (mon_step mo) xs (dk_store d)" for d :: desk by (intro exI [of _ "[]"]) simp
  show "\<exists>xs. dk_store (pass mo sx d) = run (mon_step mo) xs (dk_store d)" by (auto simp: pass_def)
  show "\<exists>xs. dk_store (d\<lparr>dk_store := snd (mon_step mo x (dk_store d))\<rparr>) = run (mon_step mo) xs (dk_store d)"
    by (intro exI [of _ "[x]"]) simp
  show "\<exists>xs. dk_store d'' = run (mon_step mo) xs (dk_store d)"
    if "\<exists>xs. dk_store d' = run (mon_step mo) xs (dk_store d)" "\<exists>xs. dk_store d'' = run (mon_step mo) xs (dk_store d')"
    using that by (metis run_run)
qed (auto intro: exI [of _ "[]"])

end
