(* ===== verification/Monitor_Example.thy ===== *)
theory Monitor_Example
  imports Monitor_Guarantees
begin

text \<open>
  A history of the monitoring engine on which the properties are tried out: the refresh of
  a semantic model fails, its work is claimed, an action is reserved, submitted, verified
  and finalized; beside it a takeover of the work and an approval.
\<close>

section \<open>The example history\<close>

definition sample_target :: target where
  "sample_target = \<lparr>tg_workload = Power_BI, tg_workspace = ''ws'', tg_item = ''model''\<rparr>"

definition sample_run :: "string \<Rightarrow> execution" where
  "sample_run i = \<lparr>ex_target = sample_target, ex_kind = Powerbi_Request, ex_run_id = i\<rparr>"

definition sample_source :: "string \<Rightarrow> instant \<Rightarrow> run_status \<Rightarrow> observation" where
  "sample_source i t st =
     \<lparr>ob_execution = sample_run i, ob_authority = Rest, ob_observed_at = t, ob_started = Some t, ob_ended = Some t,
      ob_status = st, ob_invocation = Scheduled, ob_job_type = ''Refresh'', ob_truncated = False\<rparr>"

definition sample_monitor :: monitor where
  "sample_monitor =
     \<lparr>mo_component = Fixture_Part, mo_fixture = True, mo_policy = default_policy, mo_id = id,
      mo_incident_key = ii_signature, mo_key_digest = id, mo_fingerprint = (\<lambda>_. ''digest''),
      mo_digest = (\<lambda>_. ''arguments''), mo_payload_hash = in_signature, mo_persisted = id\<rparr>"

definition sample_view :: "instant \<Rightarrow> view" where
  "sample_view t =
     \<lparr>vw_now = t, vw_revision = 1, vw_maintenance = False, vw_cutoff = 0,
      vw_admitted = (\<lambda>x. Some \<lparr>mt_target = x, mt_enabled = True, mt_action = Some Mon_Refresh,
        mt_review = Some ''review'', mt_review_revision = Some 1\<rparr>),
      vw_configured = (\<lambda>_. None),
      vw_review = (\<lambda>i. Some \<lparr>sr_id = i, sr_target = sample_target, sr_revision = 1, sr_policy_revision = 1,
        sr_action = Mon_Refresh, sr_state = Review_Verified, sr_expires = 1000000000, sr_definition_hash = None,
        sr_configuration_hash = None, sr_parameters = None, sr_parameter_hash = Some ''p'', sr_redacted = False, sr_published = True\<rparr>),
      vw_capability = (\<lambda>_. Some \<lparr>cp_read = True, cp_action = True, cp_expires = 1000000000, cp_exact = True,
        cp_configuration = False, cp_definition_hash = None\<rparr>),
      vw_pending = (\<lambda>_. False), vw_windows = (\<lambda>_. []), vw_alias = (\<lambda>_ _. False)\<rparr>"

definition sample_draft :: draft where
  "sample_draft =
     \<lparr>wk_id = ''w'', wk_kind = Triage_Kind, wk_policy_revision = 1, wk_due = 0, wk_created = 0,
      wk_target = sample_target, wk_execution = sample_run ''r1'', wk_reservation = None\<rparr>"

definition sample_claim :: claim_request where
  "sample_claim =
     \<lparr>wc_owner = ''me'', wc_kinds = [Triage_Kind], wc_limit = 20, wc_per_workspace = 2, wc_lease_seconds = 120\<rparr>"

definition sample_lease :: lease where
  "sample_lease = \<lparr>ls_owner = ''me'', ls_fence = 1, ls_acquired = 0, ls_expires = 120000000\<rparr>"

definition sample_incident :: incident_identity where
  "sample_incident = \<lparr>ii_target = sample_target, ii_signature = ''sig''\<rparr>"

definition sample_request :: "string \<Rightarrow> reservation_request" where
  "sample_request i =
     \<lparr>rr_id = i, rr_expected = 1, rr_work = ''w'', rr_lease = sample_lease, rr_source = sample_run ''r1'',
      rr_incident = sample_incident, rr_incident_revision = 0, rr_action = Mon_Refresh, rr_review = ''review'',
      rr_review_revision = 1, rr_definition_hash = None, rr_configuration_hash = None, rr_parameter_hash = ''p'',
      rr_arguments = [], rr_approval = None\<rparr>"

definition sample_submission :: submission where
  "sample_submission =
     \<lparr>sb_id = ''s'', sb_reservation = ''action:a'', sb_revision = 1, sb_fence = 1, sb_certain = True,
      sb_execution = Some (sample_run ''r2''), sb_configuration = None, sb_correlation = Some Response_Run_Id,
      sb_submitted_at = 2, sb_next_verification = 2\<rparr>"

definition sample_outcome :: outcome_request where
  "sample_outcome =
     \<lparr>ou_id = ''o'', ou_reservation = ''action:a'', ou_revision = 2, ou_fence = 1, ou_disposition = Check_Succeeded,
      ou_execution = Some (sample_run ''r2''), ou_observation = Some (sample_source ''r2'' 3 Succeeded),
      ou_configuration = None, ou_activities = [], ou_complete = False, ou_observed_at = 3\<rparr>"

text \<open>A refresh that is reserved, submitted and verified.\<close>

definition sample_start :: "(view \<times> mon_call) list" where
  "sample_start =
     [(sample_view 0, Event_Source (sample_source ''r1'' 0 Failed)),
      (sample_view 0, Call_Enqueue sample_draft),
      (sample_view 0, Call_Claim sample_claim),
      (sample_view 1, Call_Reserve (sample_request ''a''))]"

definition sample_end :: "(view \<times> mon_call) list" where
  "sample_end =
     [(sample_view 2, Call_Submit sample_submission None),
      (sample_view 3, Call_Outcome sample_outcome None)]"


definition sample_seed :: "(view \<times> mon_call) list" where
  "sample_seed = take 3 sample_start"

definition sample_row :: "string \<Rightarrow> string \<Rightarrow> stamp \<Rightarrow> approval_row" where
  "sample_row decision who at =
     \<lparr>ar_request_id = ''ap'', ar_action = action_tool Mon_Refresh, ar_fingerprint = ''fp'', ar_report_name = ''model'',
      ar_justification = [], ar_impact = [], ar_signature = ''sig'', ar_run_id = ''r1'', ar_arguments = [],
      ar_requested_at = Aware_Stamp 1, ar_expires_at = Aware_Stamp 1000, ar_decision = decision, ar_responder = who,
      ar_reason = [], ar_decided_at = at, ar_consumed_at = No_Stamp, ar_delivery_channel = None, ar_extra = []\<rparr>"

definition sample_consent :: "(view \<times> mon_call) list" where
  "sample_consent = sample_seed @
     [(sample_view 2, Event_Approval ''ap'' (sample_row [] [] No_Stamp)),
      (sample_view 2, Call_Bind ((sample_request ''a'')\<lparr>rr_approval := Some (''ap'', ''fp'')\<rparr>)),
      (sample_view 3, Event_Approval ''ap'' (sample_row ''approve'' ''human'' (Aware_Stamp 3)))]"

definition sample_story :: incident where
  "sample_story =
     \<lparr>in_id = ''i'', in_signature = ''sig'', in_signature_version = ''v1'', in_outcome = Resolved, in_status = Settled,
      in_request_id = ''r1'', in_report_name = ''model'', in_source = ''monitoring'', in_pipeline_failure = None,
      in_occurrence_count = 1, in_first_seen_at = 0, in_last_seen_at = 3, in_notified_count = 0,
      in_last_notified_at = None, in_original_error = ''timeout'', in_root_cause = ''transient'',
      in_action_applied = ''refresh'', in_action_type = Nondeterministic_Retry, in_requires_investigation = False,
      in_agent_name = ''agent'', in_prompt_version_hash = [], in_model_provider = [], in_model_name = [],
      in_app_version = [], in_redaction_kinds = [], in_triage_notes = []\<rparr>"

definition sample_finalization :: finalization where
  "sample_finalization =
     \<lparr>fz_id = ''f'', fz_work = ''w'', fz_revision = 3, fz_lease = sample_lease, fz_source = sample_run ''r1'',
      fz_identity = sample_incident, fz_incident = sample_story, fz_disposition = Src_Triaged, fz_reservation = None\<rparr>"

definition sample_takeover :: "(view \<times> mon_call) list" where
  "sample_takeover = [(sample_view 121000000, Call_Claim (sample_claim\<lparr>wc_owner := ''you''\<rparr>))]"

section \<open>What the histories come to\<close>

lemma sample_names:
  "distinct_names sample_monitor sample_start"
  "distinct_names sample_monitor (sample_start @ [hd sample_end])"
  "distinct_names sample_monitor ((sample_start @ sample_end) @ [(sample_view 4, Call_Reserve (sample_request ''b''))])"
  by (simp_all add: distinct_names_def inj_on_def asked_def sample_start_def sample_end_def sample_request_def sample_monitor_def)

lemma sample_reserved:
  "map_option ac_state (map_of (ms_actions (run (mon_step sample_monitor) sample_start empty_store)) ''action:a'')
   = Some Act_Reserved"
  by code_simp

lemma sample_settled:
  "map_option ac_state (map_of (ms_actions (run (mon_step sample_monitor) (sample_start @ sample_end) empty_store)) ''action:a'')
   = Some Act_Succeeded"
  by code_simp

lemma sample_held:
  "\<not> Option.is_none (case owned_work sample_monitor (sample_view 1) ''w'' sample_lease None
     (run (mon_step sample_monitor) sample_seed empty_store) of Inl _ \<Rightarrow> None | Inr w \<Rightarrow> Some w)"
  by code_simp

lemma sample_taken_over:
  "\<not> Option.is_none (case owned_work sample_monitor (sample_view 121000001) ''w'' (sample_lease\<lparr>ls_owner := ''you'', ls_fence := 2\<rparr>) None
     (run (mon_step sample_monitor) sample_takeover (run (mon_step sample_monitor) sample_seed empty_store)) of Inl _ \<Rightarrow> None | Inr w \<Rightarrow> Some w)"
  by code_simp

lemma sample_approved:
  "case reserve_action sample_monitor (sample_view 4) ((sample_request ''a'')\<lparr>rr_approval := Some (''ap'', ''fp'')\<rparr>)
     (run (mon_step sample_monitor) sample_consent empty_store) of Inl _ \<Rightarrow> False | Inr (Reserved a, s) \<Rightarrow> True | Inr (_, s) \<Rightarrow> False"
  by code_simp

lemma sample_finalized:
  "case finalize_work sample_monitor (sample_view 4) sample_finalization
     (run (mon_step sample_monitor) (sample_start @ sample_end) empty_store) of Inl _ \<Rightarrow> False | Inr _ \<Rightarrow> True"
  by code_simp

lemma sample_claimed:
  "case claim_work sample_monitor (sample_view 0) sample_claim
     (run (mon_step sample_monitor) (take 2 sample_start) empty_store) of Inl _ \<Rightarrow> False | Inr (ws, _) \<Rightarrow> map wk_id ws = [''w'']"
  by code_simp

end
