(* ===== verification/Monitor_Promises.thy ===== *)
theory Monitor_Promises
  imports Monitor_Example
begin

text \<open>
  What a team can rely on when the engine records its external effects, as properties of
  every history of calls from the empty store, of whatever tenant, policy, registry and
  clock readings. The witnesses run on the example history.
\<close>

section \<open>What histories keep\<close>

lemma step_keeps:
  assumes "sound mo I s"
  shows "orderly s (snd (mon_step mo x s))"
    "map_of (ms_receipts s) k = Some v \<Longrightarrow> map_of (ms_receipts (snd (mon_step mo x s))) k = Some v"
    "proven mo s \<Longrightarrow> proven mo (snd (mon_step mo x s))"
proof -
  have f: "filed mo s" using assms by (simp add: sound_def)
  have "orderly s (snd (mon_step mo x s))
      \<and> (map_of (ms_receipts s) k = Some v \<longrightarrow> map_of (ms_receipts (snd (mon_step mo x s))) k = Some v)
      \<and> (proven mo s \<longrightarrow> proven mo (snd (mon_step mo x s)))"
  proof (cases rule: mon_step_cases [of mo x s])
    case 1
    then show ?thesis by (simp add: orderly_refl)
  next
    case (2 vw c r s1)
    with body_plays [OF f 2(4)] show ?thesis by (simp add: plays_def)
  next
    case (3 vw c r s1 k' y)
    have p: "orderly s s1" "ms_receipts s1 = ms_receipts s" "proven mo s \<longrightarrow> proven mo s1"
      using body_plays [OF f 3(4)] 3(2) by (auto simp: plays_def)
    have "orderly s1 (snd (mon_step mo x s))" by (simp add: 3(7) orderly_elsewhere)
    moreover have "proven mo (snd (mon_step mo x s)) = proven mo s1" by (simp add: 3(7) proven_def)
    ultimately show ?thesis using p 3(6,7) by (auto intro: orderly_trans)
  qed
  then show "orderly s (snd (mon_step mo x s))"
    "map_of (ms_receipts s) k = Some v \<Longrightarrow> map_of (ms_receipts (snd (mon_step mo x s))) k = Some v"
    "proven mo s \<Longrightarrow> proven mo (snd (mon_step mo x s))" by blast+
qed

lemma run_keeps:
  assumes "sound mo I s"
  shows "orderly s (run (mon_step mo) xs s)"
    "map_of (ms_receipts s) k = Some v \<Longrightarrow> map_of (ms_receipts (run (mon_step mo) xs s)) k = Some v"
    "proven mo s \<Longrightarrow> proven mo (run (mon_step mo) xs s)"
proof -
  have "sound mo I s \<Longrightarrow> set (asked xs) \<subseteq> I \<Longrightarrow>
      orderly s (run (mon_step mo) xs s)
      \<and> (map_of (ms_receipts s) k = Some v \<longrightarrow> map_of (ms_receipts (run (mon_step mo) xs s)) k = Some v)
      \<and> (proven mo s \<longrightarrow> proven mo (run (mon_step mo) xs s))" for I
  proof (induction xs arbitrary: s)
    case (Cons x xs)
    have x: "set (asked [x]) \<subseteq> I" "set (asked xs) \<subseteq> I" using Cons.prems(2) by (simp_all add: asked_Cons [of x xs])
    note h = step_keeps(1) [OF Cons.prems(1), where x = x] step_keeps(2) [OF Cons.prems(1), where x = x and k = k and v = v]
      step_keeps(3) [OF Cons.prems(1), where x = x]
    from Cons.IH [OF step_sound [OF Cons.prems(1) x(1)] x(2)] h(2,3) orderly_trans [OF h(1)] show ?case
      by (simp del: split_paired_All)
  qed (simp add: orderly_refl)
  moreover have "sound mo (I \<union> set (asked xs)) s" using assms by (auto simp: sound_def)
  ultimately show "orderly s (run (mon_step mo) xs s)"
    "map_of (ms_receipts s) k = Some v \<Longrightarrow> map_of (ms_receipts (run (mon_step mo) xs s)) k = Some v"
    "proven mo s \<Longrightarrow> proven mo (run (mon_step mo) xs s)" by blast+
qed

section \<open>Properties\<close>

text \<open>
  C4. Whatever calls are made in whatever order and however they fail, no target ever has
  two actions that are reserved, submitted or uncertain, and the one it has is the one that
  the row of the target's owner fences.
\<close>

theorem one_open_action_per_target:
  assumes "distinct_names mo xs" and "s = run (mon_step mo) xs empty_store"
    and "map_of (ms_actions s) i = Some a" and "action_open (ac_state a)"
    and "map_of (ms_actions s) j = Some b" and "action_open (ac_state b)"
    and "ac_target a = ac_target b"
  shows "i = j \<and> map_of (ms_owners s) (ac_target a) = Some (owned_by a)"
proof -
  have ok: "owners_ok (board_of s)" using history_board_ok [OF assms(1)] assms(2) by (simp add: board_ok_def)
  have a: "bo_actions (board_of s) i = Some a" "bo_actions (board_of s) j = Some b"
    using assms(3,5) by (simp_all add: board_of_def)
  note d = owners_okD [OF ok a(1)] owners_okD [OF ok a(2)]
  have "owned_by a = owned_by b" using d(2,4) assms(4,6,7) by simp
  then have "i = j" using d(1,3) by (simp add: owned_by_def)
  with d(2) [OF assms(4)] show ?thesis by (simp add: board_of_def)
qed

lemma one_open_action_per_target_witness:
  "\<exists>a. map_of (ms_actions (run (mon_step sample_monitor) sample_start empty_store)) ''action:a'' = Some a
     \<and> ac_state a = Act_Reserved
     \<and> map_of (ms_owners (run (mon_step sample_monitor) sample_start empty_store)) (ac_target a) = Some (owned_by a)"
proof -
  obtain a where a: "map_of (ms_actions (run (mon_step sample_monitor) sample_start empty_store)) ''action:a'' = Some a"
      "ac_state a = Act_Reserved" using sample_reserved by auto
  then have "action_open (ac_state a)" by (simp add: action_open_def)
  from one_open_action_per_target [OF sample_names(1) refl a(1) this a(1) this refl] a show ?thesis by blast
qed

text \<open>
  C5. The external effects of an incident are bounded: the reservations ever made for it, with
  every bounded retry of a rejected one, are at most (MAX_ATTEMPTS + 1) times the write
  actions that the policy allows.
\<close>

theorem incident_attempts_bounded:
  assumes "distinct_names mo xs" and "s = run (mon_step mo) xs empty_store"
  shows "int (card {j. \<exists>a. map_of (ms_actions s) j = Some a \<and> rr_incident (ac_request a) = i})
    \<le> (MAX_ATTEMPTS + 1) * max 0 (max_write_actions (mo_policy mo))"
proof -
  have "valid_action a" if "bo_actions (board_of s) j = Some a" for j a
    using history_filed [of mo xs j a] that assms(2) by (simp add: board_of_def named_def)
  from reservations_bound [where i = i, OF history_board_ok [OF assms(1)], folded assms(2), OF this]
  show ?thesis by (simp add: attempts_for_def board_of_def)
qed

lemma incident_attempts_bounded_witness:
  "\<not> Option.is_none (map_of (ms_actions (run (mon_step sample_monitor) sample_start empty_store)) ''action:a'')
   \<and> int (card {j. \<exists>a. map_of (ms_actions (run (mon_step sample_monitor) sample_start empty_store)) j = Some a
        \<and> rr_incident (ac_request a) = sample_incident})
     \<le> (MAX_ATTEMPTS + 1) * max 0 (max_write_actions (mo_policy sample_monitor))"
  using incident_attempts_bounded [OF sample_names(1) refl, of sample_incident] sample_reserved by (auto simp: Option.is_none_def)

text \<open>
  C6. A verified or rejected action is final: whatever is called afterwards, its state, the
  submitted run, the configuration and the rejection on file stay as they are.
\<close>

theorem settled_actions_are_final:
  assumes "distinct_names mo (xs @ ys)" and "s = run (mon_step mo) xs empty_store"
    and "map_of (ms_actions s) j = Some a" and "\<not> action_open (ac_state a)"
  shows "\<exists>b. map_of (ms_actions (run (mon_step mo) ys s)) j = Some b \<and> same_effect a b"
proof -
  let ?I = "set (asked (xs @ ys))"
  have inj: "inj_on (\<lambda>i. mo_id mo (''action:'' @ i)) ?I" using assms(1) by (simp add: distinct_names_def)
  have "sound mo ?I t \<Longrightarrow> owners_ok (board_of t) \<Longrightarrow> set (asked zs) \<subseteq> ?I \<Longrightarrow> map_of (ms_actions t) j = Some c \<Longrightarrow>
      \<not> action_open (ac_state c) \<Longrightarrow> \<exists>b. map_of (ms_actions (run (mon_step mo) zs t)) j = Some b \<and> same_effect c b" for zs t c
  proof (induction zs arbitrary: t c)
    case (Cons z zs)
    have z: "set (asked [z]) \<subseteq> ?I" "set (asked zs) \<subseteq> ?I" using Cons.prems(3) by (simp_all add: asked_Cons [of z zs])
    note st = step_board [OF Cons.prems(1) z(1) inj]
    obtain d where d: "map_of (ms_actions (snd (mon_step mo z t))) j = Some d" "same_effect c d"
      using board_step_final [OF st Cons.prems(2), of j c] Cons.prems(4,5) by (auto simp: board_of_def)
    from Cons.IH [OF step_sound [OF Cons.prems(1) z(1)] board_step_owners [OF st Cons.prems(2)] z(2) d(1)] d(2) Cons.prems(5)
    show ?case by (auto simp: same_effect_def)
  qed (simp add: same_effect_def)
  moreover have "sound mo ?I s" unfolding assms(2) by (rule run_sound [OF empty_sound]) simp
  moreover have "owners_ok (board_of s)"
    using run_board_ok [OF inj empty_sound empty_board_ok, of xs] assms(2) by (simp add: board_ok_def)
  ultimately show ?thesis using assms(3,4) by simp
qed

lemma settled_actions_are_final_witness:
  "\<exists>a b. map_of (ms_actions (run (mon_step sample_monitor) (sample_start @ sample_end) empty_store)) ''action:a'' = Some a
     \<and> ac_state a = Act_Succeeded
     \<and> map_of (ms_actions (run (mon_step sample_monitor) [(sample_view 4, Call_Reserve (sample_request ''b''))]
           (run (mon_step sample_monitor) (sample_start @ sample_end) empty_store))) ''action:a'' = Some b
     \<and> same_effect a b"
proof -
  obtain a where a: "map_of (ms_actions (run (mon_step sample_monitor) (sample_start @ sample_end) empty_store)) ''action:a'' = Some a"
      "ac_state a = Act_Succeeded" using sample_settled by auto
  then have "\<not> action_open (ac_state a)" by (simp add: action_open_def)
  from settled_actions_are_final [OF sample_names(3) refl a(1) this] a show ?thesis by blast
qed

text \<open>
  C7. Refinement: every call of the engine, in every reachable state, is one of the steps of
  the board, and a call that fails is none.
\<close>

theorem engine_refines_board:
  assumes "distinct_names mo (xs @ [x])" and "s = run (mon_step mo) xs empty_store"
  shows "board_step (max_write_actions (mo_policy mo)) (board_of s) (board_of (snd (mon_step mo x s)))"
proof -
  let ?I = "set (asked (xs @ [x]))"
  have "sound mo ?I s" unfolding assms(2) by (rule run_sound [OF empty_sound]) simp
  moreover have "inj_on (\<lambda>i. mo_id mo (''action:'' @ i)) ?I" using assms(1) by (simp add: distinct_names_def)
  ultimately show ?thesis by (intro step_board) auto
qed

lemma engine_refines_board_witness:
  "board_step (max_write_actions (mo_policy sample_monitor))
     (board_of (run (mon_step sample_monitor) sample_start empty_store))
     (board_of (snd (mon_step sample_monitor (hd sample_end) (run (mon_step sample_monitor) sample_start empty_store))))"
  by (rule engine_refines_board [OF sample_names(2) refl])



text \<open>
  C17. An action is recorded as succeeded only on evidence: the outcome on file names the run
  that was recorded as submitted, read directly and to its end as succeeded, for a pipeline
  with nothing but succeeded or skipped activities; or it is a configuration that hashes to
  the reviewed parameters.
\<close>

theorem success_rests_on_evidence:
  assumes "s = run (mon_step mo) xs empty_store" and "map_of (ms_actions s) j = Some a"
    and "ac_state a = Act_Succeeded"
  shows "(\<exists>e ob r. ac_submitted a = Some e \<and> map_of (ms_outcomes s) j = Some r \<and> ou_observation r = Some ob
        \<and> ob_execution ob = e \<and> ob_status ob = Succeeded \<and> direct ob \<and> ob_ended ob \<noteq> None
        \<and> (tg_workload (ex_target e) = Power_BI
           \<or> ou_activities r \<noteq> [] \<and> set (ou_activities r) \<subseteq> {''Succeeded'', ''Skipped''}))
    \<or> (\<exists>c. ac_configuration a = Some c \<and> mo_digest mo (cv_values c) = rr_parameter_hash (ac_request a))"
proof -
  have "proven mo empty_store" by (simp add: proven_def empty_store_def)
  then have "proven mo s" unfolding assms(1) by (rule run_keeps(3) [OF empty_sound])
  then obtain r where r: "map_of (ms_outcomes s) j = Some r" "backs mo r a"
    using provenD assms(2,3) by (fastforce simp: action_verified_def)
  have d: "ou_disposition r = Check_Succeeded" using r(2) assms(3) by (cases "ou_disposition r") (auto simp: backs_def)
  show ?thesis
  proof (cases "ou_configuration r")
    case (Some c)
    have "valid_effect a" using history_filed [of mo xs j a] assms(1,2) by (simp add: named_def valid_action_def)
    with Some r(2) d show ?thesis
      by (auto simp: backs_def valid_outcome_request_def valid_snapshot_def valid_effect_def)
  next
    case None
    with r(2) d obtain e ob where "ou_execution r = Some e" "ou_observation r = Some ob" "valid_run_evidence r e ob"
        "ob_execution ob = e" "ac_submitted a = Some e"
      by (auto simp: backs_def valid_outcome_request_def split: option.splits)
    with r(1) d show ?thesis
      by (cases "tg_workload (ex_target e)") (auto simp: valid_run_evidence_def status_agrees_def direct_def Let_def)
  qed
qed

lemma success_rests_on_evidence_witness:
  "\<exists>a. map_of (ms_actions (run (mon_step sample_monitor) (sample_start @ sample_end) empty_store)) ''action:a'' = Some a
     \<and> ((\<exists>e ob r. ac_submitted a = Some e
          \<and> map_of (ms_outcomes (run (mon_step sample_monitor) (sample_start @ sample_end) empty_store)) ''action:a'' = Some r
          \<and> ou_observation r = Some ob \<and> ob_execution ob = e \<and> ob_status ob = Succeeded)
        \<or> (\<exists>c. ac_configuration a = Some c))"
proof -
  obtain a where a: "map_of (ms_actions (run (mon_step sample_monitor) (sample_start @ sample_end) empty_store)) ''action:a'' = Some a"
      "ac_state a = Act_Succeeded" using sample_settled by auto
  from success_rests_on_evidence [OF refl this] a show ?thesis by blast
qed

text \<open>
  C21. Replays change nothing: once a call with an idempotency identifier has returned, the
  same call returns the same result at any later time, whatever happened in between, and
  leaves the state as it is.
\<close>

theorem replays_change_nothing:
  assumes "s = run (mon_step mo) xs empty_store" and "mon_step mo (vw, c) s = (Inr r, s')"
    and "receipt_key mo c \<noteq> None"
  shows "mon_step mo (vw', c) (run (mon_step mo) ys s') = (Inr r, run (mon_step mo) ys s')"
proof -
  obtain op i y where k: "receipt_key mo c = Some ((op, i), y)" using assms(3) by fastforce
  have ok: "authorized (mo_component mo) c" "valid_call mo c" "perform_call mo vw c s = Inr (r, s')"
    using assms(2) by (auto simp: mon_step_def split: if_splits sum.splits prod.splits)
  have snd: "sound mo (set (asked xs)) s" unfolding assms(1) by (rule history_sound)
  have "sound mo (set (asked xs) \<union> set (asked [(vw, c)])) s" using snd by (auto simp: sound_def)
  from step_sound [OF this, of "(vw, c)"] have snd': "sound mo (set (asked xs) \<union> set (asked [(vw, c)])) s'"
    using assms(2) by simp
  have "idempotent mo op i y (body mo vw c) s = Inr (r, s')" using ok(3) k by (simp add: perform_call_def)
  then have "map_of (ms_receipts s') (op, i) = Some (mo_fingerprint mo y, r)"
    by (auto simp: idempotent_def tx_simps split: option.splits prod.splits if_splits)
  from run_keeps(2) [OF snd' this, of ys]
  have "map_of (ms_receipts (run (mon_step mo) ys s')) (op, i) = Some (mo_fingerprint mo y, r)" .
  with ok k show ?thesis by (simp add: mon_step_def perform_call_def idempotent_def)
qed

lemma replays_change_nothing_witness:
  "mon_step sample_monitor (sample_view 9, Call_Enqueue sample_draft)
     (run (mon_step sample_monitor) (tl (tl sample_start))
        (snd (mon_step sample_monitor (sample_view 0, Call_Enqueue sample_draft) empty_store)))
   = (Inr (Work_Reply (fresh_work sample_draft)),
      run (mon_step sample_monitor) (tl (tl sample_start))
        (snd (mon_step sample_monitor (sample_view 0, Call_Enqueue sample_draft) empty_store)))"
proof (rule replays_change_nothing [where xs = "[]" and vw = "sample_view 0"])
  have "fst (mon_step sample_monitor (sample_view 0, Call_Enqueue sample_draft) empty_store) = Inr (Work_Reply (fresh_work sample_draft))"
    by code_simp
  then show "mon_step sample_monitor (sample_view 0, Call_Enqueue sample_draft) empty_store
      = (Inr (Work_Reply (fresh_work sample_draft)),
         snd (mon_step sample_monitor (sample_view 0, Call_Enqueue sample_draft) empty_store))"
    by (metis prod.collapse)
qed simp_all

section \<open>Ownership, consent and fairness\<close>

lemma owned_work_holds:
  assumes "owned_work mo vw i l e s = Inr w"
  shows "map_of (ms_works s) i = Some w"
    "\<exists>p. map_of (ms_leases s) (Work_Lease i) = Some p \<and> ls_owner p = ls_owner l \<and> ls_fence p = ls_fence l
       \<and> vw_now vw < ls_expires p"
  using assms by (auto simp: owned_work_def split: option.splits if_splits)

text \<open>
  C20. A takeover is final: once other ownership of a work item has been accepted after a
  token of it, that token is refused for good, at whatever time and by whatever clock.
\<close>

theorem takeover_is_final:
  assumes "s1 = run (mon_step mo) xs empty_store" and "owned_work mo vw1 i l e1 s1 = Inr w1"
    and "s2 = run (mon_step mo) ys s1" and "owned_work mo vw2 i l' e2 s2 = Inr w2"
    and "(ls_owner l', ls_fence l') \<noteq> (ls_owner l, ls_fence l)"
    and "s3 = run (mon_step mo) zs s2"
  shows "owned_work mo vw3 i l e3 s3 = Inl Lease_Lost"
proof -
  have snd1: "sound mo (set (asked (xs @ ys))) s1" unfolding assms(1) by (rule run_sound [OF empty_sound]) simp
  then have snd2: "sound mo (set (asked (xs @ ys))) s2" unfolding assms(3) by (rule run_sound) simp
  have g12: "fences_grow s1 s2" using run_keeps(1) [OF snd1] assms(3) by (simp add: orderly_def)
  have g23: "fences_grow s2 s3" using run_keeps(1) [OF snd2] assms(6) by (simp add: orderly_def)
  obtain p where p: "map_of (ms_leases s1) (Work_Lease i) = Some p" "ls_owner p = ls_owner l" "ls_fence p = ls_fence l"
    using owned_work_holds(2) [OF assms(2)] by blast
  obtain q where q: "map_of (ms_leases s2) (Work_Lease i) = Some q" "ls_owner q = ls_owner l'" "ls_fence q = ls_fence l'"
    using owned_work_holds(2) [OF assms(4)] by blast
  have "ls_fence l < ls_fence l'" using g12 p q assms(5) unfolding fences_grow_def by fastforce
  moreover obtain t where t: "map_of (ms_leases s3) (Work_Lease i) = Some t" "ls_fence q \<le> ls_fence t"
    using g23 q(1) unfolding fences_grow_def by fastforce
  ultimately have "ls_fence l < ls_fence t" using q(3) by simp
  with t(1) show ?thesis by (auto simp: owned_work_def split: option.splits)
qed

lemma takeover_is_final_witness:
  "owned_work sample_monitor (sample_view 3) ''w'' sample_lease None
     (run (mon_step sample_monitor) sample_takeover (run (mon_step sample_monitor) sample_seed empty_store)) = Inl Lease_Lost"
proof -
  let ?s1 = "run (mon_step sample_monitor) sample_seed empty_store"
  let ?s2 = "run (mon_step sample_monitor) sample_takeover ?s1"
  let ?you = "sample_lease\<lparr>ls_owner := ''you'', ls_fence := 2\<rparr>"
  obtain w w' where w: "owned_work sample_monitor (sample_view 1) ''w'' sample_lease None ?s1 = Inr w"
      "owned_work sample_monitor (sample_view 121000001) ''w'' ?you None ?s2 = Inr w'"
    using sample_held sample_taken_over by (auto split: sum.splits)
  have "(ls_owner ?you, ls_fence ?you) \<noteq> (ls_owner sample_lease, ls_fence sample_lease)" by (simp add: sample_lease_def)
  from takeover_is_final [OF refl w(1) refl w(2) this refl, where zs = "[]"] show ?thesis by simp
qed

lemma commit_keeps_approvals:
  assumes "commit_reservation mo vw r w p s = Inr (x, s')"
  shows "ms_approvals s' = ms_approvals s"
proof -
  let ?a = "new_action mo vw r w s"
  let ?q = "\<lambda>q. q\<lparr>ac_retry_reservation := Some (ac_id ?a), ac_revision := ac_revision q + 1, ac_updated_at := vw_now vw\<rparr>"
  let ?s2 = "put_state (charged_state mo vw r p s) (put_owner (request_target r) (owned_by ?a) s)"
  from assms obtain s3 s4 s5 y z v where
    s3: "save_action ?a ?s2 = Inr (y, s3)" and
    s4: "(case p of None \<Rightarrow> ret () | Some q \<Rightarrow> bnd (save_action (?q q)) (\<lambda>_. ret ())) s3 = Inr ((), s4)" and
    s5: "save_work (w\<lparr>wk_reservation := Some (ac_id ?a), wk_revision := wk_revision w + 1\<rparr>) s4 = Inr (z, s5)" and
    s6: "schedule_verification mo vw ?a s5 = Inr (v, s')"
    unfolding commit_reservation_def Let_def owned_by_def [symmetric] by (auto simp: tx_simps)
  have "ms_approvals s' = ms_approvals s4"
    using qt.obeysD [OF save_work_quiet s5] qt.obeysD [OF schedule_quiet s6] by (simp add: hushed_def)
  also have "\<dots> = ms_approvals s3"
    using s4 by (cases p) (auto simp: tx_simps put_action_def dest!: save_action_saved)
  also have "\<dots> = ms_approvals s"
    using save_action_saved [OF s3] by (simp add: put_action_def put_state_def put_owner_def)
  finally show ?thesis .
qed

text \<open>
  C18. A reservation spends consent: an action that needs approval is reserved only over a
  row that a human approved, before it expired and after the intent was bound to it, for
  exactly this content, and the row is spent in the same transaction.
\<close>

theorem reservation_spends_consent:
  assumes "reserve_action mo vw r s = Inr (Reserved a, s')" and "requires_approval (action_tool (rr_action r)) \<or> rr_approval r \<noteq> None"
  shows "\<exists>ref row b d e. rr_approval r = Some ref \<and> map_of (ms_approvals s) (fst ref) = Some row
    \<and> map_of (ms_bindings s) (fst ref) = Some b \<and> bd_origin b = origin_of mo r ref
    \<and> ar_decision row = ''approve'' \<and> ar_responder row \<noteq> [] \<and> ar_consumed_at row = No_Stamp
    \<and> ar_fingerprint row = snd ref \<and> ar_action row = action_tool (rr_action r) \<and> ar_arguments row = rr_arguments r
    \<and> ar_decided_at row = Aware_Stamp d \<and> ar_expires_at row = Aware_Stamp e \<and> e = bd_expires b
    \<and> bd_created b \<le> d \<and> d \<le> vw_now vw \<and> vw_now vw < e
    \<and> map_of (ms_approvals s') (fst ref) = Some (row\<lparr>ar_consumed_at := Aware_Stamp (vw_now vw)\<rparr>)"
  using assms(1)
proof (rule reserve_granted)
  fix w p s1 assume g: "approval_denial mo vw r s = None" "spend_approval vw r s = Some s1"
    "commit_reservation mo vw r w p s1 = Inr (Reserved a, s')"
  from g(1) assms(2) obtain ref row b where
    r: "rr_approval r = Some ref" "map_of (ms_approvals s) (fst ref) = Some row" "map_of (ms_bindings s) (fst ref) = Some b"
      "bd_origin b = origin_of mo r ref" "ar_fingerprint row = snd ref" "ar_action row = action_tool (rr_action r)"
      "ar_arguments row = rr_arguments r" "answer_denial vw b row = None"
    by (auto simp: approval_denial_def split: option.splits if_splits)
  from r(8) obtain d e where d: "ar_decided_at row = Aware_Stamp d" "ar_expires_at row = Aware_Stamp e" "e = bd_expires b"
      "bd_created b \<le> d" "d \<le> vw_now vw" "vw_now vw < e" "ar_decision row = ''approve''" "ar_responder row \<noteq> []"
      "ar_consumed_at row = No_Stamp"
    by (auto simp: answer_denial_def split: stamp.splits if_splits)
  have "map_of (ms_approvals s1) (fst ref) = Some (row\<lparr>ar_consumed_at := Aware_Stamp (vw_now vw)\<rparr>)"
    using g(2) r(1,2) d by (auto simp: spend_approval_def consume_approval_def split: if_splits)
  moreover have "ms_approvals s' = ms_approvals s1" by (rule commit_keeps_approvals [OF g(3)])
  ultimately show ?thesis using r d by auto
qed simp

lemma reservation_spends_consent_witness:
  "\<exists>row a s. reserve_action sample_monitor (sample_view 4) ((sample_request ''a'')\<lparr>rr_approval := Some (''ap'', ''fp'')\<rparr>)
       (run (mon_step sample_monitor) sample_consent empty_store) = Inr (Reserved a, s)
     \<and> map_of (ms_approvals (run (mon_step sample_monitor) sample_consent empty_store)) ''ap'' = Some row
     \<and> ar_decision row = ''approve'' \<and> ar_consumed_at row = No_Stamp
     \<and> map_of (ms_approvals s) ''ap'' = Some (row\<lparr>ar_consumed_at := Aware_Stamp 4\<rparr>)"
proof -
  let ?r = "(sample_request ''a'')\<lparr>rr_approval := Some (''ap'', ''fp'')\<rparr>"
  obtain a s where g: "reserve_action sample_monitor (sample_view 4) ?r (run (mon_step sample_monitor) sample_consent empty_store)
      = Inr (Reserved a, s)"
    using sample_approved by (auto split: sum.splits prod.splits decision.splits)
  have v: "rr_approval ?r = Some (''ap'', ''fp'')" "vw_now (sample_view 4) = 4" by (simp_all add: sample_view_def)
  then have "requires_approval (action_tool (rr_action ?r)) \<or> rr_approval ?r \<noteq> None" by simp
  from reservation_spends_consent [OF g this] obtain ref row where
    r: "rr_approval ?r = Some ref" "map_of (ms_approvals (run (mon_step sample_monitor) sample_consent empty_store)) (fst ref) = Some row"
    "ar_decision row = ''approve''" "ar_consumed_at row = No_Stamp"
    "map_of (ms_approvals s) (fst ref) = Some (row\<lparr>ar_consumed_at := Aware_Stamp (vw_now (sample_view 4))\<rparr>)"
    by blast
  from r(1) have "fst ref = ''ap''" by auto
  with g r(2-5) v(2) show ?thesis by (intro exI [of _ row] exI [of _ a] exI [of _ s]) simp
qed



lemma claim_one_got:
  assumes "claim_one vw r w s = Inr (Some g, s')"
  shows "workspace_of g = workspace_of w \<and> wk_state g = Work_Leased \<and> map_option ls_owner (wk_lease g) = Some (wc_owner r)"
proof -
  from assms obtain w' f s1 where w': "recover w s = Inr (w', f)" and t: "take_work vw r w' s = Inr (Some g, s')"
    by (auto simp: claim_one_def tx_simps split: if_splits)
  have "workspace_of w' = workspace_of w"
    using w' by (auto simp: recover_def workspace_of_def split: sum.splits option.splits if_splits)
  moreover from t obtain l s1 where l: "take_lease vw (Work_Lease (wk_id w')) (wc_owner r) (wc_lease_seconds r) s = Inr (Some l, s1)"
      "workspace_of g = workspace_of w'" "wk_state g = Work_Leased" "wk_lease g = Some l"
    by (auto simp: take_work_def tx_simps workspace_of_def split: option.splits dest!: save_work_saved)
  moreover have "ls_owner l = wc_owner r"
    using l(1) by (auto simp: take_lease_def acquire_lease_def Let_def split: option.splits if_splits)
  ultimately show ?thesis by simp
qed

lemma claim_all_got:
  "claim_all vw r ws s = Inr (got, s') \<Longrightarrow>
     length got \<le> length ws
     \<and> length (filter (\<lambda>w. workspace_of w = v) got) \<le> length (filter (\<lambda>w. workspace_of w = v) ws)
     \<and> list_all (\<lambda>w. wk_state w = Work_Leased \<and> map_option ls_owner (wk_lease w) = Some (wc_owner r)) got"
proof (induction ws arbitrary: s got)
  case (Cons w ws)
  from Cons.prems obtain g s1 rest where g: "claim_one vw r w s = Inr (g, s1)" "claim_all vw r ws s1 = Inr (rest, s')"
      "got = (case g of None \<Rightarrow> [] | Some x \<Rightarrow> [x]) @ rest"
    by (auto simp: tx_simps)
  from Cons.IH [OF g(2)] g(3) claim_one_got [of vw r w s _ s1] g(1) show ?case by (cases g) auto
qed (simp add: tx_simps)

lemma filter_concat_one:
  assumes "distinct us" "\<And>u x. x \<in> set (g u) \<Longrightarrow> key x = u"
  shows "length (filter (\<lambda>x. key x = v) (concat (map g us))) \<le> length (g v)"
  using assms(1)
proof (induction us)
  case (Cons u us)
  have none: "filter (\<lambda>x. key x = v) (g u) = []" if "u \<noteq> v"
    using assms(2) that by (fastforce simp: filter_empty_conv)
  have "filter (\<lambda>x. key x = v) (concat (map g us)) = []" if "v \<notin> set us"
    using assms(2) that by (fastforce simp: filter_empty_conv)
  with none Cons show ?case by (cases "u = v") auto
qed simp

lemma filter_take_le: "length (filter P (take n xs)) \<le> length (filter P xs)"
  by (metis append_take_drop_id filter_append le_add1 length_append)

lemma filter_sort_length: "length (filter P (sort_key f xs)) = length (filter P xs)"
  by (metis mset_filter mset_sort size_mset)

lemma share_of_member: "w \<in> set (share_of mo vw r rows u) \<Longrightarrow> workspace_of w = u"
  by (auto simp: share_of_def dest!: in_set_takeD)

lemma due_share:
  "length (due mo vw r after s) \<le> nat (wc_limit r)"
  "length (filter (\<lambda>w. workspace_of w = v) (due mo vw r after s))
     \<le> nat (wc_per_workspace r - active_in vw v (map snd (ms_works s)))"
proof -
  let ?rows = "if mo_component mo = Worker_Part then [] else map snd (ms_works s)"
  let ?g = "\<lambda>ws. map (\<lambda>(n, w). (n, ws \<le> after, ws, w)) (List.enumerate 0 (share_of mo vw r ?rows ws))"
  let ?ranked = "concat (map ?g (remdups (map workspace_of ?rows)))"
  let ?key = "\<lambda>(n :: nat, a :: bool, u :: string, w). workspace_of w"
  have due: "due mo vw r after s = take (nat (wc_limit r)) (map (\<lambda>(_, _, _, w). w) (sort_key (\<lambda>(n, again, ws, _). (n, again, ws)) ?ranked))"
    by (simp add: due_def Let_def)
  then show "length (due mo vw r after s) \<le> nat (wc_limit r)" by simp
  have key: "?key x = u" if "x \<in> set (?g u)" for x u
    using that by (auto simp: in_set_enumerate_eq simp del: if_split dest!: nth_mem share_of_member)
  have "length (filter (\<lambda>w. workspace_of w = v) (due mo vw r after s)) \<le> length (filter (\<lambda>x. ?key x = v) ?ranked)"
    unfolding due by (rule order_trans [OF filter_take_le])
      (simp add: filter_map o_def filter_sort_length case_prod_unfold)
  also have "\<dots> \<le> length (?g v)" by (rule filter_concat_one [OF distinct_remdups key])
  also have "\<dots> \<le> nat (wc_per_workspace r - active_in vw v (map snd (ms_works s)))"
    by (auto simp: share_of_def active_in_def)
  finally show "length (filter (\<lambda>w. workspace_of w = v) (due mo vw r after s))
     \<le> nat (wc_per_workspace r - active_in vw v (map snd (ms_works s)))" .
qed

text \<open>
  Claims are bounded and fair: one call leases at most as many work items as it asks
  for, all to its owner, and in no workspace more than its share leaves beside the work that
  is running there already.
\<close>

lemma claims_respect_shares:
  assumes "claim_work mo vw r s = Inr (got, s')"
  shows "int (length got) \<le> max 0 (wc_limit r)
    \<and> int (length (filter (\<lambda>w. workspace_of w = v) got))
        \<le> max 0 (wc_per_workspace r - active_in vw v (map snd (ms_works s)))
    \<and> list_all (\<lambda>w. wk_state w = Work_Leased \<and> map_option ls_owner (wk_lease w) = Some (wc_owner r)) got"
proof -
  from assms obtain after s1 where c: "claim_all vw r (due mo vw r after s) s = Inr (got, s1)"
    unfolding claim_work_def Let_def by (auto simp: bnd_ok ret_def simp del: split_paired_Ex split: if_splits intro: that)
  from claim_all_got [OF c, of v] due_share(1) [of mo vw r after s] due_share(2) [of v mo vw r after s] show ?thesis by linarith
qed

lemma claims_respect_shares_witness:
  "\<exists>got s. claim_work sample_monitor (sample_view 0) sample_claim (run (mon_step sample_monitor) (take 2 sample_start) empty_store)
       = Inr (got, s) \<and> map wk_id got = [''w''] \<and> int (length got) \<le> 20
     \<and> list_all (\<lambda>w. wk_state w = Work_Leased \<and> map_option ls_owner (wk_lease w) = Some ''me'') got"
proof -
  obtain got s where g: "claim_work sample_monitor (sample_view 0) sample_claim
      (run (mon_step sample_monitor) (take 2 sample_start) empty_store) = Inr (got, s)" "map wk_id got = [''w'']"
    using sample_claimed by (auto split: sum.splits prod.splits)
  from claims_respect_shares [OF g(1)] g show ?thesis by (auto simp: sample_claim_def)
qed

end
