(* ===== verification/Monitor_Conduct.thy ===== *)
theory Monitor_Conduct
  imports Monitor_Courses Monitor_Promises
begin

text \<open>
  The conduct of executions: a request is submitted to the service only by the execution
  whose transaction created the reservation, at most once for each work item and action,
  and what an attempt reports as completed is on file as verified.
\<close>

section \<open>Running programs\<close>

lemma seq_run: "seq t f d = (Inr y, d') \<longleftrightarrow> (\<exists>x d1. t d = (Inr x, d1) \<and> f x d1 = (Inr y, d'))"
  by (auto simp: seq_def split: prod.splits sum.splits)

lemma give_run: "give x d = (Inr y, d') \<longleftrightarrow> y = x \<and> d' = d"
  by (auto simp: give_def)

lemma fail_run: "fail e d = (Inr y, d') \<longleftrightarrow> False" "conflict d = (Inr y, d') \<longleftrightarrow> False"
  by (simp_all add: fail_def conflict_def)

lemma look_run: "look f d = (Inr y, d') \<longleftrightarrow> y = f d \<and> d' = d"
  by (auto simp: look_def)

lemma tell_run: "tell f d = (Inr y, d') \<longleftrightarrow> d' = f d"
  by (auto simp: tell_def)

lemma clock_run: "clock sx d = (Inr y, d') \<longleftrightarrow> y = sx_clock sx (dk_tick d) \<and> d' = d"
  by (simp add: clock_def look_run)

lemma fetch_run: "fetch mo sx f d = (Inr y, d') \<longleftrightarrow> d' = pass mo sx d \<and> y = f (sx_view sx (dk_tick d)) (dk_store d')"
  by (auto simp: fetch_def Let_def)

lemma journal_run: "journal t d = (Inr y, d') \<longleftrightarrow> t d = (Inr y, d')"
  by (auto simp: journal_def split: prod.splits sum.splits)

lemma drafted_run: "drafted mo c d = (Inr y, d') \<longleftrightarrow> valid_call mo c \<and> d' = d"
  by (auto simp: drafted_def give_def fail_def)

lemma held_run: "held_lease w d = (Inr l, d') \<longleftrightarrow> wk_lease w = Some l \<and> d' = d"
  by (auto simp: held_lease_def give_def fail_def split: option.splits)

lemma invoke_run:
  "invoke mo sx c d = (Inr r, d') \<longleftrightarrow>
     (\<exists>s. mon_step mo (sx_view sx (dk_tick d), c) (dk_store (pass mo sx d)) = (Inr r, s) \<and> d' = (pass mo sx d)\<lparr>dk_store := s\<rparr>)"
  by (auto simp: invoke_def Let_def split: prod.splits sum.splits)

lemma reservation_run: "the_reservation d = (Inr a, d') \<longleftrightarrow> dk_reservation d = Some a \<and> d' = d"
  by (auto simp: the_reservation_def seq_run look_run give_run fail_run split: option.splits)

lemma keep_run: "keep_action r d = (Inr a, d') \<longleftrightarrow> r = Action_Reply a \<and> d' = d\<lparr>dk_reservation := Some a\<rparr>"
  by (cases r) (auto simp: keep_action_def seq_run tell_run give_run fail_run)

lemmas runs = seq_run give_run fail_run look_run tell_run clock_run fetch_run journal_run drafted_run held_run
  invoke_run reservation_run keep_run

lemma pass_same [simp]:
  "dk_work (pass mo sx d) = dk_work d" "dk_incident (pass mo sx d) = dk_incident d"
  "dk_reservation (pass mo sx d) = dk_reservation d"
  by (simp_all add: pass_def)

section \<open>What keeps holding\<close>

interpretation engine: machine "mon_step mo" "sound mo UNIV" for mo
  by unfold_locales (auto intro: step_sound)

lemma receipts_kept:
  assumes "sound mo UNIV s" "map_of (ms_receipts s) k \<noteq> None"
  shows "map_of (ms_receipts (run (mon_step mo) xs s)) k \<noteq> None"
  using run_keeps(2) [OF assms(1)] assms(2) by fastforce

lemma pass_sound: "sound mo UNIV (dk_store d) \<Longrightarrow> sound mo UNIV (dk_store (pass mo sx d))"
  by (simp add: pass_def engine.inv_run)

lemma sound_work: "sound mo UNIV s \<Longrightarrow> map_of (ms_works s) i = Some w \<Longrightarrow> wk_id w = i"
  by (simp add: sound_def works_ok_def)

lemma current_work_run:
  assumes "current_work mo sx d = (Inr w, d1)" "sound mo UNIV (dk_store d)"
  shows "wk_id w = wk_id (dk_work d)" "d1 = (pass mo sx d)\<lparr>dk_work := w\<rparr>"
  using assms sound_work [OF pass_sound [OF assms(2)]]
  by (auto simp: current_work_def runs split: option.splits if_splits)

lemma current_target_run: "current_target mo sx d = (Inr t, d1) \<Longrightarrow> d1 = pass mo sx d"
  by (auto simp: current_target_def runs split: option.splits)

text \<open>A call with an identifier leaves a receipt.\<close>

lemma step_receipt:
  assumes "mon_step mo (vw, c) s = (Inr r, s')" "receipt_key mo c = Some (k, y)"
  shows "map_of (ms_receipts s') k \<noteq> None"
  using assms
  by (auto simp: mon_step_def perform_call_def idempotent_def tx_simps split: if_splits sum.splits prod.splits option.splits)

lemma receipt_left:
  assumes "invoke mo sx (Call_Reserve r) d = (Inr rep, d')"
  shows "map_of (ms_receipts (dk_store d')) (Op_Reserve, rr_id r) \<noteq> None"
  using assms step_receipt [of mo "sx_view sx (dk_tick d)" "Call_Reserve r" _ rep _ "(Op_Reserve, rr_id r)"]
  by (fastforce simp: invoke_run)

section \<open>Reservation\<close>

lemma reservation_for_run:
  assumes "reservation_for mo sx tool ap args d = (Inr (Inr r), d1)" "sound mo UNIV (dk_store d)"
  shows "rr_id r = reservation_name sx (dk_work d) tool" "rr_work r = wk_id (dk_work d)"
proof -
  from assms(1) obtain a w d2 where w: "current_work mo sx d = (Inr w, d2)"
      and r: "\<exists>l pol v h n inc m. r = intended sx w l tool a pol v h n inc m ap args"
    by (auto simp: reservation_for_def runs Let_def split: option.splits if_splits dest!: current_target_run) blast+
  from r current_work_run(1) [OF w assms(2)]
  show "rr_id r = reservation_name sx (dk_work d) tool" "rr_work r = wk_id (dk_work d)"
    by (auto simp: intended_def reservation_name_def)
qed

text \<open>What a granted fresh reservation ran through.\<close>

lemma granted_run:
  assumes "reserve_fresh mo sx tool ap args d = (Inr Granted, d1)"
  obtains r d2 d3 rep where "reservation_for mo sx tool ap args d = (Inr (Inr r), d2)"
    "invoke mo sx (Call_Reserve r) d2 = (Inr rep, d3)" "dk_store d1 = dk_store d3"
proof -
  from assms obtain q d2 where q: "reservation_for mo sx tool ap args d = (Inr q, d2)"
      and rest: "(case q of Inl e \<Rightarrow> give (Refused_Here e)
        | Inr r \<Rightarrow> seq (journal (invoke mo sx (Call_Reserve r))) (\<lambda>rep.
            case rep of
              Decision_Reply (decision.Reserved a) \<Rightarrow> seq (tell (\<lambda>d. d\<lparr>dk_reservation := Some a\<rparr>)) (\<lambda>_. give Granted)
            | Decision_Reply (Denied e) \<Rightarrow> give (Denied_There e)
            | _ \<Rightarrow> fail Other_Trouble)) d2 = (Inr Granted, d1)"
    unfolding reserve_fresh_def seq_run by blast
  from rest obtain r where r: "q = Inr r" by (cases q) (auto simp: give_run)
  from rest obtain rep d3 where i: "invoke mo sx (Call_Reserve r) d2 = (Inr rep, d3)"
      and k: "(case rep of
              Decision_Reply (decision.Reserved a) \<Rightarrow> seq (tell (\<lambda>d. d\<lparr>dk_reservation := Some a\<rparr>)) (\<lambda>_. give Granted)
            | Decision_Reply (Denied e) \<Rightarrow> give (Denied_There e)
            | _ \<Rightarrow> fail Other_Trouble) d3 = (Inr Granted, d1)"
    unfolding r sum.case seq_run journal_run by blast
  from k have "dk_store d1 = dk_store d3"
    by (auto simp: seq_run tell_run give_run fail_run split: mon_reply.splits decision.splits)
  then show thesis using that q r i by blast
qed

text \<open>A granted reservation is the doing of this very call: its name had no receipt before.\<close>

lemma reserve_run:
  assumes "reserve mo sx tool ap args d = (Inr Granted, d1)" "sound mo UNIV (dk_store d)"
  shows "map_of (ms_receipts (dk_store d)) (Op_Reserve, reservation_name sx (dk_work d) tool) = None"
    "map_of (ms_receipts (dk_store d1)) (Op_Reserve, reservation_name sx (dk_work d) tool) \<noteq> None"
    "sound mo UNIV (dk_store d1)"
proof -
  let ?k = "(Op_Reserve, reservation_name sx (dk_work d) tool)"
  have p: "map_of (ms_receipts (dk_store (pass mo sx d))) ?k = None"
    and f: "reserve_fresh mo sx tool ap args (pass mo sx d) = (Inr Granted, d1)"
    using assms(1) by (auto simp: reserve_def runs split: option.splits mon_reply.splits decision.splits)
  show "map_of (ms_receipts (dk_store d)) ?k = None"
  proof (rule ccontr)
    assume "map_of (ms_receipts (dk_store d)) ?k \<noteq> None"
    from receipts_kept [OF assms(2) this, of "sx_others sx (dk_tick d)"] p show False by (simp add: pass_def)
  qed
  from f obtain r d2 d3 rep where r: "reservation_for mo sx tool ap args (pass mo sx d) = (Inr (Inr r), d2)"
      and i: "invoke mo sx (Call_Reserve r) d2 = (Inr rep, d3)" and s: "dk_store d1 = dk_store d3"
    by (rule granted_run)
  have "rr_id r = reservation_name sx (dk_work d) tool" using reservation_for_run(1) [OF r pass_sound [OF assms(2)]] by simp
  with i s show "map_of (ms_receipts (dk_store d1)) ?k \<noteq> None"
    using receipt_left [OF i] by simp
  from onward.keepsD [OF onward.keeps_reserve assms(1)] assms(2) show "sound mo UNIV (dk_store d1)"
    by (auto intro: engine.inv_run)
qed

section \<open>Posts\<close>

text \<open>A program that posts at most the reservation it holds, and only a new one.\<close>

definition posts_once :: "desk \<Rightarrow> desk \<Rightarrow> bool" where
  "posts_once d d' \<longleftrightarrow>
     dk_posts d' = dk_posts d
     \<or> (\<exists>a. dk_reservation d = Some a \<and> ac_state a = Act_Reserved \<and> dk_posts d' = dk_posts d @ [ac_id a])"

lemma seq_snd: "snd (seq t f d) = (case fst (t d) of Inl e \<Rightarrow> snd (t d) | Inr x \<Rightarrow> snd (f x (snd (t d))))"
  by (auto simp: seq_def split: prod.splits sum.splits)

lemma still_snd: "still.keeps t \<Longrightarrow> dk_posts (snd (t d)) = dk_posts d"
  by (simp add: still.keeps_def)

lemma seq_look [simp]: "seq (look f) g d = g (f d) d"
  by (simp add: seq_def look_def)

lemma seq_starting [simp]: "seq (starting sx a) g d = g (max (sx_clock sx (dk_tick d)) (ac_reserved_at a)) d"
  by (simp add: seq_def starting_def clock_def look_def give_def)

lemma fresh_eval:
  "fresh_reservation d =
     (case dk_reservation d of None \<Rightarrow> conflict d | Some a \<Rightarrow> if ac_state a \<noteq> Act_Reserved then conflict d else give a d)"
  by (simp add: fresh_reservation_def the_reservation_def seq_def look_def give_def conflict_def fail_def split: option.split)

lemma fresh_then:
  assumes "\<And>a. dk_reservation d = Some a \<Longrightarrow> ac_state a = Act_Reserved \<Longrightarrow> posts_once d (snd (f a d))"
  shows "posts_once d (snd (seq fresh_reservation f d))"
proof -
  have "posts_once d d" by (simp add: posts_once_def)
  then show ?thesis using assms
    by (simp add: seq_snd fresh_eval give_def fail_def conflict_def split: option.split)
qed

lemma post_then:
  assumes "still.keeps (g ())" "dk_reservation d = Some a" "ac_state a = Act_Reserved"
  shows "posts_once d (snd (seq (post mo sx a) g d))"
  using still_snd [OF assms(1)] assms(2,3) by (simp add: seq_snd post_def tell_def posts_once_def)

lemma still_once: "still.keeps t \<Longrightarrow> posts_once d (snd (t d))"
  by (simp add: posts_once_def still.keeps_def)

lemma refresh_posts: "posts_once d (snd (refresh mo sx pb d))"
  unfolding refresh_def
  by (rule fresh_then) (simp, rule post_then, intro still.keeps_parts still.keeps_rejection still.keeps_submission still.keeps_verify_refresh)

lemma submission_posts: "posts_once d (snd (submit_pipeline mo sx fp d))"
  unfolding submit_pipeline_def
  by (rule fresh_then) (simp, rule post_then, intro still.keeps_parts still.keeps_submission)

lemma posts_if:
  "posts_once d (snd (t d)) \<Longrightarrow> posts_once d (snd (u d)) \<Longrightarrow> posts_once d (snd ((if b then t else u) d))"
  by simp

lemma configure_posts: "posts_once d (snd (configure mo sx pb d))"
  unfolding configure_def
proof (rule fresh_then, goal_cases)
  case (1 a)
  have c: "posts_once d (snd (conflict d))" by (simp add: conflict_def fail_def posts_once_def)
  show ?case
  proof (cases "map_of (rr_arguments (ac_request a)) ''configuration''")
    case (Some v)
    show ?thesis
    proof (cases v)
      case (JObj desired)
      show ?thesis unfolding Some JObj option.case json.case seq_starting Let_def
        by (rule posts_if, rule still_once, intro still.keeps_parts still.keeps_submission,
            rule post_then [OF _ 1], intro still.keeps_parts still.keeps_rejection still.keeps_submission still.keeps_verify_configuration)
    qed (use Some c in simp_all)
  qed (use c in simp)
qed

section \<open>Attempts over a shared store\<close>

text \<open>
  An attempt of some process: its own fields, its surroundings and its arguments. Attempts
  run one after the other on the store they share, with any calls of others before each of
  their transactions; the answer is what was posted.
\<close>

record assignment =
  as_desk :: desk
  as_surroundings :: surroundings
  as_tool :: action
  as_approval :: "(string \<times> string) option"
  as_arguments :: "(string, json) dict"
  as_charged :: bool
  as_service :: service
  as_pipelines :: pipeline_service

definition undertake :: "monitor \<Rightarrow> assignment \<Rightarrow> mon_store \<Rightarrow> string list \<times> mon_store" where
  "undertake mo g s =
     (case attempt mo (as_surroundings g) (as_tool g) (as_approval g) (as_arguments g) (as_charged g) (as_service g)
             (as_pipelines g) ((as_desk g)\<lparr>dk_store := s, dk_posts := []\<rparr>) of
        (_, d) \<Rightarrow> (dk_posts d, dk_store d))"

definition posted_under :: "assignment \<Rightarrow> string list \<Rightarrow> string option" where
  "posted_under g ps = (if ps = [] then None else Some (reservation_name (as_surroundings g) (dk_work (as_desk g)) (as_tool g)))"

text \<open>What an attempt does after a reservation that was not granted, and after one that was.\<close>

lemma attempt_split:
  assumes "attempt mo sx tool ap args charged pb fp d = (x, d')"
  shows "dk_posts d' = dk_posts d
    \<or> (\<exists>d1. reserve mo sx tool ap args d = (Inr Granted, d1) \<and> posts_once d1 d' \<and> (\<exists>xs. dk_store d' = run (mon_step mo) xs (dk_store d1)))"
proof (cases "reserve mo sx tool ap args d")
  case (Pair q d1)
  have p: "dk_posts d1 = dk_posts d" using still.keepsD [OF still.keeps_reserve Pair] .
  show ?thesis
  proof (cases "q = Inr Granted \<and> charged")
    case False
    then show ?thesis using assms Pair p
      by (auto simp: attempt_def seq_def give_def split: sum.splits if_splits)
  next
    case True
    let ?u = "if tool = Rerun_Pipeline then seq (submit_pipeline mo sx fp) (\<lambda>r. give (Job_Result r))
      else if tool = Refresh_Dataset then seq (refresh mo sx pb) (\<lambda>r. give (Service_Result r))
      else seq (configure mo sx pb) (\<lambda>r. give (Service_Result r))"
    from True assms Pair have u: "?u d1 = (x, d')" by (simp add: attempt_def seq_def [of "reserve mo sx tool ap args"])
    have "posts_once d1 (snd (?u d1))"
      using submission_posts [of d1 mo sx fp] refresh_posts [of d1 mo sx pb] configure_posts [of d1 mo sx pb]
      by (simp add: seq_snd give_def split: sum.split)
    moreover have o: "onward.keeps mo ?u"
      by (intro onward.keeps_parts onward.keeps_submit onward.keeps_refresh onward.keeps_configure)
    have "\<exists>xs. dk_store d' = run (mon_step mo) xs (dk_store d1)" using o u unfolding onward.keeps_def by (metis snd_conv)
    moreover have "snd (?u d1) = d'" using u by (simp only: snd_conv)
    ultimately show ?thesis using True Pair by auto
  qed
qed

lemma undertake_sound:
  assumes "sound mo UNIV s"
  shows "sound mo UNIV (snd (undertake mo g s))"
    and "map_of (ms_receipts s) k \<noteq> None \<Longrightarrow> map_of (ms_receipts (snd (undertake mo g s))) k \<noteq> None"
proof -
  obtain x d where a: "attempt mo (as_surroundings g) (as_tool g) (as_approval g) (as_arguments g) (as_charged g) (as_service g)
      (as_pipelines g) ((as_desk g)\<lparr>dk_store := s, dk_posts := []\<rparr>) = (x, d)" by fastforce
  from onward.keepsD [OF onward.keeps_attempt a] obtain xs where "dk_store d = run (mon_step mo) xs s" by auto
  with a have u: "snd (undertake mo g s) = run (mon_step mo) xs s" by (simp add: undertake_def)
  show "sound mo UNIV (snd (undertake mo g s))" unfolding u by (rule engine.inv_run [OF assms])
  show "map_of (ms_receipts (snd (undertake mo g s))) k \<noteq> None" if "map_of (ms_receipts s) k \<noteq> None"
    unfolding u by (rule receipts_kept [OF assms that])
qed

lemma undertake_posts:
  assumes "sound mo UNIV s" "undertake mo g s = (ps, s')" "ps \<noteq> []"
  defines "k \<equiv> (Op_Reserve, reservation_name (as_surroundings g) (dk_work (as_desk g)) (as_tool g))"
  shows "length ps = 1" "map_of (ms_receipts s) k = None" "map_of (ms_receipts s') k \<noteq> None"
proof -
  let ?d = "(as_desk g)\<lparr>dk_store := s, dk_posts := []\<rparr>" and ?sx = "as_surroundings g"
  from assms(2) obtain x d where a: "attempt mo ?sx (as_tool g) (as_approval g) (as_arguments g) (as_charged g) (as_service g)
      (as_pipelines g) ?d = (x, d)" and d: "ps = dk_posts d" "s' = dk_store d"
    by (auto simp: undertake_def split: prod.splits)
  from attempt_split [OF a] assms(3) d obtain d1 xs where r: "reserve mo ?sx (as_tool g) (as_approval g) (as_arguments g) ?d = (Inr Granted, d1)"
      and p: "posts_once d1 d" and s: "dk_store d = run (mon_step mo) xs (dk_store d1)"
    by auto
  have "dk_posts d1 = []" using still.keepsD [OF still.keeps_reserve r] by simp
  with p d assms(3) show "length ps = 1" by (auto simp: posts_once_def)
  have i: "sound mo UNIV (dk_store ?d)" using assms(1) by simp
  show "map_of (ms_receipts s) k = None" using reserve_run(1) [OF r i] by (simp add: k_def)
  show "map_of (ms_receipts s') k \<noteq> None"
    unfolding d(2) s k_def using receipts_kept [OF reserve_run(3) [OF r i] reserve_run(2) [OF r i]] by simp
qed

interpretation posting: one_shot "undertake mo" "sound mo UNIV" posted_under "\<lambda>s k. map_of (ms_receipts s) (Op_Reserve, k) \<noteq> None" for mo
proof unfold_locales
  fix s g k
  assume i: "sound mo UNIV s"
  obtain ps s' where u: "undertake mo g s = (ps, s')" by fastforce
  show "sound mo UNIV (snd (undertake mo g s))" by (rule undertake_sound(1) [OF i])
  show "map_of (ms_receipts (snd (undertake mo g s))) (Op_Reserve, k) \<noteq> None" if "map_of (ms_receipts s) (Op_Reserve, k) \<noteq> None"
    by (rule undertake_sound(2) [OF i that])
  assume w: "posted_under g (fst (undertake mo g s)) = Some k"
  then have k: "ps \<noteq> []" "k = reservation_name (as_surroundings g) (dk_work (as_desk g)) (as_tool g)"
    using u by (auto simp: posted_under_def split: if_splits)
  show "\<not> map_of (ms_receipts s) (Op_Reserve, k) \<noteq> None"
    using undertake_posts(2) [OF i u k(1)] k(2) by simp
  show "map_of (ms_receipts (snd (undertake mo g s))) (Op_Reserve, k) \<noteq> None"
    using undertake_posts(3) [OF i u k(1)] k(2) u by simp
qed

end
