(* ===== verification/Monitor_Truth.thy ===== *)
theory Monitor_Truth
  imports Monitor_Conduct
begin

text \<open>
  What executions report and what is on file. Every recorded check has a reply that states
  its own finding, and a verified finding stays on file; so an operation that reports a
  completed service request has left a verified action behind.
\<close>

section \<open>Replies to checks\<close>

text \<open>The digest of a check tells the action it is about and its finding.\<close>

definition tells_checks :: "monitor \<Rightarrow> bool" where
  "tells_checks mo \<longleftrightarrow>
     (\<forall>r c r' c'. mo_fingerprint mo (Of_Outcome r c) = mo_fingerprint mo (Of_Outcome r' c') \<longrightarrow>
        ou_reservation r = ou_reservation r' \<and> ou_disposition r = ou_disposition r')"

lemma tells_checksD:
  "tells_checks mo \<Longrightarrow> mo_fingerprint mo (Of_Outcome r c) = mo_fingerprint mo (Of_Outcome r' c') \<Longrightarrow>
     ou_reservation r = ou_reservation r' \<and> ou_disposition r = ou_disposition r'"
  unfolding tells_checks_def by blast

definition on_file :: "mon_store \<Rightarrow> mon_act \<Rightarrow> bool" where
  "on_file s a \<longleftrightarrow> (\<exists>b. map_of (ms_actions s) (ac_id a) = Some b \<and> ac_state b = ac_state a)"

definition answers_check :: "mon_store \<Rightarrow> outcome_request \<Rightarrow> mon_reply \<Rightarrow> bool" where
  "answers_check s r rep \<longleftrightarrow>
     (\<exists>a. rep = Action_Reply a \<and> ac_id a = ou_reservation r \<and> ac_state a = state_of_check (ou_disposition r)
        \<and> (action_open (ac_state a) \<or> on_file s a))"

definition truthful :: "monitor \<Rightarrow> mon_store \<Rightarrow> bool" where
  "truthful mo s \<longleftrightarrow>
     (\<forall>i fp rep. map_of (ms_receipts s) (Op_Outcome, i) = Some (fp, rep) \<longrightarrow>
        (\<exists>r c. fp = mo_fingerprint mo (Of_Outcome r c) \<and> answers_check s r rep))"

lemma truthfulD:
  "truthful mo s \<Longrightarrow> map_of (ms_receipts s) (Op_Outcome, i) = Some (fp, rep) \<Longrightarrow>
     \<exists>r c. fp = mo_fingerprint mo (Of_Outcome r c) \<and> answers_check s r rep"
  unfolding truthful_def by blast

text \<open>The state an execution works on: sound, its open actions owned, its checks answered truly.\<close>

definition honest :: "monitor \<Rightarrow> mon_store \<Rightarrow> bool" where
  "honest mo s \<longleftrightarrow> sound mo UNIV s \<and> owners_ok (board_of s) \<and> truthful mo s"

lemma answers_kept:
  assumes "answers_check s r rep" "\<And>j a. map_of (ms_actions s) j = Some a \<Longrightarrow> \<not> action_open (ac_state a) \<Longrightarrow>
      \<exists>b. map_of (ms_actions s') j = Some b \<and> ac_state b = ac_state a"
  shows "answers_check s' r rep"
  using assms unfolding answers_check_def on_file_def by metis

lemma outcome_answers:
  assumes "body mo vw (Call_Outcome r c) s = Inr (rep, s')" "sound mo UNIV s"
  shows "answers_check s' r rep"
proof -
  from assms(1) obtain x where x: "record_action_outcome mo vw r c s = Inr (x, s')" "rep = Action_Reply x"
    by (auto simp: answer_with_def tx_simps)
  from outcome_saved [OF x(1)] obtain a where a: "map_of (ms_actions s) (ou_reservation r) = Some a" "x = outcome_action vw a r"
      and f: "ms_actions s' = AList.update (ac_id a) x (ms_actions s)"
    by (metis retabled_def)
  have i: "ac_id a = ou_reservation r" using assms(2) a(1) by (auto simp: sound_def filed_def named_def)
  have "ac_id x = ac_id a" "ac_state x = state_of_check (ou_disposition r)" by (simp_all add: a(2) outcome_action_def)
  with i f x(2) show ?thesis by (simp add: answers_check_def on_file_def update_conv')
qed

lemma step_honest:
  assumes "honest mo s" "inj (\<lambda>i. mo_id mo (''action:'' @ i))"
  shows "honest mo (snd (mon_step mo x s))"
proof -
  let ?s = "snd (mon_step mo x s)"
  have s: "sound mo UNIV s" "owners_ok (board_of s)" "truthful mo s" using assms(1) by (simp_all add: honest_def)
  note st = step_board [OF s(1) subset_UNIV assms(2), of x]
  have kept: "\<exists>b. map_of (ms_actions ?s) j = Some b \<and> ac_state b = ac_state a"
    if "map_of (ms_actions s) j = Some a" "\<not> action_open (ac_state a)" for j a
    using board_step_final [OF st s(2), of j a] that by (auto simp: board_of_def same_effect_def)
  have old: "\<exists>r c. fp = mo_fingerprint mo (Of_Outcome r c) \<and> answers_check ?s r rep"
    if "map_of (ms_receipts s) (Op_Outcome, i) = Some (fp, rep)" for i fp rep
    using truthfulD [OF s(3) that] answers_kept [of s _ _ ?s] kept by metis
  have "truthful mo ?s" unfolding truthful_def
  proof (intro allI impI)
    fix i fp rep assume r: "map_of (ms_receipts ?s) (Op_Outcome, i) = Some (fp, rep)"
    show "\<exists>r c. fp = mo_fingerprint mo (Of_Outcome r c) \<and> answers_check ?s r rep"
    proof (cases "map_of (ms_receipts s) (Op_Outcome, i)")
      case (Some z)
      then have "map_of (ms_receipts ?s) (Op_Outcome, i) = Some z"
        using run_keeps(2) [OF s(1), of "(Op_Outcome, i)" z "[x]"] by simp
      with Some r show ?thesis by (intro old [of i]) simp
    next
      case None
      from r None show ?thesis
      proof (cases rule: mon_step_cases [of mo x s])
        case (2 vw c rr s1)
        with body_plays [of mo s vw c rr s1] s(1) r None show ?thesis by (simp add: sound_def plays_def)
      next
        case (3 vw c rr s1 k y)
        have rc: "ms_receipts s1 = ms_receipts s"
          using body_plays [of mo s vw c rr s1] s(1) 3(4) by (simp add: sound_def plays_def)
        have k: "k = (Op_Outcome, i)" "fp = mo_fingerprint mo y" "rep = rr"
          using r None 3(7) rc by (auto simp: update_conv' split: if_splits)
        obtain rq cm where c: "c = Call_Outcome rq cm" "y = Of_Outcome rq cm"
          using 3(5) k(1) by (cases c) auto
        have "answers_check s1 rq rep" using outcome_answers 3(4) c(1) k(3) s(1) by blast
        then have "answers_check ?s rq rep" using 3(7) by (simp add: answers_check_def on_file_def)
        with k(2) c(2) show ?thesis by blast
      qed (use None in simp)
    qed
  qed
  then show ?thesis using engine.inv_step [OF s(1)] board_step_owners [OF st s(2)] by (simp add: honest_def)
qed

interpretation faithful: machine "mon_step mo" "\<lambda>s. honest mo s \<and> inj (\<lambda>i. mo_id mo (''action:'' @ i))" for mo
  by unfold_locales (auto intro: step_honest)

lemma run_honest: "honest mo s \<Longrightarrow> inj (\<lambda>i. mo_id mo (''action:'' @ i)) \<Longrightarrow> honest mo (run (mon_step mo) xs s)"
  using faithful.inv_run by blast

section \<open>Recorded checks\<close>

lemma kept_honest:
  assumes "onward.keeps mo t" "t d = (x, d')" "honest mo (dk_store d)" "inj (\<lambda>i. mo_id mo (''action:'' @ i))"
  shows "honest mo (dk_store d')"
  using onward.keepsD [OF assms(1,2)] run_honest [OF assms(3,4)] by fastforce

lemma step_filed:
  assumes "mon_step mo (vw, c) s = (Inr r, s')" "receipt_key mo c = Some (k, y)"
  shows "map_of (ms_receipts s') k = Some (mo_fingerprint mo y, r)"
  using assms
  by (auto simp: mon_step_def perform_call_def idempotent_def tx_simps update_conv' split: if_splits sum.splits prod.splits option.splits)

lemma invoke_answers:
  assumes "invoke mo sx (Call_Outcome r c) d = (Inr rep, d')" "honest mo (dk_store d)" "inj (\<lambda>i. mo_id mo (''action:'' @ i))"
    "tells_checks mo"
  shows "answers_check (dk_store d') r rep"
proof -
  have h: "honest mo (dk_store d')" by (rule kept_honest [OF onward.keeps_invoke assms(1-3)])
  from assms(1) have "map_of (ms_receipts (dk_store d')) (Op_Outcome, ou_id r) = Some (mo_fingerprint mo (Of_Outcome r c), rep)"
    by (auto simp: invoke_run intro: step_filed)
  from truthfulD [OF _ this] h obtain r' c' where e: "mo_fingerprint mo (Of_Outcome r c) = mo_fingerprint mo (Of_Outcome r' c')"
      and a: "answers_check (dk_store d') r' rep"
    unfolding honest_def by blast
  from tells_checksD [OF assms(4) e] a show ?thesis by (simp add: answers_check_def)
qed

text \<open>What a program leaves behind when it verified the action.\<close>

definition verified_on_file :: "desk \<Rightarrow> bool" where
  "verified_on_file d \<longleftrightarrow>
     (\<exists>a b. dk_reservation d = Some a \<and> map_of (ms_actions (dk_store d)) (ac_id a) = Some b \<and> ac_state b = Act_Succeeded)"

lemma record_check_run:
  assumes "record_check mo sx ob (Some True) acts complete conf d = (Inr a, d')" "honest mo (dk_store d)"
    "inj (\<lambda>i. mo_id mo (''action:'' @ i))" "tells_checks mo"
  shows "verified_on_file d'"
proof -
  from assms(1) obtain x where x: "record_check mo sx ob (Some True) acts complete conf d = (Inr a, d')" "dk_reservation d = Some x"
    by (auto simp: record_check_def seq_run reservation_run)
  let ?r = "\<lparr>ou_id = sx_check sx (ac_id x) (ac_revision x) (sx_clock sx (dk_tick d)), ou_reservation = ac_id x, ou_revision = ac_revision x,
    ou_fence = ac_fence x, ou_disposition = Check_Succeeded, ou_execution = ac_submitted x, ou_observation = ob,
    ou_configuration = conf, ou_activities = acts, ou_complete = complete, ou_observed_at = sx_clock sx (dk_tick d)\<rparr>"
  from x obtain c d1 d2 rep where c: "action_commit mo sx d = (Inr c, d1)"
      and i: "invoke mo sx (Call_Outcome ?r (Some c)) d1 = (Inr rep, d2)" and k: "keep_action rep d2 = (Inr a, d')"
    by (auto simp: record_check_def seq_run reservation_run clock_run Let_def drafted_run journal_run found_def)
  have "honest mo (dk_store d1)" by (rule kept_honest [OF onward.keeps_commit c assms(2,3)])
  from invoke_answers [OF i this assms(3,4)] k show ?thesis
    by (auto simp: answers_check_def keep_run verified_on_file_def on_file_def action_open_def)
qed

section \<open>What operations report\<close>

text \<open>The identifiers of reservations and the digests of checks are told apart.\<close>

definition clear_names :: "monitor \<Rightarrow> bool" where
  "clear_names mo \<longleftrightarrow> inj (\<lambda>i. mo_id mo (''action:'' @ i)) \<and> tells_checks mo"

text \<open>Where a program returns, from an honest store, \<open>Q\<close> holds of what it returns.\<close>

definition leads :: "monitor \<Rightarrow> ('a \<Rightarrow> desk \<Rightarrow> bool) \<Rightarrow> 'a shift \<Rightarrow> bool" where
  "leads mo Q t \<longleftrightarrow> (\<forall>d x d'. clear_names mo \<longrightarrow> honest mo (dk_store d) \<longrightarrow> t d = (Inr x, d') \<longrightarrow> Q x d')"

lemma leadsD: "leads mo Q t \<Longrightarrow> t d = (Inr x, d') \<Longrightarrow> honest mo (dk_store d) \<Longrightarrow> clear_names mo \<Longrightarrow> Q x d'"
  unfolding leads_def by blast

lemma leads_seq:
  assumes "onward.keeps mo t" "\<And>x. leads mo Q (f x)"
  shows "leads mo Q (seq t f)"
  using assms(2) kept_honest [OF assms(1)] unfolding leads_def seq_run clear_names_def by blast

lemma leads_give: "(\<And>d. Q x d) \<Longrightarrow> leads mo Q (give x)"
  by (simp add: leads_def give_run)

lemma leads_fail: "leads mo Q (fail e)" and leads_conflict: "leads mo Q conflict"
  by (simp_all add: leads_def fail_run)

lemma leads_if: "(b \<Longrightarrow> leads mo Q t) \<Longrightarrow> (\<not> b \<Longrightarrow> leads mo Q u) \<Longrightarrow> leads mo Q (if b then t else u)"
  by simp

lemma leads_let: "leads mo Q (f x) \<Longrightarrow> leads mo Q (let y = x in f y)"
  by simp

lemma leads_option: "(z = None \<Longrightarrow> leads mo Q t) \<Longrightarrow> (\<And>y. z = Some y \<Longrightarrow> leads mo Q (f y)) \<Longrightarrow> leads mo Q (case z of None \<Rightarrow> t | Some y \<Rightarrow> f y)"
  by (cases z) auto

lemma leads_sum: "(\<And>a. leads mo Q (f a)) \<Longrightarrow> (\<And>b. leads mo Q (g b)) \<Longrightarrow> leads mo Q (case z of Inl a \<Rightarrow> f a | Inr b \<Rightarrow> g b)"
  by (cases z) auto

lemma leads_pair: "(\<And>a b. leads mo Q (f a b)) \<Longrightarrow> leads mo Q (case z of (a, b) \<Rightarrow> f a b)"
  by (cases z) auto

text \<open>A check that decides what is returned.\<close>

lemma leads_checked:
  assumes "\<And>d. verified_on_file d \<Longrightarrow> Q x d" "v \<noteq> Some True \<Longrightarrow> \<forall>d. Q x d"
  shows "leads mo Q (seq (record_check mo sx ob v acts complete conf) (\<lambda>_. give x))"
  using assms record_check_run unfolding leads_def seq_run give_run clear_names_def by metis

lemmas leads_intros = leads_seq leads_give leads_fail leads_conflict leads_if leads_let leads_option leads_sum leads_pair

definition borne_out :: "service_outcome \<Rightarrow> desk \<Rightarrow> bool" where
  "borne_out o' d \<longleftrightarrow> (so_status o' = ''Completed'' \<longrightarrow> verified_on_file d)"

definition job_borne_out :: "rerun_outcome \<Rightarrow> desk \<Rightarrow> bool" where
  "job_borne_out o' d \<longleftrightarrow> (rerun_succeeded o' \<longrightarrow> verified_on_file d)"

lemma lost_reports [simp]: "borne_out lost_outcome d" "borne_out (lost_outcome\<lparr>so_request_id := i\<rparr>) d" "borne_out (unclear o') d"
    "job_borne_out lost_rerun d" "job_borne_out (lost_rerun\<lparr>ro_run_id := i\<rparr>) d"
  by (simp_all add: borne_out_def job_borne_out_def rerun_succeeded_def lost_outcome_def unclear_def lost_rerun_def)

lemma rejected_reports: "leads mo borne_out rejected_answer"
  unfolding rejected_answer_def
  by (intro leads_intros onward.keeps_parts) (simp_all add: borne_out_def)

lemma check_refresh_reports: "leads mo borne_out (check_refresh mo sx pb a e res)"
  unfolding check_refresh_def
  by (rule leads_if leads_checked leads_seq onward.keeps_clock leads_sum leads_fail leads_option leads_pair leads_let | simp)+
    (simp_all add: borne_out_def)

lemma verify_refresh_reports: "leads mo borne_out (verify_refresh mo sx pb)"
  unfolding verify_refresh_def
  by (rule leads_if leads_checked leads_seq onward.keeps_clock onward.keeps_look leads_fail leads_option rejected_reports
      check_refresh_reports leads_give | simp add: borne_out_def lost_outcome_def)+

lemma verify_configuration_reports: "leads mo borne_out (verify_configuration mo sx pb)"
proof -
  have j: "leads mo Q (case z of (Some (JObj x), Some y) \<Rightarrow> f x y | (Some (JObj x), None) \<Rightarrow> fail e | _ \<Rightarrow> conflict)"
    if "\<And>x y. leads mo Q (f x y)" for z f e Q
    using that by (auto intro: leads_intros split: prod.split option.split json.split)
  show ?thesis unfolding verify_configuration_def
    by (rule leads_if leads_checked leads_seq onward.keeps_clock onward.keeps_reservation leads_fail leads_let rejected_reports j
        | auto simp: borne_out_def lost_outcome_def unclear_def split: if_splits)+
qed

lemma verify_pipeline_reports: "leads mo job_borne_out (verify_pipeline mo sx fp)"
  unfolding verify_pipeline_def check_pipeline_def
  by (rule leads_if leads_checked leads_seq onward.keeps_clock onward.keeps_look leads_fail leads_conflict leads_option leads_sum
      leads_pair leads_let leads_give | auto simp: job_borne_out_def rerun_succeeded_def lost_rerun_def split: if_splits)+

text \<open>A service that turns a request down does not report it completed.\<close>

definition consistent :: "service_outcome option \<Rightarrow> bool" where
  "consistent r \<longleftrightarrow> pred_option (\<lambda>o'. so_state o' = Turned_Down \<longrightarrow> so_status o' \<noteq> ''Completed'') r"

lemma turned_down_reports: "consistent r \<Longrightarrow> r = Some o' \<Longrightarrow> turned_down sx o' \<Longrightarrow> so_status o' \<noteq> ''Completed''"
  by (simp add: consistent_def turned_down_def)

lemma refresh_reports: "consistent (pb_submit pb) \<Longrightarrow> leads mo borne_out (refresh mo sx pb)"
  unfolding refresh_def Let_def
  by (rule leads_if leads_seq onward.keeps_new onward.keeps_look onward.keeps_starting onward.keeps_post onward.keeps_rejection
      onward.keeps_submission verify_refresh_reports leads_give
      | auto simp: borne_out_def lost_outcome_def unclear_def turned_down_def consistent_def split: option.splits)+

lemma configure_reports:
  assumes "consistent (pb_configure pb)"
  shows "leads mo borne_out (configure mo sx pb)"
proof -
  have j: "leads mo Q (case z of Some (JObj x) \<Rightarrow> f x | _ \<Rightarrow> conflict)"
    if "\<And>x. leads mo Q (f x)" for z Q and f :: "(string \<times> json) list \<Rightarrow> service_outcome shift"
    using that by (auto intro: leads_intros split: option.split json.split)
  show ?thesis unfolding configure_def Let_def
    by (rule leads_if leads_seq onward.keeps_new onward.keeps_starting onward.keeps_post onward.keeps_rejection
        onward.keeps_submission verify_configuration_reports leads_give leads_option j
        | use turned_down_reports [OF assms] in \<open>simp add: borne_out_def lost_outcome_def\<close>)+
qed

lemma submit_reports: "leads mo job_borne_out (submit_pipeline mo sx fp)"
  unfolding submit_pipeline_def
  by (rule leads_if leads_seq onward.keeps_new onward.keeps_look onward.keeps_starting onward.keeps_post onward.keeps_submission
      leads_give leads_option leads_fail leads_let | simp add: job_borne_out_def rerun_succeeded_def lost_rerun_def)+

fun reports_success :: "attempt_result \<Rightarrow> bool" where
  "reports_success (Service_Result o') = (so_status o' = ''Completed'')"
| "reports_success (Job_Result o') = rerun_succeeded o'"
| "reports_success _ = False"

lemma leads_map: "leads mo Q t \<Longrightarrow> (\<And>x d. Q x d \<Longrightarrow> P (f x) d) \<Longrightarrow> leads mo P (seq t (\<lambda>x. give (f x)))"
  unfolding leads_def seq_run give_run by blast

lemma attempt_reports:
  assumes "consistent (pb_submit pb)" "consistent (pb_configure pb)"
  shows "leads mo (\<lambda>r d. reports_success r \<longrightarrow> verified_on_file d) (attempt mo sx tool ap args charged pb fp)"
  unfolding attempt_def
  by (rule leads_if leads_map [OF submit_reports] leads_map [OF refresh_reports [OF assms(1)]] leads_map [OF configure_reports [OF assms(2)]]
      leads_seq onward.keeps_reserve leads_give | simp add: borne_out_def job_borne_out_def)+

end
