(* ===== verification/Monitor_Assurance.thy ===== *)
theory Monitor_Assurance
  imports Monitor_Truth Monitor_Example
begin

text \<open>
  The promises of executions: one submission for each work item and action, no submission
  by a verification, and a success that is reported only with a verified action on file.
\<close>

section \<open>An example\<close>

text \<open>The refresh of the example is carried out by an execution, with no calls of others in between.\<close>

fun check_digest :: "content \<Rightarrow> string" where
  "check_digest (Of_Outcome r c) =
     (case ou_disposition r of Check_Succeeded \<Rightarrow> ''s'' | Check_Failed \<Rightarrow> ''f'' | Check_Uncertain \<Rightarrow> ''u'') @ ou_reservation r"
| "check_digest _ = []"

definition working_monitor :: monitor where
  "working_monitor = sample_monitor\<lparr>mo_fingerprint := check_digest\<rparr>"

definition sample_surroundings :: surroundings where
  "sample_surroundings =
     \<lparr>sx_view = (\<lambda>n. sample_view (1 + int n)), sx_clock = (\<lambda>n. 1 + int n), sx_others = (\<lambda>_. []), sx_fixture = False,
      sx_id = id, sx_canonical = Some, sx_label = (\<lambda>_ k. k), sx_seal = (\<lambda>_. ''seal''),
      sx_check = (\<lambda>i n t. i @ '':check''), sx_text = (\<lambda>_. []), sx_key = ex_run_id\<rparr>"

definition sample_answer :: "string \<Rightarrow> submission_state \<Rightarrow> service_outcome" where
  "sample_answer st sub = \<lparr>so_status = st, so_request_id = ''r2'', so_retry_after = 0, so_state = sub, so_configuration = []\<rparr>"

definition sample_service :: service where
  "sample_service =
     \<lparr>pb_submit = Some (sample_answer ''Submitted'' Accepted), pb_verify = Some (sample_answer ''Completed'' Accepted),
      pb_history = Some [\<lparr>hr_request = ''r2'', hr_status = ''Completed'', hr_times = Some (30, 31)\<rparr>], pb_known = [],
      pb_configure = None, pb_readback = None\<rparr>"

definition no_pipelines :: pipeline_service where
  "no_pipelines = \<lparr>fb_rerun = None, fb_run = None, fb_activities = None\<rparr>"

definition claimed_store :: mon_store where
  "claimed_store = run (mon_step working_monitor) sample_seed empty_store"

definition sample_desk :: desk where
  "sample_desk =
     \<lparr>dk_work = the (map_of (ms_works claimed_store) ''w''), dk_incident = sample_incident, dk_observation = None,
      dk_reservation = None, dk_broken = None, dk_tick = 0, dk_store = claimed_store, dk_posts = []\<rparr>"

definition sample_assignment :: assignment where
  "sample_assignment =
     \<lparr>as_desk = sample_desk, as_surroundings = sample_surroundings, as_tool = Refresh_Dataset, as_approval = None,
      as_arguments = [], as_charged = True, as_service = sample_service, as_pipelines = no_pipelines\<rparr>"

lemma sample_attempt:
  "case attempt working_monitor sample_surroundings Refresh_Dataset None [] True sample_service no_pipelines sample_desk of
     (Inr r, d) \<Rightarrow> reports_success r \<and> dk_posts d = [''action:w:action:refresh_powerbi_dataset''] | (Inl e, d) \<Rightarrow> False"
  by code_simp

lemma working_names: "clear_names working_monitor"
proof -
  have "inj (\<lambda>i. mo_id working_monitor (''action:'' @ i))" by (simp add: working_monitor_def sample_monitor_def inj_def)
  moreover have "tells_checks working_monitor"
    by (auto simp: tells_checks_def working_monitor_def split: finding_of_check.splits)
  ultimately show ?thesis by (simp add: clear_names_def)
qed

section \<open>Promises of executions\<close>

lemma history_honest:
  assumes "clear_names mo" "s = run (mon_step mo) xs empty_store"
  shows "honest mo s"
proof -
  have "honest mo empty_store"
    using empty_sound [of mo UNIV] empty_board_ok by (simp add: honest_def truthful_def board_ok_def empty_store_def)
  with assms show ?thesis by (simp add: run_honest clear_names_def)
qed

text \<open>
  C14. One submission for each work item and action: over any sequence of attempts of any
  processes on one store, with any engine calls of others between the transactions of an
  attempt, at most one attempt submits a request under a given reservation, and it submits
  one request. (Attempts that overlap while they hold the same lease are the subject of
  \<open>replayed_reservation_is_granted\<close>.)
\<close>

theorem submitted_at_most_once:
  "count_wins (undertake mo) posted_under k gs (run (mon_step mo) xs empty_store) \<le> 1
   \<and> length (fst (undertake mo g (run (undertake mo) gs (run (mon_step mo) xs empty_store)))) \<le> 1"
proof -
  have s: "sound mo UNIV (run (mon_step mo) xs empty_store)" using empty_sound by (rule engine.inv_run)
  have "length (fst (undertake mo g t)) \<le> 1" if "sound mo UNIV t" for t
    using undertake_posts(1) [OF that, of g "fst (undertake mo g t)" "snd (undertake mo g t)"]
    by (cases "fst (undertake mo g t) = []") auto
  then show ?thesis using posting.wins_once [OF s] posting.inv_run [OF s] by blast
qed



section \<open>A reservation that is replayed\<close>

text \<open>The example with a twin: while the attempt prepares its request, the same request is made by another.\<close>

definition twin_request :: reservation_request where
  "twin_request = sample_request ''w:action:refresh_powerbi_dataset''"

definition racing_surroundings :: surroundings where
  "racing_surroundings = sample_surroundings\<lparr>sx_others := (\<lambda>n. if n = 6 then [(sample_view 7, Call_Reserve twin_request)] else [])\<rparr>"

definition racing_desk :: desk where
  "racing_desk = sample_desk\<lparr>dk_tick := 1\<rparr>"

text \<open>
  C16. The store answers a repeated reservation with the recorded decision, so the controller
  takes the reservation of another for its own: when the same request was made between its
  look for a prior one and its own call, \<open>reserve\<close> grants and the effect may be
  submitted again. Its test for a replayed decision never applies.
\<close>

theorem replayed_reservation_is_granted:
  assumes "reservation_for mo sx tool ap args d = (Inr (Inr r), d1)" and "authorized (mo_component mo) (Call_Reserve r)"
    and "map_of (ms_receipts (dk_store (pass mo sx d1))) (Op_Reserve, rr_id r)
      = Some (mo_fingerprint mo (Of_Reservation r), Decision_Reply (decision.Reserved a))"
    and "valid_call mo (Call_Reserve r)"
  shows "reserve_fresh mo sx tool ap args d = (Inr Granted, (pass mo sx d1)\<lparr>dk_reservation := Some a\<rparr>)"
proof -
  have "mon_step mo (vw, Call_Reserve r) (dk_store (pass mo sx d1)) = (Inr (Decision_Reply (decision.Reserved a)), dk_store (pass mo sx d1))" for vw
    using assms(2-4) by (simp add: mon_step_def perform_call_def idempotent_def)
  with assms(1) show ?thesis
    by (simp add: reserve_fresh_def seq_def journal_def invoke_def Let_def tell_def give_def)
qed

fun answers_reserved :: "mon_reply \<Rightarrow> bool" where
  "answers_reserved (Decision_Reply (decision.Reserved a)) = True"
| "answers_reserved _ = False"

lemma answers_reservedD: "answers_reserved r \<Longrightarrow> \<exists>a. r = Decision_Reply (decision.Reserved a)"
  by (cases r rule: answers_reserved.cases) auto

lemma twin_ready:
  "case reservation_for working_monitor racing_surroundings Refresh_Dataset None [] racing_desk of
     (Inr (Inr r), d) \<Rightarrow> r = twin_request
       \<and> (case map_of (ms_receipts (dk_store (pass working_monitor racing_surroundings d))) (Op_Reserve, rr_id twin_request) of
            Some z \<Rightarrow> fst z = mo_fingerprint working_monitor (Of_Reservation twin_request) \<and> answers_reserved (snd z) | None \<Rightarrow> False)
   | _ \<Rightarrow> False"
  by code_simp

lemma replayed_reservation_is_granted_witness:
  "fst (reserve_fresh working_monitor racing_surroundings Refresh_Dataset None [] racing_desk) = Inr Granted"
proof -
  obtain d1 a where r: "reservation_for working_monitor racing_surroundings Refresh_Dataset None [] racing_desk = (Inr (Inr twin_request), d1)"
      "map_of (ms_receipts (dk_store (pass working_monitor racing_surroundings d1))) (Op_Reserve, rr_id twin_request)
        = Some (mo_fingerprint working_monitor (Of_Reservation twin_request), Decision_Reply (decision.Reserved a))"
    using twin_ready by (auto split: prod.split_asm sum.split_asm option.split_asm dest!: answers_reservedD)
  have a: "authorized (mo_component working_monitor) (Call_Reserve twin_request)" "valid_call working_monitor (Call_Reserve twin_request)"
    by code_simp+
  show ?thesis using replayed_reservation_is_granted [OF r(1) a(1) r(2) a(2)] by simp
qed

end
