(* ===== verification/Commands.thy ===== *)
theory Commands
  imports Contracts Models Approval_Store "HOL-Library.Product_Lexorder"
begin

text \<open>
  \<^verbatim>\<open>src/src/triage/store/command_center.py\<close>: the history of agent runs and the queue
  of operator commands, in memory (and in a file, whose writing is an argument) and over
  SQL. A command is queued, claimed by one worker, and finished, interrupted or, after an
  interruption, reconciled by an operator.
\<close>

section \<open>Records\<close>

datatype command_kind = Powerbi_Triage | Pipeline_Sweep

datatype command_state = Cmd_Queued | Cmd_Running | Cmd_Completed | Cmd_Failed | Cmd_Interrupted

record command =
  cd_id :: string
  cd_kind :: command_kind
  cd_target :: string
  cd_subject :: string
  cd_body :: string
  cd_actor :: string
  cd_actor_name :: string
  cd_created :: instant
  cd_state :: command_state
  cd_started :: "instant option"
  cd_finished :: "instant option"
  cd_worker :: string
  cd_lease :: "instant option"
  cd_run :: string
  cd_summary :: string
  cd_hash :: string
  cd_reconciled_by :: string
  cd_reconciled_at :: "instant option"
  cd_reason :: string

datatype run_state = Run_Running | Run_Completed | Run_Failed

text \<open>A result comes with its \<open>finished_at\<close>.\<close>

record agent_run =
  rn_id :: string
  rn_request :: string
  rn_incident :: string
  rn_signature :: string
  rn_target :: string
  rn_workload :: string
  rn_agent :: string
  rn_state :: run_state
  rn_outcome :: "outcome option"
  rn_summary :: string
  rn_started :: instant
  rn_finished :: "instant option"
  rn_result :: "(triage_result \<times> instant) option"

record run_event =
  re_id :: string
  re_run :: string
  re_sequence :: int
  re_time :: instant
  re_kind :: string
  re_label :: string
  re_status :: string
  re_detail :: string
  re_tool :: string

record center =
  cc_runs :: "(string, agent_run) dict"
  cc_hashes :: "(string, string) dict"
  cc_events :: "(string, run_event) dict"
  cc_commands :: "(string, command) dict"

definition new_center :: center where
  "new_center = \<lparr>cc_runs = [], cc_hashes = [], cc_events = [], cc_commands = []\<rparr>"

text \<open>
  The surroundings: \<open>redact_text\<close>, \<open>str(UUID(_))\<close> (\<open>None\<close> where it raises), the digests of
  a command's request and of a run, the redaction of a result with its validation, and
  whether a snapshot can be persisted.
\<close>

record center_env =
  ce_redact :: "string \<Rightarrow> string"
  ce_uuid :: "string \<Rightarrow> string option"
  ce_digest :: "string \<times> command_kind \<times> string \<times> string \<times> string \<times> string \<times> string \<Rightarrow> string"
  ce_run_digest :: "agent_run \<Rightarrow> string"
  ce_clean :: "triage_result \<Rightarrow> triage_result option"
  ce_saves :: "center \<Rightarrow> bool"

datatype center_error = Invalid_Value | Id_Conflict | Unknown_Record | Not_Allowed | Unsaved | Db_Trouble

section \<open>Validation\<close>

definition word_char :: "char \<Rightarrow> bool" where
  "word_char c \<longleftrightarrow> (CHR ''A'' \<le> c \<and> c \<le> CHR ''Z'') \<or> (CHR ''a'' \<le> c \<and> c \<le> CHR ''z'') \<or> (CHR ''0'' \<le> c \<and> c \<le> CHR ''9'')"

definition id_text :: "string \<Rightarrow> bool" where
  "id_text s \<longleftrightarrow> (case s of [] \<Rightarrow> False | c # cs \<Rightarrow> word_char c \<and> list_all (\<lambda>d. word_char d \<or> d \<in> set ''_.:-'') cs)"

definition safe_id :: "center_env \<Rightarrow> nat \<Rightarrow> string \<Rightarrow> bool" where
  "safe_id ce n s \<longleftrightarrow> length s \<le> n \<and> id_text s \<and> ce_redact ce s = s"

definition safe_id_or_empty :: "center_env \<Rightarrow> nat \<Rightarrow> string \<Rightarrow> bool" where
  "safe_id_or_empty ce n s \<longleftrightarrow> s = [] \<or> safe_id ce n s"

definition clean_text :: "center_env \<Rightarrow> nat \<Rightarrow> string \<Rightarrow> string" where
  "clean_text ce n s = take n (ce_redact ce s)"

definition optional_uuid :: "center_env \<Rightarrow> string \<Rightarrow> string option" where
  "optional_uuid ce s = (if s = [] then Some [] else ce_uuid ce s)"

definition hex_hash :: "string \<Rightarrow> bool" where
  "hex_hash h \<longleftrightarrow> length h = 64 \<and> list_all (\<lambda>c. (CHR ''a'' \<le> c \<and> c \<le> CHR ''f'') \<or> (CHR ''0'' \<le> c \<and> c \<le> CHR ''9'')) h"

definition valid_command :: "center_env \<Rightarrow> command \<Rightarrow> bool" where
  "valid_command ce c \<longleftrightarrow>
     safe_id ce 100 (cd_id c) \<and> safe_id ce 200 (cd_actor c) \<and> safe_id ce 200 (cd_target c)
     \<and> safe_id_or_empty ce 200 (cd_worker c) \<and> safe_id_or_empty ce 200 (cd_reconciled_by c)
     \<and> optional_uuid ce (cd_run c) \<noteq> None \<and> (cd_hash c = [] \<or> hex_hash (cd_hash c))"

definition command_hash :: "center_env \<Rightarrow> command \<Rightarrow> string" where
  "command_hash ce c =
     ce_digest ce (cd_id c, cd_kind c, cd_target c, cd_subject c, cd_body c, cd_actor c, cd_actor_name c)"

definition untouched :: "command \<Rightarrow> bool" where
  "untouched c \<longleftrightarrow>
     cd_state c = Cmd_Queued \<and> cd_started c = None \<and> cd_finished c = None \<and> cd_worker c = [] \<and> cd_lease c = None
     \<and> cd_run c = [] \<and> cd_summary c = [] \<and> cd_reconciled_by c = [] \<and> cd_reconciled_at c = None \<and> cd_reason c = []"

definition new_command :: "center_env \<Rightarrow> command \<Rightarrow> command option" where
  "new_command ce c =
     (if \<not> valid_command ce c \<or> \<not> untouched c then None
      else Some (c\<lparr>cd_hash := command_hash ce c, cd_subject := clean_text ce 4000 (cd_subject c),
                   cd_body := clean_text ce 4000 (cd_body c), cd_actor_name := clean_text ce 200 (cd_actor_name c)\<rparr>))"

definition reconciled_command :: "center_env \<Rightarrow> instant \<Rightarrow> string \<Rightarrow> string \<Rightarrow> command \<Rightarrow> command option" where
  "reconciled_command ce now actor reason c =
     (let text = ce_redact ce (py_strip reason)
      in if \<not> safe_id ce 200 actor \<or> py_strip reason = [] \<or> cd_state c \<noteq> Cmd_Interrupted \<or> 4000 < length text then None
         else Some (c\<lparr>cd_state := Cmd_Failed,
                      cd_summary := take 4000 (cd_summary c @ (if cd_summary c = [] then [] else [CHR 0x0A, CHR 0x0A])
                                               @ ''Reconciled: '' @ text),
                      cd_reconciled_by := actor, cd_reconciled_at := Some now, cd_reason := text\<rparr>))"

definition new_run :: "center_env \<Rightarrow> agent_run \<Rightarrow> (agent_run \<times> string) option" where
  "new_run ce r =
     (if ce_uuid ce (rn_id r) = None \<or> 512 < length (rn_request r) \<or> 200 < length (rn_incident r) \<or> 200 < length (rn_signature r)
         \<or> rn_workload r = [] \<or> 50 < length (rn_workload r)
         \<or> rn_state r \<noteq> Run_Running \<or> rn_result r \<noteq> None \<or> rn_finished r \<noteq> None \<or> rn_outcome r \<noteq> None
         \<or> list_ex (\<lambda>v. ce_redact ce v \<noteq> v) [rn_request r, rn_incident r, rn_signature r, rn_workload r] then None
      else let r' = r\<lparr>rn_id := the (ce_uuid ce (rn_id r))\<rparr>
           in Some (r'\<lparr>rn_target := clean_text ce 4000 (rn_target r), rn_agent := clean_text ce 200 (rn_agent r),
                       rn_summary := clean_text ce 4000 (rn_summary r)\<rparr>, ce_run_digest ce r'))"

text \<open>\<open>_field_key\<close> and the kinds of event that would carry model content.\<close>

definition field_key :: "string \<Rightarrow> string" where
  "field_key s = filter word_char (py_lower s)"

fun occurs :: "string \<Rightarrow> string \<Rightarrow> bool" where
  "occurs p [] \<longleftrightarrow> p = []"
| "occurs p (c # cs) \<longleftrightarrow> take (length p) (c # cs) = p \<or> occurs p cs"

definition model_content :: "string \<Rightarrow> bool" where
  "model_content k \<longleftrightarrow> list_ex (\<lambda>p. occurs p (field_key k))
     [''prompt'', ''completion'', ''thinking'', ''thought'', ''reasoning'', ''messages'']"

definition new_event :: "center_env \<Rightarrow> run_event \<Rightarrow> run_event option" where
  "new_event ce e =
     (if ce_uuid ce (re_id e) = None \<or> ce_uuid ce (re_run e) = None \<or> re_sequence e < 0 \<or> 2 ^ 63 \<le> re_sequence e
         \<or> \<not> safe_id ce 64 (re_kind e) \<or> model_content (re_kind e) then None
      else Some (e\<lparr>re_id := the (ce_uuid ce (re_id e)), re_run := the (ce_uuid ce (re_run e)),
                   re_label := clean_text ce 200 (re_label e), re_status := clean_text ce 100 (re_status e),
                   re_detail := clean_text ce 4000 (re_detail e), re_tool := clean_text ce 200 (re_tool e)\<rparr>))"

definition finished_run :: "center_env \<Rightarrow> agent_run \<Rightarrow> triage_result \<times> instant \<Rightarrow> string \<Rightarrow> (center_error + agent_run) " where
  "finished_run ce r res inc =
     (case ce_clean ce (fst res) of
        None \<Rightarrow> Inl Invalid_Value
      | Some clean \<Rightarrow>
          if 200 < length inc \<or> clean_text ce 4000 inc \<noteq> inc then Inl Invalid_Value
          else if rn_state r \<noteq> Run_Running
          then (if rn_result r \<noteq> Some (clean, snd res) \<or> inc \<noteq> [] \<and> rn_incident r \<noteq> inc then Inl Id_Conflict else Inr r)
          else if rn_signature r = [] \<and> 200 < length (tr_signature clean) then Inl Invalid_Value
          else Inr (r\<lparr>rn_state := (if tr_outcome clean = Agent_Crashed then Run_Failed else Run_Completed),
                      rn_outcome := Some (tr_outcome clean), rn_summary := tr_summary clean,
                      rn_signature := (if rn_signature r = [] then tr_signature clean else rn_signature r),
                      rn_incident := (if inc = [] then rn_incident r else inc),
                      rn_finished := Some (snd res), rn_result := Some (clean, snd res)\<rparr>))"

section \<open>One process\<close>

text \<open>A snapshot is persisted before it becomes the state; what cannot be persisted changes nothing.\<close>

definition publish :: "center_env \<Rightarrow> 'a \<Rightarrow> center \<Rightarrow> center \<Rightarrow> (center_error + 'a) \<times> center" where
  "publish ce x s' s = (if ce_saves ce s' then (Inr x, s') else (Inl Unsaved, s))"

definition put_command :: "command \<Rightarrow> center \<Rightarrow> center" where
  "put_command c s = s\<lparr>cc_commands := AList.update (cd_id c) c (cc_commands s)\<rparr>"

definition start_run :: "center_env \<Rightarrow> agent_run \<Rightarrow> center \<Rightarrow> (center_error + unit) \<times> center" where
  "start_run ce r s =
     (case new_run ce r of
        None \<Rightarrow> (Inl Invalid_Value, s)
      | Some (clean, h) \<Rightarrow>
          if map_of (cc_runs s) (rn_id clean) \<noteq> None
          then (if map_of (cc_hashes s) (rn_id clean) \<noteq> Some h then (Inl Id_Conflict, s) else (Inr (), s))
          else publish ce () (s\<lparr>cc_runs := AList.update (rn_id clean) clean (cc_runs s),
                               cc_hashes := AList.update (rn_id clean) h (cc_hashes s)\<rparr>) s)"

definition append_event :: "center_env \<Rightarrow> run_event \<Rightarrow> center \<Rightarrow> (center_error + unit) \<times> center" where
  "append_event ce e s =
     (case new_event ce e of
        None \<Rightarrow> (Inl Invalid_Value, s)
      | Some clean \<Rightarrow>
          (case map_of (cc_events s) (re_id clean) of
             Some prior \<Rightarrow> if prior \<noteq> clean then (Inl Id_Conflict, s) else (Inr (), s)
           | None \<Rightarrow>
               if map_of (cc_runs s) (re_run clean) = None then (Inl Unknown_Record, s)
               else publish ce () (s\<lparr>cc_events := AList.update (re_id clean) clean (cc_events s)\<rparr>) s))"

definition finish_run :: "center_env \<Rightarrow> string \<Rightarrow> triage_result \<times> instant \<Rightarrow> string \<Rightarrow> center \<Rightarrow> (center_error + agent_run) \<times> center" where
  "finish_run ce i res inc s =
     (case ce_uuid ce i of
        None \<Rightarrow> (Inl Invalid_Value, s)
      | Some j \<Rightarrow>
          (case map_of (cc_runs s) j of
             None \<Rightarrow> (Inl Unknown_Record, s)
           | Some prior \<Rightarrow>
               (case finished_run ce prior res inc of
                  Inl e \<Rightarrow> (Inl e, s)
                | Inr r \<Rightarrow>
                    if rn_state prior = Run_Running
                    then publish ce r (s\<lparr>cc_runs := AList.update (rn_id prior) r (cc_runs s)\<rparr>) s
                    else (Inr r, s))))"

definition enqueue_command :: "center_env \<Rightarrow> command \<Rightarrow> center \<Rightarrow> (center_error + command) \<times> center" where
  "enqueue_command ce c s =
     (case new_command ce c of
        None \<Rightarrow> (Inl Invalid_Value, s)
      | Some clean \<Rightarrow>
          (case map_of (cc_commands s) (cd_id clean) of
             Some prior \<Rightarrow> if cd_hash prior \<noteq> cd_hash clean then (Inl Id_Conflict, s) else (Inr prior, s)
           | None \<Rightarrow> publish ce clean (put_command clean s) s))"

definition lease_in_range :: "int \<Rightarrow> bool" where
  "lease_in_range n \<longleftrightarrow> 1 \<le> n \<and> n \<le> 2 ^ 31 - 1"

definition claimed_by :: "string \<Rightarrow> instant \<Rightarrow> int \<Rightarrow> command \<Rightarrow> command" where
  "claimed_by w now n c = c\<lparr>cd_state := Cmd_Running, cd_worker := w, cd_started := Some now, cd_lease := Some (now + seconds n)\<rparr>"

definition claim_command :: "center_env \<Rightarrow> instant \<Rightarrow> string \<Rightarrow> string \<Rightarrow> int \<Rightarrow> center \<Rightarrow> (center_error + command option) \<times> center" where
  "claim_command ce now i w n s =
     (if \<not> safe_id ce 100 i \<or> \<not> safe_id ce 200 w \<or> \<not> lease_in_range n then (Inl Invalid_Value, s)
      else case map_of (cc_commands s) i of
        None \<Rightarrow> (Inr None, s)
      | Some prior \<Rightarrow>
          if cd_state prior \<noteq> Cmd_Queued then (Inr None, s)
          else let c = claimed_by w now n prior in publish ce (Some c) (put_command c s) s)"

text \<open>The worker that runs a command may finish it while its lease lasts.\<close>

definition finishable :: "instant \<Rightarrow> string \<Rightarrow> command \<Rightarrow> bool" where
  "finishable now w c \<longleftrightarrow> cd_state c = Cmd_Running \<and> cd_worker c = w \<and> (case cd_lease c of None \<Rightarrow> False | Some e \<Rightarrow> now < e)"

definition finish_command ::
    "center_env \<Rightarrow> instant \<Rightarrow> string \<Rightarrow> string \<Rightarrow> command_state \<Rightarrow> string \<Rightarrow> string \<Rightarrow> center \<Rightarrow> (center_error + command) \<times> center" where
  "finish_command ce now i w st summary j s =
     (case optional_uuid ce j of
        None \<Rightarrow> (Inl Invalid_Value, s)
      | Some run_id \<Rightarrow>
          if \<not> safe_id ce 100 i \<or> \<not> safe_id ce 200 w \<or> st \<notin> {Cmd_Completed, Cmd_Failed} then (Inl Invalid_Value, s)
          else case map_of (cc_commands s) i of
            None \<Rightarrow> (Inl Not_Allowed, s)
          | Some prior \<Rightarrow>
              if \<not> finishable now w prior then (Inl Not_Allowed, s)
              else let c = prior\<lparr>cd_state := st, cd_summary := clean_text ce 4000 summary, cd_run := run_id, cd_finished := Some now\<rparr>
                   in publish ce c (put_command c s) s)"

definition interrupt_command ::
    "center_env \<Rightarrow> instant \<Rightarrow> string \<Rightarrow> string \<Rightarrow> string \<Rightarrow> string \<Rightarrow> center \<Rightarrow> (center_error + command) \<times> center" where
  "interrupt_command ce now i w summary j s =
     (case optional_uuid ce j of
        None \<Rightarrow> (Inl Invalid_Value, s)
      | Some run_id \<Rightarrow>
          if \<not> safe_id ce 100 i \<or> \<not> safe_id ce 200 w then (Inl Invalid_Value, s)
          else case map_of (cc_commands s) i of
            None \<Rightarrow> (Inl Not_Allowed, s)
          | Some prior \<Rightarrow>
              if cd_worker prior \<noteq> w \<or> cd_state prior \<notin> {Cmd_Running, Cmd_Interrupted} then (Inl Not_Allowed, s)
              else if cd_state prior = Cmd_Interrupted then (Inr prior, s)
              else let c = prior\<lparr>cd_state := Cmd_Interrupted, cd_summary := clean_text ce 4000 summary,
                                 cd_run := (if run_id = [] then cd_run prior else run_id), cd_finished := Some now\<rparr>
                   in publish ce c (put_command c s) s)"

definition reconcile_command :: "center_env \<Rightarrow> instant \<Rightarrow> string \<Rightarrow> string \<Rightarrow> string \<Rightarrow> center \<Rightarrow> (center_error + command) \<times> center" where
  "reconcile_command ce now i actor reason s =
     (if \<not> safe_id ce 100 i then (Inl Invalid_Value, s)
      else case map_of (cc_commands s) i of
        None \<Rightarrow> (Inl Not_Allowed, s)
      | Some prior \<Rightarrow>
          (case reconciled_command ce now actor reason prior of
             None \<Rightarrow> (Inl Not_Allowed, s)
           | Some c \<Rightarrow> publish ce c (put_command c s) s))"

definition EXPIRED_SUMMARY :: string where
  "EXPIRED_SUMMARY = ''Worker lease expired; execution was not replayed.''"

definition lapsed :: "instant \<Rightarrow> command \<Rightarrow> bool" where
  "lapsed now c \<longleftrightarrow> cd_state c = Cmd_Running \<and> (case cd_lease c of None \<Rightarrow> True | Some e \<Rightarrow> e \<le> now)"

definition expired_command :: "instant \<Rightarrow> command \<Rightarrow> command" where
  "expired_command now c =
     (if lapsed now c then c\<lparr>cd_state := Cmd_Interrupted, cd_finished := Some now, cd_summary := EXPIRED_SUMMARY\<rparr> else c)"

definition expire_commands :: "center_env \<Rightarrow> instant \<Rightarrow> center \<Rightarrow> (center_error + nat) \<times> center" where
  "expire_commands ce now s =
     (let n = length (filter (\<lambda>(_, c). lapsed now c) (cc_commands s));
          s' = s\<lparr>cc_commands := map (\<lambda>(k, c). (k, expired_command now c)) (cc_commands s)\<rparr>
      in if n = 0 then (Inr 0, s) else publish ce n s' s)"

section \<open>Queries\<close>

definition page_ok :: "int \<Rightarrow> int \<Rightarrow> bool" where
  "page_ok limit offset \<longleftrightarrow> 1 \<le> limit \<and> limit \<le> 1000 \<and> 0 \<le> offset \<and> offset \<le> 2 ^ 31 - 1"

definition by_age :: "command list \<Rightarrow> command list" where
  "by_age cs = sort_key (\<lambda>c. (cd_created c, cd_id c)) cs"

definition unsettled :: "command \<Rightarrow> bool" where
  "unsettled c \<longleftrightarrow> cd_state c = Cmd_Running \<or> cd_state c = Cmd_Interrupted"

definition blocked_in :: "string \<Rightarrow> (string, command) dict \<Rightarrow> bool" where
  "blocked_in t cs \<longleftrightarrow> list_ex (\<lambda>(_, c). cd_target c = t \<and> unsettled c) cs"

definition eligible_in :: "nat \<Rightarrow> (string, command) dict \<Rightarrow> command list" where
  "eligible_in n cs = take n (by_age (filter (\<lambda>c. cd_state c = Cmd_Queued \<and> \<not> blocked_in (cd_target c) cs) (map snd cs)))"

definition target_blocked :: "center_env \<Rightarrow> string \<Rightarrow> center \<Rightarrow> bool option" where
  "target_blocked ce t s = (if \<not> safe_id ce 200 t then None else Some (blocked_in t (cc_commands s)))"

definition eligible_commands :: "int \<Rightarrow> center \<Rightarrow> command list option" where
  "eligible_commands limit s = (if \<not> page_ok limit 0 then None else Some (eligible_in (nat limit) (cc_commands s)))"

definition queued_commands :: "int \<Rightarrow> center \<Rightarrow> command list option" where
  "queued_commands limit s =
     (if \<not> page_ok limit 0 then None
      else Some (take (nat limit) (by_age (filter (\<lambda>c. cd_state c = Cmd_Queued) (map snd (cc_commands s))))))"

definition active_commands :: "int \<Rightarrow> center \<Rightarrow> command list option" where
  "active_commands limit s =
     (if \<not> page_ok limit 0 then None
      else Some (take (nat limit) (by_age (filter (\<lambda>c. cd_state c = Cmd_Queued \<or> unsettled c) (map snd (cc_commands s))))))"

section \<open>Many processes\<close>

text \<open>
  The table of commands over SQL. A statement changes a row when its condition holds;
  its reply may be lost. What is read back afterwards is read from the table that others
  have made of it by then (\<open>peek\<close>).
\<close>

type_synonym command_table = "(string, command) dict"

definition change_row :: "db_reply \<Rightarrow> string \<Rightarrow> (command \<Rightarrow> bool) \<Rightarrow> (command \<Rightarrow> command) \<Rightarrow> command_table \<Rightarrow>
    (store_error + int) \<times> command_table" where
  "change_row reply i cond f t =
     (case map_of t i of
        None \<Rightarrow> db_execute reply 0 t t
      | Some c \<Rightarrow> if cond c then db_execute reply 1 (AList.update i (f c) t) t else db_execute reply 0 t t)"

definition sql_enqueue_command :: "center_env \<Rightarrow> db_reply \<Rightarrow> (command_table \<Rightarrow> command_table) \<Rightarrow> command \<Rightarrow> command_table \<Rightarrow>
    (center_error + command) \<times> command_table" where
  "sql_enqueue_command ce reply peek c t =
     (case new_command ce c of
        None \<Rightarrow> (Inl Invalid_Value, t)
      | Some clean \<Rightarrow>
          if map_of t (cd_id clean) \<noteq> None
          then (case map_of (peek t) (cd_id clean) of
                  None \<Rightarrow> (Inl Db_Trouble, t)
                | Some prior \<Rightarrow> if cd_hash prior \<noteq> cd_hash clean then (Inl Id_Conflict, t) else (Inr prior, t))
          else let (n, t') = db_execute reply 1 (AList.update (cd_id clean) clean t) t
               in if n = Inr 1 then (Inr clean, t') else (Inl Db_Trouble, t'))"

definition sql_claim_command :: "center_env \<Rightarrow> db_reply \<Rightarrow> (command_table \<Rightarrow> command_table) \<Rightarrow> instant \<Rightarrow> string \<Rightarrow> string \<Rightarrow> int \<Rightarrow>
    command_table \<Rightarrow> (center_error + command option) \<times> command_table" where
  "sql_claim_command ce reply peek now i w n t =
     (if \<not> safe_id ce 100 i \<or> \<not> safe_id ce 200 w \<or> \<not> lease_in_range n then (Inl Invalid_Value, t)
      else let (k, t') = change_row reply i (\<lambda>c. cd_state c = Cmd_Queued) (claimed_by w now n) t
           in if k = Inr 0 then (Inr None, t')
              else if k \<noteq> Inr 1 then (Inl Db_Trouble, t')
              else case map_of (peek t') i of
                     None \<Rightarrow> (Inl Db_Trouble, t')
                   | Some c \<Rightarrow> if finishable now w c then (Inr (Some c), t') else (Inl Db_Trouble, t'))"

definition sql_finish_command :: "center_env \<Rightarrow> db_reply \<Rightarrow> (command_table \<Rightarrow> command_table) \<Rightarrow> instant \<Rightarrow> string \<Rightarrow> string \<Rightarrow>
    command_state \<Rightarrow> string \<Rightarrow> string \<Rightarrow> command_table \<Rightarrow> (center_error + command) \<times> command_table" where
  "sql_finish_command ce reply peek now i w st summary j t =
     (case optional_uuid ce j of
        None \<Rightarrow> (Inl Invalid_Value, t)
      | Some run_id \<Rightarrow>
          if \<not> safe_id ce 100 i \<or> \<not> safe_id ce 200 w \<or> st \<notin> {Cmd_Completed, Cmd_Failed} then (Inl Invalid_Value, t)
          else let (k, t') = change_row reply i (finishable now w)
                     (\<lambda>c. c\<lparr>cd_state := st, cd_summary := clean_text ce 4000 summary, cd_run := run_id, cd_finished := Some now\<rparr>) t
               in if k = Inr 0 then (Inl Not_Allowed, t')
                  else if k \<noteq> Inr 1 then (Inl Db_Trouble, t')
                  else case map_of (peek t') i of
                         None \<Rightarrow> (Inl Db_Trouble, t')
                       | Some c \<Rightarrow> if cd_state c = st \<and> cd_worker c = w then (Inr c, t') else (Inl Db_Trouble, t'))"

definition sql_interrupt_command :: "center_env \<Rightarrow> db_reply \<Rightarrow> (command_table \<Rightarrow> command_table) \<Rightarrow> instant \<Rightarrow> string \<Rightarrow> string \<Rightarrow>
    string \<Rightarrow> string \<Rightarrow> command_table \<Rightarrow> (center_error + command) \<times> command_table" where
  "sql_interrupt_command ce reply peek now i w summary j t =
     (case optional_uuid ce j of
        None \<Rightarrow> (Inl Invalid_Value, t)
      | Some run_id \<Rightarrow>
          if \<not> safe_id ce 100 i \<or> \<not> safe_id ce 200 w then (Inl Invalid_Value, t)
          else let (k, t') = change_row reply i (\<lambda>c. cd_state c = Cmd_Running \<and> cd_worker c = w)
                     (\<lambda>c. c\<lparr>cd_state := Cmd_Interrupted, cd_summary := clean_text ce 4000 summary,
                            cd_run := (if run_id = [] then cd_run c else run_id), cd_finished := Some now\<rparr>) t
               in case k of
                    Inl _ \<Rightarrow> (Inl Db_Trouble, t')
                  | Inr m \<Rightarrow>
                      if m \<noteq> 0 \<and> m \<noteq> 1 then (Inl Db_Trouble, t')
                      else (case map_of (peek t') i of
                              Some c \<Rightarrow> if cd_state c = Cmd_Interrupted \<and> cd_worker c = w then (Inr c, t')
                                        else (Inl (if m = 0 then Not_Allowed else Db_Trouble), t')
                            | None \<Rightarrow> (Inl (if m = 0 then Not_Allowed else Db_Trouble), t')))"

text \<open>The interrupted row is read first; the statement sets its state, its summary and the reconciliation.\<close>

definition sql_reconcile_command :: "center_env \<Rightarrow> db_reply \<Rightarrow> (command_table \<Rightarrow> command_table) \<Rightarrow> instant \<Rightarrow> string \<Rightarrow> string \<Rightarrow> string \<Rightarrow>
    command_table \<Rightarrow> (center_error + command) \<times> command_table" where
  "sql_reconcile_command ce reply peek now i actor reason t =
     (if \<not> safe_id ce 100 i then (Inl Invalid_Value, t)
      else case map_of (peek t) i of
        None \<Rightarrow> (Inl Not_Allowed, t)
      | Some prior \<Rightarrow>
          (case reconciled_command ce now actor reason prior of
             None \<Rightarrow> (Inl Not_Allowed, t)
           | Some c \<Rightarrow>
               let (k, t') = change_row reply i (\<lambda>d. cd_state d = Cmd_Interrupted)
                     (\<lambda>d. d\<lparr>cd_state := Cmd_Failed, cd_summary := cd_summary c, cd_reconciled_by := cd_reconciled_by c,
                            cd_reconciled_at := cd_reconciled_at c, cd_reason := cd_reason c\<rparr>) t
               in if k = Inr 0 then (Inl Not_Allowed, t') else if k \<noteq> Inr 1 then (Inl Db_Trouble, t') else (Inr c, t')))"

definition sql_expire_commands :: "db_reply \<Rightarrow> instant \<Rightarrow> command_table \<Rightarrow> (center_error + nat) \<times> command_table" where
  "sql_expire_commands reply now t =
     (let (k, t') = db_execute reply (int (length (filter (\<lambda>(_, c). lapsed now c) t))) (map (\<lambda>(k, c). (k, expired_command now c)) t) t
      in case k of Inl _ \<Rightarrow> (Inl Db_Trouble, t') | Inr m \<Rightarrow> if m < 0 then (Inl Db_Trouble, t') else (Inr (nat m), t'))"

section \<open>The queue as a machine\<close>

datatype queue_op =
    Op_Enqueue command
  | Op_Claim instant string string int
  | Op_Finish instant string string command_state string string
  | Op_Interrupt instant string string string string
  | Op_Reconcile instant string string string
  | Op_Expire instant

datatype queue_answer = One_Command command | No_Command | Expired nat

definition said :: "('a \<Rightarrow> queue_answer) \<Rightarrow> (center_error + 'a) \<times> 's \<Rightarrow> (center_error + queue_answer) \<times> 's" where
  "said f r = (case r of (Inl e, s) \<Rightarrow> (Inl e, s) | (Inr x, s) \<Rightarrow> (Inr (f x), s))"

definition maybe_command :: "command option \<Rightarrow> queue_answer" where
  "maybe_command c = (case c of None \<Rightarrow> No_Command | Some c \<Rightarrow> One_Command c)"

fun queue_step :: "center_env \<Rightarrow> queue_op \<Rightarrow> center \<Rightarrow> (center_error + queue_answer) \<times> center" where
  "queue_step ce (Op_Enqueue c) s = said One_Command (enqueue_command ce c s)"
| "queue_step ce (Op_Claim now i w n) s = said maybe_command (claim_command ce now i w n s)"
| "queue_step ce (Op_Finish now i w st summary j) s = said One_Command (finish_command ce now i w st summary j s)"
| "queue_step ce (Op_Interrupt now i w summary j) s = said One_Command (interrupt_command ce now i w summary j s)"
| "queue_step ce (Op_Reconcile now i actor reason) s = said One_Command (reconcile_command ce now i actor reason s)"
| "queue_step ce (Op_Expire now) s = said Expired (expire_commands ce now s)"

text \<open>Over SQL each operation has the reply to its statement and what is read besides.\<close>

fun sql_queue_step :: "center_env \<Rightarrow> db_reply \<times> (command_table \<Rightarrow> command_table) \<times> queue_op \<Rightarrow> command_table \<Rightarrow>
    (center_error + queue_answer) \<times> command_table" where
  "sql_queue_step ce (reply, peek, Op_Enqueue c) t = said One_Command (sql_enqueue_command ce reply peek c t)"
| "sql_queue_step ce (reply, peek, Op_Claim now i w n) t = said maybe_command (sql_claim_command ce reply peek now i w n t)"
| "sql_queue_step ce (reply, peek, Op_Finish now i w st summary j) t =
     said One_Command (sql_finish_command ce reply peek now i w st summary j t)"
| "sql_queue_step ce (reply, peek, Op_Interrupt now i w summary j) t =
     said One_Command (sql_interrupt_command ce reply peek now i w summary j t)"
| "sql_queue_step ce (reply, peek, Op_Reconcile now i actor reason) t =
     said One_Command (sql_reconcile_command ce reply peek now i actor reason t)"
| "sql_queue_step ce (reply, peek, Op_Expire now) t = said Expired (sql_expire_commands reply now t)"

section \<open>How a command moves\<close>

text \<open>
  What one operation may make of a stored command: nothing, its claim while it is queued,
  the end of its run by its own worker or by its expiry, its reconciliation.
\<close>

definition same_request :: "command \<Rightarrow> command \<Rightarrow> bool" where
  "same_request c d \<longleftrightarrow> cd_id d = cd_id c \<and> cd_kind d = cd_kind c \<and> cd_target d = cd_target c \<and> cd_subject d = cd_subject c
     \<and> cd_body d = cd_body c \<and> cd_actor d = cd_actor c \<and> cd_hash d = cd_hash c"

inductive moves :: "command \<Rightarrow> command \<Rightarrow> bool" where
  Stays: "moves c c"
| Claims: "cd_state c = Cmd_Queued \<Longrightarrow> moves c (claimed_by w now n c)"
| Ends: "cd_state c = Cmd_Running \<Longrightarrow> cd_state d \<in> {Cmd_Completed, Cmd_Failed, Cmd_Interrupted} \<Longrightarrow> same_request c d
    \<Longrightarrow> cd_worker d = cd_worker c \<Longrightarrow> moves c d"
| Reconciles: "cd_state c = Cmd_Interrupted \<Longrightarrow> cd_state d = Cmd_Failed \<Longrightarrow> same_request c d \<Longrightarrow> cd_worker d = cd_worker c
    \<Longrightarrow> cd_reconciled_by d \<noteq> [] \<Longrightarrow> moves c d"

definition table_moves :: "command_table \<Rightarrow> command_table \<Rightarrow> bool" where
  "table_moves t t' \<longleftrightarrow>
     (\<forall>i c. map_of t i = Some c \<longrightarrow> (\<exists>d. map_of t' i = Some d \<and> moves c d))
     \<and> (\<forall>i d. map_of t i = None \<longrightarrow> map_of t' i = Some d \<longrightarrow> cd_state d = Cmd_Queued \<and> cd_id d = i)"

lemma table_moves_refl [simp]: "table_moves t t"
  by (auto simp: table_moves_def intro: moves.Stays)

lemma table_moves_change:
  assumes "map_of t i = Some c" "moves c d"
  shows "table_moves t (AList.update i d t)"
  using assms by (auto simp: table_moves_def intro: moves.Stays)

lemma table_moves_new: "map_of t i = None \<Longrightarrow> cd_state d = Cmd_Queued \<Longrightarrow> cd_id d = i \<Longrightarrow> table_moves t (AList.update i d t)"
  by (auto simp: table_moves_def intro: moves.Stays)

lemma map_of_mapped: "map_of (map (\<lambda>(k, c). (k, f c)) t) i = map_option f (map_of t i)"
  by (induction t) auto

lemma expired_moves: "moves c (expired_command now c)"
  by (auto simp: expired_command_def lapsed_def same_request_def intro: moves.Stays moves.Ends)

lemma table_moves_expire: "table_moves t (map (\<lambda>(k, c). (k, expired_command now c)) t)"
  by (auto simp: table_moves_def map_of_mapped intro: expired_moves)

lemma change_row_moves:
  assumes "\<And>c. map_of t i = Some c \<Longrightarrow> cond c \<Longrightarrow> moves c (f c)"
  shows "table_moves t (snd (change_row reply i cond f t))"
  using assms by (auto simp: change_row_def db_execute_def intro: table_moves_change split: option.split db_reply.split)

lemma new_commandD:
  assumes "new_command ce c = Some d"
  shows "cd_state d = Cmd_Queued" "cd_id d = cd_id c" "cd_hash d = command_hash ce c" "valid_command ce c"
  using assms by (auto simp: new_command_def untouched_def split: if_splits)

lemma reconciled_commandD:
  assumes "reconciled_command ce now actor reason c = Some d"
  shows "cd_state c = Cmd_Interrupted" "cd_state d = Cmd_Failed" "same_request c d" "cd_worker d = cd_worker c"
    "cd_reconciled_by d \<noteq> []"
  using assms by (auto simp: reconciled_command_def same_request_def safe_id_def id_text_def Let_def split: if_splits)

lemma said_snd [simp]: "snd (said f r) = snd r"
  by (auto simp: said_def split: prod.split sum.split)

lemma ended_moves:
  "cd_state c = Cmd_Running \<Longrightarrow> st \<in> {Cmd_Completed, Cmd_Failed, Cmd_Interrupted} \<Longrightarrow>
     moves c (c\<lparr>cd_state := st, cd_summary := x, cd_run := y, cd_finished := z\<rparr>)"
  by (rule moves.Ends) (auto simp: same_request_def)

lemma interrupted_moves:
  "cd_state c = Cmd_Running \<Longrightarrow> moves c (c\<lparr>cd_state := Cmd_Interrupted, cd_summary := x, cd_finished := z\<rparr>)"
  by (rule moves.Ends) (auto simp: same_request_def)

lemma reconcile_moves:
  "cd_state c = Cmd_Interrupted \<Longrightarrow> cd_reconciled_by d \<noteq> [] \<Longrightarrow>
     moves c (c\<lparr>cd_state := Cmd_Failed, cd_summary := x, cd_reconciled_by := cd_reconciled_by d, cd_reconciled_at := y, cd_reason := z\<rparr>)"
  by (rule moves.Reconciles) (auto simp: same_request_def)

lemma sql_step_moves: "table_moves t (snd (sql_queue_step ce x t))"
proof -
  obtain reply peek op where x: "x = (reply, peek, op)" by (cases x) auto
  show ?thesis
  proof (cases op)
    case (Op_Enqueue c)
    show ?thesis unfolding x Op_Enqueue
      by (auto simp: sql_enqueue_command_def db_execute_def Let_def dest: new_commandD intro!: table_moves_new
          split: option.split db_reply.split prod.split)
  next
    case (Op_Claim now i w n)
    have "table_moves t (snd (change_row reply i (\<lambda>c. cd_state c = Cmd_Queued) (claimed_by w now n) t))"
      by (rule change_row_moves) (rule moves.Claims)
    then show ?thesis unfolding x Op_Claim
      by (auto simp: sql_claim_command_def Let_def split: option.split prod.split)
  next
    case (Op_Finish now i w st summary j)
    have "table_moves t (snd (change_row reply i (finishable now w)
        (\<lambda>c. c\<lparr>cd_state := st, cd_summary := clean_text ce 4000 summary, cd_run := run_id, cd_finished := Some now\<rparr>) t))"
      if "st \<in> {Cmd_Completed, Cmd_Failed}" for run_id
      by (rule change_row_moves, rule ended_moves) (use that in \<open>auto simp: finishable_def\<close>)
    then show ?thesis unfolding x Op_Finish
      by (simp add: sql_finish_command_def Let_def case_prod_beta split: option.split)
  next
    case (Op_Interrupt now i w summary j)
    have "table_moves t (snd (change_row reply i (\<lambda>c. cd_state c = Cmd_Running \<and> cd_worker c = w)
        (\<lambda>c. c\<lparr>cd_state := Cmd_Interrupted, cd_summary := clean_text ce 4000 summary,
                            cd_run := (if run_id = [] then cd_run c else run_id), cd_finished := Some now\<rparr>) t))" for run_id
      by (rule change_row_moves, rule ended_moves) auto
    then show ?thesis unfolding x Op_Interrupt
      by (simp add: sql_interrupt_command_def Let_def case_prod_beta split: option.split sum.split)
  next
    case (Op_Reconcile now i actor reason)
    have "table_moves t (snd (change_row reply i (\<lambda>d. cd_state d = Cmd_Interrupted)
        (\<lambda>d. d\<lparr>cd_state := Cmd_Failed, cd_summary := cd_summary c, cd_reconciled_by := cd_reconciled_by c,
               cd_reconciled_at := cd_reconciled_at c, cd_reason := cd_reason c\<rparr>) t))"
      if "reconciled_command ce now actor reason p = Some c" for p c
      by (rule change_row_moves, rule reconcile_moves) (use reconciled_commandD(5) [OF that] in simp_all)
    then show ?thesis unfolding x Op_Reconcile
      by (simp add: sql_reconcile_command_def Let_def case_prod_beta split: option.split)
  next
    case (Op_Expire now)
    show ?thesis unfolding x Op_Expire
      by (auto simp: sql_expire_commands_def db_execute_def Let_def intro: table_moves_expire split: db_reply.split)
  qed
qed

text \<open>In memory, the commands lie under their identifiers.\<close>

definition keyed :: "command_table \<Rightarrow> bool" where
  "keyed t \<longleftrightarrow> (\<forall>i c. map_of t i = Some c \<longrightarrow> cd_id c = i)"

lemma moves_id: "moves c d \<Longrightarrow> cd_id d = cd_id c"
  by (auto simp: same_request_def claimed_by_def elim: moves.cases)

lemma table_moves_kept: "table_moves t t' \<Longrightarrow> map_of t i = Some c \<Longrightarrow> \<exists>d. map_of t' i = Some d \<and> moves c d"
  by (simp add: table_moves_def)

lemma table_moves_fresh: "table_moves t t' \<Longrightarrow> map_of t i = None \<Longrightarrow> map_of t' i = Some d \<Longrightarrow> cd_state d = Cmd_Queued \<and> cd_id d = i"
  by (simp add: table_moves_def)

lemma table_movesD:
  assumes "table_moves t t'" "map_of t' i = Some d"
  shows "(\<exists>c. map_of t i = Some c \<and> moves c d) \<or> (map_of t i = None \<and> cd_state d = Cmd_Queued \<and> cd_id d = i)"
proof (cases "map_of t i")
  case None
  with table_moves_fresh [OF assms(1)] assms(2) show ?thesis by blast
next
  case (Some c)
  with table_moves_kept [OF assms(1)] assms(2) show ?thesis by fastforce
qed

lemma table_moves_keyed: "table_moves t t' \<Longrightarrow> keyed t \<Longrightarrow> keyed t'"
  using table_movesD moves_id unfolding keyed_def by blast

lemma publish_commands: "snd (publish ce x s' s) = s' \<or> snd (publish ce x s' s) = s"
  by (simp add: publish_def)

lemma put_command_moves:
  assumes "map_of (cc_commands s) i = Some c" "moves c d" "cd_id d = i"
  shows "table_moves (cc_commands s) (cc_commands (snd (publish ce x (put_command d s) s)))"
  using assms by (auto simp: publish_def put_command_def intro: table_moves_change)

lemma step_moves:
  assumes "keyed (cc_commands s)"
  shows "table_moves (cc_commands s) (cc_commands (snd (queue_step ce op s)))"
proof -
  have k: "cd_id c = i" if "map_of (cc_commands s) i = Some c" for i c using assms that by (simp add: keyed_def)
  show ?thesis
  proof (cases op)
    case (Op_Enqueue c)
    then show ?thesis
      by (auto simp: enqueue_command_def publish_def put_command_def dest: new_commandD intro!: table_moves_new split: option.split)
  next
    case (Op_Claim now i w n)
    then show ?thesis using k
      by (auto simp: claim_command_def Let_def claimed_by_def [symmetric] intro!: put_command_moves moves.Claims split: option.split)
        (simp add: claimed_by_def)
  next
    case (Op_Finish now i w st summary j)
    then show ?thesis using k
      by (auto simp: finish_command_def Let_def finishable_def intro!: put_command_moves ended_moves split: option.split)
  next
    case (Op_Interrupt now i w summary j)
    then show ?thesis using k
      by (auto simp: interrupt_command_def Let_def intro!: put_command_moves ended_moves interrupted_moves split: option.split)
  next
    case (Op_Reconcile now i actor reason)
    have "moves c d" "cd_id d = cd_id c" if "reconciled_command ce now actor reason c = Some d" for c d
      using reconciled_commandD [OF that] by (auto intro: moves.Reconciles simp: same_request_def)
    with Op_Reconcile show ?thesis using k
      by (auto simp: reconcile_command_def intro!: put_command_moves split: option.split)
  next
    case (Op_Expire now)
    then show ?thesis
      by (auto simp: expire_commands_def publish_def Let_def intro: table_moves_expire)
  qed
qed

section \<open>The queue over SQL is the queue in memory\<close>

lemma none_lapsed:
  assumes "filter (\<lambda>(_, c). lapsed now c) t = []"
  shows "map (\<lambda>(k, c). (k, expired_command now c)) t = t"
  using assms by (induction t) (auto simp: expired_command_def split: if_splits)

lemma change_row_replied:
  "change_row Db_Replied i cond f t =
     (case map_of t i of None \<Rightarrow> (Inr 0, t) | Some c \<Rightarrow> if cond c then (Inr 1, AList.update i (f c) t) else (Inr 0, t))"
  by (simp add: change_row_def db_execute_def split: option.split)

text \<open>
  C34. With confirmed replies the SQL queue behaves like the queue in memory: the same
  operation gives the same answer and the same commands.
\<close>

theorem sql_queue_is_memory_queue:
  assumes "keyed (cc_commands s)" and "ce_saves ce = (\<lambda>_. True)"
  shows "sql_queue_step ce (Db_Replied, id, op) (cc_commands s) =
    (fst (queue_step ce op s), cc_commands (snd (queue_step ce op s)))"
proof -
  have k: "cd_id c = i" if "map_of (cc_commands s) i = Some c" for i c using assms(1) that by (simp add: keyed_def)
  note put = publish_def put_command_def assms(2) said_def change_row_replied Let_def
  show ?thesis
  proof (cases op)
    case (Op_Enqueue c)
    then show ?thesis
      by (auto simp: sql_enqueue_command_def enqueue_command_def db_execute_def put split: option.split)
  next
    case (Op_Claim now i w n)
    then show ?thesis using k
      by (auto simp: sql_claim_command_def claim_command_def maybe_command_def put claimed_by_def finishable_def
          lease_in_range_def seconds_def split: option.split)
  next
    case (Op_Finish now i w st summary j)
    then show ?thesis using k
      by (auto simp: sql_finish_command_def finish_command_def put finishable_def split: option.split)
  next
    case (Op_Interrupt now i w summary j)
    then show ?thesis using k
      by (auto simp: sql_interrupt_command_def interrupt_command_def put split: option.split)
  next
    case (Op_Reconcile now i actor reason)
    have r: "cd_state p = Cmd_Interrupted" "c = p\<lparr>cd_state := Cmd_Failed, cd_summary := cd_summary c, cd_reconciled_by := cd_reconciled_by c,
        cd_reconciled_at := cd_reconciled_at c, cd_reason := cd_reason c\<rparr>"
      if "reconciled_command ce now actor reason p = Some c" for p c
      using that by (auto simp: reconciled_command_def Let_def split: if_splits)
    have i: "cd_id c = cd_id p" if "reconciled_command ce now actor reason p = Some c" for p c
      using reconciled_commandD(3) [OF that] by (simp add: same_request_def)
    from Op_Reconcile show ?thesis using k r(1) r(2) [symmetric] i
      by (auto simp: sql_reconcile_command_def reconcile_command_def put split: option.split)
  next
    case (Op_Expire now)
    then show ?thesis
      by (auto simp: sql_expire_commands_def expire_commands_def db_execute_def none_lapsed put)
  qed
qed

text \<open>A small setting: nothing is redacted, and every digest is the same.\<close>

definition example_env :: center_env where
  "example_env = \<lparr>ce_redact = (\<lambda>s. s), ce_uuid = Some, ce_digest = (\<lambda>_. ''h''), ce_run_digest = (\<lambda>_. ''h''),
     ce_clean = Some, ce_saves = (\<lambda>_. True)\<rparr>"

definition example_command :: "string \<Rightarrow> string \<Rightarrow> command" where
  "example_command i x = \<lparr>cd_id = i, cd_kind = Pipeline_Sweep, cd_target = x, cd_subject = [], cd_body = [], cd_actor = ''op'',
     cd_actor_name = [], cd_created = 0, cd_state = Cmd_Queued, cd_started = None, cd_finished = None, cd_worker = [],
     cd_lease = None, cd_run = [], cd_summary = [], cd_hash = [], cd_reconciled_by = [], cd_reconciled_at = None, cd_reason = []\<rparr>"

definition example_queue :: center where
  "example_queue = snd (queue_step example_env (Op_Enqueue (example_command ''a'' ''x'')) new_center)"

theorem sql_queue_is_memory_queue_witness:
  "sql_queue_step example_env (Db_Replied, id, Op_Claim 5 ''a'' ''w'' 60) (cc_commands example_queue) =
     (fst (queue_step example_env (Op_Claim 5 ''a'' ''w'' 60) example_queue),
      cc_commands (snd (queue_step example_env (Op_Claim 5 ''a'' ''w'' 60) example_queue)))"
proof (rule sql_queue_is_memory_queue)
  have "keyed (cc_commands new_center)" by (simp add: keyed_def new_center_def)
  from table_moves_keyed [OF step_moves [OF this] this] show "keyed (cc_commands example_queue)"
    by (simp only: example_queue_def)
  show "ce_saves example_env = (\<lambda>_. True)" by (simp add: example_env_def)
qed

end
