(* ===== verification/Command_Facts.thy ===== *)
theory Command_Facts
  imports Commands
begin

text \<open>
  What the queue of commands and the history of runs keep: snapshots can always be read
  back, finished runs and events never change, a command is claimed at most once whatever
  replies are lost, and an interrupted command is settled by an operator only.
\<close>

section \<open>The course of a command\<close>

lemma moves_started: "moves c d \<Longrightarrow> cd_state c \<noteq> Cmd_Queued \<Longrightarrow> cd_state d \<noteq> Cmd_Queued"
  by (auto elim: moves.cases)

lemma moves_final: "moves c d \<Longrightarrow> cd_state c \<in> {Cmd_Completed, Cmd_Failed} \<Longrightarrow> d = c"
  by (auto elim: moves.cases)

lemma moves_target: "moves c d \<Longrightarrow> cd_target d = cd_target c"
  by (auto simp: same_request_def claimed_by_def elim: moves.cases)

lemma moves_hash: "moves c d \<Longrightarrow> cd_hash d = cd_hash c"
  by (auto simp: same_request_def claimed_by_def elim: moves.cases)

definition started :: "command_table \<Rightarrow> string \<Rightarrow> bool" where
  "started t i \<longleftrightarrow> (case map_of t i of None \<Rightarrow> False | Some c \<Rightarrow> cd_state c \<noteq> Cmd_Queued)"

lemma started_kept: "table_moves t t' \<Longrightarrow> started t i \<Longrightarrow> started t' i"
  using table_moves_kept moves_started unfolding started_def by (fastforce split: option.splits)

section \<open>A command is claimed once\<close>

fun claim_won :: "db_reply \<times> (command_table \<Rightarrow> command_table) \<times> queue_op \<Rightarrow> center_error + queue_answer \<Rightarrow> string option" where
  "claim_won (_, _, Op_Claim now i w n) (Inr (One_Command c)) = Some i"
| "claim_won _ _ = None"

lemma claim_wonD:
  assumes "claim_won x (fst (sql_queue_step ce x t)) = Some i"
  shows "\<not> started t i" "started (snd (sql_queue_step ce x t)) i"
proof -
  obtain reply peek op where x: "x = (reply, peek, op)" by (cases x) auto
  from assms obtain now w n where op: "op = Op_Claim now i w n" unfolding x by (cases op) (auto elim: claim_won.elims)
  let ?u = "change_row reply i (\<lambda>c. cd_state c = Cmd_Queued) (claimed_by w now n) t"
  have "fst ?u = Inr 1"
    using assms unfolding x op
    by (auto simp: sql_claim_command_def said_def maybe_command_def Let_def split: if_splits prod.splits)
  then obtain c where c: "map_of t i = Some c" "cd_state c = Cmd_Queued" "snd ?u = AList.update i (claimed_by w now n c) t"
    by (auto simp: change_row_def db_execute_def split: option.splits db_reply.splits if_splits)
  then show "\<not> started t i" by (simp add: started_def)
  have "snd (sql_queue_step ce x t) = snd ?u"
    using \<open>fst ?u = Inr 1\<close> assms unfolding x op
    by (auto simp: sql_claim_command_def said_def maybe_command_def Let_def case_prod_beta split: if_splits option.splits)
  with c show "started (snd (sql_queue_step ce x t)) i" by (simp add: started_def claimed_by_def)
qed

interpretation claiming: one_shot "sql_queue_step ce" "\<lambda>_. True" claim_won started for ce
  by unfold_locales (auto dest: claim_wonD intro: started_kept [OF sql_step_moves])

text \<open>
  C33. A command is claimed at most once: whatever operations processes make on the SQL
  queue, whatever replies are lost and whatever is read in between, at most one claim of a
  command is answered with it.
\<close>

theorem command_claimed_at_most_once:
  "count_wins (sql_queue_step ce) claim_won i xs t \<le> 1"
  using claiming.wins_once by blast

section \<open>An interruption is settled by an operator\<close>

definition awaits_operator :: "command \<Rightarrow> bool" where
  "awaits_operator c \<longleftrightarrow> cd_state c = Cmd_Interrupted \<or> cd_state c = Cmd_Failed \<and> cd_reconciled_by c \<noteq> []"

lemma moves_awaits: "moves c d \<Longrightarrow> awaits_operator c \<Longrightarrow> awaits_operator d"
  by (auto simp: awaits_operator_def elim: moves.cases)

lemma run_kept:
  assumes "map_of t i = Some c" "P c" "\<And>c d. moves c d \<Longrightarrow> P c \<Longrightarrow> P d"
  shows "\<exists>d. map_of (run (sql_queue_step ce) xs t) i = Some d \<and> P d"
  using assms(1,2)
proof (induction xs arbitrary: t c)
  case (Cons x xs)
  from table_moves_kept [OF sql_step_moves Cons.prems(1), of ce x] obtain d where
    "map_of (snd (sql_queue_step ce x t)) i = Some d" "moves c d" by blast
  with Cons.IH assms(3) Cons.prems(2) show ?case by auto
qed auto

text \<open>
  An interrupted command blocks its target until an operator reconciles it: whatever
  happens on the queue afterwards, the command is still interrupted, or it is failed and
  names the operator who reconciled it.
\<close>

lemma interruption_needs_operator:
  assumes "map_of t i = Some c" and "cd_state c = Cmd_Interrupted"
  shows "\<exists>d. map_of (run (sql_queue_step ce) xs t) i = Some d
    \<and> (cd_state d = Cmd_Interrupted \<or> cd_state d = Cmd_Failed \<and> cd_reconciled_by d \<noteq> [])"
  using run_kept [of t i c awaits_operator ce xs] assms moves_awaits by (auto simp: awaits_operator_def)

definition example_interrupted :: command_table where
  "example_interrupted = cc_commands (run (queue_step example_env)
     [Op_Claim 5 ''a'' ''w'' 60, Op_Interrupt 6 ''a'' ''w'' ''lost'' []] example_queue)"

lemma interruption_needs_operator_witness:
  "\<exists>d. map_of (run (sql_queue_step example_env) [(Db_Replied, id, Op_Expire (seconds 90))] example_interrupted) ''a'' = Some d
     \<and> (cd_state d = Cmd_Interrupted \<or> cd_state d = Cmd_Failed \<and> cd_reconciled_by d \<noteq> [])"
proof -
  have "map_option cd_state (map_of example_interrupted ''a'') = Some Cmd_Interrupted" by code_simp
  then obtain c where "map_of example_interrupted ''a'' = Some c" "cd_state c = Cmd_Interrupted" by auto
  then show ?thesis by (rule interruption_needs_operator)
qed

section \<open>The history of runs\<close>

datatype history_op = Start_Run agent_run | Append_Event run_event | Finish_Run string "triage_result \<times> instant" string | Queue_Op queue_op

fun history_step :: "center_env \<Rightarrow> history_op \<Rightarrow> center \<Rightarrow> bool \<times> center" where
  "history_step ce (Start_Run r) s = (let (x, s') = start_run ce r s in (case x of Inl _ \<Rightarrow> False | Inr _ \<Rightarrow> True, s'))"
| "history_step ce (Append_Event e) s = (let (x, s') = append_event ce e s in (case x of Inl _ \<Rightarrow> False | Inr _ \<Rightarrow> True, s'))"
| "history_step ce (Finish_Run i res inc) s = (let (x, s') = finish_run ce i res inc s in (case x of Inl _ \<Rightarrow> False | Inr _ \<Rightarrow> True, s'))"
| "history_step ce (Queue_Op op) s = (let (x, s') = queue_step ce op s in (case x of Inl _ \<Rightarrow> False | Inr _ \<Rightarrow> True, s'))"

text \<open>\<open>_consistent_keys\<close>: what a stored snapshot must satisfy to be read back.\<close>

definition hashed :: "(string, agent_run) dict \<Rightarrow> (string, string) dict \<Rightarrow> bool" where
  "hashed runs hashes \<longleftrightarrow> (\<forall>i. map_of runs i = None \<longleftrightarrow> map_of hashes i = None)"

definition referenced :: "(string, agent_run) dict \<Rightarrow> (string, run_event) dict \<Rightarrow> bool" where
  "referenced runs events \<longleftrightarrow> (\<forall>i e. map_of events i = Some e \<longrightarrow> re_id e = i \<and> map_of runs (re_run e) \<noteq> None)"

definition snapshot_ok :: "center \<Rightarrow> bool" where
  "snapshot_ok s \<longleftrightarrow>
     hashed (cc_runs s) (cc_hashes s) \<and> referenced (cc_runs s) (cc_events s)
     \<and> (\<forall>i r. map_of (cc_runs s) i = Some r \<longrightarrow> rn_id r = i)
     \<and> keyed (cc_commands s)
     \<and> (\<forall>i c. map_of (cc_commands s) i = Some c \<longrightarrow> cd_hash c \<noteq> [])"

lemma publish_cases: "(snd (publish ce x s' s) = s' \<Longrightarrow> P s') \<Longrightarrow> P s \<Longrightarrow> P (snd (publish ce x s' s))"
  by (simp add: publish_def)

lemma finished_run_id: "finished_run ce r res inc = Inr r' \<Longrightarrow> rn_id r' = rn_id r"
  by (auto simp: finished_run_def Let_def split: option.splits if_splits)

lemma queue_frame:
  "cc_runs (snd (queue_step ce op s)) = cc_runs s \<and> cc_hashes (snd (queue_step ce op s)) = cc_hashes s
   \<and> cc_events (snd (queue_step ce op s)) = cc_events s"
  by (cases op)
    (auto simp: enqueue_command_def claim_command_def finish_command_def interrupt_command_def reconcile_command_def
      expire_commands_def publish_def put_command_def Let_def split: option.split)

lemma enqueued_hash:
  assumes "map_of (cc_commands (snd (queue_step ce op s))) i = Some d" "map_of (cc_commands s) i = None"
    "keyed (cc_commands s)"
  shows "\<exists>c. cd_hash d = command_hash ce c"
proof -
  have k: "cd_id c = i" if "map_of (cc_commands s) i = Some c" for i c using assms(3) that by (simp add: keyed_def)
  show ?thesis
  proof (cases op)
    case (Op_Enqueue c)
    with assms(1,2) show ?thesis
      by (auto simp: enqueue_command_def publish_def put_command_def dest: new_commandD(3) split: option.splits if_splits)
  qed (use assms(1,2) k reconciled_commandD(3) in
    \<open>auto simp: claim_command_def finish_command_def interrupt_command_def reconcile_command_def expire_commands_def
      publish_def put_command_def Let_def claimed_by_def map_of_mapped same_request_def split: option.splits if_splits\<close>)
qed

lemma snapshot_queue:
  assumes ok: "snapshot_ok s" and h: "\<And>x. ce_digest ce x \<noteq> []"
  shows "snapshot_ok (snd (queue_step ce op s))"
proof -
  let ?s = "snd (queue_step ce op s)"
  have k: "keyed (cc_commands s)" using ok by (simp add: snapshot_ok_def)
  note m = step_moves [OF k, of ce op]
  have "cd_hash d \<noteq> []" if d: "map_of (cc_commands ?s) i = Some d" for i d
    using table_movesD [OF m d]
  proof
    assume "\<exists>c. map_of (cc_commands s) i = Some c \<and> moves c d"
    then show ?thesis using ok moves_hash unfolding snapshot_ok_def by metis
  next
    assume "map_of (cc_commands s) i = None \<and> cd_state d = Cmd_Queued \<and> cd_id d = i"
    then obtain c where "cd_hash d = command_hash ce c" using enqueued_hash [OF d _ k] by blast
    then show ?thesis unfolding command_hash_def using h by simp
  qed
  then show ?thesis using ok table_moves_keyed [OF m k] queue_frame [of ce op s] by (simp add: snapshot_ok_def)
qed

lemma hashed_add: "hashed rs hs \<Longrightarrow> hashed (AList.update i r rs) (AList.update i h hs)"
  by (simp add: hashed_def)

lemma hashed_put: "hashed rs hs \<Longrightarrow> map_of rs i = Some q \<Longrightarrow> hashed (AList.update i r rs) hs"
  unfolding hashed_def by (metis map_of_update option.distinct(1))

lemma referenced_run: "referenced rs es \<Longrightarrow> referenced (AList.update i r rs) es"
  by (simp add: referenced_def)

lemma referenced_event: "referenced rs es \<Longrightarrow> map_of rs (re_run e) = Some q \<Longrightarrow> referenced rs (AList.update (re_id e) e es)"
  by (simp add: referenced_def)

lemma snapshot_start: "snapshot_ok s \<Longrightarrow> snapshot_ok (snd (start_run ce r s))"
  by (auto simp: start_run_def publish_def snapshot_ok_def intro: hashed_add referenced_run split: option.split prod.split)

lemma snapshot_event: "snapshot_ok s \<Longrightarrow> snapshot_ok (snd (append_event ce e s))"
  by (auto simp: append_event_def publish_def snapshot_ok_def intro: referenced_event split: option.split)

lemma snapshot_finish: "snapshot_ok s \<Longrightarrow> snapshot_ok (snd (finish_run ce i res inc s))"
  by (auto simp: finish_run_def publish_def snapshot_ok_def intro: hashed_put referenced_run dest: finished_run_id
      split: option.split sum.split)

lemma history_step_snd:
  "snd (history_step ce op s) = (case op of Start_Run r \<Rightarrow> snd (start_run ce r s) | Append_Event e \<Rightarrow> snd (append_event ce e s)
     | Finish_Run i res inc \<Rightarrow> snd (finish_run ce i res inc s) | Queue_Op q \<Rightarrow> snd (queue_step ce q s))"
  by (simp add: Let_def case_prod_beta split: history_op.split)

interpretation snapshots: machine "history_step ce" "\<lambda>s. snapshot_ok s \<and> (\<forall>x. ce_digest ce x \<noteq> [])" for ce
  by unfold_locales
    (auto simp: history_step_snd intro: snapshot_start snapshot_event snapshot_finish snapshot_queue split: history_op.split)

text \<open>
  C35. What is stored can be read back: after any operations, failed writes included, the
  snapshot has a fingerprint for each run, keeps every record under its own identifier,
  refers only to known runs and has the fingerprint of every command's request.
\<close>

theorem snapshots_are_consistent:
  assumes "\<And>x. ce_digest ce x \<noteq> []"
  shows "snapshot_ok (run (history_step ce) ops new_center)"
proof -
  have "snapshot_ok new_center" by (simp add: snapshot_ok_def hashed_def referenced_def new_center_def keyed_def)
  with assms snapshots.inv_run [of new_center ce ops] show ?thesis by blast
qed

definition example_run :: agent_run where
  "example_run = \<lparr>rn_id = ''r'', rn_request = ''q'', rn_incident = [], rn_signature = [], rn_target = ''t'', rn_workload = ''powerbi'',
     rn_agent = ''agent'', rn_state = Run_Running, rn_outcome = None, rn_summary = [], rn_started = 0, rn_finished = None, rn_result = None\<rparr>"

definition example_outcome :: triage_result where
  "example_outcome =
     \<lparr>tr_outcome = Resolved, tr_summary = ''fixed'', tr_request_id = ''q'', tr_signature = ''s'',
      tr_signature_version = ''v1'', tr_root_cause = [], tr_action_taken = [], tr_classification = None,
      tr_dq_finding = None, tr_actions = [], tr_approvals = [], tr_llm_turns = 0, tr_tool_calls = 0, tr_write_actions = 0,
      tr_attempted_actions = 0, tr_tokens_used = 0, tr_wall_clock_ms = 0, tr_blocked_attempts = [], tr_denied_actions = [],
      tr_notification_failed = False, tr_notification_delivered = False, tr_notification_suppressed = False,
      tr_exception_class = [], tr_exception_message = []\<rparr>"

definition example_history :: "history_op list" where
  "example_history = [Start_Run example_run, Finish_Run ''r'' (example_outcome, 9) [], Queue_Op (Op_Enqueue (example_command ''a'' ''x''))]"

theorem snapshots_are_consistent_witness:
  "snapshot_ok (run (history_step example_env) example_history new_center)"
  by (rule snapshots_are_consistent) (simp add: example_env_def)

lemma finished_run_final:
  assumes "finished_run ce r res inc = Inr r'" "rn_state r \<noteq> Run_Running"
  shows "r' = r"
  using assms by (auto simp: finished_run_def Let_def split: option.splits if_splits)

definition run_final :: "string \<Rightarrow> agent_run \<Rightarrow> center \<Rightarrow> bool" where
  "run_final i r s \<longleftrightarrow> map_of (cc_runs s) i = Some r \<and> rn_id r = i \<and> rn_state r \<noteq> Run_Running"

lemma step_run_final:
  assumes "run_final i r s" "\<And>j q. map_of (cc_runs s) j = Some q \<Longrightarrow> rn_id q = j"
  shows "run_final i r (snd (history_step ce op s))"
  using assms queue_frame [of ce _ s]
  by (auto simp: history_step_snd run_final_def start_run_def append_event_def finish_run_def publish_def
      dest: finished_run_id split: history_op.split option.split sum.split prod.split)

text \<open>A finished run is final: no later operation changes its result, its outcome or anything else of it.\<close>

lemma finished_runs_are_final:
  assumes "\<And>x. ce_digest ce x \<noteq> []" and "map_of (cc_runs (run (history_step ce) ops new_center)) i = Some r"
    and "rn_state r \<noteq> Run_Running"
  shows "map_of (cc_runs (run (history_step ce) (ops @ later) new_center)) i = Some r"
proof -
  have init: "snapshot_ok new_center" by (simp add: snapshot_ok_def hashed_def referenced_def new_center_def keyed_def)
  have "run_final i r (run (history_step ce) later s)" if "snapshot_ok s" "run_final i r s" for s
    using that
  proof (induction later arbitrary: s)
    case (Cons x xs)
    have "run_final i r (snd (history_step ce x s))"
      by (rule step_run_final [OF Cons.prems(2)]) (use Cons.prems(1) in \<open>auto simp: snapshot_ok_def\<close>)
    with Cons.IH snapshots.inv_step [of s ce x] Cons.prems(1) assms(1) show ?case by simp
  qed simp
  moreover have s: "snapshot_ok (run (history_step ce) ops new_center)" using snapshots.inv_run [of new_center ce ops] init assms(1) by blast
  moreover have "run_final i r (run (history_step ce) ops new_center)"
    using s assms(2,3) by (simp add: run_final_def snapshot_ok_def)
  ultimately show ?thesis by (auto simp: run_append run_final_def)
qed


lemma finished_runs_are_final_witness:
  "\<exists>r. map_of (cc_runs (run (history_step example_env)
     (example_history @ [Finish_Run ''r'' (example_outcome\<lparr>tr_summary := ''other''\<rparr>, 20) []]) new_center)) ''r'' = Some r
   \<and> rn_state r = Run_Completed"
proof -
  have "map_option rn_state (map_of (cc_runs (run (history_step example_env) example_history new_center)) ''r'') = Some Run_Completed"
    by code_simp
  then obtain r where r: "map_of (cc_runs (run (history_step example_env) example_history new_center)) ''r'' = Some r"
    "rn_state r = Run_Completed" by auto
  with finished_runs_are_final [OF _ r(1)] show ?thesis by (simp add: example_env_def)
qed

end
