(* ===== verification/Command_Worker.thy ===== *)
theory Command_Worker
  imports Command_Facts Claims
begin

text \<open>
  \<^verbatim>\<open>src/src/triage/command_center/worker.py\<close>: \<open>drain_commands\<close>, run by any number of
  workers on one queue and one table of claims. Each move is one call that a worker awaits
  (\<open>settled_thread\<close>) or a decision between two calls, so the workers interleave at every
  await. Replies may be lost at each statement; operators enqueue and reconcile at any time.
\<close>

section \<open>Workers\<close>

datatype report =
    Done_Report string string
  | Uncertain_Report string string
  | Unexecuted_Report string

text \<open>
  Where a worker is in the loop: the candidates left and the lines written so far, and in
  between the command at hand with the time at which the loop began to claim its target.
\<close>

datatype phase =
    Off
  | Scan "command list" nat
  | Hold command instant "command list" nat
  | Free command instant "command list" nat
  | Own command instant "command list" nat
  | Exec command "command list" nat
  | Tell command report "command list" nat
  | Let_Go string "command list" nat
  | Gone nat

record yard =
  yd_table :: command_table
  yd_claims :: claim_table
  yd_now :: instant
  yd_phase :: "string \<Rightarrow> phase"
  yd_entered :: "string list"

definition new_yard :: yard where
  "new_yard = \<lparr>yd_table = [], yd_claims = [], yd_now = 0, yd_phase = (\<lambda>_. Off), yd_entered = []\<rparr>"

text \<open>The settings: the execution budget in seconds and the limit of the call.\<close>

record drain_env =
  de_center :: center_env
  de_sha :: "string \<Rightarrow> string"
  de_budget :: int
  de_limit :: nat

definition target_lock :: "string \<Rightarrow> string" where
  "target_lock t = ''command-target:'' @ py_lower t"

definition lease_length :: "drain_env \<Rightarrow> int" where
  "lease_length de = de_budget de + 60"

definition at_phase :: "string \<Rightarrow> phase \<Rightarrow> yard \<Rightarrow> yard" where
  "at_phase w p y = y\<lparr>yd_phase := (yd_phase y)(w := p)\<rparr>"

definition row_limit :: "drain_env \<Rightarrow> nat" where
  "row_limit de = max 1 (min (de_limit de) 10)"

datatype move =
    Pass_Time int
  | Operator_Call db_reply "command_table \<Rightarrow> command_table" queue_op
  | Begin_Drain string
  | Next_Candidate string bool db_reply db_reply
  | Look_Target string bool
  | Claim_It string db_reply "(db_reply \<times> (command_table \<Rightarrow> command_table) \<times> queue_op) list"
  | Prepare_It string "string option"
  | End_It string report
  | Report_It string db_reply "command_table \<Rightarrow> command_table" bool
  | Release_It string db_reply

text \<open>
  Operators, and the expiry that every drain starts with, may be called at any time, also
  between the statement that claims a command and the reading of the claimed row.
\<close>

fun by_operator :: "queue_op \<Rightarrow> bool" where
  "by_operator (Op_Enqueue _) = True"
| "by_operator (Op_Reconcile _ _ _ _) = True"
| "by_operator (Op_Expire _) = True"
| "by_operator _ = False"

text \<open>
  The statement that records how a command ended: \<open>finish_command\<close> or, once the execution
  was entered, \<open>interrupt_command\<close>.
\<close>

fun ending :: "instant \<Rightarrow> string \<Rightarrow> command \<Rightarrow> report \<Rightarrow> queue_op" where
  "ending now w c (Done_Report summary run_id) = Op_Finish now (cd_id c) w Cmd_Completed summary run_id"
| "ending now w c (Uncertain_Report summary run_id) = Op_Interrupt now (cd_id c) w summary run_id"
| "ending now w c (Unexecuted_Report summary) = Op_Finish now (cd_id c) w Cmd_Failed summary []"

fun yard_move :: "drain_env \<Rightarrow> move \<Rightarrow> yard \<Rightarrow> yard option" where
  "yard_move de (Pass_Time n) y = (if n < 0 then None else Some (y\<lparr>yd_now := yd_now y + n\<rparr>))"
| "yard_move de (Operator_Call reply peek op) y =
     (if \<not> by_operator op then None
      else Some (y\<lparr>yd_table := snd (sql_queue_step (de_center de) (reply, peek, op) (yd_table y))\<rparr>))"
| "yard_move de (Begin_Drain w) y =
     (if yd_phase y w \<noteq> Off then None else Some (at_phase w (Scan (eligible_in 100 (yd_table y)) 0) y))"
| "yard_move de (Next_Candidate w can_claim r1 r2) y =
     (case yd_phase y w of
        Scan [] n \<Rightarrow> Some (at_phase w (Gone n) y)
      | Scan (c # cs) n \<Rightarrow>
          if row_limit de \<le> n \<or> \<not> can_claim then Some (at_phase w (Gone n) y)
          else if cd_state c \<noteq> Cmd_Queued then Some (at_phase w (Scan cs n) y)
          else let (won, t) = claim_acquire (de_sha de) (target_lock (cd_target c), r1, r2) (yd_now y) w (lease_length de) (yd_claims y);
                   y' = y\<lparr>yd_claims := t\<rparr>
               in Some (at_phase w (if won then Hold c (yd_now y) cs n else Scan cs n) y')
      | _ \<Rightarrow> None)"
| "yard_move de (Look_Target w can_claim) y =
     (case yd_phase y w of
        Hold c b cs n \<Rightarrow>
          Some (at_phase w
            (if blocked_in (cd_target c) (yd_table y) then Let_Go (cd_target c) cs n
             else if \<not> can_claim then Let_Go (cd_target c) [] n else Free c b cs n) y)
      | _ \<Rightarrow> None)"
| "yard_move de (Claim_It w reply ops) y =
     (case yd_phase y w of
        Free c b cs n \<Rightarrow>
          if \<not> list_all (\<lambda>(_, _, op). by_operator op) ops then None
          else if b + seconds (de_budget de) \<le> yd_now y then Some (at_phase w (Let_Go (cd_target c) cs n) y)
          else let others = run (sql_queue_step (de_center de)) ops;
                   (a, t) = sql_claim_command (de_center de) reply others (yd_now y) (cd_id c) w (lease_length de) (yd_table y);
                   y' = y\<lparr>yd_table := others t\<rparr>
               in Some (at_phase w (case a of Inl _ \<Rightarrow> Let_Go (cd_target c) [] n
                                              | Inr None \<Rightarrow> Let_Go (cd_target c) cs n
                                              | Inr (Some d) \<Rightarrow> Own d b cs n) y')
      | _ \<Rightarrow> None)"
| "yard_move de (Prepare_It w failed) y =
     (case yd_phase y w of
        Own c b cs n \<Rightarrow>
          (case failed of
             Some why \<Rightarrow> Some (at_phase w (Tell c (Unexecuted_Report why) cs n) y)
           | None \<Rightarrow>
               if b + seconds (de_budget de) \<le> yd_now y then Some (at_phase w (Tell c (Unexecuted_Report ''TimeoutError'') cs n) y)
               else Some (at_phase w (Exec c cs n) (y\<lparr>yd_entered := yd_entered y @ [cd_id c]\<rparr>)))
      | _ \<Rightarrow> None)"
| "yard_move de (End_It w r) y =
     (case (yd_phase y w, r) of
        (Exec c cs n, Unexecuted_Report _) \<Rightarrow> None
      | (Exec c cs n, _) \<Rightarrow> Some (at_phase w (Tell c r cs n) y)
      | _ \<Rightarrow> None)"
| "yard_move de (Report_It w reply peek stop) y =
     (case yd_phase y w of
        Tell c r cs n \<Rightarrow>
          let y' = y\<lparr>yd_table := snd (sql_queue_step (de_center de) (reply, peek, ending (yd_now y) w c r) (yd_table y))\<rparr>
          in Some (at_phase w (Let_Go (cd_target c) (if stop then [] else cs) (n + 1)) y')
      | _ \<Rightarrow> None)"
| "yard_move de (Release_It w reply) y =
     (case yd_phase y w of
        Let_Go t cs n \<Rightarrow>
          Some (at_phase w (Scan cs n)
            (y\<lparr>yd_claims := claim_release (de_sha de) (target_lock t, reply, reply) w (yd_claims y)\<rparr>))
      | _ \<Rightarrow> None)"

inductive yard_reach :: "drain_env \<Rightarrow> yard \<Rightarrow> bool" for de where
  Start: "yard_reach de new_yard"
| Move: "yard_reach de y \<Longrightarrow> yard_move de m y = Some y' \<Longrightarrow> yard_reach de y'"

section \<open>What a step leaves of the table\<close>

lemma change_row_wf: "dict_wf t \<Longrightarrow> dict_wf (snd (change_row reply i cond f t))"
  by (auto simp: change_row_def db_execute_def split: option.split db_reply.split)

lemma mapped_wf: "dict_wf (map (\<lambda>(k, c). (k, f c)) t) = dict_wf t"
  by (simp add: dict_wf_def comp_def case_prod_beta)

lemma sql_step_wf: "dict_wf t \<Longrightarrow> dict_wf (snd (sql_queue_step ce (reply, peek, op) t))"
  by (cases op)
    (auto simp: sql_enqueue_command_def sql_claim_command_def sql_finish_command_def sql_interrupt_command_def
      sql_reconcile_command_def sql_expire_commands_def db_execute_def Let_def case_prod_beta change_row_wf mapped_wf
      split: option.split db_reply.split sum.split)

lemma change_row_other: "j \<noteq> i \<Longrightarrow> map_of (snd (change_row reply i cond f t)) j = map_of t j"
  by (auto simp: change_row_def db_execute_def split: option.split db_reply.split)

lemma change_row_refused:
  "(case map_of t i of None \<Rightarrow> True | Some c \<Rightarrow> \<not> cond c) \<Longrightarrow> snd (change_row reply i cond f t) = t"
  by (auto simp: change_row_def db_execute_def split: option.splits db_reply.split)

lemma change_row_kept:
  assumes "map_of t i = Some c" "j = i \<Longrightarrow> \<not> cond c"
  shows "map_of (snd (change_row reply j cond f t)) i = Some c"
  using assms by (cases "j = i") (simp_all add: change_row_other change_row_refused)

text \<open>Only a claim takes a command out of the queue.\<close>

fun claims_of :: "queue_op \<Rightarrow> string option" where
  "claims_of (Op_Claim _ i _ _) = Some i"
| "claims_of _ = None"

lemma queued_kept:
  assumes "claims_of op = None" "map_of t i = Some c" "cd_state c = Cmd_Queued"
  shows "map_of (snd (sql_queue_step ce (reply, peek, op) t)) i = Some c"
  using assms
  by (cases op)
    (auto simp: sql_enqueue_command_def sql_finish_command_def sql_interrupt_command_def finishable_def expired_command_def lapsed_def
      sql_reconcile_command_def sql_expire_commands_def db_execute_def Let_def case_prod_beta map_of_mapped
      intro!: change_row_kept split: option.split db_reply.split sum.split)

lemma unsettled_before:
  assumes "claims_of op = None" "map_of (snd (sql_queue_step ce (reply, peek, op) t)) i = Some d" "unsettled d"
  shows "\<exists>c. map_of t i = Some c \<and> unsettled c \<and> cd_target c = cd_target d"
  using table_movesD [OF sql_step_moves assms(2)]
proof
  assume "\<exists>c. map_of t i = Some c \<and> moves c d"
  then obtain c where c: "map_of t i = Some c" "moves c d" by blast
  have "cd_state c \<noteq> Cmd_Queued" using queued_kept [OF assms(1) c(1), of ce reply peek] assms(2,3) by (auto simp: unsettled_def)
  with c assms(3) moves_target [OF c(2)] show ?thesis by (auto simp: unsettled_def elim!: moves.cases)
qed (use assms(3) in \<open>simp add: unsettled_def\<close>)

lemma blockedI: "map_of t i = Some c \<Longrightarrow> unsettled c \<Longrightarrow> blocked_in (cd_target c) t"
  by (force simp: blocked_in_def list_ex_iff dest: map_of_SomeD)

lemma blockedE:
  assumes "blocked_in x t" "dict_wf t"
  obtains i c where "map_of t i = Some c" "cd_target c = x" "unsettled c"
proof -
  from assms(1) obtain i c where "(i, c) \<in> set t" "cd_target c = x" "unsettled c"
    by (auto simp: blocked_in_def list_ex_iff)
  then show thesis using that assms(2) by (auto simp: dict_wf_def)
qed

lemma blocked_before:
  assumes "claims_of op = None" "dict_wf t" "blocked_in x (snd (sql_queue_step ce (reply, peek, op) t))"
  shows "blocked_in x t"
proof -
  obtain i d where d: "map_of (snd (sql_queue_step ce (reply, peek, op) t)) i = Some d" "cd_target d = x" "unsettled d"
    using blockedE [OF assms(3) sql_step_wf [OF assms(2)]] by blast
  then obtain c where "map_of t i = Some c" "unsettled c" "cd_target c = x" using unsettled_before [OF assms(1) d(1,3)] by blast
  then show ?thesis using blockedI [of t i c] by simp
qed

definition single :: "command_table \<Rightarrow> bool" where
  "single t \<longleftrightarrow>
     (\<forall>i j c d. map_of t i = Some c \<longrightarrow> map_of t j = Some d \<longrightarrow> unsettled c \<longrightarrow> unsettled d \<longrightarrow> cd_target c = cd_target d \<longrightarrow> i = j)"

lemma singleD: "single t \<Longrightarrow> map_of t i = Some c \<Longrightarrow> map_of t j = Some d \<Longrightarrow> unsettled c \<Longrightarrow> unsettled d \<Longrightarrow> cd_target c = cd_target d \<Longrightarrow> i = j"
  unfolding single_def by blast

lemma single_kept:
  assumes "claims_of op = None" "single t"
  shows "single (snd (sql_queue_step ce (reply, peek, op) t))"
  unfolding single_def
proof (intro allI impI)
  fix i j c d
  assume a: "map_of (snd (sql_queue_step ce (reply, peek, op) t)) i = Some c" "map_of (snd (sql_queue_step ce (reply, peek, op) t)) j = Some d"
    "unsettled c" "unsettled d" "cd_target c = cd_target d"
  from unsettled_before [OF assms(1) a(1,3)] obtain c' where c: "map_of t i = Some c'" "unsettled c'" "cd_target c' = cd_target c" by blast
  from unsettled_before [OF assms(1) a(2,4)] obtain d' where d: "map_of t j = Some d'" "unsettled d'" "cd_target d' = cd_target d" by blast
  show "i = j" by (rule singleD [OF assms(2) c(1) d(1) c(2) d(2)]) (simp add: c(3) d(3) a(5))
qed

definition fits :: "command_table \<Rightarrow> command \<Rightarrow> bool" where
  "fits t c \<longleftrightarrow> (\<exists>d. map_of t (cd_id c) = Some d \<and> cd_target d = cd_target c)"

lemma fits_moved:
  assumes "table_moves t t'" "fits t c"
  shows "fits t' c"
proof -
  obtain d where d: "map_of t (cd_id c) = Some d" "cd_target d = cd_target c" using assms(2) by (auto simp: fits_def)
  from table_moves_kept [OF assms(1) d(1)] obtain e where "map_of t' (cd_id c) = Some e" "moves d e" by blast
  with moves_target [OF this(2)] d(2) show ?thesis by (simp add: fits_def)
qed

text \<open>
  What operators and the ends of commands leave of a table: commands move along, no target
  becomes blocked, and none becomes blocked twice.
\<close>

definition eases :: "command_table \<Rightarrow> command_table \<Rightarrow> bool" where
  "eases t t' \<longleftrightarrow> table_moves t t' \<and> (dict_wf t \<longrightarrow> dict_wf t' \<and> (\<forall>x. blocked_in x t' \<longrightarrow> blocked_in x t)) \<and> (single t \<longrightarrow> single t')"

lemma eases_step:
  assumes "claims_of op = None"
  shows "eases t (snd (sql_queue_step ce (reply, peek, op) t))"
  unfolding eases_def
  using sql_step_moves [of t ce "(reply, peek, op)"] sql_step_wf [of t ce reply peek op] blocked_before [OF assms, of t _ ce reply peek]
    single_kept [OF assms, of t ce reply peek]
  by (intro conjI impI allI)


lemma eases_refl [simp]: "eases t t"
  by (simp add: eases_def)

lemma by_operator_claims: "by_operator op \<Longrightarrow> claims_of op = None"
  by (cases op) simp_all

lemma ending_claims: "claims_of (ending now w c r) = None"
  by (cases r) simp_all

text \<open>The part of it that holds for lists of operations too.\<close>

definition calmer :: "command_table \<Rightarrow> command_table \<Rightarrow> bool" where
  "calmer t t' \<longleftrightarrow> (\<forall>c. fits t c \<longrightarrow> fits t' c) \<and> (keyed t \<longrightarrow> keyed t')
     \<and> (dict_wf t \<longrightarrow> dict_wf t' \<and> (\<forall>x. blocked_in x t' \<longrightarrow> blocked_in x t)) \<and> (single t \<longrightarrow> single t')"

lemma calmer_eases: "eases t t' \<Longrightarrow> calmer t t'"
  unfolding eases_def calmer_def using fits_moved table_moves_keyed by blast

lemma calmer_trans: "calmer t u \<Longrightarrow> calmer u v \<Longrightarrow> calmer t v"
  unfolding calmer_def by blast

lemma calmer_step: "claims_of op = None \<Longrightarrow> calmer t (snd (sql_queue_step ce (reply, peek, op) t))"
  by (rule calmer_eases [OF eases_step])

lemma calmer_run: "list_all (\<lambda>(_, _, op). by_operator op) ops \<Longrightarrow> calmer t (run (sql_queue_step ce) ops t)"
proof (induction ops arbitrary: t)
  case Nil
  show ?case by (simp add: calmer_def)
next
  case (Cons x ops)
  obtain reply peek op where x: "x = (reply, peek, op)" by (cases x) auto
  have "calmer t (snd (sql_queue_step ce x t))" unfolding x using Cons.prems x by (intro calmer_step by_operator_claims) simp
  from calmer_trans [OF this Cons.IH] Cons.prems show ?case by simp
qed

section \<open>One command of a target at a time\<close>

definition lease_held :: "drain_env \<Rightarrow> yard \<Rightarrow> string \<Rightarrow> command \<Rightarrow> instant \<Rightarrow> bool" where
  "lease_held de y w c b \<longleftrightarrow>
     (yd_now y < b + seconds (lease_length de) \<longrightarrow>
      claim_holder (row_key (de_sha de) (target_lock (cd_target c))) (yd_claims y) = Some (w, b + seconds (lease_length de)))"

definition clear_until :: "drain_env \<Rightarrow> yard \<Rightarrow> command \<Rightarrow> instant \<Rightarrow> bool" where
  "clear_until de y c b \<longleftrightarrow> (yd_now y < b + seconds (lease_length de) \<longrightarrow> \<not> blocked_in (cd_target c) (yd_table y))"

fun phase_ok :: "drain_env \<Rightarrow> yard \<Rightarrow> string \<Rightarrow> phase \<Rightarrow> bool" where
  "phase_ok de y w (Scan cs _) \<longleftrightarrow> list_all (fits (yd_table y)) cs"
| "phase_ok de y w (Hold c b cs _) \<longleftrightarrow> list_all (fits (yd_table y)) (c # cs) \<and> lease_held de y w c b"
| "phase_ok de y w (Free c b cs _) \<longleftrightarrow> list_all (fits (yd_table y)) (c # cs) \<and> lease_held de y w c b \<and> clear_until de y c b"
| "phase_ok de y w (Own _ _ cs _) \<longleftrightarrow> list_all (fits (yd_table y)) cs"
| "phase_ok de y w (Exec _ cs _) \<longleftrightarrow> list_all (fits (yd_table y)) cs"
| "phase_ok de y w (Tell _ _ cs _) \<longleftrightarrow> list_all (fits (yd_table y)) cs"
| "phase_ok de y w (Let_Go _ cs _) \<longleftrightarrow> list_all (fits (yd_table y)) cs"
| "phase_ok de y w _ \<longleftrightarrow> True"

definition yard_ok :: "drain_env \<Rightarrow> yard \<Rightarrow> bool" where
  "yard_ok de y \<longleftrightarrow> dict_wf (yd_table y) \<and> keyed (yd_table y) \<and> single (yd_table y) \<and> (\<forall>w. phase_ok de y w (yd_phase y w))"

lemma yard_okD:
  assumes "yard_ok de y"
  shows "dict_wf (yd_table y)" "keyed (yd_table y)" "single (yd_table y)" "phase_ok de y w (yd_phase y w)"
  using assms by (simp_all add: yard_ok_def)

text \<open>What a worker relies on is kept by a move that keeps its lease and does not block its target.\<close>

lemma phase_ok_kept:
  assumes "phase_ok de y w p" "yd_now y \<le> yd_now y'" "\<And>c. fits (yd_table y) c \<Longrightarrow> fits (yd_table y') c"
    and "\<And>row e. claim_holder row (yd_claims y) = Some (w, e) \<Longrightarrow> yd_now y' < e \<Longrightarrow> claim_holder row (yd_claims y') = Some (w, e)"
    and "\<And>c b cs n. p = Free c b cs n \<Longrightarrow> lease_held de y w c b \<Longrightarrow> yd_now y' < b + seconds (lease_length de) \<Longrightarrow>
      blocked_in (cd_target c) (yd_table y') \<Longrightarrow> blocked_in (cd_target c) (yd_table y)"
  shows "phase_ok de y' w p"
proof -
  have l: "list_all (fits (yd_table y)) cs \<Longrightarrow> list_all (fits (yd_table y')) cs" for cs
    using assms(3) by (auto simp: list_all_iff)
  have h: "lease_held de y w c b \<Longrightarrow> lease_held de y' w c b" for c b
    using assms(2,4) unfolding lease_held_def by auto
  show ?thesis
  proof (cases p)
    case (Free c b cs n)
    have "clear_until de y' c b"
      unfolding clear_until_def using assms(1,2) assms(5) [OF Free] Free by (auto simp: clear_until_def)
    then show ?thesis using assms(1,3) l h Free by simp
  qed (use assms(1,3) l h in auto)
qed

lemma at_phase_simps [simp]:
  "yd_table (at_phase w p y) = yd_table y" "yd_claims (at_phase w p y) = yd_claims y" "yd_now (at_phase w p y) = yd_now y"
  "yd_phase (at_phase w p y) = (yd_phase y)(w := p)" "yd_entered (at_phase w p y) = yd_entered y"
  by (simp_all add: at_phase_def)

lemma phase_ok_cong:
  "yd_table y' = yd_table y \<Longrightarrow> yd_claims y' = yd_claims y \<Longrightarrow> yd_now y' = yd_now y \<Longrightarrow> phase_ok de y' w p = phase_ok de y w p"
  by (cases p) (simp_all add: lease_held_def clear_until_def)

text \<open>A worker that changes nothing but its own place.\<close>

lemma yard_ok_place:
  assumes "yard_ok de y" "phase_ok de y w p"
  shows "yard_ok de (at_phase w p y)"
  using assms by (auto simp: yard_ok_def phase_ok_cong [of "at_phase w p y" y])

text \<open>A call that only eases the table.\<close>

lemma yard_ok_calmer:
  assumes "yard_ok de y" "calmer (yd_table y) t"
  shows "yard_ok de (y\<lparr>yd_table := t\<rparr>)"
proof -
  have "phase_ok de (y\<lparr>yd_table := t\<rparr>) w (yd_phase y w)" for w
    by (rule phase_ok_kept [OF yard_okD(4) [OF assms(1)]]) (use assms in \<open>auto simp: calmer_def yard_ok_def\<close>)
  with assms show ?thesis by (simp add: yard_ok_def calmer_def)
qed

lemma yard_ok_time:
  assumes "yard_ok de y" "0 \<le> n"
  shows "yard_ok de (y\<lparr>yd_now := yd_now y + n\<rparr>)"
proof -
  have "phase_ok de (y\<lparr>yd_now := yd_now y + n\<rparr>) w (yd_phase y w)" for w
    by (rule phase_ok_kept [OF yard_okD(4) [OF assms(1)]]) (use assms(2) in simp_all)
  with assms(1) show ?thesis by (simp add: yard_ok_def)
qed

lemma yard_ok_claims:
  assumes ok: "yard_ok de y"
    and keep: "\<And>v row e. v \<noteq> w \<Longrightarrow> claim_holder row (yd_claims y) = Some (v, e) \<Longrightarrow> yd_now y < e \<Longrightarrow> claim_holder row t = Some (v, e)"
    and p: "phase_ok de (y\<lparr>yd_claims := t\<rparr>) w p"
  shows "yard_ok de (at_phase w p (y\<lparr>yd_claims := t\<rparr>))"
proof -
  let ?y = "at_phase w p (y\<lparr>yd_claims := t\<rparr>)"
  have "phase_ok de ?y v (yd_phase ?y v)" for v
  proof (cases "v = w")
    case True
    then show ?thesis using p by (simp add: phase_ok_cong [of ?y "y\<lparr>yd_claims := t\<rparr>"])
  next
    case False
    have "phase_ok de ?y v (yd_phase y v)"
      by (rule phase_ok_kept [OF yard_okD(4) [OF ok]]) (use keep False in simp_all)
    with False show ?thesis by simp
  qed
  with ok show ?thesis by (simp add: yard_ok_def)
qed

text \<open>The statement that claims a command leaves every other row, and blocks the target of its command only.\<close>

lemma claim_statement:
  assumes "dict_wf t" "keyed t" "single t" "fits t c" "\<not> blocked_in (cd_target c) t"
    and t': "t' = snd (sql_claim_command ce reply peek now (cd_id c) w n t)"
  shows "dict_wf t'" "keyed t'" "single t'" "fits t d \<Longrightarrow> fits t' d"
    "blocked_in x t' \<Longrightarrow> x \<noteq> cd_target c \<Longrightarrow> blocked_in x t"
proof -
  have st: "t' = snd (sql_queue_step ce (reply, peek, Op_Claim now (cd_id c) w n) t)" by (simp add: t')
  have m: "table_moves t t'" unfolding st by (rule sql_step_moves)
  show wf: "dict_wf t'" unfolding st by (rule sql_step_wf [OF assms(1)])
  show "keyed t'" by (rule table_moves_keyed [OF m assms(2)])
  show "fits t d \<Longrightarrow> fits t' d" by (rule fits_moved [OF m])
  obtain c' where c': "map_of t (cd_id c) = Some c'" "cd_target c' = cd_target c" using assms(4) by (auto simp: fits_def)
  have other: "map_of t' i = map_of t i" if "i \<noteq> cd_id c" for i
    using that unfolding t' by (auto simp: sql_claim_command_def Let_def case_prod_beta change_row_other split: option.split)
  have src: "i = cd_id c \<and> cd_target d = cd_target c \<or> map_of t i = Some d" if "map_of t' i = Some d" for i d
  proof (cases "i = cd_id c")
    case True
    with table_moves_kept [OF m c'(1)] that obtain e where "e = d" "moves c' e" by auto
    with moves_target c'(2) True show ?thesis by metis
  qed (use that other in auto)
  have clear: "cd_target d \<noteq> cd_target c" if "map_of t i = Some d" "unsettled d" for i d
    using assms(5) blockedI [OF that] by metis
  show "single t'"
    unfolding single_def
  proof (intro allI impI)
    fix i j d e
    assume a: "map_of t' i = Some d" "map_of t' j = Some e" "unsettled d" "unsettled e" "cd_target d = cd_target e"
    show "i = j"
      using src [OF a(1)] src [OF a(2)] a(3-5) clear singleD [OF assms(3)] by metis
  qed
  show "blocked_in x t" if b: "blocked_in x t'" and x: "x \<noteq> cd_target c"
  proof -
    obtain i d where d: "map_of t' i = Some d" "cd_target d = x" "unsettled d" using blockedE [OF b wf] by blast
    with src [OF d(1)] x have "map_of t i = Some d" by auto
    from blockedI [OF this d(3)] d(2) show ?thesis by simp
  qed
qed

text \<open>Two workers that hold unexpired claims hold claims of different targets.\<close>

lemma leases_differ:
  assumes "lease_held de y w c b" "yd_now y < b + seconds (lease_length de)"
    and "lease_held de y v d a" "yd_now y < a + seconds (lease_length de)" and "v \<noteq> w"
  shows "cd_target d \<noteq> cd_target c"
  using assms by (auto simp: lease_held_def)

lemma yard_ok_claimed:
  assumes ok: "yard_ok de y" and ph: "yd_phase y w = Free c b cs n" and now: "yd_now y < b + seconds (lease_length de)"
    and t: "t = snd (sql_claim_command ce reply peek (yd_now y) (cd_id c) w k (yd_table y))"
    and p: "\<And>t. list_all (fits t) cs \<Longrightarrow> phase_ok de (y\<lparr>yd_table := t\<rparr>) w p"
  shows "yard_ok de (at_phase w p (y\<lparr>yd_table := t\<rparr>))"
proof -
  have mine: "fits (yd_table y) c" "list_all (fits (yd_table y)) cs" "lease_held de y w c b" "\<not> blocked_in (cd_target c) (yd_table y)"
    using yard_okD(4) [OF ok, of w] ph now by (simp_all add: clear_until_def)
  note st = claim_statement [OF yard_okD(1-3) [OF ok] mine(1,4) t]
  let ?y = "at_phase w p (y\<lparr>yd_table := t\<rparr>)"
  have "phase_ok de ?y v (yd_phase ?y v)" for v
  proof (cases "v = w")
    case True
    have "list_all (fits t) cs" using mine(2) st(4) by (auto simp: list_all_iff)
    with True p show ?thesis by (simp add: phase_ok_cong [of ?y "y\<lparr>yd_table := t\<rparr>"])
  next
    case False
    have "phase_ok de ?y v (yd_phase y v)"
    proof (rule phase_ok_kept [OF yard_okD(4) [OF ok]])
      fix d a ds m
      assume "lease_held de y v d a" "yd_now ?y < a + seconds (lease_length de)" "blocked_in (cd_target d) (yd_table ?y)"
      then show "blocked_in (cd_target d) (yd_table y)"
        using st(5) leases_differ [OF mine(3) now _ _ False] by simp
    qed (use st(4) in simp_all)
    with False show ?thesis by simp
  qed
  with st(1-3) show ?thesis by (simp add: yard_ok_def)
qed

lemma eligible_fits:
  assumes "dict_wf t" "keyed t"
  shows "list_all (fits t) (eligible_in n t)"
proof -
  have "fits t c" if "(i, c) \<in> set t" for i c
    using that assms by (auto simp: fits_def keyed_def dict_wf_get)
  then show ?thesis
    by (auto simp: list_all_iff eligible_in_def by_age_def dest!: in_set_takeD)
qed

lemma acquired_ok:
  assumes ok: "yard_ok de y" and r: "claim_acquire (de_sha de) (target_lock (cd_target c), r1, r2) (yd_now y) w (lease_length de) (yd_claims y) = (won, t)"
    and cs: "list_all (fits (yd_table y)) (c # cs)"
  shows "yard_ok de (at_phase w (if won then Hold c (yd_now y) cs n else Scan cs n) (y\<lparr>yd_claims := t\<rparr>))"
proof (rule yard_ok_claims [OF ok])
  fix v row e
  assume "v \<noteq> w" "claim_holder row (yd_claims y) = Some (v, e)" "yd_now y < e"
  then show "claim_holder row t = Some (v, e)"
    using claims.held_against_acquire(1) [where other = w and r = "(target_lock (cd_target c), r1, r2)" and sha = "de_sha de" and ttl = "lease_length de"] r
    by (metis snd_conv)
next
  have "claim_holder (row_key (de_sha de) (target_lock (cd_target c))) t = Some (w, yd_now y + seconds (lease_length de))" if won
    using claims.acquire_win [where r = "(target_lock (cd_target c), r1, r2)" and sha = "de_sha de" and now = "yd_now y" and me = w
        and ttl = "lease_length de" and s = "yd_claims y"] r that
    by simp
  then show "phase_ok de (y\<lparr>yd_claims := t\<rparr>) w (if won then Hold c (yd_now y) cs n else Scan cs n)"
    using cs by (simp add: lease_held_def)
qed

lemma released_ok:
  assumes "yard_ok de y" "list_all (fits (yd_table y)) cs"
  shows "yard_ok de (at_phase w (Scan cs n) (y\<lparr>yd_claims := claim_release sha x w (yd_claims y)\<rparr>))"
  using assms by (intro yard_ok_claims) (auto intro: claims.held_against_release)

lemma lease_exceeds_budget: "now < b + seconds (de_budget de) \<Longrightarrow> now < b + seconds (lease_length de)"
  by (simp add: lease_length_def seconds_def)

lemma table_place: "(at_phase w p (y\<lparr>yd_table := t\<rparr>))\<lparr>yd_table := u\<rparr> = at_phase w p (y\<lparr>yd_table := u\<rparr>)"
  by (cases y) (simp add: at_phase_def)

lemma claim_move_ok:
  assumes ok: "yard_ok de y" and m: "yard_move de (Claim_It w reply ops) y = Some y'"
  shows "yard_ok de y'"
proof -
  from m obtain c b cs n where ph: "yd_phase y w = Free c b cs n" by (auto split: phase.splits)
  have cs: "list_all (fits (yd_table y)) cs" using yard_okD(4) [OF ok, of w] ph by simp
  show ?thesis
  proof (cases "b + seconds (de_budget de) \<le> yd_now y")
    case True
    with m ph cs show ?thesis by (auto intro!: yard_ok_place [OF ok] split: if_splits)
  next
    case False
    let ?others = "run (sql_queue_step (de_center de)) ops"
    let ?r = "sql_claim_command (de_center de) reply ?others (yd_now y) (cd_id c) w (lease_length de) (yd_table y)"
    define p where "p = (case fst ?r of Inl _ \<Rightarrow> Let_Go (cd_target c) [] n | Inr None \<Rightarrow> Let_Go (cd_target c) cs n | Inr (Some d) \<Rightarrow> Own d b cs n)"
    have "yard_ok de (at_phase w p (y\<lparr>yd_table := snd ?r\<rparr>))"
      by (rule yard_ok_claimed [OF ok ph _ refl]) (use False lease_exceeds_budget in \<open>auto simp: p_def split: sum.split option.split\<close>)
    moreover have ops: "list_all (\<lambda>(_, _, op). by_operator op) ops" using m ph by (auto split: if_splits)
    ultimately have "yard_ok de ((at_phase w p (y\<lparr>yd_table := snd ?r\<rparr>))\<lparr>yd_table := ?others (snd ?r)\<rparr>)"
      by (intro yard_ok_calmer) (simp_all add: calmer_run)
    moreover have "y' = at_phase w p (y\<lparr>yd_table := ?others (snd ?r)\<rparr>)"
      using m ph False ops by (simp add: Let_def case_prod_beta p_def)
    ultimately show ?thesis by (simp add: table_place)
  qed
qed

lemma yard_ok_noted:
  assumes "yard_ok de y" "list_all (fits (yd_table y)) cs"
  shows "yard_ok de (at_phase w (Exec c cs n) (y\<lparr>yd_entered := e\<rparr>))"
  using assms by (auto simp: yard_ok_def phase_ok_cong [of "at_phase w (Exec c cs n) (y\<lparr>yd_entered := e\<rparr>)" y])

lemma reported_ok:
  assumes "yard_ok de y" "list_all (fits (yd_table y)) cs"
  shows "yard_ok de (at_phase w (Let_Go x cs n) (y\<lparr>yd_table := snd (sql_queue_step ce (reply, peek, ending now v c r) (yd_table y))\<rparr>))"
proof -
  have calm: "calmer (yd_table y) (snd (sql_queue_step ce (reply, peek, ending now v c r) (yd_table y)))"
    by (rule calmer_step) (rule ending_claims)
  with assms(2) show ?thesis
    by (intro yard_ok_place yard_ok_calmer [OF assms(1)]) (auto simp: calmer_def list_all_iff)
qed

lemma yard_ok_move:
  assumes ok: "yard_ok de y" and m: "yard_move de mv y = Some y'"
  shows "yard_ok de y'"
proof (cases mv)
  case (Pass_Time n)
  with m show ?thesis by (auto intro!: yard_ok_time [OF ok] split: if_splits)
next
  case (Operator_Call reply peek op)
  with m show ?thesis by (auto intro!: yard_ok_calmer [OF ok] calmer_step by_operator_claims split: if_splits)
next
  case (Begin_Drain w)
  with m show ?thesis by (auto intro!: yard_ok_place [OF ok] eligible_fits yard_okD(1,2) [OF ok] split: if_splits)
next
  case (Next_Candidate w can_claim r1 r2)
  with m yard_okD(4) [OF ok, of w] show ?thesis
    by (auto simp: Let_def simp del: claim_acquire.simps
        intro!: yard_ok_place [OF ok] acquired_ok [OF ok _, where won = True, simplified] acquired_ok [OF ok _, where won = False, simplified]
        split: phase.splits list.splits if_splits prod.splits)
next
  case (Look_Target w can_claim)
  with m yard_okD(4) [OF ok, of w] show ?thesis
    by (auto simp: clear_until_def intro!: yard_ok_place [OF ok] split: phase.splits if_splits)
next
  case (Claim_It w reply ops)
  with m show ?thesis by (blast intro: claim_move_ok [OF ok])
next
  case (Prepare_It w failed)
  with m yard_okD(4) [OF ok, of w] show ?thesis
    by (auto intro!: yard_ok_place [OF ok] yard_ok_noted [OF ok] split: phase.splits if_splits option.splits)
next
  case (End_It w r)
  with m yard_okD(4) [OF ok, of w] show ?thesis
    by (auto intro!: yard_ok_place [OF ok] split: phase.splits report.splits)
next
  case (Report_It w reply peek stop)
  with m yard_okD(4) [OF ok, of w] show ?thesis
    by (auto simp: Let_def simp del: sql_queue_step.simps intro!: reported_ok [OF ok] split: phase.splits)
next
  case (Release_It w reply)
  with m yard_okD(4) [OF ok, of w] show ?thesis
    by (auto simp del: claim_release.simps intro!: released_ok [OF ok] split: phase.splits)
qed

section \<open>What was entered\<close>

text \<open>A command that a worker claimed and whose execution it has not entered.\<close>

fun pending :: "phase \<Rightarrow> string option" where
  "pending (Own c _ _ _) = Some (cd_id c)"
| "pending (Tell c (Unexecuted_Report _) _ _) = Some (cd_id c)"
| "pending _ = None"

definition accounted :: "command \<Rightarrow> bool" where
  "accounted c \<longleftrightarrow> cd_state c \<in> {Cmd_Running, Cmd_Completed, Cmd_Interrupted} \<or> cd_state c = Cmd_Failed \<and> cd_reconciled_by c \<noteq> []"

definition on_record :: "command_table \<Rightarrow> string \<Rightarrow> bool" where
  "on_record t i \<longleftrightarrow> (\<exists>c. map_of t i = Some c \<and> accounted c)"

definition entry_ok :: "yard \<Rightarrow> bool" where
  "entry_ok y \<longleftrightarrow>
     distinct (yd_entered y) \<and> (\<forall>i\<in>set (yd_entered y). on_record (yd_table y) i)
     \<and> (\<forall>w i. pending (yd_phase y w) = Some i \<longrightarrow> on_record (yd_table y) i \<and> i \<notin> set (yd_entered y))
     \<and> (\<forall>v w i. pending (yd_phase y v) = Some i \<longrightarrow> pending (yd_phase y w) = Some i \<longrightarrow> v = w)"

fun fails :: "queue_op \<Rightarrow> string option" where
  "fails (Op_Finish _ i _ Cmd_Failed _ _) = Some i"
| "fails _ = None"

lemma change_row_at:
  "map_of (snd (change_row reply i cond f t)) i = Some d \<Longrightarrow> map_of t i = Some c \<Longrightarrow> d = c \<or> cond c \<and> d = f c"
  by (auto simp: change_row_def db_execute_def split: option.splits db_reply.splits if_splits)

lemma change_row_from:
  assumes "map_of (snd (change_row reply j cond f t)) i = Some d" "map_of t i = Some c"
  shows "d = c \<or> i = j \<and> cond c \<and> d = f c"
  using assms change_row_at [of reply i cond f t d c] by (cases "i = j") (auto simp: change_row_other)

lemma failed_by:
  assumes "map_of t i = Some c" "cd_state c = Cmd_Running"
    "map_of (snd (sql_queue_step ce (reply, peek, op) t)) i = Some d" "cd_state d = Cmd_Failed"
  shows "fails op = Some i"
  using assms
  by (cases op)
    (auto simp: sql_enqueue_command_def sql_claim_command_def sql_finish_command_def sql_interrupt_command_def claimed_by_def
      sql_reconcile_command_def sql_expire_commands_def db_execute_def Let_def case_prod_beta map_of_mapped expired_command_def
      dest!: change_row_from split: option.splits db_reply.splits sum.splits if_splits)

lemma on_record_step:
  assumes "on_record t i" "fails op \<noteq> Some i"
  shows "on_record (snd (sql_queue_step ce (reply, peek, op) t)) i"
proof -
  obtain c where c: "map_of t i = Some c" "accounted c" using assms(1) by (auto simp: on_record_def)
  obtain d where d: "map_of (snd (sql_queue_step ce (reply, peek, op) t)) i = Some d" "moves c d"
    using table_moves_kept [OF sql_step_moves c(1)] by blast
  have "accounted d"
    using d(2) c(2) failed_by [OF c(1) _ d(1)] assms(2) by (cases rule: moves.cases) (auto simp: accounted_def)
  with d(1) show ?thesis by (auto simp: on_record_def)
qed

lemma on_record_started: "on_record t i \<Longrightarrow> started t i"
  by (auto simp: on_record_def started_def accounted_def)

lemma entry_okD:
  assumes "entry_ok y"
  shows "distinct (yd_entered y)" "i \<in> set (yd_entered y) \<Longrightarrow> on_record (yd_table y) i"
    "pending (yd_phase y w) = Some i \<Longrightarrow> on_record (yd_table y) i"
    "pending (yd_phase y w) = Some i \<Longrightarrow> i \<notin> set (yd_entered y)"
    "pending (yd_phase y v) = Some i \<Longrightarrow> pending (yd_phase y w) = Some i \<Longrightarrow> v = w"
  using assms unfolding entry_ok_def by blast+

lemma entry_ok_table:
  assumes "entry_ok y" "\<And>i. on_record (yd_table y) i \<Longrightarrow> i \<in> set (yd_entered y) \<or> (\<exists>w. pending (yd_phase y w) = Some i) \<Longrightarrow> on_record t i"
  shows "entry_ok (y\<lparr>yd_table := t\<rparr>)"
  using assms(2) entry_okD [OF assms(1)] by (simp add: entry_ok_def) blast

lemma entry_ok_place:
  assumes "entry_ok y" "\<And>i. pending p = Some i \<Longrightarrow> pending (yd_phase y w) = Some i"
  shows "entry_ok (at_phase w p y)"
  using entry_okD [OF assms(1)] assms(2) by (simp add: entry_ok_def) metis

lemma entry_ok_other:
  "entry_ok y \<Longrightarrow> entry_ok (y\<lparr>yd_claims := t\<rparr>)" "entry_ok y \<Longrightarrow> entry_ok (y\<lparr>yd_now := n\<rparr>)"
  by (simp_all add: entry_ok_def)

lemma entry_ok_op:
  assumes "entry_ok y" "\<And>i. fails op = Some i \<Longrightarrow> i \<notin> set (yd_entered y)"
    "\<And>i w. fails op = Some i \<Longrightarrow> pending (yd_phase y w) \<noteq> Some i"
  shows "entry_ok (y\<lparr>yd_table := snd (sql_queue_step ce (reply, peek, op) (yd_table y))\<rparr>)"
  by (rule entry_ok_table [OF assms(1)], rule on_record_step) (use assms(2,3) in blast)+

lemma by_operator_fails: "by_operator op \<Longrightarrow> fails op = None"
  by (cases op) simp_all

lemma entry_ok_run:
  "entry_ok y \<Longrightarrow> list_all (\<lambda>(_, _, op). by_operator op) ops \<Longrightarrow> entry_ok (y\<lparr>yd_table := run (sql_queue_step ce) ops (yd_table y)\<rparr>)"
proof (induction ops arbitrary: y)
  case (Cons x ops)
  obtain reply peek op where x: "x = (reply, peek, op)" by (cases x) auto
  have "entry_ok (y\<lparr>yd_table := snd (sql_queue_step ce x (yd_table y))\<rparr>)"
    unfolding x using Cons.prems x by (intro entry_ok_op) (simp_all add: by_operator_fails)
  from Cons.IH [OF this] Cons.prems(2) show ?case by simp
qed simp

lemma claim_answer:
  assumes "fst (sql_claim_command ce reply peek now i w n t) = Inr (Some d)" "keyed (peek (snd (sql_claim_command ce reply peek now i w n t)))"
  shows "cd_id d = i" "\<not> started t i" "started (snd (sql_claim_command ce reply peek now i w n t)) i"
proof -
  have r: "claim_won (reply, peek, Op_Claim now i w n) (fst (sql_queue_step ce (reply, peek, Op_Claim now i w n) t)) = Some i"
    using assms(1) by (auto simp: said_def maybe_command_def split: prod.split)
  from claim_wonD [OF r] show "\<not> started t i" "started (snd (sql_claim_command ce reply peek now i w n t)) i" by simp_all
  show "cd_id d = i"
    using assms by (auto simp: sql_claim_command_def Let_def case_prod_beta keyed_def split: option.splits if_splits)
qed

lemma claimed_on_record:
  assumes "fst (sql_claim_command ce reply peek now i w n t) = Inr (Some d)"
  shows "on_record (snd (sql_claim_command ce reply peek now i w n t)) i"
proof -
  let ?u = "change_row reply i (\<lambda>c. cd_state c = Cmd_Queued) (claimed_by w now n) t"
  have "fst ?u = Inr 1" "snd (sql_claim_command ce reply peek now i w n t) = snd ?u"
    using assms by (auto simp: sql_claim_command_def Let_def case_prod_beta split: if_splits option.splits)
  then show ?thesis
    by (auto simp: change_row_def db_execute_def claimed_by_def on_record_def accounted_def split: option.splits db_reply.splits if_splits)
qed

lemma entry_ok_won:
  assumes "entry_ok y" "keyed (yd_table y)" "\<And>t. keyed t \<Longrightarrow> keyed (peek t)"
    and r: "sql_claim_command ce reply peek now i w n (yd_table y) = (Inr (Some d), t)"
  shows "entry_ok (at_phase w (Own d b cs m) (y\<lparr>yd_table := t\<rparr>))"
proof -
  have st: "t = snd (sql_queue_step ce (reply, peek, Op_Claim now i w n) (yd_table y))" using r by simp
  have "keyed t" unfolding st by (rule table_moves_keyed [OF sql_step_moves assms(2)])
  then have ans: "cd_id d = i" "\<not> started (yd_table y) i" "on_record t i"
    using claim_answer [of ce reply peek now i w n "yd_table y" d] claimed_on_record [of ce reply peek now i w n "yd_table y" d] r assms(3)
    by simp_all
  have e: "entry_ok (y\<lparr>yd_table := t\<rparr>)" unfolding st by (rule entry_ok_op [OF assms(1)]) simp_all
  have "i \<notin> set (yd_entered y)" "pending (yd_phase y v) \<noteq> Some i" for v
    using ans(2) entry_okD(2,3) [OF assms(1)] on_record_started by blast+
  with ans e show ?thesis unfolding entry_ok_def by auto
qed

lemma entry_ok_entered:
  assumes "entry_ok y" "yd_phase y w = Own c b cs n"
  shows "entry_ok (at_phase w (Exec c cs n) (y\<lparr>yd_entered := yd_entered y @ [cd_id c]\<rparr>))"
proof -
  have p: "pending (yd_phase y w) = Some (cd_id c)" using assms(2) by simp
  have "v = w" if "pending (yd_phase y v) = Some (cd_id c)" for v using entry_okD(5) [OF assms(1) that p] .
  with entry_okD [OF assms(1)] p show ?thesis unfolding entry_ok_def by auto
qed

lemma place_swap: "(at_phase w p y)\<lparr>yd_table := t\<rparr> = at_phase w p (y\<lparr>yd_table := t\<rparr>)"
  by (cases y) (simp add: at_phase_def)

lemma keyed_others: "keyed t \<Longrightarrow> keyed (run (sql_queue_step ce) ops t)"
proof (induction ops arbitrary: t)
  case (Cons x ops)
  have "keyed (snd (sql_queue_step ce x t))" by (rule table_moves_keyed [OF sql_step_moves Cons.prems])
  from Cons.IH [OF this] show ?case by simp
qed simp

lemma entry_ok_claim:
  assumes "entry_ok y" "keyed (yd_table y)" "yd_phase y w = Free c b cs n"
    and r: "sql_claim_command ce reply (run (sql_queue_step ce) ops) now (cd_id c) w k (yd_table y) = (a, t)"
  shows "entry_ok (at_phase w (case a of Inl _ \<Rightarrow> Let_Go x [] n | Inr None \<Rightarrow> Let_Go x cs n | Inr (Some d) \<Rightarrow> Own d b cs n) (y\<lparr>yd_table := t\<rparr>))"
proof (cases "\<exists>d. a = Inr (Some d)")
  case True
  with entry_ok_won [OF assms(1,2) keyed_others] r show ?thesis by auto
next
  case False
  have "entry_ok (y\<lparr>yd_table := snd (sql_queue_step ce (reply, run (sql_queue_step ce) ops, Op_Claim now (cd_id c) w k) (yd_table y))\<rparr>)"
    by (rule entry_ok_op [OF assms(1)]) simp_all
  then have "entry_ok (y\<lparr>yd_table := t\<rparr>)" using r by simp
  then show ?thesis using False by (auto intro!: entry_ok_place split: sum.split option.split)
qed

lemma entry_ok_report:
  assumes "entry_ok y" "yd_phase y w = Tell c r cs n"
  shows "entry_ok (at_phase w (Let_Go x cs' n') (y\<lparr>yd_table := snd (sql_queue_step ce (reply, peek, ending now v c r) (yd_table y))\<rparr>))"
proof -
  have "entry_ok (at_phase w (Let_Go x cs' n') y)" by (rule entry_ok_place [OF assms(1)]) simp
  moreover have "i \<notin> set (yd_entered y)" "pending (yd_phase (at_phase w (Let_Go x cs' n') y) u) \<noteq> Some i"
    if f: "fails (ending now v c r) = Some i" for i u
  proof -
    obtain why where r: "r = Unexecuted_Report why" "i = cd_id c" using f by (cases r) simp_all
    then have p: "pending (yd_phase y w) = Some i" using assms(2) by simp
    show "i \<notin> set (yd_entered y)" by (rule entry_okD(4) [OF assms(1) p])
    show "pending (yd_phase (at_phase w (Let_Go x cs' n') y) u) \<noteq> Some i"
      using entry_okD(5) [OF assms(1) _ p, of u] by auto
  qed
  ultimately have "entry_ok ((at_phase w (Let_Go x cs' n') y)\<lparr>yd_table :=
      snd (sql_queue_step ce (reply, peek, ending now v c r) (yd_table (at_phase w (Let_Go x cs' n') y)))\<rparr>)"
    by (intro entry_ok_op) simp_all
  then show ?thesis by (simp add: place_swap del: sql_queue_step.simps)
qed

lemma entry_ok_move:
  assumes ok: "entry_ok y" and k: "keyed (yd_table y)" and m: "yard_move de mv y = Some y'"
  shows "entry_ok y'"
proof (cases mv)
  case (Operator_Call reply peek op)
  with m show ?thesis by (auto simp: by_operator_fails intro!: entry_ok_op [OF ok] split: if_splits)
next
  case (Next_Candidate w can_claim r1 r2)
  with m show ?thesis
    by (auto simp: Let_def case_prod_beta intro!: entry_ok_place [OF ok] entry_ok_place [OF entry_ok_other(1) [OF ok]]
        split: phase.splits list.splits if_splits)
next
  case (Claim_It w reply ops)
  with m obtain c b cs n where ph: "yd_phase y w = Free c b cs n" by (auto split: phase.splits)
  let ?r = "sql_claim_command (de_center de) reply (run (sql_queue_step (de_center de)) ops) (yd_now y) (cd_id c) w (lease_length de) (yd_table y)"
  obtain a t where r: "?r = (a, t)" by (cases ?r)
  note cl = entry_ok_claim [OF ok k ph r, of "cd_target c"]
  show ?thesis
  proof (cases "b + seconds (de_budget de) \<le> yd_now y")
    case True
    with m Claim_It ph show ?thesis by (auto intro!: entry_ok_place [OF ok] split: if_splits)
  next
    case False
    with m Claim_It ph r have ops: "list_all (\<lambda>(_, _, op). by_operator op) ops" by (auto split: if_splits)
    from entry_ok_run [OF cl ops, of "de_center de"] m Claim_It ph r False ops show ?thesis by (simp add: place_swap)
  qed
next
  case (Prepare_It w failed)
  with m show ?thesis
    by (auto intro!: entry_ok_place [OF ok] entry_ok_entered [OF ok] split: phase.splits if_splits option.splits)
next
  case (Report_It w reply peek stop)
  with m show ?thesis
    by (auto simp: Let_def simp del: sql_queue_step.simps intro!: entry_ok_report [OF ok] split: phase.splits)
next
  case (Release_It w reply)
  with m show ?thesis
    by (auto simp del: claim_release.simps intro!: entry_ok_place [OF entry_ok_other(1) [OF ok]] split: phase.splits)
qed (use m in \<open>auto intro!: entry_ok_place [OF ok] entry_ok_other [OF ok] split: phase.splits if_splits report.splits\<close>)

section \<open>Properties\<close>

lemma yard_reach_ok: "yard_reach de y \<Longrightarrow> yard_ok de y \<and> entry_ok y"
proof (induction rule: yard_reach.induct)
  case Start
  show ?case by (auto simp: yard_ok_def entry_ok_def new_yard_def dict_wf_def keyed_def single_def)
next
  case (Move y m y')
  then show ?case using yard_ok_move entry_ok_move yard_okD(2) by blast
qed


text \<open>
  C32. Workers enter the execution of a command at most once, and a command whose execution
  was entered is afterwards running, completed or interrupted, or an operator reconciled it.
\<close>

theorem execution_entered_once:
  assumes "yard_reach de y"
  shows "distinct (yd_entered y)
    \<and> (\<forall>i\<in>set (yd_entered y). \<exists>c. map_of (yd_table y) i = Some c
         \<and> (cd_state c \<in> {Cmd_Running, Cmd_Completed, Cmd_Interrupted} \<or> cd_state c = Cmd_Failed \<and> cd_reconciled_by c \<noteq> []))"
  using yard_reach_ok [OF assms] by (auto simp: entry_ok_def on_record_def accounted_def)


text \<open>Two workers, a cluster of statements, and an operator: the first command is entered and interrupted.\<close>

fun yard_moves :: "drain_env \<Rightarrow> move list \<Rightarrow> yard \<Rightarrow> yard option" where
  "yard_moves de [] y = Some y"
| "yard_moves de (m # ms) y = (case yard_move de m y of None \<Rightarrow> None | Some y' \<Rightarrow> yard_moves de ms y')"

lemma yard_moves_reach: "yard_reach de y \<Longrightarrow> yard_moves de ms y = Some y' \<Longrightarrow> yard_reach de y'"
  by (induction ms arbitrary: y) (auto intro: yard_reach.Move split: option.splits)

definition example_drain :: drain_env where
  "example_drain = \<lparr>de_center = example_env, de_sha = (\<lambda>s. s), de_budget = 90, de_limit = 1\<rparr>"

definition example_moves :: "move list" where
  "example_moves =
     [Operator_Call Db_Replied id (Op_Enqueue (example_command ''a'' ''x'')),
      Operator_Call Db_Replied id (Op_Enqueue (example_command ''b'' ''x'')),
      Begin_Drain ''v'', Begin_Drain ''w'',
      Next_Candidate ''v'' True Db_Replied Db_Replied, Next_Candidate ''w'' True Db_Replied Db_Replied,
      Look_Target ''v'' True, Claim_It ''v'' Db_Replied [], Prepare_It ''v'' None,
      End_It ''v'' (Uncertain_Report ''lost'' []), Report_It ''v'' Db_Replied id False, Release_It ''v'' Db_Replied]"

definition example_yard :: yard where
  "example_yard = (case yard_moves example_drain example_moves new_yard of Some y \<Rightarrow> y | None \<Rightarrow> new_yard)"

lemma example_yard_reached: "yard_reach example_drain example_yard"
  unfolding example_yard_def
  by (auto intro: yard_moves_reach yard_reach.Start split: option.split)

lemma example_yard_table:
  "map (\<lambda>(i, c). (i, cd_state c, cd_target c)) (yd_table example_yard) = [(''a'', Cmd_Interrupted, ''x''), (''b'', Cmd_Queued, ''x'')]
   \<and> yd_entered example_yard = [''a'']"
  by code_simp


theorem execution_entered_once_witness:
  "yd_entered example_yard = [''a''] \<and> distinct (yd_entered example_yard)"
  using execution_entered_once [OF example_yard_reached] example_yard_table by blast

end
