(* ===== verification/Streams.thy ===== *)
theory Streams
  imports Monitor_Work
begin

text \<open>
  Stream intake of \<^verbatim>\<open>src/src/triage/monitoring/engine.py\<close>, with the records of
  \<^verbatim>\<open>monitoring/models.py\<close>, \<^verbatim>\<open>monitoring/events.py\<close> and \<^verbatim>\<open>monitoring/records.py\<close>:
  ownership of broker partitions by compare and exchange, the pinned start of a stream, the
  receipts of its events with the journal of broker positions, and the checkpoint that moves
  over positions that are all on file. An operation is a transaction of the worker; what the
  registry answers during a call is part of the call. Free texts are left out, and with them
  their redaction.
\<close>

section \<open>Records\<close>

text \<open>A broker partition of one consumer group (\<open>PartitionIdentity\<close>).\<close>

record shard =
  sh_connector :: string
  sh_group :: string
  sh_partition :: string

record broker_position =
  bp_offset :: string
  bp_sequence :: int
  bp_enqueued :: instant

record delivery =
  dv_connector :: string
  dv_source :: string
  dv_event :: string

datatype quarantine_reason =
    Q_Malformed | Q_Oversized | Q_Wrong_Tenant | Q_Unknown_Connector | Q_Unsupported
  | Q_Out_Of_Scope | Q_Before_Cutoff | Q_Ambiguous | Q_Unverified

record endpoint =
  en_namespace :: string
  en_entity :: string
  en_group :: string

record transport =
  tp_request :: string
  tp_ownership :: string
  tp_policy :: int
  tp_place :: "string \<times> string \<times> string"
  tp_endpoint :: endpoint
  tp_definition :: string
  tp_source :: string
  tp_collector :: string
  tp_verified :: instant

text \<open>A receipt is accepted when it has no quarantine disposition.\<close>

record signal =
  sg_delivery :: delivery
  sg_shard :: shard
  sg_position :: broker_position
  sg_received :: instant
  sg_type :: "string option"
  sg_observation :: "observation option"
  sg_quarantine :: "quarantine_reason option"
  sg_transport :: "transport option"

definition taken :: "signal \<Rightarrow> bool" where
  "taken r \<longleftrightarrow> sg_quarantine r = None"

definition valid_signal :: "signal \<Rightarrow> bool" where
  "valid_signal r \<longleftrightarrow>
     dv_connector (sg_delivery r) = sh_connector (sg_shard r)
     \<and> (taken r \<longrightarrow> sg_observation r \<noteq> None)
     \<and> pred_option (\<lambda>t. en_group (tp_endpoint t) = sh_group (sg_shard r) \<and> tp_verified t \<le> sg_received r) (sg_transport r)"

record lost_signal =
  lo_shard :: shard
  lo_position :: broker_position
  lo_received :: instant
  lo_reason :: quarantine_reason

text \<open>\<open>PositionJournal\<close>: what a broker sequence number was bound to.\<close>

datatype journal_key = Identified delivery | Unidentified

type_synonym journal_entry = "broker_position \<times> journal_key"

record ownership =
  ow_lease :: "Monitor_Leases.lease option"
  ow_version :: int
  ow_modified :: instant

datatype stream_gap = Gap_Unobserved int | Gap_Retention int int | Gap_Regressed | Gap_More int

record stream_start =
  ss_first :: int
  ss_recorded :: instant
  ss_gaps :: "stream_gap list"

record checkpoint =
  ck_position :: broker_position
  ck_revision :: int
  ck_updated :: instant

record beat =
  be_connector :: "string option"
  be_worker :: string
  be_observed :: instant
  be_state :: string
  be_delivery :: "instant option"
  be_maintenance :: "instant option"

section \<open>The registry during a call\<close>

datatype connector_state = Conn_Planned | Conn_Provisioning | Conn_Ready | Conn_Degraded | Conn_Blocked | Conn_Deleting | Conn_Deleted

record connector_source =
  cs_id :: string
  cs_target :: target
  cs_events :: "string list"
  cs_event_source :: "string option"

text \<open>\<open>cn_removals\<close> are the pending removals: the physical source, where there is one, and the target.\<close>

record connector =
  cn_id :: string
  cn_ownership :: string
  cn_revision :: int
  cn_policy :: int
  cn_place :: "string \<times> string \<times> string"
  cn_sources :: "connector_source list"
  cn_removals :: "(string option \<times> target) list"
  cn_endpoint :: "endpoint option"
  cn_definition :: string
  cn_state :: connector_state

record desired_state =
  de_supersession :: "string option"
  de_published :: instant

text \<open>A publication or observation of a connector in its receipts.\<close>

record connector_receipt =
  cr_request :: string
  cr_publication :: bool
  cr_connector :: connector
  cr_superseded :: "(string option \<times> target) list"

record event_capability =
  ec_read :: bool
  ec_event :: bool
  ec_expires :: instant
  ec_checked :: instant
  ec_collector :: string

text \<open>
  \<open>rg_anchor\<close> and \<open>rg_history\<close> are \<open>None\<close> where a stored text is unreadable; completions of
  collections are no part of the history.
\<close>

record registry =
  rg_now :: instant
  rg_maintenance :: bool
  rg_revision :: int
  rg_connector :: "string \<Rightarrow> connector option"
  rg_target :: "target \<Rightarrow> bool"
  rg_action :: "execution \<Rightarrow> bool"
  rg_desired :: "string \<Rightarrow> desired_state option"
  rg_anchor :: "string \<Rightarrow> connector_receipt option option"
  rg_history :: "string \<Rightarrow> connector_receipt list option"
  rg_capability :: "target \<Rightarrow> event_capability option"

section \<open>State\<close>

record batch =
  ba_id :: string
  ba_shard :: shard
  ba_lease :: "Monitor_Leases.lease"
  ba_receipts :: "signal list"

record lost_batch =
  lb_id :: string
  lb_lease :: "Monitor_Leases.lease"
  lb_receipt :: lost_signal

record advance =
  ad_id :: string
  ad_shard :: shard
  ad_lease :: "Monitor_Leases.lease"
  ad_revision :: int
  ad_through :: broker_position

datatype stream_content = Of_Batch batch | Of_Lost lost_batch | Of_Advance advance | Of_Beat beat

datatype stream_operation = Op_Intake | Op_Checkpoint | Op_Beat

datatype stream_reply =
    Intake_Reply string "(shard \<times> int \<times> journal_key) list" | Checkpoint_Reply checkpoint | Beat_Reply beat
  | Owner_Reply "ownership option" | Token_Reply "Monitor_Leases.lease option" | Start_Reply stream_start

record stream_store =
  st_leases :: "shard leases"
  st_ownership :: "(shard, ownership) dict"
  st_starts :: "(shard, stream_start) dict"
  st_checkpoints :: "(shard, checkpoint) dict"
  st_positions :: "(shard \<times> int, journal_entry) dict"
  st_signals :: "(delivery, signal) dict"
  st_lost :: "(shard \<times> int, lost_signal) dict"
  st_handoffs :: "(string, string) dict"
  st_beats :: "(string \<times> string, beat) dict"
  st_receipts :: "(stream_operation \<times> string, string \<times> stream_reply) dict"

definition empty_stream :: stream_store where
  "empty_stream = \<lparr>st_leases = [], st_ownership = [], st_starts = [], st_checkpoints = [], st_positions = [], st_signals = [],
     st_lost = [], st_handoffs = [], st_beats = [], st_receipts = []\<rparr>"

type_synonym 'a stream_txn = "stream_store \<Rightarrow> fault + 'a \<times> stream_store"

text \<open>\<open>_idempotent\<close>: \<open>dig\<close> is the digest of a request.\<close>

definition once :: "(stream_content \<Rightarrow> string) \<Rightarrow> stream_operation \<Rightarrow> string \<Rightarrow> stream_content \<Rightarrow> stream_reply stream_txn \<Rightarrow> stream_reply stream_txn" where
  "once dig op i c body s =
     (case map_of (st_receipts s) (op, i) of
        Some (fp, r) \<Rightarrow> if fp \<noteq> dig c then Inl Mon_Conflict else Inr (r, s)
      | None \<Rightarrow> bnd body (\<lambda>r. bnd (change (\<lambda>s. s\<lparr>st_receipts := AList.update (op, i) (dig c, r) (st_receipts s)\<rparr>)) (\<lambda>_. ret r)) s)"

section \<open>Ownership of partitions\<close>

definition receiving_connector :: "registry \<Rightarrow> shard \<Rightarrow> fault + connector" where
  "receiving_connector v p =
     (if rg_maintenance v then Inl Mon_Conflict
      else case rg_connector v (sh_connector p) of
        None \<Rightarrow> Inl Mon_Conflict
      | Some c \<Rightarrow>
          if cn_endpoint c = None \<or> cn_state c \<notin> {Conn_Ready, Conn_Degraded}
             \<or> map_option en_group (cn_endpoint c) \<noteq> Some (sh_group p) then Inl Mon_Conflict
          else Inr c)"

definition save_ownership :: "registry \<Rightarrow> shard \<Rightarrow> Monitor_Leases.lease option \<Rightarrow> ownership stream_txn" where
  "save_ownership v p l s =
     (let o' = \<lparr>ow_lease = l, ow_version = (case map_of (st_ownership s) p of None \<Rightarrow> 1 | Some q \<Rightarrow> ow_version q + 1),
                ow_modified = rg_now v\<rparr>
      in Inr (o', s\<lparr>st_ownership := AList.update p o' (st_ownership s)\<rparr>))"

definition shard_ownership :: "shard \<Rightarrow> stream_store \<Rightarrow> fault + ownership option" where
  "shard_ownership p s =
     (case map_of (st_ownership s) p of
        None \<Rightarrow> Inr None
      | Some q \<Rightarrow> if ow_lease q \<noteq> None \<and> map_of (st_leases s) p \<noteq> ow_lease q then Inl Mon_Unavailable else Inr (Some q))"

datatype ownership_change = Claim_Shard string int | Release_Shard "Monitor_Leases.lease"

definition put_leases :: "shard leases \<Rightarrow> unit stream_txn" where
  "put_leases ls = change (\<lambda>s. s\<lparr>st_leases := ls\<rparr>)"

text \<open>
  \<open>_change_partition_ownership\<close>: the version of the ownership is its ETag. An owner whose
  lease still lasts renews it; any other claim burns a fence.
\<close>

definition release_shard :: "registry \<Rightarrow> shard \<Rightarrow> Monitor_Leases.lease \<Rightarrow> ownership option \<Rightarrow> ownership option stream_txn" where
  "release_shard v p l q s =
     (case Option.bind q ow_lease of
        None \<Rightarrow> Inr (None, s)
      | Some cur \<Rightarrow>
          if (ls_owner cur, ls_fence cur) \<noteq> (ls_owner l, ls_fence l) then Inr (None, s)
          else case exchange_lease (rg_now v) p (map_of (st_leases s) p) None 0 (st_leases s) of
            Inl e \<Rightarrow> Inl e
          | Inr (_, ls) \<Rightarrow> bnd (put_leases ls) (\<lambda>_. bnd (save_ownership v p None) (\<lambda>o'. ret (Some o'))) s)"

definition claimed_lease :: "registry \<Rightarrow> shard \<Rightarrow> string \<Rightarrow> int \<Rightarrow> ownership option \<Rightarrow> shard leases \<Rightarrow> fault + Monitor_Leases.lease option \<times> shard leases" where
  "claimed_lease v p who secs q ls =
     (case Option.bind q ow_lease of
        Some l \<Rightarrow>
          if ls_owner l = who \<and> rg_now v < ls_expires l
          then (case renew_lease (rg_now v) p (ls_owner l) (ls_fence l) secs ls of Inl e \<Rightarrow> Inl e | Inr (l', ls') \<Rightarrow> Inr (Some l', ls'))
          else exchange_lease (rg_now v) p (map_of ls p) (Some who) secs ls
      | None \<Rightarrow> exchange_lease (rg_now v) p (map_of ls p) (Some who) secs ls)"

definition claim_shard :: "registry \<Rightarrow> shard \<Rightarrow> string \<Rightarrow> int \<Rightarrow> ownership option \<Rightarrow> ownership option stream_txn" where
  "claim_shard v p who secs q s =
     (case receiving_connector v p of
        Inl e \<Rightarrow> Inl e
      | Inr _ \<Rightarrow>
          if q = None \<and> map_of (st_leases s) p \<noteq> None then Inl Mon_Unavailable
          else case claimed_lease v p who secs q (st_leases s) of
            Inl e \<Rightarrow> Inl e
          | Inr (None, _) \<Rightarrow> Inl Mon_Unavailable
          | Inr (Some l, ls) \<Rightarrow> bnd (put_leases ls) (\<lambda>_. bnd (save_ownership v p (Some l)) (\<lambda>o'. ret (Some o'))) s)"

definition change_ownership :: "registry \<Rightarrow> shard \<Rightarrow> int option \<Rightarrow> ownership_change \<Rightarrow> ownership option stream_txn" where
  "change_ownership v p etag ch =
     bnd (ask (shard_ownership p)) (\<lambda>q.
     if etag \<noteq> map_option ow_version q then ret None
     else case ch of Release_Shard l \<Rightarrow> release_shard v p l q | Claim_Shard who secs \<Rightarrow> claim_shard v p who secs q)"

text \<open>\<open>claim_partition\<close>: never over a lease of another that still lasts.\<close>

definition claim_partition :: "registry \<Rightarrow> shard \<Rightarrow> string \<Rightarrow> int \<Rightarrow> Monitor_Leases.lease option stream_txn" where
  "claim_partition v p who secs =
     bnd (ask (\<lambda>_. receiving_connector v p)) (\<lambda>_.
     bnd (ask (shard_ownership p)) (\<lambda>q.
     if pred_option (\<lambda>l. ls_owner l = who \<or> ls_expires l \<le> rg_now v) (Option.bind q ow_lease)
     then bnd (change_ownership v p (map_option ow_version q) (Claim_Shard who secs)) (\<lambda>q'. ret (Option.bind q' ow_lease))
     else ret None))"

definition renew_shard :: "registry \<Rightarrow> shard \<Rightarrow> Monitor_Leases.lease \<Rightarrow> int \<Rightarrow> Monitor_Leases.lease stream_txn" where
  "renew_shard v p l secs s =
     (case Option.bind (map_of (st_ownership s) p) ow_lease of
        None \<Rightarrow> Inl Lease_Lost
      | Some cur \<Rightarrow>
          if (ls_owner cur, ls_fence cur) \<noteq> (ls_owner l, ls_fence l) then Inl Lease_Lost
          else case renew_lease (rg_now v) p (ls_owner l) (ls_fence l) secs (st_leases s) of
            Inl e \<Rightarrow> Inl e
          | Inr (l', ls) \<Rightarrow> bnd (put_leases ls) (\<lambda>_. bnd (save_ownership v p (Some l')) (\<lambda>_. ret l')) s)"

definition owned_shard :: "registry \<Rightarrow> shard \<Rightarrow> Monitor_Leases.lease \<Rightarrow> unit stream_txn" where
  "owned_shard v p l =
     bnd (ask (shard_ownership p)) (\<lambda>q.
     demand (\<lambda>_. case Option.bind q ow_lease of
                   None \<Rightarrow> False
                 | Some cur \<Rightarrow> rg_now v < ls_expires cur \<and> (ls_owner cur, ls_fence cur) = (ls_owner l, ls_fence l)) Lease_Lost)"

section \<open>The start of a stream\<close>

definition bounded_gaps :: "stream_gap list \<Rightarrow> stream_gap list" where
  "bounded_gaps gs = (if length gs \<le> 200 then gs else take 199 gs @ [Gap_More (int (length gs) - 199)])"

definition new_gap :: "int \<Rightarrow> int \<Rightarrow> stream_start \<Rightarrow> stream_gap option" where
  "new_gap available expected st =
     (if expected < available then Some (Gap_Retention available expected)
      else if available < ss_first st then Some Gap_Regressed else None)"

definition with_gap :: "int \<Rightarrow> int \<Rightarrow> stream_start \<Rightarrow> stream_start" where
  "with_gap available expected st =
     (case new_gap available expected st of
        None \<Rightarrow> st
      | Some g \<Rightarrow> if g \<in> set (ss_gaps st) then st else st\<lparr>ss_gaps := bounded_gaps (ss_gaps st @ [g])\<rparr>)"

definition put_start :: "shard \<Rightarrow> stream_start \<Rightarrow> stream_start stream_txn" where
  "put_start p st = bnd (change (\<lambda>s. s\<lparr>st_starts := AList.update p st (st_starts s)\<rparr>)) (\<lambda>_. ret st)"

definition ensure_start :: "registry \<Rightarrow> shard \<Rightarrow> Monitor_Leases.lease \<Rightarrow> int \<Rightarrow> instant \<Rightarrow> stream_start stream_txn" where
  "ensure_start v p l available seen =
     bnd (ask (\<lambda>_. receiving_connector v p)) (\<lambda>_.
     bnd (owned_shard v p l) (\<lambda>_.
     bnd (demand (\<lambda>_. seen \<le> rg_now v) Mon_Conflict) (\<lambda>_.
     bnd (ask (\<lambda>s. Inr (map_of (st_starts s) p, map_of (st_checkpoints s) p))) (\<lambda>(cur, ck).
     case cur of
       None \<Rightarrow>
         bnd (demand (\<lambda>_. ck = None) Mon_Unavailable) (\<lambda>_.
         put_start p \<lparr>ss_first = available, ss_recorded = rg_now v, ss_gaps = [Gap_Unobserved available]\<rparr>)
     | Some st \<Rightarrow>
         let expected = (case ck of None \<Rightarrow> ss_first st | Some c \<Rightarrow> bp_sequence (ck_position c) + 1);
             st' = with_gap available expected st
         in if st' = st then ret st else put_start p st'))))"

section \<open>Intake\<close>

text \<open>The position of a receipt is bound once, at or after the start of the stream.\<close>

definition at_start :: "shard \<Rightarrow> broker_position \<Rightarrow> stream_store \<Rightarrow> fault + stream_start" where
  "at_start p at s =
     (case map_of (st_starts s) p of
        None \<Rightarrow> Inl Mon_Conflict
      | Some st \<Rightarrow> if bp_sequence at < ss_first st then Inl Mon_Conflict else Inr st)"

definition record_position :: "shard \<Rightarrow> broker_position \<Rightarrow> journal_key \<Rightarrow> unit stream_txn" where
  "record_position p at k =
     bnd (ask (at_start p at)) (\<lambda>_ s.
     case map_of (st_positions s) (p, bp_sequence at) of
       Some e \<Rightarrow> if e \<noteq> (at, k) then Inl Mon_Conflict else Inr ((), s)
     | None \<Rightarrow> Inr ((), s\<lparr>st_positions := AList.update (p, bp_sequence at) (at, k) (st_positions s)\<rparr>))"

text \<open>
  \<open>_require_restored_source_intake\<close>: events of a source whose removal was superseded are
  taken only with new capability and delivery evidence.
\<close>

definition superseded_source :: "connector_source \<Rightarrow> connector_receipt \<Rightarrow> bool" where
  "superseded_source src h \<longleftrightarrow> cr_publication h \<and> (Some (cs_id src), cs_target src) \<in> set (cr_superseded h)"

definition fresh_evidence :: "registry \<Rightarrow> desired_state \<Rightarrow> connector_source \<Rightarrow> signal \<Rightarrow> bool" where
  "fresh_evidence v d src r \<longleftrightarrow>
     (case (rg_capability v (cs_target src), sg_transport r) of
        (Some cap, Some t) \<Rightarrow>
          rg_target v (cs_target src) \<and> ec_read cap \<and> ec_event cap \<and> rg_now v < ec_expires cap
          \<and> de_published d \<le> ec_checked cap \<and> ec_checked cap \<le> rg_now v
          \<and> tp_source t = cs_id src \<and> tp_collector t = ec_collector cap
          \<and> de_published d \<le> tp_verified t \<and> tp_verified t \<le> sg_received r \<and> sg_received r \<le> rg_now v
          \<and> de_published d \<le> bp_enqueued (sg_position r) \<and> bp_enqueued (sg_position r) \<le> sg_received r
      | _ \<Rightarrow> False)"

definition source_of :: "target \<Rightarrow> connector \<Rightarrow> connector_source option" where
  "source_of t c = find (\<lambda>src. cs_target src = t) (cn_sources c)"

definition complete_history :: "connector_receipt \<Rightarrow> connector \<Rightarrow> connector_receipt list \<Rightarrow> bool" where
  "complete_history p c hs \<longleftrightarrow>
     (let revs = map (\<lambda>h. cn_revision (cr_connector h)) hs
      in int (length revs) = cn_revision c - cn_revision (cr_connector p) + 1
         \<and> set revs = {cn_revision (cr_connector p) .. cn_revision c}
         \<and> list_ex (\<lambda>h. cr_publication h \<and> h = p) hs)"

definition restored_since :: "connector_receipt \<Rightarrow> connector \<Rightarrow> connector_receipt list \<Rightarrow> fault + connector_receipt list" where
  "restored_since p c hs =
     (let within = filter (\<lambda>h. cn_revision (cr_connector p) \<le> cn_revision (cr_connector h) \<and> cn_revision (cr_connector h) \<le> cn_revision c) hs
      in if list_ex (\<lambda>h. cn_id (cr_connector h) \<noteq> cn_id c \<or> cn_ownership (cr_connector h) \<noteq> cn_ownership c) within
            \<or> \<not> complete_history p c within then Inl Mon_Unavailable
         else Inr within)"

definition restored_intake :: "registry \<Rightarrow> connector \<Rightarrow> target \<Rightarrow> signal \<Rightarrow> fault option" where
  "restored_intake v c t r =
     (case rg_desired v (cn_id c) of
        None \<Rightarrow> None
      | Some d \<Rightarrow>
          (case de_supersession d of
             None \<Rightarrow> None
           | Some i \<Rightarrow>
               (case (Option.bind (rg_anchor v i) id, rg_history v (cn_id c)) of
                  (Some p, Some hs) \<Rightarrow>
                    if cn_id (cr_connector p) \<noteq> cn_id c \<or> cn_ownership (cr_connector p) \<noteq> cn_ownership c \<or> cr_superseded p = []
                    then Some Mon_Unavailable
                    else (case restored_since p c hs of
                            Inl e \<Rightarrow> Some e
                          | Inr within \<Rightarrow>
                              (case source_of t c of
                                 None \<Rightarrow> None
                               | Some src \<Rightarrow>
                                   if list_ex (superseded_source src) within \<and> \<not> fresh_evidence v d src r
                                   then Some Mon_Conflict else None))
                | _ \<Rightarrow> Some Mon_Unavailable)))"

definition wire_type :: "string \<Rightarrow> string option" where
  "wire_type w =
     map_of (concat (map (\<lambda>n. [(''Microsoft.Fabric.'' @ n, ''Microsoft.Fabric.JobEvents.'' @ n),
                               (''Microsoft.Fabric.JobEvents.'' @ n, ''Microsoft.Fabric.JobEvents.'' @ n)])
       [''ItemJobCreated'', ''ItemJobStatusChanged'', ''ItemJobSucceeded'', ''ItemJobFailed''])) w"

definition subscribed :: "string option \<Rightarrow> connector_source \<Rightarrow> bool" where
  "subscribed ty src \<longleftrightarrow>
     (case ty of None \<Rightarrow> False
      | Some n \<Rightarrow> n \<in> set (cs_events src) \<or> (case wire_type n of None \<Rightarrow> False | Some m \<Rightarrow> m \<in> set (cs_events src)))"

definition transport_fits :: "registry \<Rightarrow> connector \<Rightarrow> connector_source option \<Rightarrow> transport \<Rightarrow> bool" where
  "transport_fits v c src t \<longleftrightarrow>
     tp_ownership t = cn_ownership c \<and> tp_policy t = cn_policy c \<and> cn_policy c = rg_revision v
     \<and> tp_place t = cn_place c \<and> Some (tp_endpoint t) = cn_endpoint c \<and> tp_definition t = cn_definition c
     \<and> map_option cs_id src = Some (tp_source t)"

definition refusal_reason :: "registry \<Rightarrow> connector_source option \<Rightarrow> observation \<Rightarrow> signal \<Rightarrow> quarantine_reason option" where
  "refusal_reason v src ob r =
     (case src of
        None \<Rightarrow> Some Q_Unverified
      | Some x \<Rightarrow>
          if cs_event_source x \<noteq> Some (dv_source (sg_delivery r)) then Some Q_Unverified
          else if \<not> subscribed (sg_type r) x then Some Q_Unsupported
          else if \<not> rg_target v (ex_target (ob_execution ob)) \<and> \<not> rg_action v (ob_execution ob) then Some Q_Out_Of_Scope
          else if tg_workload (ex_target (ob_execution ob)) = Power_BI \<and> ex_kind (ob_execution ob) \<noteq> Powerbi_Request then Some Q_Ambiguous
          else None)"

text \<open>What a receipt is stored as, under the connector as it is now.\<close>

definition adjudicate :: "registry \<Rightarrow> connector \<Rightarrow> signal \<Rightarrow> fault + signal" where
  "adjudicate v c r =
     (if \<not> taken r then Inr r
      else case sg_observation r of
        None \<Rightarrow> Inl Mon_Conflict
      | Some ob \<Rightarrow>
          let t = ex_target (ob_execution ob); src = source_of t c
          in if list_ex (\<lambda>(_, u). u = t) (cn_removals c) then Inr (r\<lparr>sg_quarantine := Some Q_Out_Of_Scope\<rparr>)
             else case restored_intake v c t r of
               Some e \<Rightarrow> Inl e
             | None \<Rightarrow>
                 if \<not> pred_option (transport_fits v c src) (sg_transport r) then Inl Mon_Conflict
                 else Inr (r\<lparr>sg_quarantine := refusal_reason v src ob r\<rparr>))"

text \<open>The first receipt of an event is kept; another source execution under its name is refused.\<close>

definition store_signal :: "signal \<Rightarrow> unit stream_txn" where
  "store_signal r s =
     (case map_of (st_signals s) (sg_delivery r) of
        None \<Rightarrow> Inr ((), s\<lparr>st_signals := AList.update (sg_delivery r) r (st_signals s)\<rparr>)
      | Some q \<Rightarrow>
          (case (sg_observation q, sg_observation r) of
             (Some a, Some b) \<Rightarrow> if ob_execution a \<noteq> ob_execution b then Inl Mon_Conflict else Inr ((), s)
           | _ \<Rightarrow> Inr ((), s)))"

definition record_receipt :: "registry \<Rightarrow> connector \<Rightarrow> shard \<Rightarrow> signal \<Rightarrow> unit stream_txn" where
  "record_receipt v c p r =
     bnd (ask (at_start p (sg_position r))) (\<lambda>_.
     bnd (ask (\<lambda>_. adjudicate v c r)) (\<lambda>a.
     bnd (store_signal a) (\<lambda>_.
     record_position p (sg_position r) (Identified (sg_delivery r)))))"

fun record_receipts :: "registry \<Rightarrow> connector \<Rightarrow> shard \<Rightarrow> signal list \<Rightarrow> unit stream_txn" where
  "record_receipts v c p [] = ret ()"
| "record_receipts v c p (r # rs) = bnd (record_receipt v c p r) (\<lambda>_. record_receipts v c p rs)"

text \<open>The handoff to the controller's reconciliation, once for each request.\<close>

definition hand_off :: "string \<Rightarrow> string \<Rightarrow> unit stream_txn" where
  "hand_off i fp s =
     (case map_of (st_handoffs s) i of
        Some fp' \<Rightarrow> if fp' \<noteq> fp then Inl Mon_Conflict else Inr ((), s)
      | None \<Rightarrow> Inr ((), s\<lparr>st_handoffs := AList.update i fp (st_handoffs s)\<rparr>))"

definition intake_connector :: "registry \<Rightarrow> shard \<Rightarrow> fault + connector" where
  "intake_connector v p =
     (case rg_connector v (sh_connector p) of
        None \<Rightarrow> Inl Mon_Conflict
      | Some c \<Rightarrow> if cn_endpoint c = None \<or> cn_state c \<notin> {Conn_Ready, Conn_Degraded} then Inl Mon_Conflict else Inr c)"

definition take_batch :: "string \<Rightarrow> registry \<Rightarrow> batch \<Rightarrow> stream_reply stream_txn" where
  "take_batch fp v b =
     bnd (demand (\<lambda>_. \<not> rg_maintenance v) Mon_Conflict) (\<lambda>_.
     bnd (owned_shard v (ba_shard b) (ba_lease b)) (\<lambda>_.
     bnd (ask (\<lambda>_. intake_connector v (ba_shard b))) (\<lambda>c.
     bnd (record_receipts v c (ba_shard b) (ba_receipts b)) (\<lambda>_.
     bnd (hand_off (ba_id b) fp) (\<lambda>_.
     ret (Intake_Reply (ba_id b) (map (\<lambda>r. (ba_shard b, bp_sequence (sg_position r), Identified (sg_delivery r))) (ba_receipts b))))))))"

definition record_batch :: "(stream_content \<Rightarrow> string) \<Rightarrow> registry \<Rightarrow> batch \<Rightarrow> stream_reply stream_txn" where
  "record_batch dig v b = once dig Op_Intake (ba_id b) (Of_Batch b) (take_batch (dig (Of_Batch b)) v b)"

text \<open>A position without a trustworthy identity is kept as quarantine evidence of its own.\<close>

definition store_lost :: "lost_signal \<Rightarrow> unit stream_txn" where
  "store_lost r s =
     (let k = (lo_shard r, bp_sequence (lo_position r))
      in case map_of (st_lost s) k of
           None \<Rightarrow> Inr ((), s\<lparr>st_lost := AList.update k r (st_lost s)\<rparr>)
         | Some q \<Rightarrow> if q\<lparr>lo_received := lo_received r\<rparr> \<noteq> r then Inl Mon_Conflict else Inr ((), s))"

definition take_lost :: "string \<Rightarrow> registry \<Rightarrow> lost_batch \<Rightarrow> stream_reply stream_txn" where
  "take_lost fp v b =
     (let r = lb_receipt b; p = lo_shard r
      in bnd (ask (\<lambda>_. receiving_connector v p)) (\<lambda>_.
         bnd (owned_shard v p (lb_lease b)) (\<lambda>_.
         bnd (ask (at_start p (lo_position r))) (\<lambda>_.
         bnd (store_lost r) (\<lambda>_.
         bnd (record_position p (lo_position r) Unidentified) (\<lambda>_.
         bnd (hand_off (lb_id b) fp) (\<lambda>_.
         ret (Intake_Reply (lb_id b) [(p, bp_sequence (lo_position r), Unidentified)]))))))))"

definition record_lost :: "(stream_content \<Rightarrow> string) \<Rightarrow> registry \<Rightarrow> lost_batch \<Rightarrow> stream_reply stream_txn" where
  "record_lost dig v b = once dig Op_Intake (lb_id b) (Of_Lost b) (take_lost (dig (Of_Lost b)) v b)"

section \<open>Checkpoints\<close>

definition positions_between :: "shard \<Rightarrow> int \<Rightarrow> int \<Rightarrow> stream_store \<Rightarrow> nat" where
  "positions_between p a b s = length (filter (\<lambda>((q, n), _). q = p \<and> a \<le> n \<and> n \<le> b) (st_positions s))"

definition checkpoint_allowed :: "advance \<Rightarrow> checkpoint option \<Rightarrow> stream_start \<Rightarrow> stream_store \<Rightarrow> bool" where
  "checkpoint_allowed a prior st s \<longleftrightarrow>
     (let b = (case prior of None \<Rightarrow> ss_first st | Some c \<Rightarrow> bp_sequence (ck_position c) + 1);
          e = bp_sequence (ad_through a)
      in b \<le> e \<and> int (positions_between (ad_shard a) b e s) = e - b + 1
         \<and> map_option fst (map_of (st_positions s) (ad_shard a, e)) = Some (ad_through a))"

definition move_checkpoint :: "registry \<Rightarrow> advance \<Rightarrow> stream_reply stream_txn" where
  "move_checkpoint v a =
     bnd (owned_shard v (ad_shard a) (ad_lease a)) (\<lambda>_.
     bnd (ask (\<lambda>s. Inr (map_of (st_checkpoints s) (ad_shard a)))) (\<lambda>prior.
     bnd (demand (\<lambda>_. (case prior of None \<Rightarrow> 0 | Some c \<Rightarrow> ck_revision c) = ad_revision a) Mon_Conflict) (\<lambda>_.
     bnd (ask (at_start (ad_shard a) (ad_through a))) (\<lambda>st.
     bnd (demand (checkpoint_allowed a prior st) Mon_Conflict) (\<lambda>_.
     let c = \<lparr>ck_position = ad_through a, ck_revision = ad_revision a + 1, ck_updated = rg_now v\<rparr>
     in bnd (change (\<lambda>s. s\<lparr>st_checkpoints := AList.update (ad_shard a) c (st_checkpoints s)\<rparr>)) (\<lambda>_. ret (Checkpoint_Reply c)))))))"

definition advance_checkpoint :: "(stream_content \<Rightarrow> string) \<Rightarrow> registry \<Rightarrow> advance \<Rightarrow> stream_reply stream_txn" where
  "advance_checkpoint dig v a = once dig Op_Checkpoint (ad_id a) (Of_Advance a) (move_checkpoint v a)"

definition record_beat :: "(stream_content \<Rightarrow> string) \<Rightarrow> registry \<Rightarrow> string \<Rightarrow> beat \<Rightarrow> stream_reply stream_txn" where
  "record_beat dig v i h =
     once dig Op_Beat i (Of_Beat h)
       (bnd (demand (\<lambda>_. pred_option (\<lambda>c. rg_connector v c \<noteq> None) (be_connector h)) Mon_Conflict) (\<lambda>_.
        bnd (demand (\<lambda>_. be_observed h \<le> rg_now v \<and> pred_option (\<lambda>t. t \<le> be_observed h) (be_delivery h)
                         \<and> pred_option (\<lambda>t. t \<le> be_observed h) (be_maintenance h)) Mon_Conflict) (\<lambda>_.
        let k = ((case be_connector h of None \<Rightarrow> ''collector'' | Some c \<Rightarrow> c), be_worker h)
        in bnd (demand (\<lambda>s. pred_option (\<lambda>q. be_observed q \<le> be_observed h) (map_of (st_beats s) k)) Mon_Conflict) (\<lambda>_.
           bnd (change (\<lambda>s. s\<lparr>st_beats := AList.update k h (st_beats s)\<rparr>)) (\<lambda>_. ret (Beat_Reply h))))))"

section \<open>Calls\<close>

datatype stream_call =
    Change_Ownership shard "int option" ownership_change
  | Claim_Partition shard string int
  | Renew_Partition shard "Monitor_Leases.lease" int
  | Ensure_Start shard "Monitor_Leases.lease" int instant
  | Record_Batch batch
  | Record_Lost lost_batch
  | Advance_Checkpoint advance
  | Record_Beat string beat

definition lease_seconds_ok :: "int \<Rightarrow> bool" where
  "lease_seconds_ok n \<longleftrightarrow> 15 \<le> n \<and> n \<le> 900"

text \<open>What the constructors of the requests check.\<close>

fun valid_stream_call :: "stream_call \<Rightarrow> bool" where
  "valid_stream_call (Change_Ownership p etag (Claim_Shard who secs)) = lease_seconds_ok secs"
| "valid_stream_call (Change_Ownership p etag (Release_Shard l)) = (etag \<noteq> None)"
| "valid_stream_call (Claim_Partition p who secs) = lease_seconds_ok secs"
| "valid_stream_call (Renew_Partition p l secs) = lease_seconds_ok secs"
| "valid_stream_call (Ensure_Start p l n t) = (0 \<le> n)"
| "valid_stream_call (Record_Batch b) =
     (ba_receipts b \<noteq> [] \<and> length (ba_receipts b) \<le> 200
      \<and> list_all (\<lambda>r. valid_signal r \<and> sg_shard r = ba_shard b \<and> pred_option (\<lambda>t. tp_request t = ba_id b) (sg_transport r)
                      \<and> 0 \<le> bp_sequence (sg_position r)) (ba_receipts b)
      \<and> sorted_wrt (<) (map (\<lambda>r. bp_sequence (sg_position r)) (ba_receipts b)))"
| "valid_stream_call (Record_Lost b) = (0 \<le> bp_sequence (lo_position (lb_receipt b)))"
| "valid_stream_call (Advance_Checkpoint a) = (0 \<le> bp_sequence (ad_through a) \<and> 0 \<le> ad_revision a)"
| "valid_stream_call (Record_Beat i h) = (be_connector h = None \<longrightarrow> be_delivery h = None)"

definition as_reply :: "('a \<Rightarrow> stream_reply) \<Rightarrow> 'a stream_txn \<Rightarrow> stream_reply stream_txn" where
  "as_reply f t = bnd t (\<lambda>x. ret (f x))"

fun perform_stream :: "(stream_content \<Rightarrow> string) \<Rightarrow> registry \<Rightarrow> stream_call \<Rightarrow> stream_reply stream_txn" where
  "perform_stream dig v (Change_Ownership p etag ch) = as_reply Owner_Reply (change_ownership v p etag ch)"
| "perform_stream dig v (Claim_Partition p who secs) = as_reply Token_Reply (claim_partition v p who secs)"
| "perform_stream dig v (Renew_Partition p l secs) = as_reply (\<lambda>l. Token_Reply (Some l)) (renew_shard v p l secs)"
| "perform_stream dig v (Ensure_Start p l n t) = as_reply Start_Reply (ensure_start v p l n t)"
| "perform_stream dig v (Record_Batch b) = record_batch dig v b"
| "perform_stream dig v (Record_Lost b) = record_lost dig v b"
| "perform_stream dig v (Advance_Checkpoint a) = advance_checkpoint dig v a"
| "perform_stream dig v (Record_Beat i h) = record_beat dig v i h"

text \<open>A fault rolls the transaction back; an invalid request is never built.\<close>

definition stream_step :: "(stream_content \<Rightarrow> string) \<Rightarrow> registry \<times> stream_call \<Rightarrow> stream_store \<Rightarrow> (fault + stream_reply) \<times> stream_store" where
  "stream_step dig x s =
     (if \<not> valid_stream_call (snd x) then (Inl Mon_Invalid, s)
      else case perform_stream dig (fst x) (snd x) s of Inl e \<Rightarrow> (Inl e, s) | Inr (r, s') \<Rightarrow> (Inr r, s'))"

end
