(* ===== verification/Stream_Facts.thy ===== *)
theory Stream_Facts
  imports Streams Contracts
begin

text \<open>
  What stream intake keeps: a checkpoint covers positions that are all on file, what is on
  file is never changed, a partition that changed hands is lost to its former receiver for
  ever, and only events of admitted sources are accepted.
\<close>

section \<open>Growth\<close>

definition kept_in :: "('k, 'v) dict \<Rightarrow> ('k, 'v) dict \<Rightarrow> bool" where
  "kept_in d d' \<longleftrightarrow> (\<forall>k v. map_of d k = Some v \<longrightarrow> map_of d' k = Some v)"

lemma kept_in_refl [simp]: "kept_in d d"
  by (simp add: kept_in_def)

lemma kept_in_new: "map_of d k = None \<Longrightarrow> kept_in d (AList.update k v d)"
  by (auto simp: kept_in_def)

lemma kept_inD: "kept_in d d' \<Longrightarrow> map_of d k = Some v \<Longrightarrow> map_of d' k = Some v"
  by (simp add: kept_in_def)

lemma kept_in_trans: "kept_in a b \<Longrightarrow> kept_in b c \<Longrightarrow> kept_in a c"
  by (simp add: kept_in_def)

text \<open>Values that may move on.\<close>

definition moved_in :: "('v \<Rightarrow> 'v \<Rightarrow> bool) \<Rightarrow> ('k, 'v) dict \<Rightarrow> ('k, 'v) dict \<Rightarrow> bool" where
  "moved_in R d d' \<longleftrightarrow> (\<forall>k v. map_of d k = Some v \<longrightarrow> (\<exists>v'. map_of d' k = Some v' \<and> R v v'))"

lemma moved_in_refl [simp]: "(\<And>v. R v v) \<Longrightarrow> moved_in R d d"
  by (auto simp: moved_in_def)

lemma moved_in_put:
  "(\<And>v. R v v) \<Longrightarrow> (\<And>v. map_of d k = Some v \<Longrightarrow> R v w) \<Longrightarrow> moved_in R d (AList.update k w d)"
  by (auto simp: moved_in_def)

lemma moved_inD: "moved_in R d d' \<Longrightarrow> map_of d k = Some v \<Longrightarrow> \<exists>v'. map_of d' k = Some v' \<and> R v v'"
  unfolding moved_in_def by blast

lemma moved_in_trans:
  assumes "moved_in R a b" "moved_in R b c" "\<And>x y z. R x y \<Longrightarrow> R y z \<Longrightarrow> R x z"
  shows "moved_in R a c"
  unfolding moved_in_def using moved_inD [OF assms(1)] moved_inD [OF assms(2)] assms(3) by blast

definition later_start :: "stream_start \<Rightarrow> stream_start \<Rightarrow> bool" where
  "later_start a b \<longleftrightarrow> ss_first b = ss_first a"

definition later_checkpoint :: "checkpoint \<Rightarrow> checkpoint \<Rightarrow> bool" where
  "later_checkpoint a b \<longleftrightarrow>
     b = a \<or> bp_sequence (ck_position a) < bp_sequence (ck_position b) \<and> ck_revision a < ck_revision b"

definition later_lease :: "Monitor_Leases.lease \<Rightarrow> Monitor_Leases.lease \<Rightarrow> bool" where
  "later_lease a b \<longleftrightarrow> ls_fence a < ls_fence b \<or> ls_fence a = ls_fence b \<and> ls_owner a = ls_owner b"

lemma later_refl [simp]: "later_start a a" "later_checkpoint b b" "later_lease l l"
  by (simp_all add: later_start_def later_checkpoint_def later_lease_def)

lemma later_trans:
  "later_start a b \<Longrightarrow> later_start b c \<Longrightarrow> later_start a c"
  "later_checkpoint x y \<Longrightarrow> later_checkpoint y z \<Longrightarrow> later_checkpoint x z"
  "later_lease l m \<Longrightarrow> later_lease m n \<Longrightarrow> later_lease l n"
  by (auto simp: later_start_def later_checkpoint_def later_lease_def)

definition grows :: "stream_store \<Rightarrow> stream_store \<Rightarrow> bool" where
  "grows s s' \<longleftrightarrow>
     kept_in (st_positions s) (st_positions s') \<and> kept_in (st_signals s) (st_signals s') \<and> kept_in (st_lost s) (st_lost s')
     \<and> moved_in later_start (st_starts s) (st_starts s')
     \<and> moved_in later_checkpoint (st_checkpoints s) (st_checkpoints s') \<and> moved_in later_lease (st_leases s) (st_leases s')"

lemma grows_refl [simp]: "grows s s"
  by (simp add: grows_def)

lemma grows_trans:
  assumes "grows a b" "grows b c"
  shows "grows a c"
  unfolding grows_def
  using assms [unfolded grows_def] kept_in_trans [of "st_positions a" "st_positions b" "st_positions c"]
    kept_in_trans [of "st_signals a" "st_signals b" "st_signals c"] kept_in_trans [of "st_lost a" "st_lost b" "st_lost c"]
    moved_in_trans [of later_start "st_starts a" "st_starts b" "st_starts c", OF _ _ later_trans(1)]
    moved_in_trans [of later_checkpoint "st_checkpoints a" "st_checkpoints b" "st_checkpoints c", OF _ _ later_trans(2)]
    moved_in_trans [of later_lease "st_leases a" "st_leases b" "st_leases c", OF _ _ later_trans(3)]
  by simp

section \<open>The invariant\<close>

definition bound_to :: "stream_store \<Rightarrow> shard \<times> int \<Rightarrow> journal_entry \<Rightarrow> bool" where
  "bound_to s k e \<longleftrightarrow>
     bp_sequence (fst e) = snd k \<and> (case snd e of Identified d \<Rightarrow> map_of (st_signals s) d \<noteq> None | Unidentified \<Rightarrow> map_of (st_lost s) k \<noteq> None)"

definition all_filed :: "stream_store \<Rightarrow> bool" where
  "all_filed s \<longleftrightarrow> dict_wf (st_positions s) \<and> (\<forall>k e. map_of (st_positions s) k = Some e \<longrightarrow> bound_to s k e)"

definition covers :: "stream_store \<Rightarrow> shard \<Rightarrow> checkpoint \<Rightarrow> bool" where
  "covers s p c \<longleftrightarrow>
     (\<exists>st. map_of (st_starts s) p = Some st \<and> ss_first st \<le> bp_sequence (ck_position c)
        \<and> (\<forall>n. ss_first st \<le> n \<and> n \<le> bp_sequence (ck_position c) \<longrightarrow> map_of (st_positions s) (p, n) \<noteq> None))"

definition all_covered :: "stream_store \<Rightarrow> bool" where
  "all_covered s \<longleftrightarrow> (\<forall>p c. map_of (st_checkpoints s) p = Some c \<longrightarrow> covers s p c)"

definition leased_as_owned :: "stream_store \<Rightarrow> bool" where
  "leased_as_owned s \<longleftrightarrow>
     (\<forall>p q l. map_of (st_ownership s) p = Some q \<longrightarrow> ow_lease q = Some l \<longrightarrow> map_of (st_leases s) p = Some l)
     \<and> (\<forall>p. map_of (st_ownership s) p = None \<longrightarrow> map_of (st_leases s) p = None)"

definition stream_ok :: "stream_store \<Rightarrow> bool" where
  "stream_ok s \<longleftrightarrow> all_filed s \<and> all_covered s \<and> leased_as_owned s"

lemma growsD:
  assumes "grows s s'"
  shows "map_of (st_positions s) k = Some e \<Longrightarrow> map_of (st_positions s') k = Some e"
    "map_of (st_signals s) d = Some r \<Longrightarrow> map_of (st_signals s') d = Some r"
    "map_of (st_lost s) k = Some q \<Longrightarrow> map_of (st_lost s') k = Some q"
    "map_of (st_starts s) p = Some st \<Longrightarrow> \<exists>st'. map_of (st_starts s') p = Some st' \<and> later_start st st'"
    "map_of (st_checkpoints s) p = Some c \<Longrightarrow> \<exists>c'. map_of (st_checkpoints s') p = Some c' \<and> later_checkpoint c c'"
    "map_of (st_leases s) p = Some l \<Longrightarrow> \<exists>l'. map_of (st_leases s') p = Some l' \<and> later_lease l l'"
  using assms kept_inD moved_inD unfolding grows_def by metis+

lemma covers_grows:
  assumes "covers s p c" "grows s s'"
  shows "covers s' p c"
proof -
  from assms(1) obtain st where st: "map_of (st_starts s) p = Some st" "ss_first st \<le> bp_sequence (ck_position c)"
    "\<And>n. ss_first st \<le> n \<Longrightarrow> n \<le> bp_sequence (ck_position c) \<Longrightarrow> map_of (st_positions s) (p, n) \<noteq> None"
    unfolding covers_def by blast
  from growsD(4) [OF assms(2) st(1)] obtain st' where st': "map_of (st_starts s') p = Some st'" "ss_first st' = ss_first st"
    by (auto simp: later_start_def)
  have "map_of (st_positions s') (p, n) \<noteq> None" if "ss_first st \<le> n" "n \<le> bp_sequence (ck_position c)" for n
    using st(3) [OF that] growsD(1) [OF assms(2)] by fastforce
  with st(2) st' show ?thesis unfolding covers_def by auto
qed

lemma all_covered_kept: "all_covered s \<Longrightarrow> grows s s' \<Longrightarrow> st_checkpoints s' = st_checkpoints s \<Longrightarrow> all_covered s'"
  unfolding all_covered_def by (auto intro: covers_grows)

lemma filed_grows: "bound_to s k e \<Longrightarrow> grows s s' \<Longrightarrow> bound_to s' k e"
  by (cases "snd e") (auto simp: bound_to_def dest: growsD(2,3))

lemma all_filed_kept:
  assumes "all_filed s" "grows s s'" "st_positions s' = st_positions s"
  shows "all_filed s'"
  using assms filed_grows [OF _ assms(2)] by (simp add: all_filed_def)

lemma all_filed_new:
  assumes "all_filed s" "grows s s'" "st_positions s' = AList.update k e (st_positions s)" "bound_to s' k e"
  shows "all_filed s'"
  using assms filed_grows [OF _ assms(2)] by (auto simp: all_filed_def)

lemma leased_kept: "leased_as_owned s \<Longrightarrow> st_ownership s' = st_ownership s \<Longrightarrow> st_leases s' = st_leases s \<Longrightarrow> leased_as_owned s'"
  by (simp add: leased_as_owned_def)

section \<open>Every call keeps it\<close>

definition keeping :: "'a stream_txn \<Rightarrow> bool" where
  "keeping t \<longleftrightarrow> (\<forall>s x s'. stream_ok s \<longrightarrow> t s = Inr (x, s') \<longrightarrow> stream_ok s' \<and> grows s s')"

lemma keepingD: "keeping t \<Longrightarrow> stream_ok s \<Longrightarrow> t s = Inr (x, s') \<Longrightarrow> stream_ok s' \<and> grows s s'"
  unfolding keeping_def by blast

lemma keeping_bnd:
  assumes "keeping t" "\<And>x. keeping (f x)"
  shows "keeping (bnd t f)"
  unfolding keeping_def bnd_ok using keepingD [OF assms(1)] keepingD [OF assms(2)] grows_trans by meson

lemma keeping_ret: "keeping (ret x)" and keeping_ask: "keeping (ask f)" and keeping_demand: "keeping (demand P e)"
  by (simp_all add: keeping_def tx_simps)

lemma keeping_if: "keeping t \<Longrightarrow> keeping u \<Longrightarrow> keeping (if b then t else u)"
  by simp

lemma keeping_option: "keeping t \<Longrightarrow> (\<And>y. keeping (f y)) \<Longrightarrow> keeping (case z of None \<Rightarrow> t | Some y \<Rightarrow> f y)"
  by (cases z) simp_all

lemma keeping_pair: "(\<And>a b. keeping (f a b)) \<Longrightarrow> keeping (case z of (a, b) \<Rightarrow> f a b)"
  by (cases z) simp

lemmas keeping_intros = keeping_bnd keeping_ret keeping_ask keeping_demand keeping_if keeping_option keeping_pair

text \<open>A change of fields that the invariant does not read.\<close>

lemma keeping_aside:
  assumes "st_positions s' = st_positions s" "st_signals s' = st_signals s" "st_lost s' = st_lost s"
    "st_starts s' = st_starts s" "st_checkpoints s' = st_checkpoints s" "st_leases s' = st_leases s" "st_ownership s' = st_ownership s"
  shows "stream_ok s \<Longrightarrow> stream_ok s' \<and> grows s s'"
proof -
  assume ok: "stream_ok s"
  have g: "grows s s'" using assms by (simp add: grows_def)
  with ok assms show "stream_ok s' \<and> grows s s'"
    unfolding stream_ok_def by (blast intro: all_filed_kept all_covered_kept leased_kept)
qed

lemma keeping_change:
  assumes "\<And>s. stream_ok s \<Longrightarrow> stream_ok (f s) \<and> grows s (f s)"
  shows "keeping (change f)"
  using assms by (simp add: keeping_def tx_simps)

lemma keeping_once:
  assumes "keeping body"
  shows "keeping (once dig op i c body)"
proof -
  have k: "keeping (bnd body (\<lambda>r. bnd (change (\<lambda>s. s\<lparr>st_receipts := AList.update (op, i) (dig c, r) (st_receipts s)\<rparr>)) (\<lambda>_. ret r)))"
    by (intro keeping_intros assms keeping_change keeping_aside) simp_all
  show ?thesis
    unfolding keeping_def once_def using keepingD [OF k] by (auto split: option.splits if_splits)
qed

lemma keeping_hand_off: "keeping (hand_off i fp)"
  unfolding keeping_def hand_off_def by (auto split: option.splits if_splits intro: keeping_aside [THEN conjunct1] keeping_aside [THEN conjunct2])

lemma keeping_beat: "keeping (record_beat dig v i h)"
  unfolding record_beat_def Let_def by (intro keeping_once keeping_intros keeping_change keeping_aside) simp_all

section \<open>Ownership\<close>

lemma renewed_later:
  "renew_lease now k who f secs ls = Inr (l', ls') \<Longrightarrow> \<exists>l. map_of ls k = Some l \<and> later_lease l l' \<and> ls' = AList.update k l' ls"
  by (auto simp: renew_lease_def Let_def later_lease_def split: option.splits if_splits)

lemma exchanged_later:
  assumes "exchange_lease now k expected who secs ls = Inr (r, ls')"
  obtains l' where "ls' = AList.update k l' ls" "\<And>l. map_of ls k = Some l \<Longrightarrow> later_lease l l'" "\<And>l. r = Some l \<Longrightarrow> l = l'"
  using assms by (auto simp: exchange_lease_def Let_def later_lease_def expired_at_def split: option.splits if_splits)

text \<open>Both writes of an ownership together.\<close>

lemma keeping_owner:
  assumes ok: "stream_ok s" and ls: "ls = AList.update p l (st_leases s)" "\<And>l0. map_of (st_leases s) p = Some l0 \<Longrightarrow> later_lease l0 l"
    and o': "o' = None \<or> o' = Some l"
    and r: "bnd (put_leases ls) (\<lambda>_. bnd (save_ownership v p o') f) s = Inr (x, s')" and f: "\<And>q. f q = ret (g q)"
  shows "stream_ok s' \<and> grows s s'"
proof -
  obtain q where s': "s' = s\<lparr>st_leases := ls, st_ownership := AList.update p q (st_ownership s)\<rparr>" and q: "ow_lease q = o'"
    using r by (auto simp: put_leases_def save_ownership_def Let_def f tx_simps)
  have g: "grows s s'"
    unfolding grows_def s' using ls by (auto intro: moved_in_put)
  have "leased_as_owned s'"
    using ok o' q ls(1) unfolding s' stream_ok_def leased_as_owned_def by auto
  with ok g s' show ?thesis unfolding stream_ok_def by (auto intro: all_filed_kept all_covered_kept)
qed

lemma keeping_release: "keeping (release_shard v p l q)"
  unfolding keeping_def
proof (intro allI impI)
  fix s :: stream_store and x s'
  assume ok: "stream_ok s" and r: "release_shard v p l q s = Inr (x, s')"
  show "stream_ok s' \<and> grows s s'"
  proof (cases "x = None")
    case True
    with ok r show ?thesis
      by (auto simp: release_shard_def tx_simps split: option.splits if_splits sum.splits prod.splits)
  next
    case False
    with r obtain o1 ls where e: "exchange_lease (rg_now v) p (map_of (st_leases s) p) None 0 (st_leases s) = Inr (o1, ls)"
      and w: "bnd (put_leases ls) (\<lambda>_. bnd (save_ownership v p None) (\<lambda>o'. ret (Some o'))) s = Inr (x, s')"
      by (auto simp: release_shard_def split: option.splits if_splits sum.splits prod.splits)
    from exchanged_later [OF e] obtain l' where "ls = AList.update p l' (st_leases s)" "\<And>l. map_of (st_leases s) p = Some l \<Longrightarrow> later_lease l l'"
      by metis
    from keeping_owner [OF ok this _ w refl] show ?thesis by simp
  qed
qed

lemma claimed_later:
  assumes "claimed_lease v p who secs q ls = Inr (Some l', ls')"
  shows "ls' = AList.update p l' ls \<and> (\<forall>l. map_of ls p = Some l \<longrightarrow> later_lease l l')"
proof -
  have x: ?thesis if "exchange_lease (rg_now v) p (map_of ls p) (Some who) secs ls = Inr (Some l', ls')"
    using exchanged_later [OF that] by metis
  have r: ?thesis if "renew_lease (rg_now v) p a b secs ls = Inr (l', ls')" for a b
    using renewed_later [OF that] by auto
  show ?thesis
    using assms x r by (auto simp: claimed_lease_def split: option.splits if_splits sum.splits)
qed

lemma keeping_claim: "keeping (claim_shard v p who secs q)"
  unfolding keeping_def
proof (intro allI impI)
  fix s :: stream_store and x s'
  assume ok: "stream_ok s" and r: "claim_shard v p who secs q s = Inr (x, s')"
  then obtain l ls where c: "claimed_lease v p who secs q (st_leases s) = Inr (Some l, ls)"
    and w: "bnd (put_leases ls) (\<lambda>_. bnd (save_ownership v p (Some l)) (\<lambda>o'. ret (Some o'))) s = Inr (x, s')"
    by (auto simp: claim_shard_def split: option.splits if_splits sum.splits prod.splits)
  from claimed_later [OF c] keeping_owner [OF ok _ _ _ w refl] show "stream_ok s' \<and> grows s s'" by blast
qed

lemma keeping_change_ownership: "keeping (change_ownership v p etag ch)"
  unfolding change_ownership_def
  by (intro keeping_intros) (auto intro: keeping_release keeping_claim split: ownership_change.split)

lemma keeping_claim_partition: "keeping (claim_partition v p who secs)"
  unfolding claim_partition_def by (intro keeping_intros keeping_change_ownership)

lemma keeping_renew: "keeping (renew_shard v p l secs)"
  unfolding keeping_def
proof (intro allI impI)
  fix s :: stream_store and x s'
  assume ok: "stream_ok s" and r: "renew_shard v p l secs s = Inr (x, s')"
  then obtain l' ls where c: "renew_lease (rg_now v) p (ls_owner l) (ls_fence l) secs (st_leases s) = Inr (l', ls)"
    and w: "bnd (put_leases ls) (\<lambda>_. bnd (save_ownership v p (Some l')) (\<lambda>_. ret l')) s = Inr (x, s')"
    by (auto simp: renew_shard_def split: option.splits if_splits sum.splits prod.splits)
  from renewed_later [OF c] keeping_owner [OF ok _ _ _ w] show "stream_ok s' \<and> grows s s'" by fastforce
qed

lemma keeping_owned: "keeping (owned_shard v p l)"
  unfolding owned_shard_def by (intro keeping_intros)

section \<open>Starts and receipts\<close>

lemma with_gap_first [simp]: "ss_first (with_gap a e st) = ss_first st"
  by (simp add: with_gap_def split: option.split)

lemma keeping_put_start:
  assumes "stream_ok s" "\<And>st0. map_of (st_starts s) p = Some st0 \<Longrightarrow> later_start st0 st" "put_start p st s = Inr (x, s')"
  shows "stream_ok s' \<and> grows s s'"
proof -
  have s': "s' = s\<lparr>st_starts := AList.update p st (st_starts s)\<rparr>" using assms(3) by (simp add: put_start_def tx_simps)
  have g: "grows s s'" unfolding grows_def s' using assms(2) by (auto intro: moved_in_put)
  with assms(1) s' show ?thesis unfolding stream_ok_def by (auto intro: all_filed_kept all_covered_kept leased_kept)
qed

lemma keeping_ensure: "keeping (ensure_start v p l n t)"
  unfolding keeping_def
proof (intro allI impI)
  fix s :: stream_store and x s'
  assume ok: "stream_ok s" and r: "ensure_start v p l n t s = Inr (x, s')"
  have owned: "s1 = s" if "owned_shard v p l s = Inr (u, s1)" for u s1
    using that by (auto simp: owned_shard_def tx_simps)
  show "stream_ok s' \<and> grows s s'"
  proof (cases "map_of (st_starts s) p")
    case None
    with r owned have "put_start p \<lparr>ss_first = n, ss_recorded = rg_now v, ss_gaps = [Gap_Unobserved n]\<rparr> s = Inr (x, s')"
      by (auto simp: ensure_start_def tx_simps)
    from keeping_put_start [OF ok _ this] None show ?thesis by simp
  next
    case (Some st)
    let ?st = "with_gap n (case map_of (st_checkpoints s) p of None \<Rightarrow> ss_first st | Some c \<Rightarrow> bp_sequence (ck_position c) + 1) st"
    from Some r owned have "s' = s \<or> put_start p ?st s = Inr (x, s')"
      by (auto simp: ensure_start_def Let_def tx_simps split: if_splits)
    with keeping_put_start [OF ok, of p ?st] Some ok show ?thesis by (auto simp: later_start_def)
  qed
qed

lemma store_signal_run:
  assumes "store_signal r s = Inr (x, s')"
  shows "s' = s \<and> map_of (st_signals s) (sg_delivery r) \<noteq> None
    \<or> map_of (st_signals s) (sg_delivery r) = None \<and> s' = s\<lparr>st_signals := AList.update (sg_delivery r) r (st_signals s)\<rparr>"
  using assms by (auto simp: store_signal_def split: option.splits if_splits)

lemma keeping_store_signal: "keeping (store_signal r)"
  unfolding keeping_def
proof (intro allI impI)
  fix s :: stream_store and x s'
  assume ok: "stream_ok s" and r: "store_signal r s = Inr (x, s')"
  have g: "grows s s'" using store_signal_run [OF r] by (auto simp: grows_def intro: kept_in_new)
  with ok store_signal_run [OF r] show "stream_ok s' \<and> grows s s'"
    unfolding stream_ok_def by (auto intro: all_filed_kept all_covered_kept leased_kept)
qed

lemma keeping_store_lost: "keeping (store_lost r)"
  unfolding keeping_def
proof (intro allI impI)
  fix s :: stream_store and x s'
  assume ok: "stream_ok s" and "store_lost r s = Inr (x, s')"
  then have r: "s' = s \<or> map_of (st_lost s) (lo_shard r, bp_sequence (lo_position r)) = None
      \<and> s' = s\<lparr>st_lost := AList.update (lo_shard r, bp_sequence (lo_position r)) r (st_lost s)\<rparr>"
    by (auto simp: store_lost_def Let_def split: option.splits if_splits)
  have g: "grows s s'" using r by (auto simp: grows_def intro: kept_in_new)
  with ok r show "stream_ok s' \<and> grows s s'"
    unfolding stream_ok_def by (auto intro: all_filed_kept all_covered_kept leased_kept)
qed

text \<open>A position is bound only to what is on file.\<close>

lemma keeping_position:
  assumes ok: "stream_ok s" and r: "record_position p at k s = Inr (x, s')"
    and f: "bound_to s (p, bp_sequence at) (at, k)"
  shows "stream_ok s' \<and> grows s s'"
proof -
  from r have c: "s' = s \<or> map_of (st_positions s) (p, bp_sequence at) = None
      \<and> s' = s\<lparr>st_positions := AList.update (p, bp_sequence at) (at, k) (st_positions s)\<rparr>"
    by (auto simp: record_position_def tx_simps split: option.splits if_splits)
  have g: "grows s s'" using c by (auto simp: grows_def intro: kept_in_new)
  have "all_filed s'"
    using c ok all_filed_new [OF _ g _ filed_grows [OF f g]] by (auto simp: stream_ok_def)
  with ok g c show ?thesis unfolding stream_ok_def by (auto intro: all_covered_kept leased_kept)
qed

lemma adjudicate_same:
  "adjudicate v c r = Inr a \<Longrightarrow> sg_delivery a = sg_delivery r \<and> sg_position a = sg_position r \<and> sg_observation a = sg_observation r"
  by (auto simp: adjudicate_def Let_def split: if_splits option.splits)

lemma keeping_receipt: "keeping (record_receipt v c p r)"
  unfolding keeping_def
proof (intro allI impI)
  fix s :: stream_store and x s'
  assume ok: "stream_ok s" and r: "record_receipt v c p r s = Inr (x, s')"
  then obtain a u s1 where a: "adjudicate v c r = Inr a" and st: "store_signal a s = Inr (u, s1)"
    and ps: "record_position p (sg_position r) (Identified (sg_delivery r)) s1 = Inr (x, s')"
    by (auto simp: record_receipt_def tx_simps)
  from keepingD [OF keeping_store_signal ok st] have s1: "stream_ok s1" "grows s s1" by simp_all
  have "bound_to s1 (p, bp_sequence (sg_position r)) (sg_position r, Identified (sg_delivery r))"
    using store_signal_run [OF st] adjudicate_same [OF a] by (auto simp: bound_to_def)
  from keeping_position [OF s1(1) ps this] s1(2) show "stream_ok s' \<and> grows s s'" by (blast intro: grows_trans)
qed

lemma keeping_receipts: "keeping (record_receipts v c p rs)"
  by (induction rs) (simp_all add: keeping_receipt keeping_intros)

lemma keeping_batch: "keeping (record_batch dig v b)"
  unfolding record_batch_def take_batch_def by (intro keeping_once keeping_intros keeping_owned keeping_receipts keeping_hand_off)

lemma keeping_lost_position: "keeping (bnd (store_lost r) (\<lambda>_. record_position (lo_shard r) (lo_position r) Unidentified))"
  unfolding keeping_def
proof (intro allI impI)
  fix s :: stream_store and x s'
  assume ok: "stream_ok s" and "bnd (store_lost r) (\<lambda>_. record_position (lo_shard r) (lo_position r) Unidentified) s = Inr (x, s')"
  then obtain u s1 where st: "store_lost r s = Inr (u, s1)" and ps: "record_position (lo_shard r) (lo_position r) Unidentified s1 = Inr (x, s')"
    by (auto simp: bnd_ok)
  from keepingD [OF keeping_store_lost ok st] have s1: "stream_ok s1" "grows s s1" by simp_all
  have "bound_to s1 (lo_shard r, bp_sequence (lo_position r)) (lo_position r, Unidentified)"
    using st by (auto simp: bound_to_def store_lost_def Let_def split: option.splits if_splits)
  from keeping_position [OF s1(1) ps this] s1(2) show "stream_ok s' \<and> grows s s'" by (blast intro: grows_trans)
qed

lemma bnd_assoc: "bnd (bnd t f) g = bnd t (\<lambda>x. bnd (f x) g)"
  by (rule ext) (simp add: bnd_def split: sum.split)

lemma keeping_lost: "keeping (record_lost dig v b)"
  unfolding record_lost_def take_lost_def Let_def
  apply (rule keeping_once)
  apply (rule keeping_bnd, rule keeping_ask)
  apply (rule keeping_bnd, rule keeping_owned)
  apply (rule keeping_bnd, rule keeping_ask)
  apply (subst bnd_assoc [symmetric])
  by (intro keeping_bnd keeping_lost_position keeping_hand_off keeping_ret)

section \<open>Checkpoints\<close>

lemma all_positions:
  assumes wf: "dict_wf (st_positions s)" and n: "int (positions_between p a b s) = b - a + 1" and m: "a \<le> m" "m \<le> b"
  shows "map_of (st_positions s) (p, m) \<noteq> None"
proof -
  let ?F = "filter (\<lambda>((q, n), _). q = p \<and> a \<le> n \<and> n \<le> b) (st_positions s)"
  have d: "distinct (map fst ?F)" using wf by (simp add: dict_wf_def distinct_map_filter)
  have inj: "inj_on snd (set (map fst ?F))" by (auto simp: inj_on_def)
  have sub: "snd ` set (map fst ?F) \<subseteq> {a..b}" by auto
  have "card (snd ` set (map fst ?F)) = length ?F"
    using card_image [OF inj] distinct_card [OF d] by simp
  with n m have "card (snd ` set (map fst ?F)) = card {a..b}" by (simp add: positions_between_def)
  with sub have "snd ` set (map fst ?F) = {a..b}" by (simp add: card_subset_eq)
  with m have "m \<in> snd ` set (map fst ?F)" by simp
  then obtain e where "((p, m), e) \<in> set (st_positions s)" by auto
  then show ?thesis by (metis map_of_eq_None_iff option.distinct(1) image_eqI fst_conv)
qed

lemma at_start_ok: "at_start p at s = Inr st \<longleftrightarrow> map_of (st_starts s) p = Some st \<and> ss_first st \<le> bp_sequence at"
  by (auto simp: at_start_def split: option.splits if_splits)

lemma owned_same: "owned_shard v p l s = Inr (u, s1) \<Longrightarrow> s1 = s"
  by (auto simp: owned_shard_def tx_simps)

lemma move_checkpoint_run:
  assumes "move_checkpoint v a s = Inr (x, s')"
  obtains st where "map_of (st_starts s) (ad_shard a) = Some st" "ss_first st \<le> bp_sequence (ad_through a)"
    "(case map_of (st_checkpoints s) (ad_shard a) of None \<Rightarrow> 0 | Some c \<Rightarrow> ck_revision c) = ad_revision a"
    "checkpoint_allowed a (map_of (st_checkpoints s) (ad_shard a)) st s"
    "s' = s\<lparr>st_checkpoints := AList.update (ad_shard a)
        \<lparr>ck_position = ad_through a, ck_revision = ad_revision a + 1, ck_updated = rg_now v\<rparr> (st_checkpoints s)\<rparr>"
proof -
  from assms obtain u s1 where o: "owned_shard v (ad_shard a) (ad_lease a) s = Inr (u, s1)"
    and r: "bnd (ask (\<lambda>s. Inr (map_of (st_checkpoints s) (ad_shard a)))) (\<lambda>prior.
     bnd (demand (\<lambda>_. (case prior of None \<Rightarrow> 0 | Some c \<Rightarrow> ck_revision c) = ad_revision a) Mon_Conflict) (\<lambda>_.
     bnd (ask (at_start (ad_shard a) (ad_through a))) (\<lambda>st.
     bnd (demand (checkpoint_allowed a prior st) Mon_Conflict) (\<lambda>_.
     let c = \<lparr>ck_position = ad_through a, ck_revision = ad_revision a + 1, ck_updated = rg_now v\<rparr>
     in bnd (change (\<lambda>s. s\<lparr>st_checkpoints := AList.update (ad_shard a) c (st_checkpoints s)\<rparr>)) (\<lambda>_. ret (Checkpoint_Reply c)))))) s1 = Inr (x, s')"
    unfolding move_checkpoint_def bnd_ok [where t = "owned_shard v (ad_shard a) (ad_lease a)"] by blast
  from r [unfolded owned_same [OF o]] show thesis
    by (auto simp: Let_def tx_simps at_start_ok intro: that)
qed

lemma keeping_move: "keeping (move_checkpoint v a)"
  unfolding keeping_def
proof (intro allI impI)
  let ?p = "ad_shard a"
  let ?c = "\<lparr>ck_position = ad_through a, ck_revision = ad_revision a + 1, ck_updated = rg_now v\<rparr>"
  fix s :: stream_store and x s'
  let ?prior = "map_of (st_checkpoints s) ?p"
  assume ok: "stream_ok s" and r: "move_checkpoint v a s = Inr (x, s')"
  from move_checkpoint_run [OF r] obtain st where st: "map_of (st_starts s) ?p = Some st" "ss_first st \<le> bp_sequence (ad_through a)"
    and rev: "(case ?prior of None \<Rightarrow> 0 | Some c \<Rightarrow> ck_revision c) = ad_revision a"
    and al: "checkpoint_allowed a ?prior st s" and s': "s' = s\<lparr>st_checkpoints := AList.update ?p ?c (st_checkpoints s)\<rparr>"
    by blast
  let ?b = "case ?prior of None \<Rightarrow> ss_first st | Some c \<Rightarrow> bp_sequence (ck_position c) + 1"
  have wf: "dict_wf (st_positions s)" and cov: "all_covered s" using ok by (simp_all add: stream_ok_def all_filed_def)
  have new: "map_of (st_positions s) (?p, n) \<noteq> None" if "?b \<le> n" "n \<le> bp_sequence (ad_through a)" for n
    using all_positions [OF wf _ that] al by (simp add: checkpoint_allowed_def Let_def)
  have old: "map_of (st_positions s) (?p, n) \<noteq> None" if "ss_first st \<le> n" "n < ?b" for n
    using cov st(1) that by (fastforce simp: all_covered_def covers_def split: option.splits)
  have c: "covers s ?p ?c"
    unfolding covers_def
  proof (intro exI conjI allI impI)
    fix n assume n: "ss_first st \<le> n \<and> n \<le> bp_sequence (ck_position ?c)"
    show "map_of (st_positions s) (?p, n) \<noteq> None"
      by (cases "n < ?b") (use n new [of n] old [of n] in simp_all)
  qed (use st in simp_all)
  have "later_checkpoint c0 ?c" if "?prior = Some c0" for c0
    using al rev that by (auto simp: checkpoint_allowed_def Let_def later_checkpoint_def)
  then have g: "grows s s'" unfolding grows_def s' by (auto intro: moved_in_put)
  have "all_covered s'"
    using cov covers_grows [OF _ g] c unfolding s' all_covered_def by auto
  with ok g s' show "stream_ok s' \<and> grows s s'" unfolding stream_ok_def by (auto intro: all_filed_kept leased_kept)
qed

lemma keeping_advance: "keeping (advance_checkpoint dig v a)"
  unfolding advance_checkpoint_def by (rule keeping_once [OF keeping_move])

lemma keeping_call: "keeping (perform_stream dig v x)"
  by (cases x)
    (auto simp: as_reply_def intro: keeping_intros keeping_change_ownership keeping_claim_partition keeping_renew keeping_ensure
      keeping_batch keeping_lost keeping_advance keeping_beat)

lemma stream_step_ok: "stream_ok s \<Longrightarrow> stream_ok (snd (stream_step dig x s)) \<and> grows s (snd (stream_step dig x s))"
  unfolding stream_step_def using keepingD [OF keeping_call] by (auto split: sum.split)

interpretation streams: machine "stream_step dig" stream_ok for dig
  by unfold_locales (simp add: stream_step_ok)

lemma stream_run_grows: "stream_ok s \<Longrightarrow> grows s (run (stream_step dig) xs s)"
proof (induction xs arbitrary: s)
  case (Cons x xs)
  from Cons.IH [of "snd (stream_step dig x s)"] stream_step_ok [OF Cons.prems, of dig x] show ?case by (auto intro: grows_trans)
qed simp

lemma empty_stream_ok: "stream_ok empty_stream"
  by (simp add: stream_ok_def all_filed_def all_covered_def leased_as_owned_def empty_stream_def)

section \<open>Where accepted events come from\<close>

text \<open>What the registry said of an event when it was accepted.\<close>

definition let_in :: "registry \<Rightarrow> string \<Rightarrow> signal \<Rightarrow> bool" where
  "let_in v i r \<longleftrightarrow>
     (\<exists>c src ob. rg_connector v i = Some c \<and> \<not> rg_maintenance v \<and> (cn_state c = Conn_Ready \<or> cn_state c = Conn_Degraded)
        \<and> sg_observation r = Some ob \<and> source_of (ex_target (ob_execution ob)) c = Some src
        \<and> cs_event_source src = Some (dv_source (sg_delivery r)) \<and> subscribed (sg_type r) src
        \<and> (rg_target v (ex_target (ob_execution ob)) \<or> rg_action v (ob_execution ob))
        \<and> \<not> list_ex (\<lambda>(_, u). u = ex_target (ob_execution ob)) (cn_removals c)
        \<and> restored_intake v c (ex_target (ob_execution ob)) r = None)"

text \<open>A run adds at most receipts that are quarantined or admitted under one of the registries.\<close>

definition lets_in :: "registry \<Rightarrow> 'a stream_txn \<Rightarrow> bool" where
  "lets_in v t \<longleftrightarrow>
     (\<forall>s x s' d r. t s = Inr (x, s') \<longrightarrow> map_of (st_signals s') d = Some r \<longrightarrow>
        map_of (st_signals s) d = Some r \<or> sg_delivery r = d \<and> (taken r \<longrightarrow> let_in v (sh_connector (sg_shard r)) r))"

lemma addsD:
  "lets_in v t \<Longrightarrow> t s = Inr (x, s') \<Longrightarrow> map_of (st_signals s') d = Some r \<Longrightarrow>
     map_of (st_signals s) d = Some r \<or> sg_delivery r = d \<and> (taken r \<longrightarrow> let_in v (sh_connector (sg_shard r)) r)"
  unfolding lets_in_def by blast

lemma adds_bnd:
  assumes "lets_in v t" "\<And>x. lets_in v (f x)"
  shows "lets_in v (bnd t f)"
  unfolding lets_in_def bnd_ok using addsD [OF assms(1)] addsD [OF assms(2)] by blast

lemma adds_none: "(\<And>s x s'. t s = Inr (x, s') \<Longrightarrow> st_signals s' = st_signals s) \<Longrightarrow> lets_in v t"
  by (simp add: lets_in_def)

lemma adds_ret: "lets_in v (ret x)" and adds_ask: "lets_in v (ask f)" and adds_demand: "lets_in v (demand P e)"
  by (auto intro: adds_none simp: tx_simps)

lemma adds_owned: "lets_in v (owned_shard w p l)"
  by (rule adds_none) (auto dest: owned_same)

lemma adds_once:
  assumes "lets_in v body"
  shows "lets_in v (once dig op i c body)"
proof -
  have "lets_in v (bnd body (\<lambda>r. bnd (change (\<lambda>s. s\<lparr>st_receipts := AList.update (op, i) (dig c, r) (st_receipts s)\<rparr>)) (\<lambda>_. ret r)))"
    by (intro adds_bnd assms adds_ret adds_none) (simp add: tx_simps)
  then show ?thesis
    unfolding lets_in_def once_def by (auto split: option.splits if_splits)
qed

lemma adjudicated:
  assumes "adjudicate v c r = Inr a" "taken a" "rg_connector v i = Some c" "\<not> rg_maintenance v"
    "cn_state c = Conn_Ready \<or> cn_state c = Conn_Degraded"
  shows "let_in v i a"
proof -
  have acc: "taken r"
    by (rule ccontr) (use assms(1,2) in \<open>simp add: adjudicate_def\<close>)
  then obtain ob where ob: "sg_observation r = Some ob"
    using assms(1) by (auto simp: adjudicate_def split: option.splits)
  let ?t = "ex_target (ob_execution ob)"
  from assms(1) acc ob have k: "(if list_ex (\<lambda>(_, u). u = ?t) (cn_removals c) then Inr (r\<lparr>sg_quarantine := Some Q_Out_Of_Scope\<rparr>)
      else case restored_intake v c ?t r of
             Some e \<Rightarrow> Inl e
           | None \<Rightarrow> if \<not> pred_option (transport_fits v c (source_of ?t c)) (sg_transport r) then Inl Mon_Conflict
                      else Inr (r\<lparr>sg_quarantine := refusal_reason v (source_of ?t c) ob r\<rparr>)) = Inr a"
    by (simp add: adjudicate_def Let_def)
  have nr: "\<not> list_ex (\<lambda>(_, u). u = ?t) (cn_removals c)"
    using k assms(2) by (auto simp: taken_def)
  with k have a0: "a = r\<lparr>sg_quarantine := refusal_reason v (source_of ?t c) ob r\<rparr>"
    by (cases "restored_intake v c ?t r") (auto split: if_splits)
  have rs: "restored_intake v c ?t r = None"
    using k nr by (cases "restored_intake v c ?t r") simp_all
  have "fresh_evidence v d src a = fresh_evidence v d src r" for d src
    by (cases "rg_capability v (cs_target src)"; cases "sg_transport r") (simp_all add: a0 fresh_evidence_def)
  then have "restored_intake v c ?t a = restored_intake v c ?t r" by (simp only: restored_intake_def)
  with rs have ra: "restored_intake v c ?t a = None" by simp
  from a0 assms(2) have q: "refusal_reason v (source_of ?t c) ob r = None" and a: "a = r\<lparr>sg_quarantine := None\<rparr>"
    by (simp_all add: taken_def)
  from q obtain src where src: "source_of (ex_target (ob_execution ob)) c = Some src"
    and f: "cs_event_source src = Some (dv_source (sg_delivery r))" "subscribed (sg_type r) src"
      "rg_target v (ex_target (ob_execution ob)) \<or> rg_action v (ob_execution ob)"
    by (auto simp: refusal_reason_def split: option.splits if_splits)
  with assms(3-5) ob a nr ra show ?thesis
    unfolding let_in_def by (intro exI [of _ c] exI [of _ src] exI [of _ ob]) auto
qed

lemma adjudicate_shard: "adjudicate v c r = Inr a \<Longrightarrow> sg_shard a = sg_shard r"
  by (auto simp: adjudicate_def Let_def split: if_splits option.splits)

lemma adds_receipt:
  assumes "rg_connector v (sh_connector p) = Some c" "\<not> rg_maintenance v" "cn_state c = Conn_Ready \<or> cn_state c = Conn_Degraded"
    and sh: "sg_shard r = p"
  shows "lets_in v (record_receipt v c p r)"
proof -
  have new: "lets_in v (store_signal a)" if "adjudicate v c r = Inr a" for a
    unfolding lets_in_def
  proof (intro allI impI)
    fix s :: stream_store and x s' d q
    assume "store_signal a s = Inr (x, s')" and q: "map_of (st_signals s') d = Some q"
    with store_signal_run have c: "s' = s \<or> s' = s\<lparr>st_signals := AList.update (sg_delivery a) a (st_signals s)\<rparr>" by blast
    have "taken a \<longrightarrow> let_in v (sh_connector (sg_shard a)) a"
      using adjudicated [OF that _ assms(1-3)] adjudicate_shard [OF that] sh by simp
    with c q show "map_of (st_signals s) d = Some q \<or> sg_delivery q = d \<and> (taken q \<longrightarrow> let_in v (sh_connector (sg_shard q)) q)"
      by (auto split: if_splits)
  qed
  have pos: "lets_in v (record_position p at k)" for at k
    by (rule adds_none) (auto simp: record_position_def tx_simps split: option.splits if_splits)
  show ?thesis
    unfolding record_receipt_def lets_in_def bnd_ok ask_ok
    using addsD [OF new] addsD [OF pos] by blast
qed

lemma adds_receipts:
  assumes "rg_connector v (sh_connector p) = Some c" "\<not> rg_maintenance v" "cn_state c = Conn_Ready \<or> cn_state c = Conn_Degraded"
    and "list_all (\<lambda>r. sg_shard r = p) rs"
  shows "lets_in v (record_receipts v c p rs)"
  using assms(4)
proof (induction rs)
  case (Cons r rs)
  then show ?case by (simp add: adds_bnd adds_receipt [OF assms(1-3)])
qed (simp add: adds_ret)

lemma intake_connector_ok:
  "intake_connector v p = Inr c \<Longrightarrow> rg_connector v (sh_connector p) = Some c \<and> (cn_state c = Conn_Ready \<or> cn_state c = Conn_Degraded)"
  by (auto simp: intake_connector_def split: option.splits if_splits)

lemma adds_hand_off: "lets_in v (hand_off i fp)"
  by (rule adds_none) (auto simp: hand_off_def split: option.splits if_splits)

lemma adds_batch:
  assumes "list_all (\<lambda>r. sg_shard r = ba_shard b) (ba_receipts b)"
  shows "lets_in v (record_batch dig v b)"
  unfolding record_batch_def
proof (rule adds_once, unfold lets_in_def, intro allI impI)
  let ?tail = "\<lambda>c. bnd (record_receipts v c (ba_shard b) (ba_receipts b)) (\<lambda>_. bnd (hand_off (ba_id b) (dig (Of_Batch b))) (\<lambda>_.
     ret (Intake_Reply (ba_id b) (map (\<lambda>r. (ba_shard b, bp_sequence (sg_position r), Identified (sg_delivery r))) (ba_receipts b)))))"
  fix s :: stream_store and x s' d r
  assume "take_batch (dig (Of_Batch b)) v b s = Inr (x, s')" and r: "map_of (st_signals s') d = Some r"
  then obtain c where m: "\<not> rg_maintenance v" and c: "intake_connector v (ba_shard b) = Inr c" and t: "?tail c s = Inr (x, s')"
    unfolding take_batch_def bnd_ok [where t = "demand P e" for P e] bnd_ok [where t = "owned_shard w p l" for w p l]
      bnd_ok [where t = "ask f" for f] ask_ok demand_ok
    by (blast dest: owned_same)
  have "lets_in v (?tail c)"
    using intake_connector_ok [OF c] by (intro adds_bnd adds_receipts assms adds_hand_off adds_ret m) simp_all
  from addsD [OF this t r]
  show "map_of (st_signals s) d = Some r \<or> sg_delivery r = d \<and> (taken r \<longrightarrow> let_in v (sh_connector (sg_shard r)) r)" .
qed

lemma adds_if: "lets_in v t \<Longrightarrow> lets_in v u \<Longrightarrow> lets_in v (if b then t else u)"
  by simp

lemma adds_option: "lets_in v t \<Longrightarrow> (\<And>y. lets_in v (f y)) \<Longrightarrow> lets_in v (case z of None \<Rightarrow> t | Some y \<Rightarrow> f y)"
  by (cases z) simp_all

lemma adds_pair: "(\<And>a b. lets_in v (f a b)) \<Longrightarrow> lets_in v (case z of (a, b) \<Rightarrow> f a b)"
  by (cases z) simp

lemmas adds_intros = adds_bnd adds_ret adds_ask adds_demand adds_if adds_option adds_pair adds_owned adds_once adds_hand_off

lemma adds_change: "(\<And>s. st_signals (f s) = st_signals s) \<Longrightarrow> lets_in v (change f)"
  by (rule adds_none) (simp add: tx_simps)

lemma owner_txn_signals:
  "bnd (put_leases ls) (\<lambda>_. bnd (save_ownership w p q) (\<lambda>o'. ret (f o'))) s = Inr (x, s') \<Longrightarrow> st_signals s' = st_signals s"
  by (auto simp: put_leases_def save_ownership_def Let_def tx_simps)

lemma adds_ownership_calls:
  "lets_in v (change_ownership w p etag ch)" "lets_in v (renew_shard w p l secs)" "lets_in v (claim_partition w p who secs)"
proof -
  have r: "lets_in v (release_shard w p l q)" for l q
    by (rule adds_none) (auto simp: release_shard_def dest: owner_txn_signals split: option.splits if_splits sum.splits)
  have c: "lets_in v (claim_shard w p who secs q)" for who secs q
    by (rule adds_none) (auto simp: claim_shard_def dest: owner_txn_signals split: option.splits if_splits sum.splits)
  show ch: "lets_in v (change_ownership w p etag ch)" for etag ch
    unfolding change_ownership_def by (cases ch) (auto intro!: adds_intros r c)
  show "lets_in v (renew_shard w p l secs)"
    by (rule adds_none) (auto simp: renew_shard_def dest: owner_txn_signals split: option.splits if_splits sum.splits)
  show "lets_in v (claim_partition w p who secs)"
    unfolding claim_partition_def by (intro adds_intros ch)
qed

lemma adds_start: "lets_in v (ensure_start w p l n t)"
  unfolding ensure_start_def put_start_def Let_def by (intro adds_intros adds_change) simp_all

lemma adds_lost: "lets_in v (record_lost dig w b)"
proof -
  have "lets_in v (store_lost r)" for r
    by (rule adds_none) (auto simp: store_lost_def Let_def split: option.splits if_splits)
  moreover have "lets_in v (record_position p at k)" for p at k
    by (rule adds_none) (auto simp: record_position_def tx_simps split: option.splits if_splits)
  ultimately show ?thesis
    unfolding record_lost_def take_lost_def Let_def by (intro adds_intros)
qed

lemma adds_advance: "lets_in v (advance_checkpoint dig w a)"
  unfolding advance_checkpoint_def move_checkpoint_def Let_def by (intro adds_intros adds_change) simp_all

lemma adds_beat: "lets_in v (record_beat dig w i h)"
  unfolding record_beat_def Let_def by (intro adds_intros adds_change) simp_all

lemma adds_call:
  assumes "valid_stream_call x"
  shows "lets_in v (perform_stream dig v x)"
proof (cases x)
  case (Record_Batch b)
  have "list_all (\<lambda>r. sg_shard r = ba_shard b) (ba_receipts b)"
    using assms unfolding Record_Batch by (simp add: list_all_iff)
  with Record_Batch show ?thesis by (simp add: adds_batch)
qed (simp_all add: as_reply_def adds_bnd adds_ret adds_ownership_calls adds_start adds_lost adds_advance adds_beat)

lemma stored_was_admitted:
  assumes "map_of (st_signals (run (stream_step dig) xs s)) d = Some r"
  shows "map_of (st_signals s) d = Some r
    \<or> sg_delivery r = d \<and> (taken r \<longrightarrow> (\<exists>v \<in> fst ` set xs. let_in v (sh_connector (sg_shard r)) r))"
  using assms
proof (induction xs arbitrary: s)
  case (Cons x xs)
  have "map_of (st_signals s) d = Some r \<or> sg_delivery r = d \<and> (taken r \<longrightarrow> let_in (fst x) (sh_connector (sg_shard r)) r)"
    if "map_of (st_signals (snd (stream_step dig x s))) d = Some r"
  proof (cases "valid_stream_call (snd x)")
    case True
    show ?thesis
    proof (cases "perform_stream dig (fst x) (snd x) s")
      case (Inr y)
      then obtain a b where y: "perform_stream dig (fst x) (snd x) s = Inr (a, b)" by (cases y) simp
      with that True have "map_of (st_signals b) d = Some r" by (simp add: stream_step_def)
      with addsD [OF adds_call [OF True] y] show ?thesis .
    qed (use that True in \<open>simp add: stream_step_def\<close>)
  qed (use that in \<open>simp add: stream_step_def\<close>)
  with Cons.IH [of "snd (stream_step dig x s)"] Cons.prems show ?case by auto
qed simp

section \<open>Former owners\<close>

text \<open>The partition was granted under a later fence than that of a token.\<close>

definition usurped :: "shard \<Rightarrow> Monitor_Leases.lease \<Rightarrow> stream_store \<Rightarrow> bool" where
  "usurped p l s \<longleftrightarrow> (\<exists>l'. map_of (st_leases s) p = Some l' \<and> ls_fence l < ls_fence l')"

fun presents :: "stream_call \<Rightarrow> (shard \<times> Monitor_Leases.lease) option" where
  "presents (Change_Ownership p etag (Release_Shard l)) = Some (p, l)"
| "presents (Renew_Partition p l secs) = Some (p, l)"
| "presents (Ensure_Start p l n t) = Some (p, l)"
| "presents (Record_Batch b) = Some (ba_shard b, ba_lease b)"
| "presents (Record_Lost b) = Some (lo_shard (lb_receipt b), lb_lease b)"
| "presents (Advance_Checkpoint a) = Some (ad_shard a, ad_lease a)"
| "presents _ = None"

lemma usurped_grows:
  assumes "usurped p l s" "grows s s'"
  shows "usurped p l s'"
proof -
  from assms(1) obtain l' where l': "map_of (st_leases s) p = Some l'" "ls_fence l < ls_fence l'"
    unfolding usurped_def by blast
  from growsD(6) [OF assms(2) l'(1)] l'(2) show ?thesis
    unfolding usurped_def later_lease_def by force
qed

lemma usurped_other:
  assumes "stream_ok s" "usurped p l s" "Option.bind (map_of (st_ownership s) p) ow_lease = Some cur"
  shows "ls_fence cur \<noteq> ls_fence l"
  using assms by (auto simp: stream_ok_def leased_as_owned_def usurped_def bind_eq_Some_conv)

lemma usurped_not_owned:
  assumes "stream_ok s" "usurped p l s"
  shows "owned_shard v p l s \<noteq> Inr (u, s')"
  using usurped_other [OF assms] by (auto simp: owned_shard_def shard_ownership_def tx_simps split: option.splits if_splits)

lemma once_inert: "once dig op i c body s = Inr (r, s') \<Longrightarrow> (\<And>y s1. body s \<noteq> Inr (y, s1)) \<Longrightarrow> s' = s"
  by (auto simp: once_def tx_simps split: option.splits if_splits)

lemma usurped_inert:
  assumes ok: "stream_ok s" and u: "usurped p l s" and x: "presents x = Some (p, l)"
  shows "snd (stream_step dig (v, x) s) = s"
proof -
  note no = usurped_not_owned [OF ok u] and other = usurped_other [OF ok u]
  have "s' = s" if run: "perform_stream dig v x s = Inr (r, s')" for r s'
  proof (cases x)
    case (Change_Ownership q etag ch)
    with x have "ch = Release_Shard l" "q = p" by (cases ch; simp)+
    with run other Change_Ownership show ?thesis
      by (auto simp: as_reply_def change_ownership_def release_shard_def shard_ownership_def tx_simps split: if_splits option.splits)
  next
    case (Renew_Partition q l' secs)
    with run x other show ?thesis
      by (auto simp: as_reply_def renew_shard_def tx_simps split: if_splits option.splits)
  next
    case (Ensure_Start q l' n t)
    with run x no show ?thesis
      by (simp add: as_reply_def ensure_start_def bnd_ok ask_ok)
  next
    case (Record_Batch b)
    have "take_batch fp v b s \<noteq> Inr (y, s1)" for fp y s1
      using no x Record_Batch by (simp add: take_batch_def bnd_ok demand_ok)
    with run Record_Batch show ?thesis by (auto simp: record_batch_def dest: once_inert)
  next
    case (Record_Lost b)
    have "take_lost fp v b s \<noteq> Inr (y, s1)" for fp y s1
      using no x Record_Lost by (simp add: take_lost_def Let_def bnd_ok ask_ok)
    with run Record_Lost show ?thesis by (auto simp: record_lost_def dest: once_inert)
  next
    case (Advance_Checkpoint a)
    have "move_checkpoint v a s \<noteq> Inr (y, s1)" for y s1
      using no x Advance_Checkpoint by (simp add: move_checkpoint_def bnd_ok)
    with run Advance_Checkpoint show ?thesis by (auto simp: advance_checkpoint_def dest: once_inert)
  qed (use x in simp_all)
  then show ?thesis by (auto simp: stream_step_def split: sum.split)
qed

text \<open>A granted claim is the lease of the partition.\<close>

lemma claimed_lease_row:
  assumes "claimed_lease v p who secs q ls = Inr (Some l, ls')"
  shows "ls_owner l = who \<and> map_of ls' p = Some l"
  using assms renewed_later [of "rg_now v" p who _ secs ls l ls']
  by (auto simp: claimed_lease_def exchange_lease_def renew_lease_def Let_def split: option.splits if_splits sum.splits)

lemma claim_shard_row:
  assumes "claim_shard v p who secs q s = Inr (Some o', s')" "ow_lease o' = Some l"
  shows "ls_owner l = who \<and> map_of (st_leases s') p = Some l"
proof -
  from assms(1) obtain l1 ls where c: "claimed_lease v p who secs q (st_leases s) = Inr (Some l1, ls)"
    and w: "bnd (put_leases ls) (\<lambda>_. bnd (save_ownership v p (Some l1)) (\<lambda>o'. ret (Some o'))) s = Inr (Some o', s')"
    by (auto simp: claim_shard_def split: option.splits if_splits sum.splits prod.splits)
  from w assms(2) have "l1 = l" "st_leases s' = ls" by (auto simp: put_leases_def save_ownership_def Let_def tx_simps)
  with claimed_lease_row [OF c] show ?thesis by simp
qed

lemma claimed_partition:
  assumes "stream_ok s" "fst (stream_step dig (v, Claim_Partition p who secs) s) = Inr (Token_Reply (Some l))"
  shows "ls_owner l = who \<and> map_of (st_leases (snd (stream_step dig (v, Claim_Partition p who secs) s))) p = Some l"
proof -
  from assms(2) obtain s' where r: "claim_partition v p who secs s = Inr (Some l, s')"
    and s': "snd (stream_step dig (v, Claim_Partition p who secs) s) = s'"
    by (auto simp: stream_step_def as_reply_def tx_simps split: if_splits sum.splits)
  from r obtain q o' where "change_ownership v p q (Claim_Shard who secs) s = Inr (Some o', s')" "ow_lease o' = Some l"
    by (auto simp: claim_partition_def tx_simps bind_eq_Some_conv eq_commute [of "Some l"] split: if_splits)
  then have "\<exists>q. claim_shard v p who secs q s = Inr (Some o', s')"
    by (auto simp: change_ownership_def tx_simps split: if_splits)
  with claim_shard_row \<open>ow_lease o' = Some l\<close> s' show ?thesis by metis
qed

end
