(* ===== verification/Stream_Promises.thy ===== *)
theory Stream_Promises
  imports Stream_Facts
begin

text \<open>
  What stream intake promises over any history of calls from an empty store, with one sample
  history on which each promise is applied.
\<close>

section \<open>A sample history\<close>

definition sample_sharded :: shard where
  "sample_sharded = \<lparr>sh_connector = ''c1'', sh_group = ''g'', sh_partition = ''0''\<rparr>"

definition feed_target :: target where
  "feed_target = \<lparr>tg_workload = Fabric_Pipeline, tg_workspace = ''ws'', tg_item = ''p1''\<rparr>"

definition feed_source :: connector_source where
  "feed_source = \<lparr>cs_id = ''s1'', cs_target = feed_target, cs_events = [''Microsoft.Fabric.JobEvents.ItemJobFailed''],
     cs_event_source = Some ''tenant''\<rparr>"

definition feed_endpoint :: endpoint where
  "feed_endpoint = \<lparr>en_namespace = ''ns'', en_entity = ''hub'', en_group = ''g''\<rparr>"

definition feed_connector :: connector where
  "feed_connector =
     \<lparr>cn_id = ''c1'', cn_ownership = ''own'', cn_revision = 1, cn_policy = 1, cn_place = (''ws'', ''es'', ''de''), cn_sources = [feed_source],
      cn_removals = [], cn_endpoint = Some feed_endpoint, cn_definition = ''h'', cn_state = Conn_Ready\<rparr>"

definition feed_view :: "instant \<Rightarrow> registry" where
  "feed_view t =
     \<lparr>rg_now = t, rg_maintenance = False, rg_revision = 1, rg_connector = (\<lambda>i. if i = ''c1'' then Some feed_connector else None),
      rg_target = (\<lambda>x. x = feed_target), rg_action = (\<lambda>_. False), rg_desired = (\<lambda>_. None), rg_anchor = (\<lambda>_. None),
      rg_history = (\<lambda>_. Some []), rg_capability = (\<lambda>_. None)\<rparr>"

definition feed_at :: "int \<Rightarrow> broker_position" where
  "feed_at n = \<lparr>bp_offset = ''o'', bp_sequence = n, bp_enqueued = 0\<rparr>"

definition feed_delivery :: "string \<Rightarrow> delivery" where
  "feed_delivery i = \<lparr>dv_connector = ''c1'', dv_source = ''tenant'', dv_event = i\<rparr>"

definition feed_event :: "string \<Rightarrow> int \<Rightarrow> signal" where
  "feed_event i n =
     \<lparr>sg_delivery = feed_delivery i, sg_shard = sample_sharded, sg_position = feed_at n, sg_received = 2,
      sg_type = Some ''Microsoft.Fabric.JobEvents.ItemJobFailed'',
      sg_observation = Some \<lparr>ob_execution = \<lparr>ex_target = feed_target, ex_kind = Fabric_Job, ex_run_id = i\<rparr>, ob_authority = Transport,
        ob_observed_at = 2, ob_started = None, ob_ended = None, ob_status = Failed, ob_invocation = Scheduled, ob_job_type = ''Pipeline'',
        ob_truncated = False\<rparr>,
      sg_quarantine = None, sg_transport = None\<rparr>"

definition feed_lost :: lost_signal where
  "feed_lost = \<lparr>lo_shard = sample_sharded, lo_position = feed_at 6, lo_received = 2, lo_reason = Q_Malformed\<rparr>"

definition first_token :: "Monitor_Leases.lease" where
  "first_token = \<lparr>ls_owner = ''w1'', ls_fence = 1, ls_acquired = 0, ls_expires = seconds 60\<rparr>"

definition second_token :: "Monitor_Leases.lease" where
  "second_token = \<lparr>ls_owner = ''w2'', ls_fence = 2, ls_acquired = seconds 60, ls_expires = seconds 120\<rparr>"

definition feed_digest :: "stream_content \<Rightarrow> string" where
  "feed_digest c = (case c of Of_Batch b \<Rightarrow> ba_id b | Of_Lost b \<Rightarrow> lb_id b | Of_Advance a \<Rightarrow> ad_id a | Of_Beat h \<Rightarrow> be_worker h)"

definition feed_advance :: advance where
  "feed_advance = \<lparr>ad_id = ''a1'', ad_shard = sample_sharded, ad_lease = first_token, ad_revision = 0, ad_through = feed_at 6\<rparr>"

definition feed_history :: "(registry \<times> stream_call) list" where
  "feed_history =
     [(feed_view 0, Claim_Partition sample_sharded ''w1'' 60),
      (feed_view 1, Ensure_Start sample_sharded first_token 5 1),
      (feed_view 2, Record_Batch \<lparr>ba_id = ''b1'', ba_shard = sample_sharded, ba_lease = first_token, ba_receipts = [feed_event ''e1'' 5]\<rparr>),
      (feed_view 3, Record_Lost \<lparr>lb_id = ''b2'', lb_lease = first_token, lb_receipt = feed_lost\<rparr>),
      (feed_view 4, Advance_Checkpoint feed_advance)]"

abbreviation feed_run :: "(registry \<times> stream_call) list \<Rightarrow> stream_store" where
  "feed_run xs \<equiv> run (stream_step feed_digest) xs empty_stream"

lemma feed_claimed: "fst (stream_step feed_digest (feed_view 0, Claim_Partition sample_sharded ''w1'' 60) (feed_run [])) = Inr (Token_Reply (Some first_token))"
  by code_simp

lemma feed_taken_over:
  "fst (stream_step feed_digest (feed_view (seconds 60), Claim_Partition sample_sharded ''w2'' 60)
     (snd (stream_step feed_digest (feed_view 0, Claim_Partition sample_sharded ''w1'' 60) (feed_run [])))) = Inr (Token_Reply (Some second_token))"
  by code_simp

lemma feed_checkpoint: "map_of (st_checkpoints (feed_run feed_history)) sample_sharded = Some \<lparr>ck_position = feed_at 6, ck_revision = 1, ck_updated = 4\<rparr>"
  by code_simp

lemma feed_start: "map_of (st_starts (feed_run feed_history)) sample_sharded = Some \<lparr>ss_first = 5, ss_recorded = 1, ss_gaps = [Gap_Unobserved 5]\<rparr>"
  by code_simp

lemma feed_signal: "map_of (st_signals (feed_run feed_history)) (feed_delivery ''e1'') = Some (feed_event ''e1'' 5)"
  by code_simp

section \<open>Checkpoints\<close>

text \<open>
  C36. A checkpoint covers positions that are all on file: after any history, the start of the
  partition is pinned, and every sequence number from it to the checkpoint is bound to one
  position with a stored receipt, a signal under its delivery or quarantine evidence of the
  position itself.
\<close>

theorem checkpoint_leaves_no_gap:
  assumes "map_of (st_checkpoints (run (stream_step dig) xs empty_stream)) p = Some c"
  shows "\<exists>st. map_of (st_starts (run (stream_step dig) xs empty_stream)) p = Some st
    \<and> ss_first st \<le> bp_sequence (ck_position c)
    \<and> list_all (\<lambda>n. \<exists>at k. map_of (st_positions (run (stream_step dig) xs empty_stream)) (p, n) = Some (at, k)
         \<and> bp_sequence at = n
         \<and> (case k of Identified d \<Rightarrow> map_of (st_signals (run (stream_step dig) xs empty_stream)) d \<noteq> None
            | Unidentified \<Rightarrow> map_of (st_lost (run (stream_step dig) xs empty_stream)) (p, n) \<noteq> None))
        [ss_first st..bp_sequence (ck_position c)]"
proof -
  let ?s = "run (stream_step dig) xs empty_stream"
  have ok: "all_filed ?s" "all_covered ?s"
    using streams.inv_run [OF empty_stream_ok] by (simp_all add: stream_ok_def)
  from ok(2) assms obtain st where st: "map_of (st_starts ?s) p = Some st" "ss_first st \<le> bp_sequence (ck_position c)"
    and n: "\<And>n. ss_first st \<le> n \<Longrightarrow> n \<le> bp_sequence (ck_position c) \<Longrightarrow> map_of (st_positions ?s) (p, n) \<noteq> None"
    unfolding all_covered_def covers_def by blast
  have "\<exists>at k. map_of (st_positions ?s) (p, n) = Some (at, k) \<and> bp_sequence at = n
      \<and> (case k of Identified d \<Rightarrow> map_of (st_signals ?s) d \<noteq> None | Unidentified \<Rightarrow> map_of (st_lost ?s) (p, n) \<noteq> None)"
    if m: "ss_first st \<le> n" "n \<le> bp_sequence (ck_position c)" for n
  proof -
    from n [OF m] obtain at k where e: "map_of (st_positions ?s) (p, n) = Some (at, k)" by fastforce
    with ok(1) have "bound_to ?s (p, n) (at, k)" unfolding all_filed_def by blast
    with e show ?thesis unfolding bound_to_def by (intro exI conjI) auto
  qed
  with st show ?thesis by (auto simp: list_all_iff)
qed

theorem checkpoint_leaves_no_gap_witness:
  "\<exists>st. map_of (st_starts (feed_run feed_history)) sample_sharded = Some st
    \<and> ss_first st \<le> 6
    \<and> list_all (\<lambda>n. \<exists>at k. map_of (st_positions (feed_run feed_history)) (sample_sharded, n) = Some (at, k)
         \<and> bp_sequence at = n
         \<and> (case k of Identified d \<Rightarrow> map_of (st_signals (feed_run feed_history)) d \<noteq> None
            | Unidentified \<Rightarrow> map_of (st_lost (feed_run feed_history)) (sample_sharded, n) \<noteq> None))
        [ss_first st..6]"
  using checkpoint_leaves_no_gap [OF feed_checkpoint] by (simp add: feed_at_def)

text \<open>
  C39. What intake has on file stays: over any continuation of any history, bound positions,
  stored signals and quarantine evidence keep their values, the start of a partition keeps
  its first sequence number, and a checkpoint moves only forward, in position and revision
  together.
\<close>

theorem intake_is_write_once:
  "kept_in (st_positions (run (stream_step dig) xs empty_stream)) (st_positions (run (stream_step dig) (xs @ ys) empty_stream))
   \<and> kept_in (st_signals (run (stream_step dig) xs empty_stream)) (st_signals (run (stream_step dig) (xs @ ys) empty_stream))
   \<and> kept_in (st_lost (run (stream_step dig) xs empty_stream)) (st_lost (run (stream_step dig) (xs @ ys) empty_stream))
   \<and> moved_in later_start (st_starts (run (stream_step dig) xs empty_stream)) (st_starts (run (stream_step dig) (xs @ ys) empty_stream))
   \<and> moved_in later_checkpoint (st_checkpoints (run (stream_step dig) xs empty_stream))
        (st_checkpoints (run (stream_step dig) (xs @ ys) empty_stream))"
  using stream_run_grows [OF streams.inv_run [OF empty_stream_ok, of dig xs], of dig ys] by (simp add: run_append grows_def)

section \<open>Ownership\<close>



section \<open>Provenance\<close>

text \<open>
  C38. An accepted event on file was admitted by the registry of the call that took it: its
  connector was known, ready or degraded and not in maintenance, the event was of a source
  of that connector and of a type that source subscribes to, its target was a target of the
  registry or its execution one of the solution's own actions, no removal of that target
  was pending, and, where the removal of its source had been superseded, the capability and
  the delivery of the event were newer than the restoration.
\<close>

theorem accepted_events_were_admitted:
  assumes "map_of (st_signals (run (stream_step dig) xs empty_stream)) d = Some r" "taken r"
  shows "sg_delivery r = d \<and> (\<exists>v c src ob. v \<in> fst ` set xs
    \<and> rg_connector v (sh_connector (sg_shard r)) = Some c \<and> \<not> rg_maintenance v \<and> (cn_state c = Conn_Ready \<or> cn_state c = Conn_Degraded)
    \<and> sg_observation r = Some ob \<and> source_of (ex_target (ob_execution ob)) c = Some src
    \<and> cs_event_source src = Some (dv_source d) \<and> subscribed (sg_type r) src
    \<and> (rg_target v (ex_target (ob_execution ob)) \<or> rg_action v (ob_execution ob))
    \<and> \<not> list_ex (\<lambda>(_, u). u = ex_target (ob_execution ob)) (cn_removals c)
    \<and> restored_intake v c (ex_target (ob_execution ob)) r = None)"
proof -
  have "map_of (st_signals empty_stream) d \<noteq> Some r" by (simp add: empty_stream_def)
  with stored_was_admitted [OF assms(1)] assms(2) obtain v where d: "sg_delivery r = d" and v: "v \<in> fst ` set xs"
    and a: "let_in v (sh_connector (sg_shard r)) r" by blast
  show ?thesis
    by (rule conjI [OF d], rule exI [of _ v]) (use v a d in \<open>simp only: let_in_def simp_thms ex_simps\<close>)
qed

theorem accepted_events_were_admitted_witness:
  "sg_delivery (feed_event ''e1'' 5) = feed_delivery ''e1'' \<and> (\<exists>v c src ob. v \<in> fst ` set feed_history
    \<and> rg_connector v (sh_connector (sg_shard (feed_event ''e1'' 5))) = Some c \<and> \<not> rg_maintenance v \<and> (cn_state c = Conn_Ready \<or> cn_state c = Conn_Degraded)
    \<and> sg_observation (feed_event ''e1'' 5) = Some ob \<and> source_of (ex_target (ob_execution ob)) c = Some src
    \<and> cs_event_source src = Some (dv_source (feed_delivery ''e1'')) \<and> subscribed (sg_type (feed_event ''e1'' 5)) src
    \<and> (rg_target v (ex_target (ob_execution ob)) \<or> rg_action v (ob_execution ob))
    \<and> \<not> list_ex (\<lambda>(_, u). u = ex_target (ob_execution ob)) (cn_removals c)
    \<and> restored_intake v c (ex_target (ob_execution ob)) (feed_event ''e1'' 5) = None)"
  by (rule accepted_events_were_admitted [OF feed_signal]) (simp add: feed_event_def taken_def)

end
