(* ===== verification/Spec2Isabelle.thy ===== *)
theory Spec2Isabelle
  imports Agent_Runs Rate_Limit Monitor_Assurance Command_Worker Stream_Promises
begin

text \<open>
  Placeholder header.
\<close>

end
